(* ===== verification/Prelude.thy ===== *)
theory Prelude
  imports Complex_Main "HOL-Library.Word" "HOL-Library.Sublist"
begin

text \<open>
  The part of the JavaScript language and standard library that the modelled code uses, and the
  generic lemmas the components share.

  \<^item> A string is the list of its UTF-16 code units (\<^typ>\<open>16 word\<close>), so that
    \<open>length\<close>, \<open>slice\<close>, \<open>indexOf\<close> and \<open>startsWith\<close> count what the
    language counts. \<open>js ''abc''\<close> is the string literal \<open>'abc'\<close>.
  \<^item> A number is a rational (\<^typ>\<open>rat\<close>): rounding of IEEE doubles is idealised away, and a
    place where NaN can occur models it as a value of its own.
  \<^item> \<open>undefined\<close> and \<open>null\<close> are \<open>None\<close> of an option type; the operators
    \<open>??\<close> and \<open>||\<close> are written out as case distinctions.
  \<^item> A \<open>Map\<close> is an association list in insertion order (\<open>amap\<close> of \<open>JS_Collections\<close>), because the code
    iterates over maps and that order is observable.
\<close>

section \<open>Collections of rewrite rules\<close>

named_theorems js_eval \<open>definitions unfolded to evaluate the model at a concrete input\<close>
named_theorems frame \<open>what an operation leaves unchanged\<close>

section \<open>Strings\<close>

type_synonym jchar = "16 word"
type_synonym jstring = "jchar list"
type_synonym jnum = rat

definition js :: "string \<Rightarrow> jstring" where
  "js s = map of_char s"

lemma js_Nil [simp]: "js [] = []"
  by (simp add: js_def)

lemma js_eq_Nil_iff [simp]: "js s = [] \<longleftrightarrow> s = []"
  by (simp add: js_def)

lemma length_js [simp]: "length (js s) = length s"
  by (simp add: js_def)

lemma js_inject: "js s = js t \<longleftrightarrow> s = t"
proof -
  have unat_char: "unat (of_char c :: jchar) = of_char c" for c :: char
  proof -
    have "of_char c < (65536 :: nat)"
      using nat_of_char_less_256 [of c] by linarith
    then have "unat (of_nat (of_char c) :: jchar) = of_char c"
      by (simp add: unat_of_nat)
    then show ?thesis unfolding of_nat_of_char .
  qed
  have "(of_char c :: jchar) = of_char d \<longleftrightarrow> c = d" for c d :: char
    using unat_char by (metis of_char_eqI)
  then have "inj (of_char :: char \<Rightarrow> jchar)" by (simp add: inj_def)
  then show ?thesis by (simp add: js_def)
qed

declare js_def [js_eval]

text \<open>WhiteSpace and LineTerminator of ECMAScript: what \<open>trim\<close> removes and \<open>\s\<close> matches.\<close>

definition is_ws :: "jchar \<Rightarrow> bool" where
  "is_ws c \<longleftrightarrow> c \<in> {9, 10, 11, 12, 13, 32, 160, 5760, 8232, 8233, 8239, 8287, 12288, 65279}
     \<or> 8192 \<le> c \<and> c \<le> 8202"

definition is_digit :: "jchar \<Rightarrow> bool" where
  "is_digit c \<longleftrightarrow> 48 \<le> c \<and> c \<le> 57"

definition trim_start :: "jstring \<Rightarrow> jstring" where
  "trim_start s = dropWhile is_ws s"

definition trim_end :: "jstring \<Rightarrow> jstring" where
  "trim_end s = rev (dropWhile is_ws (rev s))"

definition trim :: "jstring \<Rightarrow> jstring" where
  "trim s = trim_end (trim_start s)"

declare is_ws_def [js_eval] is_digit_def [js_eval] trim_start_def [js_eval] trim_end_def [js_eval]
  trim_def [js_eval]

lemma trim_Nil [simp]: "trim [] = []"
  by (simp add: js_eval)

lemma trim_eq_Nil_iff: "trim s = [] \<longleftrightarrow> list_all is_ws s"
proof
  assume "trim s = []"
  then have "list_all is_ws (dropWhile is_ws s)"
    by (simp add: trim_def trim_end_def trim_start_def dropWhile_eq_Nil_conv list_all_iff)
  then have "list_all is_ws (takeWhile is_ws s @ dropWhile is_ws s)"
    unfolding list_all_append by (auto simp: list_all_iff dest: set_takeWhileD)
  then show "list_all is_ws s"
    by simp
next
  assume "list_all is_ws s"
  then have "dropWhile is_ws s = []"
    by (simp add: dropWhile_eq_Nil_conv list_all_iff)
  then show "trim s = []"
    unfolding trim_def trim_end_def trim_start_def by (simp only: rev.simps dropWhile.simps)
qed

lemma trim_fixed:
  assumes "s \<noteq> []" "\<not> is_ws (hd s)" "\<not> is_ws (last s)"
  shows "trim s = s"
proof -
  from assms(1,2) have "dropWhile is_ws s = s"
    by (cases s) auto
  moreover from assms(1,3) have "dropWhile is_ws (rev s) = rev s"
    by (cases s rule: rev_cases) auto
  ultimately show ?thesis
    by (simp add: trim_def trim_end_def trim_start_def)
qed

lemma trim_ends:
  assumes "trim s \<noteq> []"
  shows "\<not> is_ws (hd (trim s)) \<and> \<not> is_ws (last (trim s))"
proof -
  let ?d = "dropWhile is_ws s"
  let ?e = "dropWhile is_ws (rev ?d)"
  from assms have e: "?e \<noteq> []"
    by (simp add: trim_def trim_end_def trim_start_def)
  then have d: "?d \<noteq> []"
    by (metis dropWhile.simps(1) rev.simps(1))
  have last: "\<not> is_ws (hd ?e)"
    using e by (rule hd_dropWhile)
  have "rev ?d = takeWhile is_ws (rev ?d) @ ?e"
    by simp
  then have "?d = rev ?e @ rev (takeWhile is_ws (rev ?d))"
    by (metis rev_append rev_rev_ident)
  then have "hd ?d = hd (rev ?e)"
    using e by (metis hd_append2 rev_is_Nil_conv)
  moreover have "\<not> is_ws (hd ?d)"
    using d by (rule hd_dropWhile)
  ultimately show ?thesis
    using last e by (simp add: trim_def trim_end_def trim_start_def last_rev)
qed

lemma trim_trim [simp]: "trim (trim s) = trim s"
  by (cases "trim s = []") (simp_all add: trim_fixed trim_ends)

subsection \<open>Searching: \<open>indexOf\<close>, \<open>includes\<close>, \<open>startsWith\<close>\<close>

fun find_sub :: "'a list \<Rightarrow> 'a list \<Rightarrow> nat option" where
  "find_sub p [] = (if p = [] then Some 0 else None)"
| "find_sub p (x # xs) = (if prefix p (x # xs) then Some 0 else map_option Suc (find_sub p xs))"

text \<open>\<open>s.indexOf(p, from)\<close>; \<open>None\<close> is \<open>-1\<close>.\<close>

definition indexOf :: "'a list \<Rightarrow> 'a list \<Rightarrow> nat \<Rightarrow> nat option" where
  "indexOf s p from_pos = map_option ((+) from_pos) (find_sub p (drop from_pos s))"

definition str_includes :: "'a list \<Rightarrow> 'a list \<Rightarrow> bool" where
  "str_includes s p \<longleftrightarrow> find_sub p s \<noteq> None"

abbreviation startsWith :: "'a list \<Rightarrow> 'a list \<Rightarrow> bool" where
  "startsWith s p \<equiv> prefix p s"

abbreviation endsWith :: "'a list \<Rightarrow> 'a list \<Rightarrow> bool" where
  "endsWith s p \<equiv> suffix p s"

text \<open>\<open>s.slice(a, b)\<close> for offsets from the start.\<close>

definition jslice :: "'a list \<Rightarrow> nat \<Rightarrow> nat \<Rightarrow> 'a list" where
  "jslice s a b = take (b - a) (drop a s)"

declare indexOf_def [js_eval] str_includes_def [js_eval] jslice_def [js_eval]

lemma find_sub_Some:
  "find_sub p s = Some n \<Longrightarrow> \<exists>r. s = take n s @ p @ r \<and> length (take n s) = n"
proof (induction p s arbitrary: n rule: find_sub.induct)
  case (1 p)
  then show ?case by (auto split: if_splits)
next
  case (2 p x xs)
  show ?case
  proof (cases "prefix p (x # xs)")
    case True
    with "2.prems" show ?thesis by (auto simp: prefix_def)
  next
    case False
    with "2.prems" obtain m where m: "find_sub p xs = Some m" "n = Suc m"
      by auto
    from "2.IH" [OF False m(1)] m(2) show ?thesis by auto
  qed
qed

lemma find_sub_bound: "find_sub p s = Some n \<Longrightarrow> n + length p \<le> length s"
  by (drule find_sub_Some) (metis add_le_cancel_left le_add1 length_append)

lemma find_sub_None_iff: "find_sub p s = None \<longleftrightarrow> \<not> sublist p s"
proof (induction p s rule: find_sub.induct)
  case (1 p)
  then show ?case by auto
next
  case (2 p x xs)
  then show ?case by (auto simp: sublist_Cons_right)
qed

lemma str_includes_iff_sublist: "str_includes s p \<longleftrightarrow> sublist p s"
  by (simp add: str_includes_def find_sub_None_iff)

lemma find_sub_first:
  "find_sub p s = Some n \<Longrightarrow> p \<noteq> [] \<Longrightarrow> (\<exists>r. s = take n s @ p @ r) \<and> \<not> sublist p (take n s)"
proof (induction p s arbitrary: n rule: find_sub.induct)
  case (1 p)
  then show ?case by simp
next
  case (2 p x xs)
  show ?case
  proof (cases "prefix p (x # xs)")
    case True
    with "2.prems" show ?thesis by (auto simp: prefix_def)
  next
    case False
    with "2.prems" obtain m where m: "find_sub p xs = Some m" "n = Suc m"
      by auto
    have "prefix p (x # take m xs) \<Longrightarrow> prefix p (x # xs)"
      by (metis append_Cons append_take_drop_id prefix_prefix)
    with "2.IH" [OF False m(1) "2.prems"(2)] m(2) False show ?thesis
      by (auto simp: sublist_Cons_right)
  qed
qed

text \<open>
  A pattern whose first character does not occur again in it cannot overlap itself, so the first
  occurrence in \<open>u @ p @ r\<close> is at the end of \<open>u\<close> unless \<open>u\<close> has one already.
\<close>

lemma find_sub_append:
  assumes "p = c # q" "c \<notin> set q" "\<not> sublist p u"
  shows "find_sub p (u @ p @ r) = Some (length u)"
  using assms(3)
proof (induction u)
  case Nil
  then show ?case using assms(1) by (simp add: prefix_def)
next
  case (Cons x u)
  have "\<not> prefix p (x # u @ p @ r)"
  proof
    assume pre: "prefix p (x # u @ p @ r)"
    have "\<not> prefix p (x # u)"
      using Cons.prems by (auto simp: sublist_Cons_right)
    with pre have "length (x # u) < length p"
      using prefix_length_prefix [of p "x # u @ p @ r" "x # u"] by force
    moreover have "prefix (x # u) (x # u @ p @ r)"
      by simp
    ultimately have "prefix (x # u) p"
      using pre prefix_length_prefix by (metis less_imp_le)
    then obtain w where w: "p = x # u @ w"
      by (auto simp: prefix_def)
    from pre obtain z where "x # u @ p @ r = p @ z"
      by (auto simp: prefix_def)
    with w have "p @ r = w @ z"
      by simp
    with assms(1) have "prefix w (c # q @ r)"
      by (metis append_Cons prefixI)
    moreover from w \<open>length (x # u) < length p\<close> have "w \<noteq> []"
      by auto
    ultimately have "c \<in> set w"
      by (cases w) (auto simp: prefix_def)
    with w assms(1,2) show False
      by auto
  qed
  moreover have "\<not> sublist p u"
    using Cons.prems by (auto simp: sublist_Cons_right)
  ultimately show ?case
    using Cons.IH by simp
qed

subsection \<open>\<open>split\<close> and \<open>join\<close>\<close>

fun split_on :: "'a \<Rightarrow> 'a list \<Rightarrow> 'a list list" where
  "split_on c [] = [[]]"
| "split_on c (x # xs) =
     (if x = c then [] # split_on c xs
      else case split_on c xs of [] \<Rightarrow> [[x]] | w # ws \<Rightarrow> (x # w) # ws)"

fun join :: "'a list \<Rightarrow> 'a list list \<Rightarrow> 'a list" where
  "join sep [] = []"
| "join sep [w] = w"
| "join sep (w # ws) = w @ sep @ join sep ws"

lemma split_on_nonempty [simp]: "split_on c s \<noteq> []"
  by (induction s) (auto split: list.splits)

lemma split_on_no_sep: "w \<in> set (split_on c s) \<Longrightarrow> c \<notin> set w"
  by (induction s arbitrary: w) (auto split: list.splits if_splits)

lemma split_on_clean: "c \<notin> set w \<Longrightarrow> split_on c w = [w]"
  by (induction w) auto

lemma split_on_append: "c \<notin> set w \<Longrightarrow> split_on c (w @ c # s) = w # split_on c s"
  by (induction w) auto

lemma split_on_join:
  "ws \<noteq> [] \<Longrightarrow> list_all (\<lambda>w. c \<notin> set w) ws \<Longrightarrow> split_on c (join [c] ws) = ws"
proof (induction "[c]" ws rule: join.induct)
  case 1
  then show ?case by simp
next
  case (2 w)
  then show ?case by (simp add: split_on_clean)
next
  case (3 w v vs)
  then show ?case by (simp add: split_on_append)
qed

lemma join_split_on: "join [c] (split_on c s) = s"
proof (induction s)
  case Nil
  then show ?case by simp
next
  case (Cons x xs)
  obtain w ws where "split_on c xs = w # ws"
    by (meson neq_Nil_conv split_on_nonempty)
  with Cons show ?case by (cases ws) auto
qed

lemma join_empty_sep: "join [] ws = concat ws"
  by (induction "[] :: 'a list" ws rule: join.induct) auto

section \<open>Arrays\<close>

fun findIndex :: "('a \<Rightarrow> bool) \<Rightarrow> 'a list \<Rightarrow> nat option" where
  "findIndex P [] = None"
| "findIndex P (x # xs) = (if P x then Some 0 else map_option Suc (findIndex P xs))"

lemma findIndex_Some:
  "findIndex P xs = Some i \<Longrightarrow> i < length xs \<and> P (xs ! i) \<and> list_all (\<lambda>x. \<not> P x) (take i xs)"
  by (induction P xs arbitrary: i rule: findIndex.induct) (auto split: if_splits)

lemma findIndex_None_iff: "findIndex P xs = None \<longleftrightarrow> list_all (\<lambda>x. \<not> P x) xs"
  by (induction P xs rule: findIndex.induct) auto

text \<open>\<open>[...new Set(xs)]\<close>: the distinct elements in order of first occurrence.\<close>

fun dedup_acc :: "'a list \<Rightarrow> 'a list \<Rightarrow> 'a list" where
  "dedup_acc seen [] = []"
| "dedup_acc seen (x # xs) =
     (if x \<in> set seen then dedup_acc seen xs else x # dedup_acc (x # seen) xs)"

definition dedup :: "'a list \<Rightarrow> 'a list" where
  "dedup xs = dedup_acc [] xs"

lemma set_dedup_acc: "set (dedup_acc seen xs) = set xs - set seen"
  by (induction seen xs rule: dedup_acc.induct) auto

lemma distinct_dedup_acc: "distinct (dedup_acc seen xs)"
  by (induction seen xs rule: dedup_acc.induct) (auto simp: set_dedup_acc)

lemma dedup_acc_distinct:
  "distinct xs \<Longrightarrow> set xs \<inter> set seen = {} \<Longrightarrow> dedup_acc seen xs = xs"
  by (induction seen xs rule: dedup_acc.induct) auto

lemma set_dedup [simp]: "set (dedup xs) = set xs"
  by (simp add: dedup_def set_dedup_acc)

lemma distinct_dedup [simp]: "distinct (dedup xs)"
  by (simp add: dedup_def distinct_dedup_acc)

lemma dedup_distinct: "distinct xs \<Longrightarrow> dedup xs = xs"
  by (simp add: dedup_def dedup_acc_distinct)

lemma dedup_idem [simp]: "dedup (dedup xs) = dedup xs"
  by (simp add: dedup_distinct)

declare dedup_def [js_eval]

section \<open>Optional values\<close>

text \<open>\<open>a ?? b\<close> with \<open>b\<close> defined, \<open>a ?? b\<close> with \<open>b\<close> optional, and
  \<open>a || b\<close> on strings, where the empty string is falsy.\<close>

fun nullish :: "'a option \<Rightarrow> 'a \<Rightarrow> 'a" where
  "nullish (Some x) y = x"
| "nullish None y = y"

fun nullish_opt :: "'a option \<Rightarrow> 'a option \<Rightarrow> 'a option" where
  "nullish_opt (Some x) y = Some x"
| "nullish_opt None y = y"

definition or_str :: "jstring option \<Rightarrow> jstring \<Rightarrow> jstring" where
  "or_str a b = (case a of None \<Rightarrow> b | Some s \<Rightarrow> if s = [] then b else s)"

definition truthy_str :: "jstring option \<Rightarrow> jstring option" where
  "truthy_str a = (case a of None \<Rightarrow> None | Some s \<Rightarrow> if s = [] then None else Some s)"

declare or_str_def [js_eval] truthy_str_def [js_eval]

section \<open>Results that may be exceptions\<close>

text \<open>The left side of a sum is an exception that ends the computation.\<close>

fun bind_result :: "'e + 'a \<Rightarrow> ('a \<Rightarrow> 'e + 'b) \<Rightarrow> 'e + 'b" where
  "bind_result (Inl e) f = Inl e"
| "bind_result (Inr x) f = f x"

text \<open>\<open>xs.map(f)\<close> for a callback that may throw.\<close>

fun map_result :: "('a \<Rightarrow> 'e + 'b) \<Rightarrow> 'a list \<Rightarrow> 'e + 'b list" where
  "map_result f [] = Inr []"
| "map_result f (x # xs) = bind_result (f x) (\<lambda>y. map_sum id ((#) y) (map_result f xs))"

lemma bind_result_Inr_iff: "bind_result r f = Inr y \<longleftrightarrow> (\<exists>x. r = Inr x \<and> f x = Inr y)"
  by (cases r) auto

lemma bind_result_Inl_iff: "bind_result r f = Inl e \<longleftrightarrow> r = Inl e \<or> (\<exists>x. r = Inr x \<and> f x = Inl e)"
  by (cases r) auto

lemma map_sum_Inr_iff: "map_sum id f r = Inr y \<longleftrightarrow> (\<exists>x. r = Inr x \<and> y = f x)"
  by (cases r) auto

lemma map_result_Inr_iff: "map_result f xs = Inr ys \<longleftrightarrow> list_all2 (\<lambda>x y. f x = Inr y) xs ys"
  by (induction xs arbitrary: ys) (auto simp: bind_result_Inr_iff map_sum_Inr_iff list_all2_Cons1)

lemma map_result_fixed: "(\<And>x. x \<in> set xs \<Longrightarrow> f x = Inr x) \<Longrightarrow> map_result f xs = Inr xs"
  by (induction xs) auto

lemma map_result_total: "(\<And>x. x \<in> set xs \<Longrightarrow> \<exists>y. f x = Inr y) \<Longrightarrow> \<exists>ys. map_result f xs = Inr ys"
  by (induction xs) (auto, force)

section \<open>Event systems\<close>

text \<open>The states a system reaches from a set of initial states, and the contract of an invariant.\<close>

inductive reachable :: "('s \<Rightarrow> bool) \<Rightarrow> ('s \<Rightarrow> 'e \<Rightarrow> 's \<Rightarrow> bool) \<Rightarrow> 's \<Rightarrow> bool"
  for start :: "'s \<Rightarrow> bool" and step :: "'s \<Rightarrow> 'e \<Rightarrow> 's \<Rightarrow> bool" where
  reach_start: "start s \<Longrightarrow> reachable start step s"
| reach_step: "reachable start step s \<Longrightarrow> step s e s' \<Longrightarrow> reachable start step s'"

locale invariant_system =
  fixes start :: "'s \<Rightarrow> bool" and step :: "'s \<Rightarrow> 'e \<Rightarrow> 's \<Rightarrow> bool" and I :: "'s \<Rightarrow> bool"
  assumes start_inv: "start s \<Longrightarrow> I s"
    and step_inv: "step s e s' \<Longrightarrow> I s \<Longrightarrow> I s'"
begin

lemma reachable_inv: "reachable start step s \<Longrightarrow> I s"
  by (induction rule: reachable.induct) (auto intro: start_inv step_inv)

end

end
