(* ===== verification/Think_Tags.thy ===== *)
theory Think_Tags
  imports Prelude
begin

text \<open>
  \<open>features/playground/lib/message/message-reasoning-utils.ts\<close>: \<open>parseThinkTags\<close>
  separates the reasoning between \<open><think>\<close> and \<open></think>\<close> from the visible text, with
  a last tag that may still be open while the answer streams in. The loop of the source works on
  positions; \<open>think_spec\<close> is the same separation on the text itself, and
  \<open>think_loop_spec\<close> shows that the loop computes it.
\<close>

record ParsedThinkTags =
  pt_visibleContent :: jstring
  pt_reasoning :: jstring
  pt_hasUnclosedTag :: bool

definition open_tag :: jstring where
  "open_tag = js ''<think>''"

definition close_tag :: jstring where
  "close_tag = js ''</think>''"

text \<open>
  The \<open>while (true)\<close> loop: \<open>pos\<close> is \<open>currentPos\<close>, \<open>vis\<close> and \<open>rea\<close>
  are \<open>visibleParts\<close> and \<open>reasoningParts\<close>.
\<close>

lemma indexOf_bound: "indexOf s p n = Some k \<Longrightarrow> p \<noteq> [] \<Longrightarrow> n \<le> k \<and> k + length p \<le> length s"
  by (cases p) (auto simp: indexOf_def dest!: find_sub_bound)

function think_loop :: "jstring \<Rightarrow> nat \<Rightarrow> jstring list \<Rightarrow> jstring list \<Rightarrow> jstring list \<times> jstring list \<times> bool" where
  "think_loop content pos vis rea =
     (case indexOf content open_tag pos of
        None \<Rightarrow> (if pos < length content then vis @ [drop pos content] else vis, rea, False)
      | Some openPos \<Rightarrow>
          (let vis' = (if openPos > pos then vis @ [jslice content pos openPos] else vis) in
           case indexOf content close_tag (openPos + 7) of
             None \<Rightarrow> (vis', rea @ [drop (openPos + 7) content], True)
           | Some closePos \<Rightarrow>
               think_loop content (closePos + 8) vis' (rea @ [jslice content (openPos + 7) closePos])))"
  by pat_completeness auto
termination
  by (relation "measure (\<lambda>(content, pos, _). length content - pos)")
    (auto simp: open_tag_def close_tag_def dest!: indexOf_bound)

declare think_loop.simps [simp del]

definition parseThinkTags :: "jstring \<Rightarrow> ParsedThinkTags" where
  "parseThinkTags content =
     (if \<not> str_includes content open_tag then
        \<lparr>pt_visibleContent = content, pt_reasoning = [], pt_hasUnclosedTag = False\<rparr>
      else (let (vis, rea, unclosed) = think_loop content 0 [] [] in
        \<lparr>pt_visibleContent = trim (join [] vis), pt_reasoning = trim (join [10, 10] rea),
         pt_hasUnclosedTag = unclosed\<rparr>))"

section \<open>The separation on the text\<close>

text \<open>
  \<open>think_spec s\<close> splits off the text before the first opening tag, the text up to the matching
  closing tag, and continues behind it.
\<close>

function think_spec :: "jstring \<Rightarrow> jstring list \<times> jstring list \<times> bool" where
  "think_spec s =
     (case find_sub open_tag s of
        None \<Rightarrow> (if s = [] then [] else [s], [], False)
      | Some n \<Rightarrow>
          (let before = (if n = 0 then [] else [take n s]); body = drop (n + 7) s in
           case find_sub close_tag body of
             None \<Rightarrow> (before, [body], True)
           | Some m \<Rightarrow>
               (let (vis, rea, u) = think_spec (drop (m + 8) body)
                in (before @ vis, take m body # rea, u))))"
  by pat_completeness auto
termination
  by (relation "measure length") (auto simp: open_tag_def close_tag_def dest!: find_sub_bound)

declare think_spec.simps [simp del]

lemma length_tags [simp]: "length open_tag = 7" "length close_tag = 8"
  by (simp_all add: open_tag_def close_tag_def)

lemma think_loop_spec:
  assumes "pos \<le> length content"
  shows "think_loop content pos vis rea =
    (let (v, r, u) = think_spec (drop pos content) in (vis @ v, rea @ r, u))"
  using assms
proof (induction content pos vis rea rule: think_loop.induct)
  case (1 content pos vis rea)
  show ?case
  proof (cases "find_sub open_tag (drop pos content)")
    case None
    then show ?thesis
      by (simp add: think_loop.simps [of content] think_spec.simps [of "drop pos content"] indexOf_def)
  next
    case op: (Some n)
    let ?s = "drop pos content"
    have open_at: "indexOf content open_tag pos = Some (pos + n)"
      using op by (simp add: indexOf_def)
    have body: "drop (pos + n + 7) content = drop (n + 7) ?s"
      by (simp add: ac_simps)
    have before: "jslice content pos (pos + n) = take n ?s"
      by (simp add: jslice_def)
    show ?thesis
    proof (cases "find_sub close_tag (drop (n + 7) ?s)")
      case None
      then have "indexOf content close_tag (pos + n + 7) = None"
        by (simp add: indexOf_def body)
      with None op open_at before body show ?thesis
        by (simp add: think_loop.simps [of content] think_spec.simps [of ?s])
    next
      case cl: (Some m)
      have close_at: "indexOf content close_tag (pos + n + 7) = Some (pos + n + 7 + m)"
        using cl by (simp add: indexOf_def body)
      have bound: "pos + n + 7 + m + 8 \<le> length content"
        using find_sub_bound [OF cl] find_sub_bound [OF op] "1.prems" by simp
      have rest: "drop (pos + n + 7 + m + 8) content = drop (m + 8) (drop (n + 7) ?s)"
        by (simp add: ac_simps)
      have thought: "jslice content (pos + n + 7) (pos + n + 7 + m) = take m (drop (n + 7) ?s)"
        by (simp add: jslice_def ac_simps)
      obtain v r u where sp: "think_spec (drop (m + 8) (drop (n + 7) ?s)) = (v, r, u)"
        by (metis prod_cases3)
      let ?vis = "if pos + n > pos then vis @ [jslice content pos (pos + n)] else vis"
      have "think_loop content pos vis rea =
          think_loop content (pos + n + 7 + m + 8) ?vis (rea @ [take m (drop (n + 7) ?s)])"
        by (subst think_loop.simps) (simp only: open_at close_at option.case Let_def thought)
      also have "\<dots> = (?vis @ v, rea @ take m (drop (n + 7) ?s) # r, u)"
        using "1.IH" [OF open_at refl close_at bound]
        by (simp only: rest thought sp Let_def prod.case append_assoc append_Cons append_Nil)
      finally have loop: "think_loop content pos vis rea = \<dots>" .
      have "think_spec ?s = ((if n = 0 then [] else [take n ?s]) @ v, take m (drop (n + 7) ?s) # r, u)"
        by (subst think_spec.simps) (simp only: op cl sp option.case Let_def prod.case)
      then show ?thesis
        unfolding loop by (simp add: before del: drop_drop)
    qed
  qed
qed

lemma parseThinkTags_spec:
  "parseThinkTags s = (if \<not> sublist open_tag s then
       \<lparr>pt_visibleContent = s, pt_reasoning = [], pt_hasUnclosedTag = False\<rparr>
     else (let (vis, rea, u) = think_spec s in
       \<lparr>pt_visibleContent = trim (concat vis), pt_reasoning = trim (join [10, 10] rea),
        pt_hasUnclosedTag = u\<rparr>))"
  by (simp add: parseThinkTags_def str_includes_iff_sublist think_loop_spec join_empty_sep
      split: prod.splits)

section \<open>Rendering and parsing back\<close>

text \<open>
  A well-formed answer: pieces of visible text, each followed by a closed thought, then a visible
  rest. \<open>render_think\<close> writes it with tags.
\<close>

fun render_think :: "(jstring \<times> jstring) list \<Rightarrow> jstring \<Rightarrow> jstring" where
  "render_think [] rest = rest"
| "render_think ((v, t) # ps) rest = v @ open_tag @ t @ close_tag @ render_think ps rest"

lemma find_open: "\<not> sublist open_tag u \<Longrightarrow> find_sub open_tag (u @ open_tag @ r) = Some (length u)"
  by (rule find_sub_append [where c = 60 and q = "tl open_tag"]) (simp_all add: open_tag_def js_eval)

lemma find_close: "\<not> sublist close_tag u \<Longrightarrow> find_sub close_tag (u @ close_tag @ r) = Some (length u)"
  by (rule find_sub_append [where c = 60 and q = "tl close_tag"]) (simp_all add: close_tag_def js_eval)

lemma think_spec_closed:
  assumes "\<not> sublist open_tag v" "\<not> sublist close_tag t"
  shows "think_spec (v @ open_tag @ t @ close_tag @ s) =
    (let (vis, rea, u) = think_spec s in ((if v = [] then [] else [v]) @ vis, t # rea, u))"
  using assms
  by (simp add: think_spec.simps [of "v @ open_tag @ t @ close_tag @ s"] find_open find_close
      split: prod.splits)

lemma think_spec_open:
  assumes "\<not> sublist open_tag v" "\<not> sublist close_tag t"
  shows "think_spec (v @ open_tag @ t) = (if v = [] then [] else [v], [t], True)"
proof -
  have "find_sub close_tag t = None"
    using assms(2) by (simp add: find_sub_None_iff)
  with assms(1) show ?thesis
    by (simp add: think_spec.simps [of "v @ open_tag @ t"] find_open)
qed

lemma think_spec_text: "\<not> sublist open_tag s \<Longrightarrow> think_spec s = (if s = [] then [] else [s], [], False)"
  by (simp add: think_spec.simps [of s] find_sub_None_iff [THEN iffD2])

lemma think_spec_render:
  assumes "list_all (\<lambda>(v, t). \<not> sublist open_tag v \<and> \<not> sublist close_tag t) ps"
    and "think_spec rest = (vis, rea, u)"
  shows "\<exists>vis'. think_spec (render_think ps rest) = (vis', map snd ps @ rea, u)
    \<and> concat vis' = concat (map fst ps) @ concat vis"
  using assms(1)
proof (induction ps)
  case Nil
  then show ?case using assms(2) by simp
next
  case (Cons p ps)
  obtain v t where p: "p = (v, t)" by fastforce
  from Cons obtain vis' where
    "think_spec (render_think ps rest) = (vis', map snd ps @ rea, u)"
    "concat vis' = concat (map fst ps) @ concat vis"
    by auto
  with Cons.prems p show ?case
    by (simp add: think_spec_closed)
qed

lemma sublist_render_think: "ps \<noteq> [] \<Longrightarrow> sublist open_tag (render_think ps rest)"
  by (cases ps) (auto simp: sublist_append_rightI sublist_appendI)

lemma drop_append_prefix:
  "s = u @ p @ r \<Longrightarrow> length u = n \<Longrightarrow> length p = k \<Longrightarrow> drop (n + k) s = r"
  by (metis append_assoc append_eq_conv_conj length_append)

text \<open>Every text is such a rendering, with a rest that is plain or ends in an open thought.\<close>

lemma think_decompose:
  "\<exists>ps v. list_all (\<lambda>(v, t). \<not> sublist open_tag v \<and> \<not> sublist close_tag t) ps \<and> \<not> sublist open_tag v \<and>
     (s = render_think ps v \<or> (\<exists>t. \<not> sublist close_tag t \<and> s = render_think ps (v @ open_tag @ t)))"
proof (induction s rule: think_spec.induct)
  case (1 s)
  show ?case
  proof (cases "find_sub open_tag s")
    case None
    then show ?thesis
      by (intro exI [of _ "[]"] exI [of _ s]) (simp add: find_sub_None_iff)
  next
    case op: (Some n)
    from find_sub_first [OF op] obtain r where
      s: "s = take n s @ open_tag @ r" and v: "\<not> sublist open_tag (take n s)"
      by (auto simp: open_tag_def)
    from s have "length (take n s) = n"
      using find_sub_bound [OF op] by simp
    with s have r: "drop (n + 7) s = r"
      by (metis drop_append_prefix length_tags(1))
    show ?thesis
    proof (cases "find_sub close_tag r")
      case None
      with s v show ?thesis
        by (intro exI [of _ "[]"] exI [of _ "take n s"]) (auto simp: find_sub_None_iff)
    next
      case cl: (Some m)
      from find_sub_first [OF cl] obtain r' where
        r': "r = take m r @ close_tag @ r'" and t: "\<not> sublist close_tag (take m r)"
        by (auto simp: close_tag_def)
      from r' have "length (take m r) = m"
        using find_sub_bound [OF cl] by simp
      with r' have "drop (m + 8) r = r'"
        by (metis drop_append_prefix length_tags(2))
      with "1.IH" [OF op refl refl] cl r obtain ps w where
        ps: "list_all (\<lambda>(v, t). \<not> sublist open_tag v \<and> \<not> sublist close_tag t) ps" "\<not> sublist open_tag w"
        "r' = render_think ps w \<or> (\<exists>t. \<not> sublist close_tag t \<and> r' = render_think ps (w @ open_tag @ t))"
        by auto
      let ?ps = "(take n s, take m r) # ps"
      have "s = take n s @ open_tag @ take m r @ close_tag @ r'"
        using s r' by metis
      then have "s = render_think ?ps w \<or> (\<exists>t. \<not> sublist close_tag t \<and> s = render_think ?ps (w @ open_tag @ t))"
        using ps(3) by auto
      with ps(1,2) v t show ?thesis
        by (intro exI [of _ ?ps] exI [of _ w]) auto
    qed
  qed
qed

section \<open>Properties\<close>

text \<open>
  C22. For every text, \<open>parseThinkTags\<close> loses nothing but tags. A text with an opening tag is a sequence of visible
  pieces and closed thoughts followed by a visible rest, possibly with one last thought that is still open; the
  visible content is the visible pieces in order, the reasoning is the thoughts in order (the open one last),
  separated by blank lines, both trimmed; and \<open>hasUnclosedTag\<close> says exactly whether the last thought is open. A text
  without an opening tag is visible as it is, not trimmed, even if it has closing tags.
\<close>

theorem parseThinkTags_complete:
  "if sublist open_tag s
   then \<exists>ps v. list_all (\<lambda>(v, t). \<not> sublist open_tag v \<and> \<not> sublist close_tag t) ps \<and> \<not> sublist open_tag v \<and>
     (s = render_think ps v \<and>
        parseThinkTags s = \<lparr>pt_visibleContent = trim (concat (map fst ps) @ v),
          pt_reasoning = trim (join [10, 10] (map snd ps)), pt_hasUnclosedTag = False\<rparr>
      \<or> (\<exists>t. \<not> sublist close_tag t \<and> s = render_think ps (v @ open_tag @ t) \<and>
        parseThinkTags s = \<lparr>pt_visibleContent = trim (concat (map fst ps) @ v),
          pt_reasoning = trim (join [10, 10] (map snd ps @ [t])), pt_hasUnclosedTag = True\<rparr>))
   else parseThinkTags s = \<lparr>pt_visibleContent = s, pt_reasoning = [], pt_hasUnclosedTag = False\<rparr>"
    (is "if ?tag then ?parts else ?plain")
proof (cases "sublist open_tag s")
  case True
  obtain ps v where clean: "list_all (\<lambda>(v, t). \<not> sublist open_tag v \<and> \<not> sublist close_tag t) ps"
    and v: "\<not> sublist open_tag v"
    and s: "s = render_think ps v \<or> (\<exists>t. \<not> sublist close_tag t \<and> s = render_think ps (v @ open_tag @ t))"
    using think_decompose by blast
  from s show ?thesis unfolding if_P [OF True]
  proof
    assume s: "s = render_think ps v"
    from think_spec_render [OF clean think_spec_text [OF v]] obtain vis where
      "think_spec s = (vis, map snd ps, False)" "concat vis = concat (map fst ps) @ v"
      by (auto simp: s)
    with True s clean v show ?parts
      by (intro exI [of _ ps] exI [of _ v] conjI disjI1) (simp_all add: parseThinkTags_spec)
  next
    assume "\<exists>t. \<not> sublist close_tag t \<and> s = render_think ps (v @ open_tag @ t)"
    then obtain t where t: "\<not> sublist close_tag t" and s: "s = render_think ps (v @ open_tag @ t)"
      by blast
    from think_spec_render [OF clean think_spec_open [OF v t]] obtain vis where
      "think_spec s = (vis, map snd ps @ [t], True)" "concat vis = concat (map fst ps) @ v"
      by (auto simp: s)
    with True s clean v t show ?parts
      by (intro exI [of _ ps] exI [of _ v] conjI disjI2 exI [of _ t]) (simp_all add: parseThinkTags_spec)
  qed
next
  case False
  then show ?thesis
    by (simp add: parseThinkTags_def str_includes_iff_sublist)
qed

text \<open>The text \<open>'a<think>b'\<close> has an opening tag, so the decomposition applies to it.\<close>

theorem parseThinkTags_complete_witness:
  "\<exists>ps v. list_all (\<lambda>(v, t). \<not> sublist open_tag v \<and> \<not> sublist close_tag t) ps \<and> \<not> sublist open_tag v \<and>
     (js ''a<think>b'' = render_think ps v \<or> (\<exists>t. js ''a<think>b'' = render_think ps (v @ open_tag @ t)))"
proof -
  have "sublist open_tag (js ''a<think>b'')"
    by (simp add: str_includes_iff_sublist [symmetric] open_tag_def js_eval)
  with parseThinkTags_complete [of "js ''a<think>b''"] show ?thesis
    by auto
qed

text \<open>
  Round trip: an answer written as visible pieces and closed thoughts is taken apart into exactly
  these pieces, whatever characters they consist of, as long as a piece does not itself contain the
  tag that would end it.
\<close>

theorem parseThinkTags_render:
  assumes "ps \<noteq> []" "list_all (\<lambda>(v, t). \<not> sublist open_tag v \<and> \<not> sublist close_tag t) ps"
    and "\<not> sublist open_tag rest"
  shows "parseThinkTags (render_think ps rest) =
    \<lparr>pt_visibleContent = trim (concat (map fst ps) @ rest),
     pt_reasoning = trim (join [10, 10] (map snd ps)), pt_hasUnclosedTag = False\<rparr>"
  using think_spec_render [OF assms(2) think_spec_text [OF assms(3)]]
  by (auto simp: parseThinkTags_spec sublist_render_think [OF assms(1)])

theorem parseThinkTags_render_witness:
  "parseThinkTags (js ''Hi <think>one</think>there<think>two</think>!'') =
    \<lparr>pt_visibleContent = js ''Hi there!'', pt_reasoning = js ''one'' @ [10, 10] @ js ''two'',
     pt_hasUnclosedTag = False\<rparr>"
proof -
  let ?ps = "[(js ''Hi '', js ''one''), (js ''there'', js ''two'')]"
  have "list_all (\<lambda>(v, t). \<not> sublist open_tag v \<and> \<not> sublist close_tag t) ?ps" "\<not> sublist open_tag (js ''!'')"
    by (simp_all add: open_tag_def close_tag_def js_eval find_sub_None_iff [symmetric])
  from parseThinkTags_render [OF _ this] show ?thesis
    by (simp add: open_tag_def close_tag_def js_eval)
qed

end
