(* ===== verification/Playground_Types.thy ===== *)
theory Playground_Types
  imports Prelude
begin

text \<open>
  The data of the playground: \<open>features/playground/types.ts\<close> and
  \<open>features/playground/constants.ts\<close>. An optional property \<open>x?: T\<close> is a field of
  type \<open>T option\<close>, \<open>None\<close> being \<open>undefined\<close>; the field prefixes (\<open>m_\<close>,
  \<open>v_\<close>, \<open>r_\<close>, \<dots>) keep the records apart.
\<close>

section \<open>Messages\<close>

datatype MessageRole = User | Assistant | System

datatype MessageStatus = Loading | Streaming | Complete | Error

record MessageVersion =
  v_id :: jstring
  v_content :: jstring

record Reasoning =
  r_content :: jstring
  r_duration :: jnum
  r_startedAt :: "jnum option"
  r_completedAt :: "jnum option"
  r_durationMs :: "jnum option"

record Source =
  s_href :: jstring
  s_title :: jstring

record Message =
  m_key :: jstring
  m_from :: MessageRole
  m_versions :: "MessageVersion list"
  m_createdAt :: "jnum option"
  m_startedAt :: "jnum option"
  m_completedAt :: "jnum option"
  m_durationMs :: "jnum option"
  m_sources :: "Source list option"
  m_reasoning :: "Reasoning option"
  m_isReasoningStreaming :: "bool option"
  m_isReasoningComplete :: "bool option"
  m_isContentComplete :: "bool option"
  m_status :: "MessageStatus option"
  m_errorCode :: "jstring option option"

text \<open>\<open>m_errorCode\<close>: \<open>None\<close> is \<open>undefined\<close>, \<open>Some None\<close> is \<open>null\<close>.\<close>

section \<open>Requests and responses\<close>

datatype ContentPartType = Text | ImageUrl

record ContentPart =
  cp_type :: ContentPartType
  cp_text :: "jstring option"
  cp_image_url :: "jstring option"

datatype MessageContent = PlainContent jstring | PartsContent "ContentPart list"

record ChatCompletionMessage =
  cm_role :: MessageRole
  cm_content :: MessageContent

record ChatCompletionRequest =
  q_model :: jstring
  q_group :: "jstring option"
  q_messages :: "ChatCompletionMessage list"
  q_stream :: bool
  q_temperature :: "jnum option"
  q_top_p :: "jnum option"
  q_max_tokens :: "jnum option"
  q_frequency_penalty :: "jnum option"
  q_presence_penalty :: "jnum option"
  q_seed :: "jnum option"

text \<open>The fields of a response choice that the code reads.\<close>

record ChatCompletionChoice =
  c_content :: "jstring option"
  c_reasoning_content :: "jstring option"

record ChatCompletionResponse =
  resp_choices :: "ChatCompletionChoice list option"

section \<open>Configuration\<close>

record PlaygroundConfig =
  pc_model :: jstring
  pc_group :: jstring
  pc_temperature :: jnum
  pc_top_p :: jnum
  pc_max_tokens :: jnum
  pc_frequency_penalty :: jnum
  pc_presence_penalty :: jnum
  pc_seed :: "jnum option"
  pc_stream :: bool

record ParameterEnabled =
  pe_temperature :: bool
  pe_top_p :: bool
  pe_max_tokens :: bool
  pe_frequency_penalty :: bool
  pe_presence_penalty :: bool
  pe_seed :: bool

record ModelOption =
  mo_label :: jstring
  mo_value :: jstring

record GroupOption =
  go_label :: jstring
  go_value :: jstring
  go_ratio :: jnum
  go_desc :: "jstring option"

definition DEFAULT_GROUP :: jstring where
  "DEFAULT_GROUP = js ''default''"

definition DEFAULT_CONFIG :: PlaygroundConfig where
  "DEFAULT_CONFIG = \<lparr>pc_model = js ''gpt-4o'', pc_group = DEFAULT_GROUP, pc_temperature = 7 / 10,
     pc_top_p = 1, pc_max_tokens = 4096, pc_frequency_penalty = 0, pc_presence_penalty = 0,
     pc_seed = None, pc_stream = True\<rparr>"

definition DEFAULT_PARAMETER_ENABLED :: ParameterEnabled where
  "DEFAULT_PARAMETER_ENABLED = \<lparr>pe_temperature = True, pe_top_p = True, pe_max_tokens = False,
     pe_frequency_penalty = True, pe_presence_penalty = True, pe_seed = False\<rparr>"

section \<open>Error messages\<close>

definition API_REQUEST_ERROR :: jstring where
  "API_REQUEST_ERROR = js ''Request error occurred''"

definition NETWORK_ERROR :: jstring where
  "NETWORK_ERROR = js ''Network connection failed or server not responding''"

definition PARSE_ERROR :: jstring where
  "PARSE_ERROR = js ''Error parsing response data''"

definition STREAM_START_ERROR :: jstring where
  "STREAM_START_ERROR = js ''Error establishing connection''"

definition CONNECTION_CLOSED :: jstring where
  "CONNECTION_CLOSED = js ''Connection closed''"

definition INTERRUPTED :: jstring where
  "INTERRUPTED = js ''Generation was interrupted''"

definition ERROR_MESSAGES :: "jstring list" where
  "ERROR_MESSAGES = [API_REQUEST_ERROR, NETWORK_ERROR, PARSE_ERROR, STREAM_START_ERROR,
     CONNECTION_CLOSED, INTERRUPTED]"

lemmas error_message_defs [js_eval] =
  API_REQUEST_ERROR_def NETWORK_ERROR_def PARSE_ERROR_def STREAM_START_ERROR_def
  CONNECTION_CLOSED_def INTERRUPTED_def

end
