(* ===== verification/Messages.thy ===== *)
theory Messages
  imports Playground_Types Think_Tags
begin

text \<open>
  Operations on single messages: \<open>features/playground/lib/message/\<close> with
  \<open>message-utils.ts\<close>, \<open>message-timing-utils.ts\<close>, \<open>message-update-utils.ts\<close>,
  \<open>message-error-utils.ts\<close>, \<open>message-action-utils.ts\<close>, \<open>message-editor-utils.ts\<close>,
  \<open>message-layout-utils.ts\<close> and \<open>message-content-utils.ts\<close>. A call of \<open>nanoid()\<close>
  is an argument for the fresh identifier it returns, a call of \<open>Date.now()\<close> an argument for
  the time it returns.

  The locale \<open>message_updater\<close> is the contract of the functions that the chat code passes to
  \<open>updateLastAssistantMessage\<close>: they keep the identity, the role and the versions' non-emptiness.
\<close>

section \<open>\<open>message-utils.ts\<close>\<close>

definition createMessageVersion :: "jstring \<Rightarrow> jstring \<Rightarrow> MessageVersion" where
  "createMessageVersion nid content = \<lparr>v_id = nid, v_content = content\<rparr>"

definition getCurrentVersion :: "Message \<Rightarrow> MessageVersion" where
  "getCurrentVersion m = (case m_versions m of
     [] \<Rightarrow> \<lparr>v_id = js ''default'', v_content = []\<rparr>
   | v # _ \<Rightarrow> v)"

definition getMessageContent :: "Message \<Rightarrow> jstring" where
  "getMessageContent m = v_content (getCurrentVersion m)"

definition hasMessageContent :: "Message \<Rightarrow> bool" where
  "hasMessageContent m \<longleftrightarrow> trim (getMessageContent m) \<noteq> []"

definition updateCurrentVersionContent :: "Message \<Rightarrow> jstring \<Rightarrow> Message" where
  "updateCurrentVersionContent m content =
     m\<lparr>m_versions := [(getCurrentVersion m)\<lparr>v_content := content\<rparr>]\<rparr>"

definition createUserMessage :: "jstring \<Rightarrow> jstring \<Rightarrow> jstring \<Rightarrow> jnum \<Rightarrow> Message" where
  "createUserMessage kid vid content createdAt =
     \<lparr>m_key = kid, m_from = User, m_versions = [createMessageVersion vid content],
      m_createdAt = Some createdAt, m_startedAt = None, m_completedAt = None, m_durationMs = None,
      m_sources = None, m_reasoning = None, m_isReasoningStreaming = None,
      m_isReasoningComplete = None, m_isContentComplete = None, m_status = None,
      m_errorCode = None\<rparr>"

definition createLoadingAssistantMessage :: "jstring \<Rightarrow> jstring \<Rightarrow> jnum \<Rightarrow> Message" where
  "createLoadingAssistantMessage kid vid startedAt =
     \<lparr>m_key = kid, m_from = Assistant, m_versions = [createMessageVersion vid []],
      m_createdAt = Some startedAt, m_startedAt = Some startedAt, m_completedAt = None,
      m_durationMs = None, m_sources = None, m_reasoning = None,
      m_isReasoningStreaming = Some False, m_isReasoningComplete = Some False,
      m_isContentComplete = Some False, m_status = Some Loading, m_errorCode = None\<rparr>"

definition buildMessageContent :: "jstring \<Rightarrow> jstring list \<Rightarrow> MessageContent" where
  "buildMessageContent txt imageUrls =
     (let validImages = filter (\<lambda>url. trim url \<noteq> []) imageUrls in
      if validImages = [] then PlainContent txt
      else PartsContent (\<lparr>cp_type = Text, cp_text = Some txt, cp_image_url = None\<rparr> #
        map (\<lambda>url. \<lparr>cp_type = ImageUrl, cp_text = None, cp_image_url = Some (trim url)\<rparr>) validImages))"

fun getTextContent :: "MessageContent \<Rightarrow> jstring" where
  "getTextContent (PlainContent s) = s"
| "getTextContent (PartsContent parts) =
     (case find (\<lambda>part. cp_type part = Text) parts of
        None \<Rightarrow> []
      | Some part \<Rightarrow> or_str (cp_text part) [])"

definition formatMessageForAPI :: "Message \<Rightarrow> ChatCompletionMessage" where
  "formatMessageForAPI m =
     \<lparr>cm_role = m_from m, cm_content = PlainContent (v_content (getCurrentVersion m))\<rparr>"

definition isValidMessage :: "Message \<Rightarrow> bool" where
  "isValidMessage m =
     (if m_versions m = [] then False
      else if m_from m = Assistant \<and> \<not> hasMessageContent m then False
      else True)"

lemmas message_defs [js_eval] =
  createMessageVersion_def getCurrentVersion_def getMessageContent_def hasMessageContent_def
  updateCurrentVersionContent_def createUserMessage_def createLoadingAssistantMessage_def
  formatMessageForAPI_def isValidMessage_def

lemma updateCurrentVersionContent_frame [simp, frame]:
  "m_key (updateCurrentVersionContent m c) = m_key m"
  "m_from (updateCurrentVersionContent m c) = m_from m"
  "m_status (updateCurrentVersionContent m c) = m_status m"
  "m_reasoning (updateCurrentVersionContent m c) = m_reasoning m"
  "m_createdAt (updateCurrentVersionContent m c) = m_createdAt m"
  "m_startedAt (updateCurrentVersionContent m c) = m_startedAt m"
  "m_isReasoningStreaming (updateCurrentVersionContent m c) = m_isReasoningStreaming m"
  "getMessageContent (updateCurrentVersionContent m c) = c"
  "m_versions (updateCurrentVersionContent m c) \<noteq> []"
  by (simp_all add: js_eval)

lemma getMessageContent_upd [simp]:
  "getMessageContent (m\<lparr>m_status := st\<rparr>) = getMessageContent m"
  "getMessageContent (m\<lparr>m_reasoning := r\<rparr>) = getMessageContent m"
  "getMessageContent (m\<lparr>m_isReasoningStreaming := b\<rparr>) = getMessageContent m"
  "getMessageContent (m\<lparr>m_errorCode := e\<rparr>) = getMessageContent m"
  "getMessageContent (m\<lparr>m_startedAt := t\<rparr>) = getMessageContent m"
  "getMessageContent (m\<lparr>m_completedAt := t\<rparr>) = getMessageContent m"
  "getMessageContent (m\<lparr>m_durationMs := t\<rparr>) = getMessageContent m"
  by (simp_all add: getMessageContent_def getCurrentVersion_def)

section \<open>\<open>message-timing-utils.ts\<close>\<close>

definition completeAssistantTiming :: "Message \<Rightarrow> jnum \<Rightarrow> Message" where
  "completeAssistantTiming m completedAt =
     (if m_from m \<noteq> Assistant then m
      else (let startedAt = nullish (m_startedAt m) (nullish (m_createdAt m) completedAt) in
        m\<lparr>m_startedAt := Some startedAt, m_completedAt := Some completedAt,
          m_durationMs := Some (max 0 (completedAt - startedAt))\<rparr>))"

definition startReasoningTiming :: "Message \<Rightarrow> jnum \<Rightarrow> Reasoning" where
  "startReasoningTiming m startedAt = (case m_reasoning m of
     None \<Rightarrow> \<lparr>r_content = [], r_duration = 0, r_startedAt = Some startedAt, r_completedAt = None,
               r_durationMs = None\<rparr>
   | Some r \<Rightarrow> \<lparr>r_content = r_content r, r_duration = r_duration r,
               r_startedAt = Some (nullish (r_startedAt r) startedAt),
               r_completedAt = r_completedAt r, r_durationMs = r_durationMs r\<rparr>)"

definition completeReasoningTiming :: "Message \<Rightarrow> jnum \<Rightarrow> Message" where
  "completeReasoningTiming m completedAt = (case m_reasoning m of
     None \<Rightarrow> m
   | Some r \<Rightarrow>
       if r_durationMs r \<noteq> None then m
       else (let startedAt = nullish (r_startedAt r) (nullish (m_startedAt m) completedAt);
                 durationMs = max 0 (completedAt - startedAt) in
         m\<lparr>m_reasoning := Some (r\<lparr>r_startedAt := Some startedAt, r_completedAt := Some completedAt,
             r_durationMs := Some durationMs, r_duration := of_int \<lceil>durationMs / 1000\<rceil>\<rparr>)\<rparr>))"

lemmas timing_defs [js_eval] =
  completeAssistantTiming_def startReasoningTiming_def completeReasoningTiming_def

lemma completeAssistantTiming_frame [simp, frame]:
  "m_key (completeAssistantTiming m t) = m_key m"
  "m_from (completeAssistantTiming m t) = m_from m"
  "m_versions (completeAssistantTiming m t) = m_versions m"
  "m_status (completeAssistantTiming m t) = m_status m"
  "m_reasoning (completeAssistantTiming m t) = m_reasoning m"
  "m_isReasoningStreaming (completeAssistantTiming m t) = m_isReasoningStreaming m"
  "m_errorCode (completeAssistantTiming m t) = m_errorCode m"
  "getMessageContent (completeAssistantTiming m t) = getMessageContent m"
  by (simp_all add: completeAssistantTiming_def Let_def)

lemma completeReasoningTiming_frame [simp, frame]:
  "m_key (completeReasoningTiming m t) = m_key m"
  "m_from (completeReasoningTiming m t) = m_from m"
  "m_versions (completeReasoningTiming m t) = m_versions m"
  "m_status (completeReasoningTiming m t) = m_status m"
  "m_createdAt (completeReasoningTiming m t) = m_createdAt m"
  "m_startedAt (completeReasoningTiming m t) = m_startedAt m"
  "m_isReasoningStreaming (completeReasoningTiming m t) = m_isReasoningStreaming m"
  "getMessageContent (completeReasoningTiming m t) = getMessageContent m"
  "map_option r_content (m_reasoning (completeReasoningTiming m t)) = map_option r_content (m_reasoning m)"
  by (simp_all add: completeReasoningTiming_def Let_def split: option.splits)

lemma startReasoningTiming_content [simp]:
  "r_content (startReasoningTiming m t) = (case m_reasoning m of None \<Rightarrow> [] | Some r \<Rightarrow> r_content r)"
  by (simp add: startReasoningTiming_def split: option.splits)

section \<open>\<open>message-update-utils.ts\<close>\<close>

definition updateLastAssistantMessage :: "Message list \<Rightarrow> (Message \<Rightarrow> Message) \<Rightarrow> Message list" where
  "updateLastAssistantMessage ms updater =
     (if ms = [] then ms
      else if m_from (last ms) \<noteq> Assistant then ms
      else butlast ms @ [updater (last ms)])"

definition markError :: "jstring \<Rightarrow> jstring option \<Rightarrow> jstring \<Rightarrow> jnum \<Rightarrow> Message \<Rightarrow> Message" where
  "markError errorMessage errorCode title now m =
     completeAssistantTiming
       ((updateCurrentVersionContent m (title @ js '': '' @ errorMessage))
          \<lparr>m_status := Some Error, m_isReasoningStreaming := Some False,
           m_errorCode := Some (truthy_str errorCode)\<rparr>) now"

definition updateAssistantMessageWithError ::
    "Message list \<Rightarrow> jstring \<Rightarrow> jstring option \<Rightarrow> jstring \<Rightarrow> jnum \<Rightarrow> Message list" where
  "updateAssistantMessageWithError ms errorMessage errorCode title now =
     updateLastAssistantMessage ms (markError errorMessage errorCode title now)"

lemmas update_defs [js_eval] = updateLastAssistantMessage_def updateAssistantMessageWithError_def
  markError_def

subsection \<open>The contract of an updater\<close>

locale message_updater =
  fixes f :: "Message \<Rightarrow> Message"
  assumes key_kept: "m_key (f m) = m_key m"
    and role_kept: "m_from (f m) = m_from m"
    and versions_kept: "m_versions m \<noteq> [] \<Longrightarrow> m_versions (f m) \<noteq> []"
begin

lemma upd_length: "length (updateLastAssistantMessage ms f) = length ms"
  by (simp add: updateLastAssistantMessage_def)

lemma upd_keys: "map m_key (updateLastAssistantMessage ms f) = map m_key ms"
  by (cases ms rule: rev_cases) (simp_all add: updateLastAssistantMessage_def key_kept)

lemma upd_roles: "map m_from (updateLastAssistantMessage ms f) = map m_from ms"
  by (cases ms rule: rev_cases) (simp_all add: updateLastAssistantMessage_def role_kept)

lemma upd_versions:
  "list_all (\<lambda>m. m_versions m \<noteq> []) ms \<Longrightarrow>
    list_all (\<lambda>m. m_versions m \<noteq> []) (updateLastAssistantMessage ms f)"
  by (cases ms rule: rev_cases) (simp_all add: updateLastAssistantMessage_def versions_kept)

end

lemma updateLast_butlast [simp]: "butlast (updateLastAssistantMessage ms f) = butlast ms"
  by (simp add: updateLastAssistantMessage_def)

lemma updateLast_Nil_iff [simp]: "updateLastAssistantMessage ms f = [] \<longleftrightarrow> ms = []"
  by (simp add: updateLastAssistantMessage_def)

lemma updateLast_last:
  "ms \<noteq> [] \<Longrightarrow> last (updateLastAssistantMessage ms f) =
     (if m_from (last ms) = Assistant then f (last ms) else last ms)"
  by (simp add: updateLastAssistantMessage_def)

interpretation mark_error: message_updater "markError errorMessage errorCode title now"
  by unfold_locales (simp_all add: markError_def)

section \<open>\<open>message-error-utils.ts\<close>\<close>

definition MODEL_PRICE_ERROR_CODE :: jstring where
  "MODEL_PRICE_ERROR_CODE = js ''model_price_error''"

definition FALLBACK_ERROR_CONTENT :: jstring where
  "FALLBACK_ERROR_CONTENT = js ''An unknown error occurred''"

datatype ErrorKind = Generic | ModelPrice

record MessageErrorState =
  es_content :: jstring
  es_kind :: ErrorKind
  es_showSettingsLink :: bool

definition isAdminRole :: "jnum option \<Rightarrow> bool" where
  "isAdminRole role = (case role of None \<Rightarrow> False | Some r \<Rightarrow> r \<ge> 10)"

definition isErrorMessage :: "Message \<Rightarrow> bool" where
  "isErrorMessage m \<longleftrightarrow> m_status m = Some Error"

definition getMessageErrorState :: "Message \<Rightarrow> bool \<Rightarrow> MessageErrorState option" where
  "getMessageErrorState m isAdmin =
     (if \<not> isErrorMessage m then None
      else (let content = or_str (Some (getMessageContent m)) FALLBACK_ERROR_CONTENT;
                isModelPriceError = (m_errorCode m = Some (Some MODEL_PRICE_ERROR_CODE)) in
        Some \<lparr>es_content = content, es_kind = (if isModelPriceError then ModelPrice else Generic),
              es_showSettingsLink = (isModelPriceError \<and> isAdmin)\<rparr>))"

section \<open>\<open>message-action-utils.ts\<close>, \<open>message-editor-utils.ts\<close>, \<open>message-layout-utils.ts\<close>\<close>

record MessageActionState =
  as_content :: jstring
  as_hasContent :: bool
  as_isAssistant :: bool
  as_isLoading :: bool
  as_isUser :: bool

definition getMessageActionState :: "Message \<Rightarrow> MessageActionState" where
  "getMessageActionState m =
     \<lparr>as_content = getMessageContent m, as_hasContent = hasMessageContent m,
      as_isAssistant = (m_from m = Assistant),
      as_isLoading = (m_status m = Some Loading \<or> m_status m = Some Streaming),
      as_isUser = (m_from m = User)\<rparr>"

record MessageEditorState =
  ed_canSave :: bool
  ed_hasChanged :: bool
  ed_showSaveAndSubmit :: bool

definition getMessageEditorState :: "Message \<Rightarrow> jstring \<Rightarrow> jstring \<Rightarrow> MessageEditorState" where
  "getMessageEditorState m editText originalText =
     (let hasText = (length (trim editText) > 0); hasChanged = (editText \<noteq> originalText) in
      \<lparr>ed_canSave = (hasText \<and> hasChanged), ed_hasChanged = hasChanged,
       ed_showSaveAndSubmit = (m_from m = User)\<rparr>)"

datatype LayoutMode = Alternating | LeftMode

datatype MessageAlignment = AlignLeft | AlignRight

definition getMessageAlignment :: "Message \<Rightarrow> LayoutMode \<Rightarrow> MessageAlignment" where
  "getMessageAlignment m layoutMode =
     (if layoutMode = LeftMode then AlignLeft
      else if m_from m = User then AlignRight else AlignLeft)"

section \<open>\<open>message-content-utils.ts\<close>\<close>

record MessageContentState =
  cs_displayContent :: jstring
  cs_hasSources :: bool
  cs_isAssistant :: bool
  cs_showLoader :: bool
  cs_showMessageContent :: bool
  cs_sources :: "Source list"
  cs_hasReasoning :: bool
  cs_reasoningContent :: "jstring option"

definition shouldShowMessageLoader :: "Message \<Rightarrow> bool \<Rightarrow> jstring \<Rightarrow> bool" where
  "shouldShowMessageLoader m isAssistant versionContent \<longleftrightarrow>
     isAssistant \<and> m_isReasoningStreaming m \<noteq> Some True \<and>
     (m_status m = Some Loading \<or> m_status m = Some Streaming \<and> versionContent = [])"

definition shouldShowMessageContent :: "Message \<Rightarrow> jstring \<Rightarrow> bool" where
  "shouldShowMessageContent m versionContent \<longleftrightarrow>
     (m_from m = User \<or> m_isReasoningStreaming m \<noteq> Some True) \<and> length versionContent > 0"

definition getDisplayContent :: "Message \<Rightarrow> jstring \<Rightarrow> jstring" where
  "getDisplayContent m versionContent =
     (if m_from m \<noteq> Assistant then versionContent
      else if \<not> str_includes versionContent open_tag then versionContent
      else pt_visibleContent (parseThinkTags versionContent))"

definition getMessageContentState :: "Message \<Rightarrow> jstring \<Rightarrow> MessageContentState" where
  "getMessageContentState m versionContent =
     (let isAssistant = (m_from m = Assistant);
          sources = nullish (m_sources m) [];
          reasoningContent = (if isAssistant then map_option r_content (m_reasoning m) else None);
          showLoader = shouldShowMessageLoader m isAssistant versionContent;
          showMessageContent = shouldShowMessageContent m versionContent in
      \<lparr>cs_displayContent = getDisplayContent m versionContent, cs_hasSources = (length sources > 0),
       cs_isAssistant = isAssistant, cs_showLoader = showLoader,
       cs_showMessageContent = showMessageContent, cs_sources = sources,
       cs_hasReasoning = (truthy_str reasoningContent \<noteq> None),
       cs_reasoningContent = truthy_str reasoningContent\<rparr>)"

end
