(* ===== verification/Streaming_Messages.thy ===== *)
theory Streaming_Messages
  imports Messages
begin

text \<open>
  \<open>features/playground/lib/message/message-streaming-utils.ts\<close>: how an assistant message grows
  while chunks arrive, how it is finalized, and how messages left unfinished in storage are
  repaired. The arguments \<open>t1\<close>, \<open>t2\<close>, \<open>t3\<close> are the results of the successive calls of
  \<open>Date.now()\<close>, \<open>tr\<close> is the translation function of i18next.
\<close>

datatype StreamChunkType = ReasoningChunk | ContentChunk

section \<open>Streaming\<close>

definition processStreamingContent :: "jnum \<Rightarrow> Message \<Rightarrow> jstring option \<Rightarrow> Message" where
  "processStreamingContent t1 m contentChunk =
     (let currentVersion = getCurrentVersion m;
          fullContent = (case truthy_str contentChunk of
            Some c \<Rightarrow> v_content currentVersion @ c
          | None \<Rightarrow> v_content currentVersion) in
      if m_reasoning m = None \<and> \<not> str_includes fullContent open_tag then
        (updateCurrentVersionContent m fullContent)\<lparr>m_isReasoningStreaming := Some False\<rparr>
      else
        (let parsed = parseThinkTags fullContent;
             finalReasoning = (if pt_reasoning parsed \<noteq> []
               then Some ((startReasoningTiming m t1)\<lparr>r_content := pt_reasoning parsed\<rparr>)
               else m_reasoning m) in
         (updateCurrentVersionContent m fullContent)
           \<lparr>m_reasoning := finalReasoning, m_isReasoningStreaming := Some (pt_hasUnclosedTag parsed)\<rparr>))"

definition getAppendableChunk :: "jstring \<Rightarrow> jstring \<Rightarrow> jstring" where
  "getAppendableChunk currentContent chunk =
     (if currentContent = [] \<or> \<not> startsWith chunk currentContent then chunk
      else drop (length currentContent) chunk)"

definition applyStreamingChunk ::
    "jnum \<Rightarrow> jnum \<Rightarrow> Message \<Rightarrow> StreamChunkType \<Rightarrow> jstring \<Rightarrow> Message" where
  "applyStreamingChunk t1 t2 m ty chunk =
     (if m_status m = Some Error then m
      else if ty = ReasoningChunk then
        (let reasoning = startReasoningTiming m t1;
             appendableChunk = getAppendableChunk (r_content reasoning) chunk in
         m\<lparr>m_reasoning := Some (reasoning\<lparr>r_content := r_content reasoning @ appendableChunk\<rparr>),
           m_isReasoningStreaming := Some True, m_status := Some Streaming\<rparr>)
      else
        (let currentVersion = getCurrentVersion m;
             appendableChunk = getAppendableChunk (v_content currentVersion) chunk;
             contentMessage = processStreamingContent t1 m (Some appendableChunk) in
         (if m_isReasoningStreaming contentMessage = Some True then contentMessage
          else completeReasoningTiming contentMessage t2)\<lparr>m_status := Some Streaming\<rparr>))"

section \<open>Finalizing\<close>

definition finalizeMessage :: "jnum \<Rightarrow> jnum \<Rightarrow> Message \<Rightarrow> jstring option \<Rightarrow> Message" where
  "finalizeMessage t1 t2 m apiReasoningContent =
     (let currentVersion = getCurrentVersion m;
          parsedThinkTags = (if str_includes (v_content currentVersion) open_tag
            then Some (parseThinkTags (v_content currentVersion)) else None);
          visibleContent = nullish (map_option pt_visibleContent parsedThinkTags) (v_content currentVersion);
          finalReasoning = or_str apiReasoningContent
            (or_str (map_option r_content (m_reasoning m))
              (or_str (map_option pt_reasoning parsedThinkTags) []));
          finalized = (updateCurrentVersionContent m visibleContent)
            \<lparr>m_reasoning := (if finalReasoning \<noteq> []
                then Some ((startReasoningTiming m t1)\<lparr>r_content := finalReasoning\<rparr>) else None),
             m_isReasoningStreaming := Some False\<rparr> in
      completeReasoningTiming finalized t2)"

definition completeAssistantMessage :: "jnum \<Rightarrow> jnum \<Rightarrow> jnum \<Rightarrow> Message \<Rightarrow> Message" where
  "completeAssistantMessage t1 t2 t3 m =
     completeAssistantTiming ((finalizeMessage t1 t2 m None)\<lparr>m_status := Some Complete\<rparr>) t3"

definition isAssistantMessageFinal :: "Message \<Rightarrow> bool" where
  "isAssistantMessageFinal m \<longleftrightarrow> m_status m = Some Complete \<or> m_status m = Some Error"

definition isAssistantMessagePending :: "Message \<Rightarrow> bool" where
  "isAssistantMessagePending m \<longleftrightarrow> m_status m = Some Loading \<or> m_status m = Some Streaming"

definition isPendingAssistantMessage :: "Message option \<Rightarrow> bool" where
  "isPendingAssistantMessage mo = (case mo of
     None \<Rightarrow> False
   | Some m \<Rightarrow> m_from m = Assistant \<and> isAssistantMessagePending m)"

section \<open>Non-streaming responses\<close>

definition firstChoice :: "ChatCompletionResponse \<Rightarrow> ChatCompletionChoice option" where
  "firstChoice response = (case resp_choices response of
     None \<Rightarrow> None
   | Some [] \<Rightarrow> None
   | Some (c # _) \<Rightarrow> Some c)"

definition hasChatCompletionChoice :: "ChatCompletionResponse \<Rightarrow> bool" where
  "hasChatCompletionChoice response \<longleftrightarrow> firstChoice response \<noteq> None"

definition applyChatCompletionChoice ::
    "jnum \<Rightarrow> jnum \<Rightarrow> jnum \<Rightarrow> Message \<Rightarrow> ChatCompletionChoice \<Rightarrow> Message" where
  "applyChatCompletionChoice t1 t2 t3 m choice =
     completeAssistantTiming
       ((finalizeMessage t1 t2 (updateCurrentVersionContent m (or_str (c_content choice) []))
           (c_reasoning_content choice))\<lparr>m_status := Some Complete\<rparr>) t3"

definition applyChatCompletionResponse ::
    "jnum \<Rightarrow> jnum \<Rightarrow> jnum \<Rightarrow> Message \<Rightarrow> ChatCompletionResponse \<Rightarrow> Message option" where
  "applyChatCompletionResponse t1 t2 t3 m response = (case firstChoice response of
     None \<Rightarrow> None
   | Some choice \<Rightarrow> Some (applyChatCompletionChoice t1 t2 t3 m choice))"

section \<open>Repairing stored messages\<close>

text \<open>The loop \<open>for (let i = n - 1; i >= 0; i--)\<close> that looks for a pending message.\<close>

primrec lastPendingIndex :: "Message list \<Rightarrow> nat \<Rightarrow> nat option" where
  "lastPendingIndex ms 0 = None"
| "lastPendingIndex ms (Suc i) =
     (if isPendingAssistantMessage (Some (ms ! i)) then Some i else lastPendingIndex ms i)"

text \<open>What replaces it (the constants \<open>finalized\<close> to \<open>sanitized\<close> of the source).\<close>

definition sanitizedMessage :: "(jstring \<Rightarrow> jstring) \<Rightarrow> jnum \<Rightarrow> jnum \<Rightarrow> jnum \<Rightarrow> Message \<Rightarrow> Message" where
  "sanitizedMessage tr t1 t2 t3 m =
     (let finalized = finalizeMessage t1 t2 m None;
          hasContent = hasMessageContent finalized;
          hasReasoning = (case m_reasoning finalized of
            None \<Rightarrow> False | Some r \<Rightarrow> trim (r_content r) \<noteq> []) in
      if hasContent \<or> hasReasoning
      then completeAssistantTiming
        (finalized\<lparr>m_status := Some Complete, m_isReasoningStreaming := Some False\<rparr>) t3
      else completeAssistantTiming
        ((updateCurrentVersionContent finalized
            (tr API_REQUEST_ERROR @ js '': '' @ tr INTERRUPTED))
           \<lparr>m_status := Some Error, m_isReasoningStreaming := Some False\<rparr>) t3)"

definition sanitizeMessagesOnLoad ::
    "(jstring \<Rightarrow> jstring) \<Rightarrow> jnum \<Rightarrow> jnum \<Rightarrow> jnum \<Rightarrow> Message list \<Rightarrow> Message list" where
  "sanitizeMessagesOnLoad tr t1 t2 t3 ms = (case lastPendingIndex ms (length ms) of
     None \<Rightarrow> ms
   | Some targetIndex \<Rightarrow> ms[targetIndex := sanitizedMessage tr t1 t2 t3 (ms ! targetIndex)])"

lemmas streaming_defs [js_eval] =
  processStreamingContent_def getAppendableChunk_def applyStreamingChunk_def finalizeMessage_def
  completeAssistantMessage_def isAssistantMessageFinal_def isAssistantMessagePending_def
  isPendingAssistantMessage_def parseThinkTags_def open_tag_def close_tag_def

section \<open>Frame lemmas\<close>

lemma processStreamingContent_frame [simp, frame]:
  "m_key (processStreamingContent t m c) = m_key m"
  "m_from (processStreamingContent t m c) = m_from m"
  "m_status (processStreamingContent t m c) = m_status m"
  "m_versions (processStreamingContent t m c) \<noteq> []"
  "getMessageContent (processStreamingContent t m c) =
     getMessageContent m @ (case c of None \<Rightarrow> [] | Some s \<Rightarrow> s)"
  by (simp_all add: processStreamingContent_def Let_def truthy_str_def
      getMessageContent_def [symmetric] split: option.splits)

lemma applyStreamingChunk_frame [simp, frame]:
  "m_key (applyStreamingChunk t1 t2 m ty c) = m_key m"
  "m_from (applyStreamingChunk t1 t2 m ty c) = m_from m"
  "m_status (applyStreamingChunk t1 t2 m ty c) =
     (if m_status m = Some Error then Some Error else Some Streaming)"
  "m_versions m \<noteq> [] \<Longrightarrow> m_versions (applyStreamingChunk t1 t2 m ty c) \<noteq> []"
  by (simp_all add: applyStreamingChunk_def Let_def)

lemma finalizeMessage_frame [simp, frame]:
  "m_key (finalizeMessage t1 t2 m a) = m_key m"
  "m_from (finalizeMessage t1 t2 m a) = m_from m"
  "m_versions (finalizeMessage t1 t2 m a) \<noteq> []"
  "m_isReasoningStreaming (finalizeMessage t1 t2 m a) = Some False"
  by (simp_all add: finalizeMessage_def Let_def)

lemma getMessageContent_finalizeMessage:
  "getMessageContent (finalizeMessage t1 t2 m a) = pt_visibleContent (parseThinkTags (getMessageContent m))"
  by (simp add: finalizeMessage_def parseThinkTags_def Let_def getMessageContent_def [symmetric])

lemma reasoning_finalizeMessage:
  "map_option r_content (m_reasoning (finalizeMessage t1 t2 m a)) =
     truthy_str (Some (or_str a (or_str (map_option r_content (m_reasoning m))
       (pt_reasoning (parseThinkTags (getMessageContent m))))))"
  by (simp add: finalizeMessage_def parseThinkTags_def or_str_def truthy_str_def Let_def
      getMessageContent_def [symmetric] split: option.splits)

lemma completeAssistantMessage_frame [simp, frame]:
  "m_key (completeAssistantMessage t1 t2 t3 m) = m_key m"
  "m_from (completeAssistantMessage t1 t2 t3 m) = m_from m"
  "m_versions (completeAssistantMessage t1 t2 t3 m) \<noteq> []"
  "m_status (completeAssistantMessage t1 t2 t3 m) = Some Complete"
  "getMessageContent (completeAssistantMessage t1 t2 t3 m) =
     getMessageContent (finalizeMessage t1 t2 m None)"
  "m_reasoning (completeAssistantMessage t1 t2 t3 m) = m_reasoning (finalizeMessage t1 t2 m None)"
  by (simp_all add: completeAssistantMessage_def)

lemma applyChatCompletionChoice_frame [simp, frame]:
  "m_key (applyChatCompletionChoice t1 t2 t3 m c) = m_key m"
  "m_from (applyChatCompletionChoice t1 t2 t3 m c) = m_from m"
  "m_versions (applyChatCompletionChoice t1 t2 t3 m c) \<noteq> []"
  "m_status (applyChatCompletionChoice t1 t2 t3 m c) = Some Complete"
  by (simp_all add: applyChatCompletionChoice_def)

interpretation stream_chunk: message_updater "\<lambda>m. applyStreamingChunk t1 t2 m ty chunk"
  by unfold_locales simp_all

interpretation complete_message: message_updater "completeAssistantMessage t1 t2 t3"
  by unfold_locales simp_all

interpretation completion_choice: message_updater "\<lambda>m. applyChatCompletionChoice t1 t2 t3 m choice"
  by unfold_locales simp_all

section \<open>What a sequence of chunks produces\<close>

text \<open>The chunks of one kind applied one after the other, each with its own clock readings.\<close>

definition streamChunks :: "StreamChunkType \<Rightarrow> Message \<Rightarrow> (jnum \<times> jnum \<times> jstring) list \<Rightarrow> Message" where
  "streamChunks ty m cs = foldl (\<lambda>m (t1, t2, c). applyStreamingChunk t1 t2 m ty c) m cs"

text \<open>The text a chunk kind writes to.\<close>

definition streamText :: "StreamChunkType \<Rightarrow> Message \<Rightarrow> jstring" where
  "streamText ty m = (case ty of
     ContentChunk \<Rightarrow> getMessageContent m
   | ReasoningChunk \<Rightarrow> (case m_reasoning m of None \<Rightarrow> [] | Some r \<Rightarrow> r_content r))"

lemma streamText_applyStreamingChunk:
  "m_status m \<noteq> Some Error \<Longrightarrow>
    streamText ty (applyStreamingChunk t1 t2 m ty c) = streamText ty m @ getAppendableChunk (streamText ty m) c"
  by (cases ty) (simp_all add: streamText_def applyStreamingChunk_def Let_def
      getMessageContent_def [symmetric])

lemma reasoning_content_chunk:
  assumes "m_status m \<noteq> Some Error"
    and "raw = getMessageContent m @ getAppendableChunk (getMessageContent m) c"
  shows "map_option r_content (m_reasoning (applyStreamingChunk t1 t2 m ContentChunk c)) =
    (if pt_reasoning (parseThinkTags raw) \<noteq> [] then Some (pt_reasoning (parseThinkTags raw))
     else map_option r_content (m_reasoning m))"
proof -
  let ?p = "processStreamingContent t1 m (Some (getAppendableChunk (getMessageContent m) c))"
  have full: "(case truthy_str (Some (getAppendableChunk (getMessageContent m) c)) of
      Some x \<Rightarrow> getMessageContent m @ x | None \<Rightarrow> getMessageContent m) = raw"
    by (simp add: truthy_str_def assms(2))
  have "map_option r_content (m_reasoning ?p) =
      (if pt_reasoning (parseThinkTags raw) \<noteq> [] then Some (pt_reasoning (parseThinkTags raw))
       else map_option r_content (m_reasoning m))"
    unfolding processStreamingContent_def Let_def getMessageContent_def [symmetric] full
    by (simp add: parseThinkTags_def)
  then show ?thesis
    using assms(1) by (simp add: applyStreamingChunk_def Let_def getMessageContent_def [symmetric]
        del: map_option_eq_Some)
qed

lemma content_chunk:
  "m_status m \<noteq> Some Error \<Longrightarrow> getMessageContent (applyStreamingChunk t1 t2 m ContentChunk c) =
     getMessageContent m @ getAppendableChunk (getMessageContent m) c"
  using streamText_applyStreamingChunk [of m ContentChunk] by (simp add: streamText_def)

lemma streamChunks_Nil [simp]: "streamChunks ty m [] = m"
  by (simp add: streamChunks_def)

lemma streamChunks_Cons [simp]:
  "streamChunks ty m ((t1, t2, c) # cs) = streamChunks ty (applyStreamingChunk t1 t2 m ty c) cs"
  by (simp add: streamChunks_def)

text \<open>Deltas none of which repeats the whole text received before it.\<close>

fun proper_deltas :: "jstring \<Rightarrow> jstring list \<Rightarrow> bool" where
  "proper_deltas cur [] = True"
| "proper_deltas cur (c # cs) = ((cur = [] \<or> \<not> prefix cur c) \<and> proper_deltas (cur @ c) cs)"

lemma appendable_delta: "cur = [] \<or> \<not> prefix cur c \<Longrightarrow> getAppendableChunk cur c = c"
  by (simp add: getAppendableChunk_def)

lemma appendable_snapshot: "prefix cur c \<Longrightarrow> cur @ getAppendableChunk cur c = c"
  by (auto simp: getAppendableChunk_def prefix_def)

lemma streamChunks_deltas:
  "m_status m \<noteq> Some Error \<Longrightarrow> proper_deltas (streamText ty m) (map (snd \<circ> snd) cs) \<Longrightarrow>
    streamText ty (streamChunks ty m cs) = streamText ty m @ concat (map (snd \<circ> snd) cs)"
proof (induction cs arbitrary: m)
  case Nil
  then show ?case by simp
next
  case (Cons c cs)
  obtain t1 t2 x where c: "c = (t1, t2, x)" by (metis prod_cases3)
  from Cons.prems c show ?case
    by (simp add: Cons.IH streamText_applyStreamingChunk appendable_delta)
qed

lemma streamChunks_snapshots:
  "m_status m \<noteq> Some Error \<Longrightarrow> sorted_wrt prefix (streamText ty m # map (snd \<circ> snd) cs) \<Longrightarrow>
    streamText ty (streamChunks ty m cs) = last (streamText ty m # map (snd \<circ> snd) cs)"
proof (induction cs arbitrary: m)
  case Nil
  then show ?case by simp
next
  case (Cons c cs)
  obtain t1 t2 x where c: "c = (t1, t2, x)" by (metis prod_cases3)
  have x: "streamText ty (applyStreamingChunk t1 t2 m ty x) = x"
    using Cons.prems c by (simp add: streamText_applyStreamingChunk appendable_snapshot)
  have "streamText ty (streamChunks ty (applyStreamingChunk t1 t2 m ty x) cs) = last (x # map (snd \<circ> snd) cs)"
    using Cons.IH [of "applyStreamingChunk t1 t2 m ty x"] Cons.prems c by (simp add: x comp_def)
  then show ?case
    using c by (simp add: comp_def)
qed

section \<open>Which message is repaired\<close>

abbreviation pending :: "Message \<Rightarrow> bool" where
  "pending m \<equiv> isPendingAssistantMessage (Some m)"

lemma pending_iff: "pending m \<longleftrightarrow> m_from m = Assistant \<and> (m_status m = Some Loading \<or> m_status m = Some Streaming)"
  by (simp add: isPendingAssistantMessage_def isAssistantMessagePending_def)

lemma lastPendingIndex_Some:
  "n \<le> length ms \<Longrightarrow> lastPendingIndex ms n = Some k \<Longrightarrow> k < n \<and> pending (ms ! k) \<and> (\<forall>i. k < i \<and> i < n \<longrightarrow> \<not> pending (ms ! i))"
  by (induction n) (auto simp: less_Suc_eq split: if_splits)

lemma lastPendingIndex_None:
  "n \<le> length ms \<Longrightarrow> lastPendingIndex ms n = None \<Longrightarrow> filter pending (take n ms) = []"
  by (induction n) (auto simp: take_Suc_conv_app_nth split: if_splits)

lemma sanitizedMessage_frame [simp, frame]:
  "m_key (sanitizedMessage tr t1 t2 t3 m) = m_key m"
  "m_from (sanitizedMessage tr t1 t2 t3 m) = m_from m"
  "m_versions (sanitizedMessage tr t1 t2 t3 m) \<noteq> []"
  "isAssistantMessageFinal (sanitizedMessage tr t1 t2 t3 m)"
  by (simp_all add: sanitizedMessage_def Let_def isAssistantMessageFinal_def)

lemma final_not_pending: "isAssistantMessageFinal m \<Longrightarrow> \<not> pending m"
  by (auto simp: pending_iff isAssistantMessageFinal_def)

lemma filter_update_length:
  assumes "k < length xs" "P (xs ! k)" "\<not> P y"
  shows "length (filter P (xs[k := y])) = length (filter P xs) - 1"
proof -
  have "filter P xs = filter P (take k xs @ xs ! k # drop (Suc k) xs)"
    using assms(1) by (simp add: id_take_nth_drop [symmetric])
  with assms show ?thesis
    by (simp add: upd_conv_take_nth_drop)
qed

section \<open>Properties\<close>

text \<open>
  Providers that stream deltas: as long as no delta begins with the complete text received before
  it, the accumulated text (visible content or reasoning) is the concatenation of the deltas; nothing
  is lost, duplicated or reordered.
\<close>

theorem stream_deltas_concatenate:
  assumes "m_status m \<noteq> Some Error" "proper_deltas (streamText ty m) (map (snd \<circ> snd) cs)"
  shows "streamText ty (streamChunks ty m cs) = streamText ty m @ concat (map (snd \<circ> snd) cs)"
  using assms by (rule streamChunks_deltas)

theorem stream_deltas_concatenate_witness:
  "streamText ContentChunk (streamChunks ContentChunk (createLoadingAssistantMessage (js ''k'') (js ''v'') 0)
     [(1, 1, js ''Hel''), (2, 2, js ''lo''), (3, 3, js ''!'')]) = js ''Hello!''"
proof -
  let ?m = "createLoadingAssistantMessage (js ''k'') (js ''v'') 0"
  let ?cs = "[(1, 1, js ''Hel''), (2, 2, js ''lo''), (3, 3, js ''!'')]"
  have "m_status ?m \<noteq> Some Error" "proper_deltas (streamText ContentChunk ?m) (map (snd \<circ> snd) ?cs)"
    by (simp_all add: streamText_def js_eval)
  from stream_deltas_concatenate [OF this] show ?thesis
    by (simp add: streamText_def js_eval)
qed

text \<open>
  Providers that resend the whole text so far: when every chunk extends the text received before
  it, the accumulated text is the last chunk, so snapshots are not appended to each other.
\<close>

theorem stream_snapshots_replace:
  assumes "m_status m \<noteq> Some Error" "sorted_wrt prefix (streamText ty m # map (snd \<circ> snd) cs)" "cs \<noteq> []"
  shows "streamText ty (streamChunks ty m cs) = snd (snd (last cs))"
  using streamChunks_snapshots [OF assms(1,2)] assms(3) by (simp add: last_map)

theorem stream_snapshots_replace_witness:
  "streamText ReasoningChunk (streamChunks ReasoningChunk (createLoadingAssistantMessage (js ''k'') (js ''v'') 0)
     [(1, 1, js ''a''), (2, 2, js ''ab''), (3, 3, js ''abc'')]) = js ''abc''"
proof -
  let ?m = "createLoadingAssistantMessage (js ''k'') (js ''v'') 0"
  let ?cs = "[(1, 1, js ''a''), (2, 2, js ''ab''), (3, 3, js ''abc'')]"
  have "m_status ?m \<noteq> Some Error" "sorted_wrt prefix (streamText ReasoningChunk ?m # map (snd \<circ> snd) ?cs)" "?cs \<noteq> []"
    by (simp_all add: streamText_def js_eval)
  from stream_snapshots_replace [OF this] show ?thesis
    by simp
qed

text \<open>
  The two readings of a chunk conflict: a delta that equals the text received so far is taken for
  a snapshot and dropped. A model that answers \<open>11\<close> with the deltas \<open>1\<close> and \<open>1\<close>
  is shown as having answered \<open>1\<close>, whatever the clock readings.
\<close>

theorem repeated_delta_dropped:
  "getMessageContent (streamChunks ContentChunk (createLoadingAssistantMessage k v t0)
     [(t1, t2, js ''1''), (t3, t4, js ''1'')]) = js ''1''"
proof -
  let ?m = "createLoadingAssistantMessage k v t0"
  have "streamText ContentChunk (streamChunks ContentChunk ?m [(t1, t2, js ''1''), (t3, t4, js ''1'')]) =
      last (streamText ContentChunk ?m # map (snd \<circ> snd) [(t1, t2, js ''1''), (t3, t4, js ''1'')])"
    by (rule streamChunks_snapshots) (simp_all add: streamText_def js_eval)
  then show ?thesis
    by (simp add: streamText_def)
qed

text \<open>
  Completing an answer that streamed its reasoning in think tags: the stored content is the
  visible part of everything that arrived, and the stored reasoning is the text of its thoughts
  (when there is any), even though the raw text with tags was kept while streaming.
\<close>

theorem complete_after_think_stream:
  assumes "m_status m \<noteq> Some Error"
    and "raw = getMessageContent m @ getAppendableChunk (getMessageContent m) c"
    and "pt_reasoning (parseThinkTags raw) \<noteq> []"
  shows "getMessageContent (completeAssistantMessage t3 t4 t5 (applyStreamingChunk t1 t2 m ContentChunk c)) =
      pt_visibleContent (parseThinkTags raw) \<and>
    map_option r_content (m_reasoning
      (completeAssistantMessage t3 t4 t5 (applyStreamingChunk t1 t2 m ContentChunk c))) =
      Some (pt_reasoning (parseThinkTags raw))"
  using assms(3) reasoning_content_chunk [OF assms(1,2)]
  by (simp add: getMessageContent_finalizeMessage reasoning_finalizeMessage content_chunk [OF assms(1)]
      assms(2) or_str_def truthy_str_def del: map_option_eq_Some)

theorem complete_after_think_stream_witness:
  "getMessageContent (completeAssistantMessage 3 4 5 (applyStreamingChunk 1 2
      (createLoadingAssistantMessage (js ''k'') (js ''v'') 0) ContentChunk (js ''<think>why</think>Yes''))) = js ''Yes''"
proof -
  let ?m = "createLoadingAssistantMessage (js ''k'') (js ''v'') 0"
  let ?c = "js ''<think>why</think>Yes''"
  have p: "parseThinkTags ?c = \<lparr>pt_visibleContent = js ''Yes'', pt_reasoning = js ''why'', pt_hasUnclosedTag = False\<rparr>"
    by code_simp
  have "m_status ?m \<noteq> Some Error" "?c = getMessageContent ?m @ getAppendableChunk (getMessageContent ?m) ?c"
    "pt_reasoning (parseThinkTags ?c) \<noteq> []"
    by (simp_all add: p) (simp_all add: js_eval)
  from complete_after_think_stream [OF this] show ?thesis
    by (simp add: p)
qed

text \<open>
  An empty thought whose closing tag arrives in two chunks leaves the first half of the tag behind
  as reasoning: after \<open><think></think\<close> and \<open>>Hi\<close> the completed message shows
  \<open>Hi\<close> with the reasoning \<open></think\<close>.
\<close>

theorem split_closing_tag_leaks:
  "let m = completeAssistantMessage t5 t6 t7 (streamChunks ContentChunk
       (createLoadingAssistantMessage k v t0) [(t1, t2, js ''<think></think''), (t3, t4, js ''>Hi'')])
   in getMessageContent m = js ''Hi'' \<and> map_option r_content (m_reasoning m) = Some (js ''</think'')"
proof -
  have p1: "parseThinkTags (js ''<think></think'') =
      \<lparr>pt_visibleContent = [], pt_reasoning = js ''</think'', pt_hasUnclosedTag = True\<rparr>"
    by code_simp
  have p2: "parseThinkTags (js ''<think></think>Hi'') =
      \<lparr>pt_visibleContent = js ''Hi'', pt_reasoning = [], pt_hasUnclosedTag = False\<rparr>"
    by code_simp
  have a: "getAppendableChunk (js ''<think></think'') (js ''>Hi'') = js ''>Hi''"
    "js ''<think></think'' @ js ''>Hi'' = js ''<think></think>Hi''"
    by (simp_all add: getAppendableChunk_def js_eval)
  let ?m0 = "createLoadingAssistantMessage k v t0"
  have m0: "m_status ?m0 \<noteq> Some Error" "getMessageContent ?m0 = []" "m_reasoning ?m0 = None"
    by (simp_all add: js_eval)
  let ?m1 = "applyStreamingChunk t1 t2 ?m0 ContentChunk (js ''<think></think'')"
  let ?m2 = "applyStreamingChunk t3 t4 ?m1 ContentChunk (js ''>Hi'')"
  have c1: "getMessageContent ?m1 = js ''<think></think''"
    using m0 by (simp add: content_chunk getAppendableChunk_def)
  have r1: "map_option r_content (m_reasoning ?m1) = Some (js ''</think'')"
    by (subst reasoning_content_chunk [OF m0(1) refl]) (simp add: m0 getAppendableChunk_def p1)
  have m1: "m_status ?m1 \<noteq> Some Error"
    using m0 by simp
  have c2: "getMessageContent ?m2 = js ''<think></think>Hi''"
    using m1 c1 a by (simp add: content_chunk)
  have r2: "map_option r_content (m_reasoning ?m2) = Some (js ''</think'')"
    by (subst reasoning_content_chunk [OF m1 refl]) (simp only: c1 a p2 r1, simp)
  show ?thesis
    unfolding Let_def streamChunks_Cons streamChunks_Nil
    by (simp only: completeAssistantMessage_frame getMessageContent_finalizeMessage reasoning_finalizeMessage
        c2 p2 r2) (simp add: or_str_def truthy_str_def)
qed

text \<open>
  \<open>sanitizeMessagesOnLoad\<close> takes exactly one message out of the pending state, the last
  pending one: the number of pending assistant messages drops by one (and stays at zero when there
  is none), and no message is added, removed or re-keyed. In particular a history with at most one
  unfinished answer has none afterwards; with more, the earlier ones stay unfinished.
\<close>

theorem sanitize_pending_count:
  "length (filter pending (sanitizeMessagesOnLoad tr t1 t2 t3 ms)) = length (filter pending ms) - 1 \<and>
   map m_key (sanitizeMessagesOnLoad tr t1 t2 t3 ms) = map m_key ms \<and>
   map m_from (sanitizeMessagesOnLoad tr t1 t2 t3 ms) = map m_from ms"
proof (cases "lastPendingIndex ms (length ms)")
  case None
  then show ?thesis
    using lastPendingIndex_None [of "length ms" ms] by (simp add: sanitizeMessagesOnLoad_def)
next
  case (Some k)
  then have k: "k < length ms" "pending (ms ! k)"
    using lastPendingIndex_Some [of "length ms" ms k] by auto
  with Some show ?thesis
    by (simp add: sanitizeMessagesOnLoad_def filter_update_length final_not_pending map_update
        list_update_same_conv)
qed

text \<open>
  C38. Timing: the duration stored for an answer is never negative, and it is exactly the time
  between start and completion whenever the clock did not run backwards; a thought's duration in
  seconds is its duration in milliseconds rounded up, and once recorded it is never changed by a
  later completion.
\<close>

theorem timing_bounds:
  "(m_from m = Assistant \<longrightarrow>
     (\<exists>s d. m_startedAt (completeAssistantTiming m t) = Some s \<and>
        m_completedAt (completeAssistantTiming m t) = Some t \<and>
        m_durationMs (completeAssistantTiming m t) = Some d \<and> 0 \<le> d \<and> (s \<le> t \<longrightarrow> s + d = t))) \<and>
   (\<forall>r. m_reasoning m = Some r \<and> r_durationMs r = None \<longrightarrow>
     (\<exists>r' d. m_reasoning (completeReasoningTiming m t) = Some r' \<and> r_durationMs r' = Some d \<and> 0 \<le> d \<and>
        1000 * (r_duration r' - 1) < d \<and> d \<le> 1000 * r_duration r')) \<and>
   completeReasoningTiming (completeReasoningTiming m t) t' = completeReasoningTiming m t"
proof (intro conjI impI allI)
  assume "m_from m = Assistant"
  then show "\<exists>s d. m_startedAt (completeAssistantTiming m t) = Some s \<and>
      m_completedAt (completeAssistantTiming m t) = Some t \<and>
      m_durationMs (completeAssistantTiming m t) = Some d \<and> 0 \<le> d \<and> (s \<le> t \<longrightarrow> s + d = t)"
    by (simp add: completeAssistantTiming_def Let_def)
next
  fix r assume r: "m_reasoning m = Some r \<and> r_durationMs r = None"
  let ?s = "nullish (r_startedAt r) (nullish (m_startedAt m) t)"
  define d where "d = max 0 (t - ?s)"
  have up: "1000 * (of_int \<lceil>d / 1000\<rceil> - 1) < d \<and> d \<le> 1000 * of_int \<lceil>d / 1000\<rceil>"
    using ceiling_correct [of "d / 1000"] by (simp add: field_simps del: le_of_int_ceiling)
  show "\<exists>r' d. m_reasoning (completeReasoningTiming m t) = Some r' \<and> r_durationMs r' = Some d \<and> 0 \<le> d \<and>
      1000 * (r_duration r' - 1) < d \<and> d \<le> 1000 * r_duration r'"
    using r up by (simp add: completeReasoningTiming_def Let_def flip: d_def) (simp add: d_def)
next
  show "completeReasoningTiming (completeReasoningTiming m t) t' = completeReasoningTiming m t"
    by (simp add: completeReasoningTiming_def Let_def split: option.splits)
qed

theorem timing_bounds_witness:
  "m_durationMs (completeAssistantTiming (createLoadingAssistantMessage (js ''k'') (js ''v'') 100) 350) = Some 250"
proof -
  let ?m = "createLoadingAssistantMessage (js ''k'') (js ''v'') 100"
  have "m_from ?m = Assistant"
    by (simp add: js_eval)
  with timing_bounds [of ?m 350 0] obtain s d where
    "m_startedAt (completeAssistantTiming ?m 350) = Some s" "m_durationMs (completeAssistantTiming ?m 350) = Some d"
    "s \<le> 350 \<longrightarrow> s + d = 350"
    by blast
  moreover have "m_startedAt (completeAssistantTiming ?m 350) = Some 100"
    by (simp add: js_eval)
  ultimately show ?thesis
    by auto
qed

end
