(* ===== verification/Conversation.thy ===== *)
theory Conversation
  imports Streaming_Messages
begin

text \<open>
  \<open>features/playground/lib/message/conversation-message-utils.ts\<close>, the operations on the list of
  messages (send, regenerate, edit, delete), and \<open>lib/streaming/payload-builder.ts\<close>, the request
  that is built from it. The identifiers \<open>k\<close>, \<open>v\<close> are the results of \<open>nanoid()\<close>.
\<close>

section \<open>The operations\<close>

record ApplyMessageEditResult =
  er_messages :: "Message list"
  er_shouldSend :: bool

definition appendUserMessagePair ::
    "jstring \<Rightarrow> jstring \<Rightarrow> jstring \<Rightarrow> jstring \<Rightarrow> jnum \<Rightarrow> Message list \<Rightarrow> jstring \<Rightarrow> Message list" where
  "appendUserMessagePair k1 v1 k2 v2 submittedAt messages content =
     messages @ [createUserMessage k1 v1 content submittedAt,
                 createLoadingAssistantMessage k2 v2 submittedAt]"

definition createRegeneratedMessages ::
    "jstring \<Rightarrow> jstring \<Rightarrow> jnum \<Rightarrow> Message list \<Rightarrow> jstring \<Rightarrow> Message list option" where
  "createRegeneratedMessages k v now messages messageKey =
     (case findIndex (\<lambda>m. m_key m = messageKey) messages of
        None \<Rightarrow> None
      | Some messageIndex \<Rightarrow>
          if m_from (messages ! messageIndex) = User then
            Some (take (messageIndex + 1) messages @ [createLoadingAssistantMessage k v now])
          else Some (take messageIndex messages @ [createLoadingAssistantMessage k v now]))"

definition removeMessageByKey :: "Message list \<Rightarrow> jstring \<Rightarrow> Message list" where
  "removeMessageByKey messages messageKey = filter (\<lambda>m. m_key m \<noteq> messageKey) messages"

text \<open>The loop runs downwards from \<open>beforeIndex - 1\<close>.\<close>

primrec getPreviousUserMessage :: "Message list \<Rightarrow> nat \<Rightarrow> Message option" where
  "getPreviousUserMessage messages 0 = None"
| "getPreviousUserMessage messages (Suc index) =
     (if m_from (messages ! index) = User then Some (messages ! index)
      else getPreviousUserMessage messages index)"

definition editMessage :: "jstring \<Rightarrow> jstring \<Rightarrow> bool \<Rightarrow> jnum \<Rightarrow> Message \<Rightarrow> Message" where
  "editMessage messageKey content shouldSubmit submittedAt m =
     (if m_key m = messageKey
      then (updateCurrentVersionContent m content)
             \<lparr>m_createdAt := (if shouldSubmit then Some submittedAt else m_createdAt m)\<rparr>
      else m)"

definition applyMessageEdit ::
    "jstring \<Rightarrow> jstring \<Rightarrow> jnum \<Rightarrow> Message list \<Rightarrow> jstring \<Rightarrow> jstring \<Rightarrow> bool \<Rightarrow> ApplyMessageEditResult option" where
  "applyMessageEdit k v submittedAt messages messageKey content shouldSubmit =
     (case findIndex (\<lambda>m. m_key m = messageKey) messages of
        None \<Rightarrow> None
      | Some messageIndex \<Rightarrow>
          (let updatedMessages = map (editMessage messageKey content shouldSubmit submittedAt) messages in
           if \<not> shouldSubmit \<or> m_from (updatedMessages ! messageIndex) \<noteq> User then
             Some \<lparr>er_messages = updatedMessages, er_shouldSend = False\<rparr>
           else
             Some \<lparr>er_messages = take (messageIndex + 1) updatedMessages @
                     [createLoadingAssistantMessage k v submittedAt],
                   er_shouldSend = True\<rparr>))"

definition getEditingMessageContent :: "Message list \<Rightarrow> jstring option \<Rightarrow> jstring" where
  "getEditingMessageContent messages editingKey = (case truthy_str editingKey of
     None \<Rightarrow> []
   | Some key \<Rightarrow> (case find (\<lambda>item. m_key item = key) messages of
       None \<Rightarrow> [] | Some m \<Rightarrow> getMessageContent m))"

record ChatMessageRenderState =
  rs_alwaysShowActions :: bool
  rs_content :: jstring
  rs_isEditing :: bool

definition getChatMessageRenderState ::
    "Message list \<Rightarrow> Message \<Rightarrow> nat \<Rightarrow> jstring option \<Rightarrow> ChatMessageRenderState" where
  "getChatMessageRenderState messages m messageIndex editingKey =
     \<lparr>rs_alwaysShowActions = (int messageIndex = int (length messages) - 1 \<and> m_from m = Assistant),
      rs_content = getMessageContent m, rs_isEditing = (editingKey = Some (m_key m))\<rparr>"

section \<open>The request payload\<close>

definition buildChatCompletionPayload ::
    "Message list \<Rightarrow> PlaygroundConfig \<Rightarrow> ParameterEnabled \<Rightarrow> ChatCompletionRequest" where
  "buildChatCompletionPayload messages config en =
     \<lparr>q_model = pc_model config, q_group = Some (pc_group config),
      q_messages = map formatMessageForAPI (filter isValidMessage messages),
      q_stream = pc_stream config,
      q_temperature = (if pe_temperature en then Some (pc_temperature config) else None),
      q_top_p = (if pe_top_p en then Some (pc_top_p config) else None),
      q_max_tokens = (if pe_max_tokens en then Some (pc_max_tokens config) else None),
      q_frequency_penalty = (if pe_frequency_penalty en then Some (pc_frequency_penalty config) else None),
      q_presence_penalty = (if pe_presence_penalty en then Some (pc_presence_penalty config) else None),
      q_seed = (if pe_seed en \<and> pc_seed config \<noteq> None then pc_seed config else None)\<rparr>"

lemmas conversation_defs [js_eval] =
  appendUserMessagePair_def createRegeneratedMessages_def removeMessageByKey_def applyMessageEdit_def
  buildChatCompletionPayload_def

section \<open>Lemmas\<close>

lemma createUserMessage_fields [simp]:
  "m_key (createUserMessage k v c t) = k" "m_from (createUserMessage k v c t) = User"
  "m_versions (createUserMessage k v c t) \<noteq> []" "m_status (createUserMessage k v c t) = None"
  "getMessageContent (createUserMessage k v c t) = c"
  by (simp_all add: js_eval)

lemma createLoadingAssistantMessage_fields [simp]:
  "m_key (createLoadingAssistantMessage k v t) = k"
  "m_from (createLoadingAssistantMessage k v t) = Assistant"
  "m_versions (createLoadingAssistantMessage k v t) \<noteq> []"
  "m_status (createLoadingAssistantMessage k v t) = Some Loading"
  "getMessageContent (createLoadingAssistantMessage k v t) = []"
  by (simp_all add: js_eval)

lemma isValidMessage_created [simp]:
  "isValidMessage (createUserMessage k v c t)" "\<not> isValidMessage (createLoadingAssistantMessage k v t)"
  by (simp_all add: js_eval)

lemma pending_created [simp]:
  "pending (createLoadingAssistantMessage k v t)" "\<not> pending (createUserMessage k v c t)"
  by (simp_all add: pending_iff)

text \<open>What a regeneration and a submitted edit keep: a prefix of the conversation.\<close>

lemma findKey_iff:
  "findIndex (\<lambda>m. m_key m = key) ms = None \<longleftrightarrow> key \<notin> m_key ` set ms"
  by (auto simp: findIndex_None_iff list_all_iff)

lemma createRegeneratedMessages_Some:
  assumes "createRegeneratedMessages k v now ms key = Some ms'"
  shows "\<exists>i < length ms. m_key (ms ! i) = key \<and> key \<notin> m_key ` set (take i ms) \<and>
    ms' = take (if m_from (ms ! i) = User then Suc i else i) ms @ [createLoadingAssistantMessage k v now]"
proof -
  obtain i where i: "findIndex (\<lambda>m. m_key m = key) ms = Some i"
    using assms by (auto simp: createRegeneratedMessages_def split: option.splits)
  with assms findIndex_Some [OF i] show ?thesis
    by (intro exI [of _ i]) (auto simp: createRegeneratedMessages_def list_all_iff split: if_splits)
qed

lemma createRegeneratedMessages_None_iff:
  "createRegeneratedMessages k v now ms key = None \<longleftrightarrow> key \<notin> m_key ` set ms"
  using findKey_iff [of key ms] by (auto simp: createRegeneratedMessages_def split: option.splits)

lemma editMessage_frame [simp, frame]:
  "m_key (editMessage key c sub t m) = m_key m" "m_from (editMessage key c sub t m) = m_from m"
  "m_status (editMessage key c sub t m) = m_status m"
  "m_versions m \<noteq> [] \<Longrightarrow> m_versions (editMessage key c sub t m) \<noteq> []"
  by (simp_all add: editMessage_def)

lemma pending_editMessage [simp]: "pending (editMessage key c sub t m) = pending m"
  by (simp add: pending_iff)

lemma editMessage_content:
  "getMessageContent (editMessage key c sub t m) = (if m_key m = key then c else getMessageContent m)"
  by (simp add: editMessage_def getMessageContent_def getCurrentVersion_def updateCurrentVersionContent_def)

lemma applyMessageEdit_None_iff:
  "applyMessageEdit k v t ms key c sub = None \<longleftrightarrow> key \<notin> m_key ` set ms"
  using findKey_iff [of key ms] by (auto simp: applyMessageEdit_def Let_def split: option.splits)

lemma applyMessageEdit_Some:
  assumes "applyMessageEdit k v t ms key c sub = Some r"
  shows "\<exists>i < length ms. m_key (ms ! i) = key \<and> key \<notin> m_key ` set (take i ms) \<and>
    (er_shouldSend r \<longleftrightarrow> sub \<and> m_from (ms ! i) = User) \<and>
    er_messages r = (if er_shouldSend r
      then map (editMessage key c sub t) (take (Suc i) ms) @ [createLoadingAssistantMessage k v t]
      else map (editMessage key c sub t) ms)"
proof -
  obtain i where i: "findIndex (\<lambda>m. m_key m = key) ms = Some i"
    using assms by (auto simp: applyMessageEdit_def split: option.splits)
  with assms findIndex_Some [OF i] show ?thesis
    by (intro exI [of _ i]) (auto simp: applyMessageEdit_def Let_def take_map list_all_iff split: if_splits)
qed

lemma payload_messages_append:
  "q_messages (buildChatCompletionPayload (ms @ ms') config en) =
     q_messages (buildChatCompletionPayload ms config en) @ q_messages (buildChatCompletionPayload ms' config en)"
  by (simp add: buildChatCompletionPayload_def)

lemma payload_placeholder [simp]:
  "q_messages (buildChatCompletionPayload [createLoadingAssistantMessage k v t] config en) = []"
  by (simp add: buildChatCompletionPayload_def)

lemma payload_user [simp]:
  "q_messages (buildChatCompletionPayload [createUserMessage k v c t] config en) =
     [\<lparr>cm_role = User, cm_content = PlainContent c\<rparr>]"
  by (simp add: buildChatCompletionPayload_def js_eval)

lemma payload_after_edit:
  assumes "m_key m = key" "m_from m = User"
  shows "last (q_messages (buildChatCompletionPayload
    (ms @ [editMessage key c sub t m, createLoadingAssistantMessage k v t']) config en)) =
      \<lparr>cm_role = User, cm_content = PlainContent c\<rparr>"
proof -
  have "isValidMessage (editMessage key c sub t m)"
    using assms by (simp add: isValidMessage_def editMessage_def)
  moreover have "v_content (getCurrentVersion (editMessage key c sub t m)) = c"
    using editMessage_content [of key c sub t m] assms by (simp add: getMessageContent_def)
  ultimately show ?thesis
    using assms by (simp add: buildChatCompletionPayload_def formatMessageForAPI_def)
qed

section \<open>Properties\<close>

text \<open>
  C29. What is sent when the user submits a text: the payload built from the list after
  \<open>appendUserMessagePair\<close> is the formatted history (the old valid messages, in order) followed by
  the submitted text; the loading placeholder is never sent, and no assistant message with blank
  content is, so every entry of role \<open>assistant\<close> carries text.
\<close>

theorem payload_after_send:
  "q_messages (buildChatCompletionPayload (appendUserMessagePair k1 v1 k2 v2 t ms c) config en) =
     q_messages (buildChatCompletionPayload ms config en) @ [\<lparr>cm_role = User, cm_content = PlainContent c\<rparr>]
   \<and> list_all (\<lambda>e. cm_role e = Assistant \<longrightarrow> trim (getTextContent (cm_content e)) \<noteq> [])
       (q_messages (buildChatCompletionPayload ms config en))"
proof
  have "appendUserMessagePair k1 v1 k2 v2 t ms c =
      ms @ [createUserMessage k1 v1 c t] @ [createLoadingAssistantMessage k2 v2 t]"
    by (simp add: appendUserMessagePair_def)
  then show "q_messages (buildChatCompletionPayload (appendUserMessagePair k1 v1 k2 v2 t ms c) config en) =
     q_messages (buildChatCompletionPayload ms config en) @ [\<lparr>cm_role = User, cm_content = PlainContent c\<rparr>]"
    by (simp only: payload_messages_append payload_placeholder payload_user append_Nil2)
next
  show "list_all (\<lambda>e. cm_role e = Assistant \<longrightarrow> trim (getTextContent (cm_content e)) \<noteq> [])
       (q_messages (buildChatCompletionPayload ms config en))"
    by (auto simp: list_all_iff buildChatCompletionPayload_def formatMessageForAPI_def isValidMessage_def
        hasMessageContent_def getMessageContent_def split: if_splits)
qed

theorem payload_after_send_witness:
  "q_messages (buildChatCompletionPayload
     (appendUserMessagePair (js ''a'') (js ''b'') (js ''c'') (js ''d'') 5 [] (js ''hi''))
     DEFAULT_CONFIG DEFAULT_PARAMETER_ENABLED) = [\<lparr>cm_role = User, cm_content = PlainContent (js ''hi'')\<rparr>]"
  using payload_after_send [of "js ''a''" "js ''b''" "js ''c''" "js ''d''" 5 "[]" "js ''hi''"
      DEFAULT_CONFIG DEFAULT_PARAMETER_ENABLED]
  by (simp add: buildChatCompletionPayload_def)

text \<open>
  Regenerating at a message: the operation fails exactly for an unknown key; otherwise the
  conversation is cut at the first message with the key (a user message is kept, an answer is
  dropped), one loading placeholder is appended, and the request carries exactly the part kept: the
  answer that is being regenerated, and everything after it, is not sent.
\<close>

theorem regenerate_cuts_history:
  "(createRegeneratedMessages k v now ms key = None \<longleftrightarrow> key \<notin> m_key ` set ms) \<and>
   (createRegeneratedMessages k v now ms key = Some ms' \<longrightarrow>
     (\<exists>i < length ms. m_key (ms ! i) = key \<and> key \<notin> m_key ` set (take i ms) \<and>
        (let kept = take (if m_from (ms ! i) = User then Suc i else i) ms in
           ms' = kept @ [createLoadingAssistantMessage k v now] \<and>
           q_messages (buildChatCompletionPayload ms' config en) =
             q_messages (buildChatCompletionPayload kept config en))))"
proof (intro conjI impI)
  assume "createRegeneratedMessages k v now ms key = Some ms'"
  from createRegeneratedMessages_Some [OF this] show
    "\<exists>i < length ms. m_key (ms ! i) = key \<and> key \<notin> m_key ` set (take i ms) \<and>
        (let kept = take (if m_from (ms ! i) = User then Suc i else i) ms in
           ms' = kept @ [createLoadingAssistantMessage k v now] \<and>
           q_messages (buildChatCompletionPayload ms' config en) =
             q_messages (buildChatCompletionPayload kept config en))"
    by (elim exE conjE) (auto simp: payload_messages_append Let_def)
qed (simp add: createRegeneratedMessages_None_iff)

theorem regenerate_cuts_history_witness:
  "createRegeneratedMessages (js ''n'') (js ''w'') 9
     [createUserMessage (js ''a'') (js ''b'') (js ''hi'') 1, createLoadingAssistantMessage (js ''c'') (js ''d'') 1]
     (js ''c'') = Some [createUserMessage (js ''a'') (js ''b'') (js ''hi'') 1,
        createLoadingAssistantMessage (js ''n'') (js ''w'') 9] \<and>
   q_messages (buildChatCompletionPayload [createUserMessage (js ''a'') (js ''b'') (js ''hi'') 1,
        createLoadingAssistantMessage (js ''n'') (js ''w'') 9] DEFAULT_CONFIG DEFAULT_PARAMETER_ENABLED) =
     [\<lparr>cm_role = User, cm_content = PlainContent (js ''hi'')\<rparr>]"
proof -
  let ?u = "createUserMessage (js ''a'') (js ''b'') (js ''hi'') 1"
  let ?ms = "[?u, createLoadingAssistantMessage (js ''c'') (js ''d'') 1]"
  let ?ms' = "[?u, createLoadingAssistantMessage (js ''n'') (js ''w'') 9]"
  have ne: "js ''a'' \<noteq> js ''c''" by (simp add: js_def)
  have r: "createRegeneratedMessages (js ''n'') (js ''w'') 9 ?ms (js ''c'') = Some ?ms'"
    using ne by (simp add: createRegeneratedMessages_def)
  from regenerate_cuts_history [of "js ''n''" "js ''w''" 9 ?ms "js ''c''" ?ms' DEFAULT_CONFIG
      DEFAULT_PARAMETER_ENABLED] r
  obtain i where "i < length ?ms" "?ms' = take (if m_from (?ms ! i) = User then Suc i else i) ?ms @
        [createLoadingAssistantMessage (js ''n'') (js ''w'') 9]"
    "q_messages (buildChatCompletionPayload ?ms' DEFAULT_CONFIG DEFAULT_PARAMETER_ENABLED) =
      q_messages (buildChatCompletionPayload (take (if m_from (?ms ! i) = User then Suc i else i) ?ms)
        DEFAULT_CONFIG DEFAULT_PARAMETER_ENABLED)"
    by (auto simp: Let_def)
  moreover from this(2) have "take (if m_from (?ms ! i) = User then Suc i else i) ?ms = [?u]"
    by simp
  ultimately show ?thesis
    using r by simp
qed

text \<open>
  C30. Editing a message: the edit fails exactly for an unknown key; the conversation is resubmitted
  exactly when that is asked for and the (first) message with the key is a user message; a saved
  edit keeps every message, its key and its role and changes only the text; a submitted edit keeps
  the messages up to the edited one and appends a placeholder, so the request ends with the new text.
\<close>

theorem edit_semantics:
  "(applyMessageEdit k v t ms key c sub = None \<longleftrightarrow> key \<notin> m_key ` set ms) \<and>
   (applyMessageEdit k v t ms key c sub = Some r \<longrightarrow>
     (\<exists>i < length ms. m_key (ms ! i) = key \<and>
       (er_shouldSend r \<longleftrightarrow> sub \<and> m_from (ms ! i) = User) \<and>
       (let n = (if er_shouldSend r then Suc i else length ms);
            edited = take n (er_messages r) in
          er_messages r = edited @ (if er_shouldSend r then [createLoadingAssistantMessage k v t] else []) \<and>
          map m_key edited = map m_key (take n ms) \<and> map m_from edited = map m_from (take n ms) \<and>
          map getMessageContent edited =
            map (\<lambda>m. if m_key m = key then c else getMessageContent m) (take n ms) \<and>
          (er_shouldSend r \<longrightarrow>
             last (q_messages (buildChatCompletionPayload (er_messages r) config en)) =
               \<lparr>cm_role = User, cm_content = PlainContent c\<rparr>))))"
proof (intro conjI impI)
  assume "applyMessageEdit k v t ms key c sub = Some r"
  from applyMessageEdit_Some [OF this] obtain i where i: "i < length ms" "m_key (ms ! i) = key"
    "er_shouldSend r \<longleftrightarrow> sub \<and> m_from (ms ! i) = User"
    "er_messages r = (if er_shouldSend r
      then map (editMessage key c sub t) (take (Suc i) ms) @ [createLoadingAssistantMessage k v t]
      else map (editMessage key c sub t) ms)"
    by blast
  have "er_shouldSend r \<longrightarrow>
     last (q_messages (buildChatCompletionPayload (er_messages r) config en)) =
       \<lparr>cm_role = User, cm_content = PlainContent c\<rparr>"
    using i payload_after_edit [of "ms ! i" key] by (simp add: take_Suc_conv_app_nth)
  with i show "\<exists>i < length ms. m_key (ms ! i) = key \<and>
       (er_shouldSend r \<longleftrightarrow> sub \<and> m_from (ms ! i) = User) \<and>
       (let n = (if er_shouldSend r then Suc i else length ms);
            edited = take n (er_messages r) in
          er_messages r = edited @ (if er_shouldSend r then [createLoadingAssistantMessage k v t] else []) \<and>
          map m_key edited = map m_key (take n ms) \<and> map m_from edited = map m_from (take n ms) \<and>
          map getMessageContent edited =
            map (\<lambda>m. if m_key m = key then c else getMessageContent m) (take n ms) \<and>
          (er_shouldSend r \<longrightarrow>
             last (q_messages (buildChatCompletionPayload (er_messages r) config en)) =
               \<lparr>cm_role = User, cm_content = PlainContent c\<rparr>))"
    by (intro exI [of _ i]) (simp add: Let_def editMessage_content o_def)
qed (simp add: applyMessageEdit_None_iff)

theorem edit_semantics_witness:
  "\<exists>r. applyMessageEdit (js ''n'') (js ''w'') 9
     [createUserMessage (js ''a'') (js ''b'') (js ''hi'') 1, createLoadingAssistantMessage (js ''c'') (js ''d'') 1]
     (js ''a'') (js ''yo'') True = Some r \<and> er_shouldSend r \<and>
   last (q_messages (buildChatCompletionPayload (er_messages r) DEFAULT_CONFIG DEFAULT_PARAMETER_ENABLED)) =
     \<lparr>cm_role = User, cm_content = PlainContent (js ''yo'')\<rparr>"
proof -
  let ?ms = "[createUserMessage (js ''a'') (js ''b'') (js ''hi'') 1,
    createLoadingAssistantMessage (js ''c'') (js ''d'') 1]"
  obtain r where r: "applyMessageEdit (js ''n'') (js ''w'') 9 ?ms (js ''a'') (js ''yo'') True = Some r"
    "er_shouldSend r"
    by (simp add: applyMessageEdit_def)
  with edit_semantics [of "js ''n''" "js ''w''" 9 ?ms "js ''a''" "js ''yo''" True r DEFAULT_CONFIG
      DEFAULT_PARAMETER_ENABLED]
  show ?thesis
    by (auto simp: Let_def)
qed

end
