(* ===== verification/JS_Json.thy ===== *)
theory JS_Json
  imports Prelude
begin

text \<open>
  JSON values, the property order of JavaScript objects, and \<open>JSON.parse\<close> with the whole
  grammar of RFC 8259 (escapes, fractions, exponents). The values JSON can denote are the
  datatype \<open>json\<close>; an object is the association list of its own properties in the order
  \<open>Object.entries\<close> enumerates them.
\<close>

section \<open>Values\<close>

datatype json =
    JNull
  | JBool bool
  | JNum jnum
  | JStr jstring
  | JArr "json list"
  | JObj "(jstring \<times> json) list"

fun truthy :: "json \<Rightarrow> bool" where
  "truthy JNull = False"
| "truthy (JBool b) = b"
| "truthy (JNum n) = (n \<noteq> 0)"
| "truthy (JStr s) = (s \<noteq> [])"
| "truthy (JArr _) = True"
| "truthy (JObj _) = True"

text \<open>\<open>v && typeof v === 'object' && !Array.isArray(v)\<close>\<close>

fun plain_object :: "json \<Rightarrow> (jstring \<times> json) list option" where
  "plain_object (JObj ps) = Some ps"
| "plain_object _ = None"

section \<open>Decimal numerals\<close>

definition digit_val :: "jchar \<Rightarrow> nat" where
  "digit_val c = unat c - 48"

definition digit_chr :: "nat \<Rightarrow> jchar" where
  "digit_chr n = of_nat (48 + n)"

definition digits_val :: "jstring \<Rightarrow> nat" where
  "digits_val ds = foldl (\<lambda>n c. 10 * n + digit_val c) 0 ds"

fun nat_str :: "nat \<Rightarrow> jstring" where
  "nat_str n = (if n < 10 then [digit_chr n] else nat_str (n div 10) @ [digit_chr (n mod 10)])"

declare nat_str.simps [simp del]
declare digit_val_def [js_eval] digit_chr_def [js_eval] digits_val_def [js_eval]
  nat_str.simps [js_eval]

definition int_str :: "int \<Rightarrow> jstring" where
  "int_str n = (if n < 0 then 45 # nat_str (nat (- n)) else nat_str (nat n))"

lemma unat_digit_chr: "n < 10 \<Longrightarrow> unat (digit_chr n) = 48 + n"
  unfolding digit_chr_def unat_of_nat by simp

lemma digit_val_chr [simp]: "n < 10 \<Longrightarrow> digit_val (digit_chr n) = n"
  by (simp add: digit_val_def unat_digit_chr)

lemma is_digit_iff: "is_digit c \<longleftrightarrow> 48 \<le> unat c \<and> unat c \<le> 57"
  by (simp add: is_digit_def word_le_nat_alt)

lemma is_digit_chr [simp]: "n < 10 \<Longrightarrow> is_digit (digit_chr n)"
  by (simp add: is_digit_iff unat_digit_chr)

lemma digits_val_snoc: "digits_val (ds @ [c]) = 10 * digits_val ds + digit_val c"
  by (simp add: digits_val_def)

lemma digits_val_nat_str [simp]: "digits_val (nat_str n) = n"
proof (induction n rule: nat_str.induct)
  case (1 n)
  show ?case
  proof (cases "n < 10")
    case True
    then show ?thesis by (simp add: nat_str.simps [of n] digits_val_def)
  next
    case False
    then show ?thesis using "1.IH" by (simp add: nat_str.simps [of n] digits_val_snoc)
  qed
qed

lemma nat_str_digits: "list_all is_digit (nat_str n)"
proof (induction n rule: nat_str.induct)
  case (1 n)
  then show ?case by (cases "n < 10") (simp_all add: nat_str.simps [of n])
qed

lemma nat_str_nonempty [simp]: "nat_str n \<noteq> []"
  by (subst nat_str.simps) simp

lemma nat_str_inj: "nat_str m = nat_str n \<longleftrightarrow> m = n"
  by (metis digits_val_nat_str)

section \<open>Property order of objects\<close>

text \<open>
  An own key that is a canonical array index (a decimal numeral without leading zeros, below
  \<open>2\<^sup>3\<^sup>2 - 1\<close>) is enumerated before every other key, in ascending order; the
  other keys follow in insertion order.
\<close>

definition index_key :: "jstring \<Rightarrow> nat option" where
  "index_key k = (if k \<noteq> [] \<and> list_all is_digit k \<and> int (digits_val k) < 2 ^ 32 - 1 \<and> nat_str (digits_val k) = k
     then Some (digits_val k) else None)"

fun insert_key :: "jstring \<Rightarrow> 'v \<Rightarrow> (jstring \<times> 'v) list \<Rightarrow> (jstring \<times> 'v) list" where
  "insert_key k v [] = [(k, v)]"
| "insert_key k v ((k', v') # ps) =
     (case (index_key k, index_key k') of
        (Some i, None) \<Rightarrow> (k, v) # (k', v') # ps
      | (Some i, Some j) \<Rightarrow>
          if i < j then (k, v) # (k', v') # ps else (k', v') # insert_key k v ps
      | (None, _) \<Rightarrow> (k', v') # insert_key k v ps)"

fun replace_key :: "'k \<Rightarrow> 'v \<Rightarrow> ('k \<times> 'v) list \<Rightarrow> ('k \<times> 'v) list" where
  "replace_key k v [] = []"
| "replace_key k v ((k', v') # ps) =
     (if k = k' then (k', v) # ps else (k', v') # replace_key k v ps)"

text \<open>\<open>obj[k] = v\<close>\<close>

definition obj_put :: "jstring \<Rightarrow> 'v \<Rightarrow> (jstring \<times> 'v) list \<Rightarrow> (jstring \<times> 'v) list" where
  "obj_put k v ps = (if map_of ps k = None then insert_key k v ps else replace_key k v ps)"

declare index_key_def [js_eval] obj_put_def [js_eval]

lemma map_of_insert_key:
  "map_of ps k = None \<Longrightarrow> map_of (insert_key k v ps) = (map_of ps)(k \<mapsto> v)"
  by (induction k v ps rule: insert_key.induct) (auto split: option.splits if_splits)

lemma map_of_replace_key:
  "map_of ps k \<noteq> None \<Longrightarrow> map_of (replace_key k v ps) = (map_of ps)(k \<mapsto> v)"
  by (induction k v ps rule: replace_key.induct) (auto split: if_splits)

lemma map_of_obj_put [simp]: "map_of (obj_put k v ps) = (map_of ps)(k \<mapsto> v)"
  by (simp add: obj_put_def map_of_insert_key map_of_replace_key)

lemma set_keys_insert_key: "set (map fst (insert_key k v ps)) = insert k (set (map fst ps))"
  by (induction k v ps rule: insert_key.induct) (auto split: option.splits if_splits)

lemma keys_replace_key: "map fst (replace_key k v ps) = map fst ps"
  by (induction k v ps rule: replace_key.induct) auto

lemma distinct_insert_key:
  "k \<notin> set (map fst ps) \<Longrightarrow> distinct (map fst ps) \<Longrightarrow> distinct (map fst (insert_key k v ps))"
  by (induction k v ps rule: insert_key.induct)
    (auto simp: set_keys_insert_key simp del: set_map split: option.splits if_splits)

lemma distinct_obj_put: "distinct (map fst ps) \<Longrightarrow> distinct (map fst (obj_put k v ps))"
  by (simp add: obj_put_def keys_replace_key distinct_insert_key map_of_eq_None_iff)

section \<open>The parser\<close>

definition is_json_ws :: "jchar \<Rightarrow> bool" where
  "is_json_ws c \<longleftrightarrow> c \<in> {9, 10, 13, 32}"

definition skip_ws :: "jstring \<Rightarrow> jstring" where
  "skip_ws s = dropWhile is_json_ws s"

definition hex_val :: "jchar \<Rightarrow> nat option" where
  "hex_val c = (if is_digit c then Some (unat c - 48)
     else if 65 \<le> c \<and> c \<le> 70 then Some (unat c - 55)
     else if 97 \<le> c \<and> c \<le> 102 then Some (unat c - 87) else None)"

definition hex4 :: "jchar \<Rightarrow> jchar \<Rightarrow> jchar \<Rightarrow> jchar \<Rightarrow> jchar option" where
  "hex4 a b c d = (case (hex_val a, hex_val b, hex_val c, hex_val d) of
     (Some i, Some j, Some k, Some l) \<Rightarrow> Some (of_nat (4096 * i + 256 * j + 16 * k + l))
   | _ \<Rightarrow> None)"

definition simple_escape :: "jchar \<Rightarrow> jchar option" where
  "simple_escape e = (if e = 34 then Some 34 else if e = 92 then Some 92 else if e = 47 then Some 47
     else if e = 98 then Some 8 else if e = 102 then Some 12 else if e = 110 then Some 10
     else if e = 114 then Some 13 else if e = 116 then Some 9 else None)"

text \<open>A string after its opening quote: the contents and what follows the closing quote.\<close>

fun p_str :: "jstring \<Rightarrow> (jstring \<times> jstring) option" where
  "p_str [] = None"
| "p_str (x # s) =
     (if x = 34 then Some ([], s)
      else if x < 32 then None
      else if x \<noteq> 92 then map_option (\<lambda>(t, r). (x # t, r)) (p_str s)
      else case s of
        [] \<Rightarrow> None
      | e # s1 \<Rightarrow>
          if e = 117 then
            (case s1 of
               a # b # c # d # s2 \<Rightarrow>
                 (case hex4 a b c d of
                    None \<Rightarrow> None
                  | Some y \<Rightarrow> map_option (\<lambda>(t, r). (y # t, r)) (p_str s2))
             | _ \<Rightarrow> None)
          else (case simple_escape e of
                  None \<Rightarrow> None
                | Some y \<Rightarrow> map_option (\<lambda>(t, r). (y # t, r)) (p_str s1)))"

text \<open>Numbers: an integer part without leading zeros, an optional fraction, an optional exponent.\<close>

definition p_int :: "jstring \<Rightarrow> (nat \<times> jstring) option" where
  "p_int s = (let ds = takeWhile is_digit s in
     if ds = [] then None
     else if hd ds = 48 then Some (0, tl s)
     else Some (digits_val ds, drop (length ds) s))"

definition p_frac :: "jstring \<Rightarrow> (rat \<times> jstring) option" where
  "p_frac s = (case s of
     c # r \<Rightarrow>
       if c = 46 then
         (let ds = takeWhile is_digit r in
          if ds = [] then None
          else Some (of_nat (digits_val ds) / 10 ^ length ds, drop (length ds) r))
       else Some (0, s)
   | [] \<Rightarrow> Some (0, s))"

definition p_exp :: "jstring \<Rightarrow> (rat \<times> jstring) option" where
  "p_exp s = (case s of
     c # r \<Rightarrow>
       if c = 101 \<or> c = 69 then
         (let neg = (r \<noteq> [] \<and> hd r = 45);
              r' = (if r \<noteq> [] \<and> (hd r = 43 \<or> hd r = 45) then tl r else r);
              ds = takeWhile is_digit r' in
          if ds = [] then None
          else Some (if neg then 1 / 10 ^ digits_val ds else 10 ^ digits_val ds, drop (length ds) r'))
       else Some (1, s)
   | [] \<Rightarrow> Some (1, s))"

definition p_num :: "jstring \<Rightarrow> (rat \<times> jstring) option" where
  "p_num s = (let neg = (s \<noteq> [] \<and> hd s = 45); s0 = (if neg then tl s else s) in
     case p_int s0 of
       None \<Rightarrow> None
     | Some (i, s1) \<Rightarrow>
         (case p_frac s1 of
            None \<Rightarrow> None
          | Some (f, s2) \<Rightarrow>
              (case p_exp s2 of
                 None \<Rightarrow> None
               | Some (e, s3) \<Rightarrow> Some ((if neg then - 1 else 1) * (of_nat i + f) * e, s3))))"

lemma skip_ws_length: "length (skip_ws s) \<le> length s"
  by (simp add: skip_ws_def length_dropWhile_le)

lemma skip_ws_Cons: "skip_ws s = c # r \<Longrightarrow> length r < length s"
  using skip_ws_length [of s] by simp

lemma p_str_length: "p_str s = Some (t, r) \<Longrightarrow> length r < length s"
proof (induction "length s" arbitrary: s t rule: less_induct)
  case less
  show ?case
  proof (cases s)
    case Nil
    with less.prems show ?thesis by simp
  next
    case (Cons x s')
    have shorter: "length r < length u" if "p_str u = Some (v, r)" "length u < length s" for u v
      using less.hyps that by blast
    from less.prems Cons show ?thesis
      by (auto split: if_splits list.splits option.splits dest!: shorter)
  qed
qed

text \<open>
  Values, array elements and object members. The guards \<open>length r < length s\<close> only make the
  recursion evidently terminating; \<open>p_value_length\<close> below shows that they always hold.
\<close>

function (sequential)
  p_value :: "jstring \<Rightarrow> (json \<times> jstring) option" and
  p_elems :: "jstring \<Rightarrow> (json list \<times> jstring) option" and
  p_members :: "jstring \<Rightarrow> ((jstring \<times> json) list \<times> jstring) option" where
  "p_value s = (case skip_ws s of
     [] \<Rightarrow> None
   | c # r \<Rightarrow>
       if c = 123 then
         (case skip_ws r of
            [] \<Rightarrow> None
          | d # r' \<Rightarrow> if d = 125 then Some (JObj [], r')
              else map_option (\<lambda>(ms, z). (JObj (foldl (\<lambda>ps (k, v). obj_put k v ps) [] ms), z))
                     (p_members r))
       else if c = 91 then
         (case skip_ws r of
            [] \<Rightarrow> None
          | d # r' \<Rightarrow> if d = 93 then Some (JArr [], r')
              else map_option (\<lambda>(vs, z). (JArr vs, z)) (p_elems r))
       else if c = 34 then map_option (\<lambda>(t, z). (JStr t, z)) (p_str r)
       else if prefix (js ''true'') (c # r) then Some (JBool True, drop 3 r)
       else if prefix (js ''false'') (c # r) then Some (JBool False, drop 4 r)
       else if prefix (js ''null'') (c # r) then Some (JNull, drop 3 r)
       else map_option (\<lambda>(n, z). (JNum n, z)) (p_num (c # r)))"
| "p_elems s = (case p_value s of
     None \<Rightarrow> None
   | Some (v, r) \<Rightarrow>
       (case skip_ws r of
          [] \<Rightarrow> None
        | c # r' \<Rightarrow>
            if c = 44 \<and> length r < length s then map_option (\<lambda>(vs, z). (v # vs, z)) (p_elems r')
            else if c = 93 then Some ([v], r') else None))"
| "p_members s = (case skip_ws s of
     [] \<Rightarrow> None
   | q # s1 \<Rightarrow>
       if q \<noteq> 34 then None
       else (case p_str s1 of
          None \<Rightarrow> None
        | Some (k, s2) \<Rightarrow>
            (case skip_ws s2 of
               [] \<Rightarrow> None
             | c # s3 \<Rightarrow>
                 if c \<noteq> 58 \<or> \<not> length s3 < length s then None
                 else (case p_value s3 of
                    None \<Rightarrow> None
                  | Some (v, r) \<Rightarrow>
                      (case skip_ws r of
                         [] \<Rightarrow> None
                       | d # r' \<Rightarrow>
                           if d = 44 \<and> length r < length s3 then
                             map_option (\<lambda>(ms, z). ((k, v) # ms, z)) (p_members r')
                           else if d = 125 then Some ([(k, v)], r') else None)))))"
  by pat_completeness auto
termination
  by (relation "measures [case_sum length (case_sum length length), case_sum (\<lambda>_. 0) (\<lambda>_. 1)]")
    (auto dest!: skip_ws_Cons)

declare p_value.simps [simp del] p_elems.simps [simp del] p_members.simps [simp del]

lemma p_num_length: "p_num (c # r) = Some (n, z) \<Longrightarrow> length z < length (c # r)"
proof -
  have int: "length z < length u" if "p_int u = Some (i, z)" for u i z
    using that by (cases u) (auto simp: p_int_def Let_def split: if_splits)
  have frac: "length z \<le> length u" if "p_frac u = Some (f, z)" for u f z
    using that by (cases u) (auto simp: p_frac_def Let_def split: if_splits)
  have exp: "length z \<le> length u" if "p_exp u = Some (e, z)" for u e z
    using that by (cases u) (auto simp: p_exp_def Let_def split: if_splits)
  assume "p_num (c # r) = Some (n, z)"
  then show ?thesis
    by (auto simp: p_num_def Let_def split: option.splits if_splits dest!: int frac exp)
qed

lemma p_value_length: "p_value s = Some (v, r) \<Longrightarrow> length r < length s"
  and p_elems_length: "p_elems s = Some (vs, r) \<Longrightarrow> length r < length s"
  and p_members_length: "p_members s = Some (ms, r) \<Longrightarrow> length r < length s"
proof (induction s and s and s arbitrary: v r and vs r and ms r rule: p_value_p_elems_p_members.induct)
  case (1 s)
  show ?case
  proof (cases "skip_ws s")
    case Nil
    with "1.prems" show ?thesis by (simp add: p_value.simps [of s])
  next
    case (Cons c u)
    have "length r < length (c # u)"
      using "1.prems" "1.IH" [OF Cons] Cons
      by (auto simp: p_value.simps [of s] js_def prefix_def split: if_splits list.splits
          dest!: p_str_length p_num_length dest: skip_ws_Cons intro: less_SucI)
    then show ?thesis using skip_ws_length [of s] Cons by simp
  qed
next
  case (2 s)
  from "2.prems" obtain v u c u' where u: "p_value s = Some (v, u)" "skip_ws u = c # u'"
    and rest: "(if c = 44 \<and> length u < length s then map_option (\<lambda>(vs, z). (v # vs, z)) (p_elems u')
      else if c = 93 then Some ([v], u') else None) = Some (vs, r)"
    by (subst (asm) p_elems.simps) (auto split: option.splits list.splits)
  have "length u < length s" "length u' < length u"
    using "2.IH"(1) [OF u(1)] skip_ws_Cons [OF u(2)] by simp_all
  with rest "2.IH"(2) [OF u(1) refl u(2)] show ?case
    by (fastforce split: if_splits)
next
  case (3 s)
  from "3.prems" obtain s1 k s2 s3 v u d u' where s1: "skip_ws s = 34 # s1" and s2: "p_str s1 = Some (k, s2)"
    and s3: "skip_ws s2 = 58 # s3" "length s3 < length s" and u: "p_value s3 = Some (v, u)" "skip_ws u = d # u'"
    and rest: "(if d = 44 \<and> length u < length s3 then map_option (\<lambda>(ms, z). ((k, v) # ms, z)) (p_members u')
      else if d = 125 then Some ([(k, v)], u') else None) = Some (ms, r)"
    by (subst (asm) p_members.simps) (auto split: option.splits list.splits if_splits)
  have "length u < length s3" "length u' < length u"
    using "3.IH"(1) [OF s1 _ s2 refl s3(1) _ u(1)] s3(2) skip_ws_Cons [OF u(2)] by simp_all
  with rest s3(2) "3.IH"(2) [OF s1 _ s2 refl s3(1) _ u(1) refl u(2)] show ?case
    by (fastforce split: if_splits)
qed

definition JSON_parse :: "jstring \<Rightarrow> json option" where
  "JSON_parse s = (case p_value s of
     None \<Rightarrow> None
   | Some (v, r) \<Rightarrow> if skip_ws r = [] then Some v else None)"

section \<open>Property access\<close>

text \<open>
  \<open>v.k\<close> for a value that is not \<open>null\<close>: own properties of objects, indices and
  \<open>length\<close> of arrays and strings, \<open>undefined\<close> (\<open>None\<close>) otherwise; and
  \<open>v?.k\<close>, which is \<open>undefined\<close> on \<open>null\<close> and \<open>undefined\<close>. Keys inherited from a prototype
  (\<open>constructor\<close>, \<open>toString\<close>) are outside the model: the code asks for none of them.
\<close>

fun js_prop :: "json \<Rightarrow> jstring \<Rightarrow> json option" where
  "js_prop (JObj ps) k = map_of ps k"
| "js_prop (JArr xs) k = (case index_key k of
     Some i \<Rightarrow> if i < length xs then Some (xs ! i) else None
   | None \<Rightarrow> if k = js ''length'' then Some (JNum (of_nat (length xs))) else None)"
| "js_prop (JStr s) k = (case index_key k of
     Some i \<Rightarrow> if i < length s then Some (JStr [s ! i]) else None
   | None \<Rightarrow> if k = js ''length'' then Some (JNum (of_nat (length s))) else None)"
| "js_prop _ k = None"

definition opt_prop :: "json option \<Rightarrow> jstring \<Rightarrow> json option" where
  "opt_prop v k = (case v of None \<Rightarrow> None | Some JNull \<Rightarrow> None | Some w \<Rightarrow> js_prop w k)"

definition truthy_opt :: "json option \<Rightarrow> bool" where
  "truthy_opt v = (case v of None \<Rightarrow> False | Some w \<Rightarrow> truthy w)"

text \<open>
  The ways in which reading a parsed value can go wrong. \<open>IllTyped\<close> is not an exception of the
  program: it marks a value outside the TypeScript type the code casts the value to.
\<close>

datatype js_error = SyntaxError | TypeError | IllTyped

text \<open>A property declared \<open>string\<close> that is tested for truthiness before it is used.\<close>

definition string_or_falsy :: "json option \<Rightarrow> js_error + jstring option" where
  "string_or_falsy v = (case v of
     Some (JStr s) \<Rightarrow> Inr (if s = [] then None else Some s)
   | _ \<Rightarrow> if truthy_opt v then Inl IllTyped else Inr None)"

declare opt_prop_def [js_eval] truthy_opt_def [js_eval] string_or_falsy_def [js_eval]

lemma string_or_falsy_nonempty: "string_or_falsy v = Inr (Some s) \<Longrightarrow> s \<noteq> []"
  by (auto simp: string_or_falsy_def split: option.splits json.splits if_splits)

text \<open>
  \<open>v || d\<close>; \<open>v.k\<close> where \<open>v\<close> may be \<open>null\<close>, which throws; and \<open>v.trim()\<close>, which throws unless \<open>v\<close> is a
  string, since no property of a parsed value is callable.
\<close>

definition or_json :: "json option \<Rightarrow> json \<Rightarrow> json" where
  "or_json v d = (if truthy_opt v then the v else d)"

definition get_prop :: "json \<Rightarrow> jstring \<Rightarrow> js_error + json option" where
  "get_prop v k = (if v = JNull then Inl TypeError else Inr (js_prop v k))"

fun trim_json :: "json \<Rightarrow> js_error + jstring" where
  "trim_json (JStr s) = Inr (trim s)"
| "trim_json _ = Inl TypeError"

declare or_json_def [js_eval] get_prop_def [js_eval]

lemma or_json_idem [simp]: "or_json (Some (or_json v d)) d = or_json v d"
  by (simp add: or_json_def truthy_opt_def split: option.splits)

lemma or_json_truthy: "truthy d \<Longrightarrow> truthy (or_json v d)"
  by (simp add: or_json_def truthy_opt_def split: option.splits)

section \<open>Conversion to strings\<close>

text \<open>
  \<open>String(v)\<close> and template literals on a parsed value. The decimal notation of a number
  (\<open>Number.prototype.toString\<close>) is the parameter \<open>num_str\<close>. An object is printed as
  \<open>[object Object]\<close>, unless it has an own property \<open>toString\<close>: a parsed value is never
  callable, so the conversion throws. An array prints its elements, \<open>null\<close> as the empty string.
\<close>

fun to_string :: "(jnum \<Rightarrow> jstring) \<Rightarrow> json \<Rightarrow> js_error + jstring" and
  elem_strings :: "(jnum \<Rightarrow> jstring) \<Rightarrow> json list \<Rightarrow> js_error + jstring list" where
  "to_string num_str JNull = Inr (js ''null'')"
| "to_string num_str (JBool b) = Inr (if b then js ''true'' else js ''false'')"
| "to_string num_str (JNum n) = Inr (num_str n)"
| "to_string num_str (JStr s) = Inr s"
| "to_string num_str (JObj ps) =
     (if map_of ps (js ''toString'') \<noteq> None then Inl TypeError else Inr (js ''[object Object]''))"
| "to_string num_str (JArr vs) = map_sum id (join (js '','')) (elem_strings num_str vs)"
| "elem_strings num_str [] = Inr []"
| "elem_strings num_str (v # vs) =
     (case (if v = JNull then Inr [] else to_string num_str v) of
        Inl e \<Rightarrow> Inl e
      | Inr s \<Rightarrow> map_sum id ((#) s) (elem_strings num_str vs))"


section \<open>Conversion to numbers\<close>

text \<open>
  \<open>Number(v)\<close>; \<open>None\<close> stands for \<open>NaN\<close> and the infinities, which the modelled code treats alike. A string is
  read as a decimal literal (leading zeros and a missing part before or after the point are allowed), or
  as a hexadecimal, octal or binary one; blank strings are \<open>0\<close>. Arrays and objects are first converted to
  strings.
\<close>

definition decimal_literal :: "jstring \<Rightarrow> jnum option" where
  "decimal_literal s =
     (let neg = (s \<noteq> [] \<and> hd s = 45); t = (if s \<noteq> [] \<and> (hd s = 43 \<or> hd s = 45) then tl s else s);
          ds = takeWhile is_digit t; r = dropWhile is_digit t;
          dot = (r \<noteq> [] \<and> hd r = 46);
          fs = (if dot then takeWhile is_digit (tl r) else []); r1 = (if dot then dropWhile is_digit (tl r) else r) in
      if ds = [] \<and> fs = [] then None
      else (case p_exp r1 of
          Some (e, []) \<Rightarrow> Some ((if neg then - 1 else 1) * (of_nat (digits_val ds) + of_nat (digits_val fs) / 10 ^ length fs) * e)
        | _ \<Rightarrow> None))"

definition radix_literal :: "nat \<Rightarrow> jstring \<Rightarrow> jnum option" where
  "radix_literal base ds =
     (if ds \<noteq> [] \<and> list_all (\<lambda>c. case hex_val c of None \<Rightarrow> False | Some v \<Rightarrow> v < base) ds
      then Some (of_nat (foldl (\<lambda>n c. base * n + the (hex_val c)) 0 ds)) else None)"

definition string_number :: "jstring \<Rightarrow> jnum option" where
  "string_number s =
     (let t = trim s; radix = take 2 t in
      if t = [] then Some 0
      else if radix = js ''0x'' \<or> radix = js ''0X'' then radix_literal 16 (drop 2 t)
      else if radix = js ''0o'' \<or> radix = js ''0O'' then radix_literal 8 (drop 2 t)
      else if radix = js ''0b'' \<or> radix = js ''0B'' then radix_literal 2 (drop 2 t)
      else decimal_literal t)"

fun to_number :: "(jnum \<Rightarrow> jstring) \<Rightarrow> json \<Rightarrow> js_error + jnum option" where
  "to_number num_str JNull = Inr (Some 0)"
| "to_number num_str (JBool b) = Inr (Some (if b then 1 else 0))"
| "to_number num_str (JNum n) = Inr (Some n)"
| "to_number num_str (JStr s) = Inr (string_number s)"
| "to_number num_str v = map_sum id string_number (to_string num_str v)"

text \<open>\<open>Number.isInteger(n)\<close> and \<open>lo <= n <= hi\<close>\<close>

definition integer_between :: "int \<Rightarrow> int \<Rightarrow> jnum option \<Rightarrow> bool" where
  "integer_between lo hi n = (case n of None \<Rightarrow> False | Some q \<Rightarrow> of_int \<lfloor>q\<rfloor> = q \<and> of_int lo \<le> q \<and> q \<le> of_int hi)"

section \<open>Letter case\<close>

text \<open>
  Upper and lower case of ASCII letters. The code compares the results with ASCII words only, and no
  other character has one of their letters as its upper or lower case.
\<close>

definition ascii_lower :: "jstring \<Rightarrow> jstring" where
  "ascii_lower s = map (\<lambda>c. if 65 \<le> c \<and> c \<le> 90 then c + 32 else c) s"

definition ascii_upper :: "jstring \<Rightarrow> jstring" where
  "ascii_upper s = map (\<lambda>c. if 97 \<le> c \<and> c \<le> 122 then c - 32 else c) s"

end
