(* ===== verification/Stream_Protocol.thy ===== *)
theory Stream_Protocol
  imports Messages JS_Json
begin

text \<open>
  The small pure functions around the chat requests: \<open>lib/streaming/stream-utils.ts\<close> (the data of
  server-sent events), \<open>lib/streaming/request-error-utils.ts\<close>, and the option and input helpers
  (\<open>lib/options/playground-option-utils.ts\<close>, \<open>lib/input/input-control-utils.ts\<close>).
\<close>

section \<open>\<open>stream-utils.ts\<close>\<close>

definition STREAM_DONE_MESSAGE :: jstring where
  "STREAM_DONE_MESSAGE = js ''[DONE]''"

definition STREAM_CLOSED_READY_STATE :: int where
  "STREAM_CLOSED_READY_STATE = 2"

datatype StreamUpdateType = Reasoning | Content

record StreamMessageUpdate =
  su_type :: StreamUpdateType
  su_chunk :: jstring

record StreamErrorDetails =
  sed_errorCode :: "jstring option"
  sed_errorMessage :: jstring

definition parseStreamErrorDetails :: "jstring option \<Rightarrow> js_error + StreamErrorDetails" where
  "parseStreamErrorDetails data =
     (let fallbackMessage = or_str data API_REQUEST_ERROR;
          fallback = \<lparr>sed_errorCode = None, sed_errorMessage = fallbackMessage\<rparr> in
      case truthy_str data of
        None \<Rightarrow> Inr fallback
      | Some d \<Rightarrow>
          (case JSON_parse d of
             None \<Rightarrow> Inr fallback
           | Some parsed \<Rightarrow>
               (let error = opt_prop (Some parsed) (js ''error'') in
                if \<not> truthy_opt error then Inr fallback
                else (case (string_or_falsy (opt_prop error (js ''code'')),
                            string_or_falsy (opt_prop error (js ''message''))) of
                        (Inr code, Inr message) \<Rightarrow>
                          Inr \<lparr>sed_errorCode = code, sed_errorMessage = or_str message fallbackMessage\<rparr>
                      | _ \<Rightarrow> Inl IllTyped))))"

text \<open>
  \<open>chunk.choices\<close> throws on \<open>null\<close>; every further access is guarded by \<open>?.\<close>.
\<close>

definition chunk_delta :: "json \<Rightarrow> json option" where
  "chunk_delta chunk =
     opt_prop (opt_prop (js_prop chunk (js ''choices'')) (js ''0'')) (js ''delta'')"

definition parseStreamMessageUpdates :: "jstring \<Rightarrow> js_error + StreamMessageUpdate list" where
  "parseStreamMessageUpdates data = (case JSON_parse data of
     None \<Rightarrow> Inl SyntaxError
   | Some JNull \<Rightarrow> Inl TypeError
   | Some chunk \<Rightarrow>
       (let delta = chunk_delta chunk in
        if \<not> truthy_opt delta then Inr []
        else (case (string_or_falsy (opt_prop delta (js ''reasoning_content'')),
                    string_or_falsy (opt_prop delta (js ''content''))) of
                (Inr reasoning_content, Inr content) \<Rightarrow>
                  Inr ((case reasoning_content of None \<Rightarrow> []
                        | Some c \<Rightarrow> [\<lparr>su_type = Reasoning, su_chunk = c\<rparr>]) @
                       (case content of None \<Rightarrow> []
                        | Some c \<Rightarrow> [\<lparr>su_type = Content, su_chunk = c\<rparr>]))
              | _ \<Rightarrow> Inl IllTyped)))"

definition isStreamDoneMessage :: "jstring \<Rightarrow> bool" where
  "isStreamDoneMessage data \<longleftrightarrow> data = STREAM_DONE_MESSAGE"

definition isStreamClosedReadyState :: "int option \<Rightarrow> bool" where
  "isStreamClosedReadyState readyState \<longleftrightarrow> readyState = Some STREAM_CLOSED_READY_STATE"

definition getStreamReadyStateError :: "int option \<Rightarrow> int option \<Rightarrow> jstring option" where
  "getStreamReadyStateError eventReadyState status = (case (eventReadyState, status) of
     (Some rs, Some st) \<Rightarrow>
       if rs \<ge> STREAM_CLOSED_READY_STATE \<and> st \<noteq> 200
       then Some (js ''HTTP '' @ int_str st @ js '': '' @ CONNECTION_CLOSED) else None
   | _ \<Rightarrow> None)"

section \<open>\<open>request-error-utils.ts\<close>\<close>

text \<open>The properties of a rejected request that are read, along the optional chain.\<close>

record RequestErrorData =
  red_code :: "jstring option option"
  red_message :: "jstring option"

record RequestErrorLike =
  rel_message :: "jstring option"
  rel_data :: "RequestErrorData option"

record RequestErrorDetails =
  rd_errorCode :: "jstring option"
  rd_errorMessage :: jstring

definition parseRequestErrorDetails :: "RequestErrorLike option \<Rightarrow> RequestErrorDetails" where
  "parseRequestErrorDetails error =
     (let data = (case error of None \<Rightarrow> None | Some e \<Rightarrow> rel_data e);
          code = (case data of None \<Rightarrow> None | Some d \<Rightarrow> (case red_code d of None \<Rightarrow> None | Some c \<Rightarrow> c)) in
      \<lparr>rd_errorCode = truthy_str code,
       rd_errorMessage =
         or_str (case data of None \<Rightarrow> None | Some d \<Rightarrow> red_message d)
           (or_str (case error of None \<Rightarrow> None | Some e \<Rightarrow> rel_message e) API_REQUEST_ERROR)\<rparr>)"

section \<open>\<open>playground-option-utils.ts\<close>\<close>

definition getModelFallback :: "ModelOption list \<Rightarrow> jstring \<Rightarrow> jstring option" where
  "getModelFallback models currentModel =
     (let hasCurrentModel = list_ex (\<lambda>model. mo_value model = currentModel) models in
      if hasCurrentModel \<or> models = [] then None else Some (mo_value (hd models)))"

definition shouldClearModelForGroup :: "ModelOption list \<Rightarrow> jstring \<Rightarrow> bool" where
  "shouldClearModelForGroup models currentModel =
     (if currentModel = [] then False
      else \<not> list_ex (\<lambda>model. mo_value model = currentModel) models)"

definition getGroupFallback :: "GroupOption list \<Rightarrow> jstring \<Rightarrow> jstring option" where
  "getGroupFallback groups currentGroup =
     (let hasCurrentGroup = list_ex (\<lambda>group. go_value group = currentGroup) groups in
      if hasCurrentGroup \<or> groups = [] then None
      else Some (nullish (map_option go_value (find (\<lambda>group. go_value group = js ''default'') groups))
                   (go_value (hd groups))))"

text \<open>\<open>error\<close> is \<open>Some\<close> of the message when it is an instance of \<open>Error\<close>.\<close>

definition getOptionLoadErrorMessage :: "jstring option \<Rightarrow> jstring \<Rightarrow> jstring" where
  "getOptionLoadErrorMessage error fallbackMessage = nullish error fallbackMessage"

text \<open>
  The two effects of \<open>use-playground-options.ts\<close> on the configuration, run when the lists of models
  and groups arrive (and again after each change they make).
\<close>

definition modelsEffect :: "ModelOption list \<Rightarrow> PlaygroundConfig \<Rightarrow> PlaygroundConfig" where
  "modelsEffect modelsData config = (case truthy_str (getModelFallback modelsData (pc_model config)) of
     Some fallback \<Rightarrow> config\<lparr>pc_model := fallback\<rparr>
   | None \<Rightarrow> if shouldClearModelForGroup modelsData (pc_model config)
       then config\<lparr>pc_model := []\<rparr> else config)"

definition groupsEffect :: "GroupOption list \<Rightarrow> PlaygroundConfig \<Rightarrow> PlaygroundConfig" where
  "groupsEffect groupsData config = (case truthy_str (getGroupFallback groupsData (pc_group config)) of
     Some fallback \<Rightarrow> config\<lparr>pc_group := fallback\<rparr>
   | None \<Rightarrow> config)"

section \<open>\<open>input-control-utils.ts\<close>\<close>

record InputControlState =
  ic_canSubmit :: bool
  ic_isSelectorDisabled :: bool
  ic_shouldShowStop :: bool

definition getSubmittableInputText :: "jstring option \<Rightarrow> bool \<Rightarrow> jstring option" where
  "getSubmittableInputText txt disabled =
     (if disabled \<or> truthy_str (map_option trim txt) = None then None else txt)"

definition getInputControlState ::
    "bool \<Rightarrow> GroupOption list \<Rightarrow> bool \<Rightarrow> bool \<Rightarrow> bool \<Rightarrow> ModelOption list \<Rightarrow> jstring \<Rightarrow> InputControlState" where
  "getInputControlState disabled groups hasStopHandler isGenerating isModelLoading models txt =
     (let hasModels = (length models > 0) in
      \<lparr>ic_canSubmit = (\<not> disabled \<and> hasModels \<and> length (trim txt) > 0),
       ic_isSelectorDisabled = (disabled \<or> isModelLoading \<or> length groups = 0),
       ic_shouldShowStop = (isGenerating \<and> hasStopHandler)\<rparr>)"

section \<open>Lemmas\<close>

lemmas stream_protocol_defs [js_eval] =
  STREAM_DONE_MESSAGE_def STREAM_CLOSED_READY_STATE_def parseStreamErrorDetails_def
  parseStreamMessageUpdates_def chunk_delta_def isStreamDoneMessage_def

text \<open>Every update handed on carries text, reasoning before content.\<close>

lemma updates_shape:
  assumes "parseStreamMessageUpdates d = Inr us"
  shows "list_all (\<lambda>u. su_chunk u \<noteq> []) us \<and>
    map su_type us \<in> {[], [Reasoning], [Content], [Reasoning, Content]}"
proof -
  have ne: "string_or_falsy v \<noteq> Inr (Some [])" for v
    using string_or_falsy_nonempty by blast
  from assms show ?thesis
    unfolding parseStreamMessageUpdates_def Let_def
    by (auto split: option.splits json.splits if_splits sum.splits simp: ne dest: string_or_falsy_nonempty)
qed

text \<open>The options effects settle after one run: the second one changes nothing.\<close>

lemma some_value_fallback:
  "getModelFallback ms cur = Some v \<Longrightarrow> list_ex (\<lambda>m. mo_value m = v) ms"
  by (cases ms) (auto simp: getModelFallback_def Let_def split: if_splits)

lemma some_group_fallback:
  assumes "getGroupFallback gs cur = Some v"
  shows "list_ex (\<lambda>g. go_value g = v) gs"
proof -
  from assms have "gs \<noteq> []" and v: "v = nullish (map_option go_value
      (find (\<lambda>group. go_value group = js ''default'') gs)) (go_value (hd gs))"
    by (auto simp: getGroupFallback_def Let_def split: if_splits)
  then show ?thesis
    by (cases "find (\<lambda>group. go_value group = js ''default'') gs")
      (auto simp: list_ex_iff find_Some_iff intro: nth_mem)
qed

section \<open>Properties\<close>

text \<open>
  C37. What the effects that choose a model and a group do, exactly: an offered choice is kept; otherwise the first
  offered model is chosen, or none when none is offered, and the group \<open>default\<close> if it is offered, else the first
  group, unless its name is empty; nothing else of the configuration changes. Running them again changes nothing, so they
  settle after one run and cannot keep triggering each other.
\<close>

theorem option_effects_settle:
  "modelsEffect ms c = c\<lparr>pc_model :=
     (if pc_model c \<in> mo_value ` set ms then pc_model c else if ms = [] then [] else mo_value (hd ms))\<rparr> \<and>
   groupsEffect gs c = c\<lparr>pc_group :=
     (if pc_group c \<in> go_value ` set gs \<or> gs = [] then pc_group c
      else if js ''default'' \<in> go_value ` set gs then js ''default''
      else if go_value (hd gs) = [] then pc_group c else go_value (hd gs))\<rparr> \<and>
   modelsEffect ms (modelsEffect ms c) = modelsEffect ms c \<and> groupsEffect gs (groupsEffect gs c) = groupsEffect gs c"
proof (intro conjI)
  have ex: "list_ex (\<lambda>m. mo_value m = v) ms \<longleftrightarrow> v \<in> mo_value ` set ms" "list_ex (\<lambda>g. go_value g = v) gs \<longleftrightarrow> v \<in> go_value ` set gs" for v
    by (auto simp: list_ex_iff)
  show models: "modelsEffect ms c = c\<lparr>pc_model :=
      (if pc_model c \<in> mo_value ` set ms then pc_model c else if ms = [] then [] else mo_value (hd ms))\<rparr>" for c
  proof -
    have "getModelFallback ms x = (if x \<in> mo_value ` set ms \<or> ms = [] then None else Some (mo_value (hd ms)))"
      "shouldClearModelForGroup ms x \<longleftrightarrow> x \<noteq> [] \<and> x \<notin> mo_value ` set ms" for x
      by (simp_all add: getModelFallback_def shouldClearModelForGroup_def ex Let_def)
    moreover have "ms \<noteq> [] \<Longrightarrow> mo_value (hd ms) \<in> mo_value ` set ms" by simp
    ultimately show ?thesis
      by (cases c; cases "ms = []"; cases "pc_model c \<in> mo_value ` set ms") (auto simp: modelsEffect_def truthy_str_def)
  qed
  have default: "nullish (map_option go_value (find (\<lambda>g. go_value g = js ''default'') gs)) v =
      (if js ''default'' \<in> go_value ` set gs then js ''default'' else v)" for v
  proof (cases "find (\<lambda>g. go_value g = js ''default'') gs")
    case None
    then have "js ''default'' \<notin> go_value ` set gs" by (auto simp: find_None_iff)
    with None show ?thesis by simp
  next
    case (Some g)
    then have "g \<in> set gs" "go_value g = js ''default''" by (auto simp: find_Some_iff)
    with Some show ?thesis by force
  qed
  have "js ''default'' \<noteq> []" by (simp add: js_def)
  then show groups: "groupsEffect gs c = c\<lparr>pc_group :=
     (if pc_group c \<in> go_value ` set gs \<or> gs = [] then pc_group c
      else if js ''default'' \<in> go_value ` set gs then js ''default''
      else if go_value (hd gs) = [] then pc_group c else go_value (hd gs))\<rparr>" for c
    by (simp add: groupsEffect_def getGroupFallback_def truthy_str_def ex default Let_def)
  show "modelsEffect ms (modelsEffect ms c) = modelsEffect ms c"
    by (simp add: models)
  show "groupsEffect gs (groupsEffect gs c) = groupsEffect gs c"
    by (auto simp: groups)
qed

end
