(* ===== verification/JS_Regex.thy ===== *)
theory JS_Regex
  imports JS_Json
begin

text \<open>
  Regular expressions of ECMAScript by backtracking: the matcher of a pattern gets the state and a
  continuation for the rest of the pattern, tries its alternatives in order, and gives the first success. A
  state is the text before the position (reversed), the text after it and the captured groups. A group inside
  a repetition would keep its value from one round to the next; no pattern of the code has one.
\<close>

section \<open>The matcher\<close>

datatype rx =
    RxEmpty
  | RxChar "jchar \<Rightarrow> bool"
  | RxSeq rx rx
  | RxAlt rx rx
  | RxStar rx
  | RxGroup nat rx
  | RxBoundary
  | RxEnd
  | RxLineStart
  | RxLineEnd

type_synonym rx_state = "jstring \<times> jstring \<times> (nat \<times> jstring) list"

definition is_word :: "jchar \<Rightarrow> bool" where
  "is_word c \<longleftrightarrow> is_digit c \<or> 65 \<le> c \<and> c \<le> 90 \<or> 97 \<le> c \<and> c \<le> 122 \<or> c = 95"

definition at_boundary :: "rx_state \<Rightarrow> bool" where
  "at_boundary x = (case x of (past, rest, caps) \<Rightarrow>
     (past \<noteq> [] \<and> is_word (hd past)) \<noteq> (rest \<noteq> [] \<and> is_word (hd rest)))"

definition is_line_end :: "jchar \<Rightarrow> bool" where
  "is_line_end c \<longleftrightarrow> c \<in> {10, 13, 8232, 8233}"

text \<open>The rounds of a repetition; a round that consumes nothing is refused, so the fuel is never used up.\<close>

primrec rx_rounds :: "(rx_state \<Rightarrow> (rx_state \<Rightarrow> rx_state option) \<Rightarrow> rx_state option) \<Rightarrow> nat \<Rightarrow> rx_state \<Rightarrow>
    (rx_state \<Rightarrow> rx_state option) \<Rightarrow> rx_state option" where
  "rx_rounds m 0 x k = k x"
| "rx_rounds m (Suc n) x k =
     (case m x (\<lambda>y. if length (fst (snd y)) < length (fst (snd x)) then rx_rounds m n y k else None) of
        Some z \<Rightarrow> Some z | None \<Rightarrow> k x)"

primrec rx_match :: "rx \<Rightarrow> rx_state \<Rightarrow> (rx_state \<Rightarrow> rx_state option) \<Rightarrow> rx_state option" where
  "rx_match RxEmpty x k = k x"
| "rx_match (RxChar P) x k = (case x of (past, rest, caps) \<Rightarrow>
     (case rest of [] \<Rightarrow> None | c # s \<Rightarrow> if P c then k (c # past, s, caps) else None))"
| "rx_match (RxSeq a b) x k = rx_match a x (\<lambda>y. rx_match b y k)"
| "rx_match (RxAlt a b) x k = (case rx_match a x k of Some z \<Rightarrow> Some z | None \<Rightarrow> rx_match b x k)"
| "rx_match (RxStar a) x k = rx_rounds (rx_match a) (length (fst (snd x))) x k"
| "rx_match (RxGroup n a) x k = rx_match a x (\<lambda>(past, rest, caps).
     k (past, rest, (n, take (length (fst (snd x)) - length rest) (fst (snd x))) # caps))"
| "rx_match RxBoundary x k = (if at_boundary x then k x else None)"
| "rx_match RxEnd x k = (if fst (snd x) = [] then k x else None)"
| "rx_match RxLineStart x k = (if fst x = [] \<or> is_line_end (hd (fst x)) then k x else None)"
| "rx_match RxLineEnd x k = (if fst (snd x) = [] \<or> is_line_end (hd (fst (snd x))) then k x else None)"

section \<open>Notation\<close>

definition rx_text :: "jstring \<Rightarrow> rx" where
  "rx_text w = foldr (\<lambda>c r. RxSeq (RxChar (\<lambda>d. d = c)) r) w RxEmpty"

definition rx_seq :: "rx list \<Rightarrow> rx" where
  "rx_seq rs = foldr RxSeq rs RxEmpty"

fun rx_alts :: "rx list \<Rightarrow> rx" where
  "rx_alts [] = RxChar (\<lambda>_. False)"
| "rx_alts [r] = r"
| "rx_alts (r # rs) = RxAlt r (rx_alts rs)"

definition rx_many :: "(jchar \<Rightarrow> bool) \<Rightarrow> rx" where
  "rx_many P = RxStar (RxChar P)"

definition rx_some :: "(jchar \<Rightarrow> bool) \<Rightarrow> rx" where
  "rx_some P = RxSeq (RxChar P) (rx_many P)"

abbreviation rx_ws :: rx where
  "rx_ws \<equiv> rx_many is_ws"

definition rx_opt :: "rx \<Rightarrow> rx" where
  "rx_opt r = RxAlt r RxEmpty"

section \<open>Searching\<close>

text \<open>A pattern that begins with \<open>^\<close>.\<close>

definition rx_anchored :: "rx \<Rightarrow> jstring \<Rightarrow> (nat \<times> jstring) list option" where
  "rx_anchored r s = map_option (\<lambda>(past, rest, caps). caps) (rx_match r ([], s, []) Some)"

text \<open>The first match at or after a position, with the text that was passed over.\<close>

fun rx_search :: "rx \<Rightarrow> jstring \<Rightarrow> jstring \<Rightarrow> (jstring \<times> rx_state) option" where
  "rx_search r past s = (case rx_match r (past, s, []) Some of
     Some z \<Rightarrow> Some ([], z)
   | None \<Rightarrow> (case s of [] \<Rightarrow> None | c # s' \<Rightarrow> map_option (\<lambda>(skipped, z). (c # skipped, z)) (rx_search r (c # past) s')))"

declare rx_search.simps [simp del]

definition rx_test :: "rx \<Rightarrow> jstring \<Rightarrow> bool" where
  "rx_test r s \<longleftrightarrow> rx_search r [] s \<noteq> None"

text \<open>
  The loop over \<open>exec\<close> with the flag \<open>g\<close>. A match of the empty text would make it run forever; the recursion
  stops there, and \<open>rx_min\<close> shows that no pattern it is used for has such a match.
\<close>

function rx_all :: "rx \<Rightarrow> jstring \<Rightarrow> jstring \<Rightarrow> (nat \<times> jstring) list list" where
  "rx_all r past s = (case rx_search r past s of
     None \<Rightarrow> []
   | Some (skipped, past', rest, caps) \<Rightarrow> caps # (if length rest < length s then rx_all r past' rest else []))"
  by pat_completeness auto
termination by (relation "measure (\<lambda>(r, past, s). length s)") auto

declare rx_all.simps [simp del]

text \<open>\<open>s.split(r)\<close>, for a pattern without groups that matches no empty text.\<close>

function rx_split :: "rx \<Rightarrow> jstring \<Rightarrow> jstring \<Rightarrow> jstring list" where
  "rx_split r past s = (case rx_search r past s of
     None \<Rightarrow> [s]
   | Some (skipped, past', rest, caps) \<Rightarrow> if length rest < length s then skipped # rx_split r past' rest else [s])"
  by pat_completeness auto
termination by (relation "measure (\<lambda>(r, past, s). length s)") auto

declare rx_split.simps [simp del]

section \<open>What a match consumes\<close>

primrec rx_min :: "rx \<Rightarrow> nat" where
  "rx_min RxEmpty = 0"
| "rx_min (RxChar P) = 1"
| "rx_min (RxSeq a b) = rx_min a + rx_min b"
| "rx_min (RxAlt a b) = min (rx_min a) (rx_min b)"
| "rx_min (RxStar a) = 0"
| "rx_min (RxGroup n a) = rx_min a"
| "rx_min RxBoundary = 0"
| "rx_min RxEnd = 0"
| "rx_min RxLineStart = 0"
| "rx_min RxLineEnd = 0"

lemma rx_rounds_consumes:
  assumes "\<And>x k. m x k = Some z \<Longrightarrow> \<exists>y. k y = Some z \<and> length (fst (snd y)) \<le> length (fst (snd x))"
  shows "rx_rounds m n x k = Some z \<Longrightarrow> \<exists>y. k y = Some z \<and> length (fst (snd y)) \<le> length (fst (snd x))"
proof (induction n arbitrary: x)
  case (Suc n)
  show ?case
  proof (cases "m x (\<lambda>y. if length (fst (snd y)) < length (fst (snd x)) then rx_rounds m n y k else None)")
    case (Some w)
    with Suc.prems have "m x (\<lambda>y. if length (fst (snd y)) < length (fst (snd x)) then rx_rounds m n y k else None) = Some z"
      by simp
    from assms [OF this] obtain y where "rx_rounds m n y k = Some z" "length (fst (snd y)) < length (fst (snd x))"
      by (auto split: if_splits)
    then show ?thesis using Suc.IH [of y] by force
  next
    case None
    with Suc.prems have "k x = Some z" by simp
    then show ?thesis by blast
  qed
qed (auto simp del: split_paired_Ex)

declare split_paired_Ex [simp del] split_paired_All [simp del]

lemma rx_match_consumes:
  "rx_match r x k = Some z \<Longrightarrow> \<exists>y. k y = Some z \<and> length (fst (snd y)) + rx_min r \<le> length (fst (snd x))"
proof (induction r arbitrary: x k)
  case (RxChar P)
  obtain past rest caps where "x = (past, rest, caps)" by (cases x)
  with RxChar show ?case by (cases rest) (auto split: if_splits)
next
  case (RxSeq a b)
  then obtain y where "rx_match b y k = Some z" "length (fst (snd y)) + rx_min a \<le> length (fst (snd x))"
    using RxSeq.IH(1) [of x "\<lambda>y. rx_match b y k"] RxSeq.prems unfolding rx_match.simps by blast
  with RxSeq.IH(2) [of y k] show ?case by force
next
  case (RxAlt a b)
  then have "rx_match a x k = Some z \<or> rx_match b x k = Some z" by (auto split: option.splits)
  then show ?case using RxAlt.IH by fastforce
next
  case (RxStar a)
  then show ?case
    using rx_rounds_consumes [of "rx_match a" z "length (fst (snd x))" x k] by fastforce
next
  case (RxGroup n a)
  obtain y where "(\<lambda>(past, rest, caps). k (past, rest, (n, take (length (fst (snd x)) - length rest) (fst (snd x))) # caps)) y = Some z"
      "length (fst (snd y)) + rx_min a \<le> length (fst (snd x))"
    using RxGroup.IH [OF RxGroup.prems [unfolded rx_match.simps]] by blast
  then show ?case by (cases y) force
qed (auto split: if_splits)

text \<open>A match is found when some position succeeds, and it leaves less text if the pattern consumes something.\<close>

lemma rx_search_consumes:
  "rx_search r past s = Some (skipped, z) \<Longrightarrow> length (fst (snd z)) + rx_min r \<le> length s"
proof (induction r past s arbitrary: skipped rule: rx_search.induct)
  case (1 r past s)
  show ?case
  proof (cases "rx_match r (past, s, []) Some")
    case (Some w)
    then have "w = z"
      using "1.prems" by (simp add: rx_search.simps [of r past s])
    with rx_match_consumes [OF Some] show ?thesis by simp
  next
    case None
    then obtain c s' where s: "s = c # s'"
      using "1.prems" by (cases s) (auto simp: rx_search.simps [of r past "[]"])
    then obtain skipped' where "rx_search r (c # past) s' = Some (skipped', z)"
      using "1.prems" None s rx_search.simps [of r past s] by (cases "rx_search r (c # past) s'") auto
    with "1.IH" [OF None s] s show ?thesis by simp
  qed
qed

section \<open>First alternatives\<close>

text \<open>
  A state that a pattern reaches first, so that it is where the rest of the pattern continues if it succeeds
  from there; and a pattern that reaches none.
\<close>

definition rx_first :: "rx \<Rightarrow> rx_state \<Rightarrow> rx_state \<Rightarrow> bool" where
  "rx_first r x y \<longleftrightarrow> (\<forall>k z. k y = Some z \<longrightarrow> rx_match r x k = Some z)"

definition rx_fails :: "rx \<Rightarrow> rx_state \<Rightarrow> bool" where
  "rx_fails r x \<longleftrightarrow> (\<forall>k. rx_match r x k = None)"

lemma rx_first_match: "rx_first r x y \<Longrightarrow> rx_match r x Some = Some y"
  by (simp add: rx_first_def)

lemma rx_first_empty: "rx_first RxEmpty x x"
  by (simp add: rx_first_def)

lemma rx_first_seq: "rx_first a x y \<Longrightarrow> rx_first b y z \<Longrightarrow> rx_first (RxSeq a b) x z"
  by (simp add: rx_first_def)

lemma rx_first_alt1: "rx_first a x y \<Longrightarrow> rx_first (RxAlt a b) x y"
  by (simp add: rx_first_def)

lemma rx_first_alt2: "rx_fails a x \<Longrightarrow> rx_first b x y \<Longrightarrow> rx_first (RxAlt a b) x y"
  by (simp add: rx_first_def rx_fails_def)

lemma rx_first_opt1: "rx_first a x y \<Longrightarrow> rx_first (rx_opt a) x y"
  unfolding rx_opt_def by (rule rx_first_alt1)

lemma rx_first_opt2: "rx_fails a x \<Longrightarrow> rx_first (rx_opt a) x x"
  unfolding rx_opt_def by (rule rx_first_alt2) (auto intro: rx_first_empty)

lemma rx_first_group: "rx_first a (b, u @ s, cs) (b', s, cs') \<Longrightarrow> rx_first (RxGroup n a) (b, u @ s, cs) (b', s, (n, u) # cs')"
  by (simp add: rx_first_def)

lemma rx_first_end: "rx_first RxEnd (b, [], cs) (b, [], cs)"
  by (simp add: rx_first_def)

lemma rx_first_char: "P c \<Longrightarrow> rx_first (RxChar P) (b, c # s, cs) (c # b, s, cs)"
  by (simp add: rx_first_def)

lemma rx_first_text: "rx_first (rx_text w) (b, w @ s, cs) (rev w @ b, s, cs)"
  by (induction w arbitrary: b) (auto simp: rx_text_def rx_first_def)

lemma rx_first_many:
  assumes "list_all P u" "s = [] \<or> \<not> P (hd s)"
  shows "rx_first (rx_many P) (b, u @ s, cs) (rev u @ b, s, cs)"
proof -
  define m where "m = rx_match (RxChar P)"
  have m: "m (b, c # s, cs) k = (if P c then k (c # b, s, cs) else None)" "m (b, [], cs) k = None" for b c s k
    by (simp_all add: m_def)
  have "rx_rounds m n (b, u @ s, cs) k = Some z"
    if "length (u @ s) \<le> n" "k (rev u @ b, s, cs) = Some z" for n k z
    using assms(1) that
  proof (induction u arbitrary: b n)
    case Nil
    then show ?case using assms(2) by (cases n; cases s) (auto simp: m)
  next
    case (Cons c u)
    then show ?case by (cases n) (auto simp: m)
  qed
  then show ?thesis by (simp add: rx_first_def rx_many_def m_def del: rx_match.simps(2))
qed

lemma rx_first_some:
  assumes "list_all P u" "u \<noteq> []" "s = [] \<or> \<not> P (hd s)"
  shows "rx_first (rx_some P) (b, u @ s, cs) (rev u @ b, s, cs)"
proof -
  obtain c v where "u = c # v" using assms(2) by (cases u) auto
  moreover have "rx_first (RxChar P) (b, c # v @ s, cs) (c # b, v @ s, cs)"
    using assms(1) calculation by (intro rx_first_char) simp
  moreover have "rx_first (rx_many P) (c # b, v @ s, cs) (rev v @ c # b, s, cs)"
    using assms calculation(1) by (intro rx_first_many) auto
  ultimately show ?thesis unfolding rx_some_def by (auto intro: rx_first_seq)
qed

text \<open>White space that is a single blank, or none.\<close>

lemma rx_first_blank: "s = [] \<or> \<not> is_ws (hd s) \<Longrightarrow> rx_first rx_ws (b, 32 # s, cs) (32 # b, s, cs)"
  using rx_first_many [of is_ws "[32]" s b cs] by (simp add: is_ws_def)

lemma rx_first_none: "s = [] \<or> \<not> P (hd s) \<Longrightarrow> rx_first (rx_many P) (b, s, cs) (b, s, cs)"
  using rx_first_many [of P "[]" s b cs] by simp

lemma rx_fails_seq1: "rx_fails a x \<Longrightarrow> rx_fails (RxSeq a b) x"
  by (simp add: rx_fails_def)

lemma rx_fails_alt: "rx_fails a x \<Longrightarrow> rx_fails b x \<Longrightarrow> rx_fails (RxAlt a b) x"
  by (simp add: rx_fails_def)

lemma rx_fails_group: "rx_fails a x \<Longrightarrow> rx_fails (RxGroup n a) x"
  by (simp add: rx_fails_def)

lemma rx_fails_char: "s = [] \<or> \<not> P (hd s) \<Longrightarrow> rx_fails (RxChar P) (b, s, cs)"
  by (cases s) (auto simp: rx_fails_def)

lemma rx_fails_text: "\<not> prefix w s \<Longrightarrow> rx_fails (rx_text w) (b, s, cs)"
proof (induction w arbitrary: b s)
  case (Cons c w)
  have "rx_text (c # w) = RxSeq (RxChar (\<lambda>d. d = c)) (rx_text w)" by (simp add: rx_text_def)
  with Cons show ?case by (cases s) (auto simp: rx_fails_def)
qed simp

lemma rx_fails_text_seq: "(\<And>t. s = w @ t \<Longrightarrow> rx_fails r (rev w @ b, t, cs)) \<Longrightarrow> rx_fails (RxSeq (rx_text w) r) (b, s, cs)"
proof (induction w arbitrary: b s)
  case Nil
  then show ?case by (simp add: rx_text_def rx_fails_def)
next
  case (Cons c w)
  have expand: "rx_text (c # w) = RxSeq (RxChar (\<lambda>d. d = c)) (rx_text w)" by (simp add: rx_text_def)
  show ?case
  proof (cases "s \<noteq> [] \<and> hd s = c")
    case True
    then obtain s' where "s = c # s'" by (cases s) auto
    then show ?thesis using Cons.IH [of s' "c # b"] Cons.prems by (simp add: rx_fails_def expand)
  next
    case False
    then show ?thesis by (cases s) (auto simp: rx_fails_def expand)
  qed
qed

lemma rx_fails_many_seq:
  assumes "\<And>u v. s = u @ v \<Longrightarrow> list_all P u \<Longrightarrow> rx_fails r (rev u @ b, v, cs)"
  shows "rx_fails (RxSeq (rx_many P) r) (b, s, cs)"
proof -
  define m where "m = rx_match (RxChar P)"
  have m: "m (b, c # s, cs) k = (if P c then k (c # b, s, cs) else None)" "m (b, [], cs) k = None" for b c s k
    by (simp_all add: m_def)
  have "rx_rounds m n (b, s, cs) (\<lambda>y. rx_match r y k) = None" for n k
    using assms
  proof (induction n arbitrary: b s)
    case 0
    from "0.prems" [of "[]" s] show ?case by (simp add: rx_fails_def)
  next
    case (Suc n)
    have here: "rx_match r (b, s, cs) k = None"
      using Suc.prems [of "[]" s] by (simp add: rx_fails_def)
    show ?case
    proof (cases "s \<noteq> [] \<and> P (hd s)")
      case True
      then obtain c s' where s: "s = c # s'" "P c" by (cases s) auto
      have "rx_rounds m n (c # b, s', cs) (\<lambda>y. rx_match r y k) = None"
        by (rule Suc.IH) (use Suc.prems [of "c # u" for u] s in auto)
      with s here show ?thesis by (simp add: m)
    next
      case False
      with here show ?thesis by (cases s) (auto simp: m)
    qed
  qed
  then show ?thesis by (simp add: rx_fails_def rx_many_def m_def del: rx_match.simps(2))
qed

text \<open>After optional white space the next character must be the first one of a text.\<close>

lemma rx_fails_ws_text:
  assumes "s = u @ t" "list_all is_ws u" "t = [] \<or> \<not> is_ws (hd t)" "c # w = tx" "\<not> is_ws c" "\<not> prefix tx t"
  shows "rx_fails (RxSeq rx_ws (RxSeq (rx_text tx) r)) (b, s, cs)"
proof (rule rx_fails_many_seq)
  fix v z :: jstring assume "s = v @ z" "list_all is_ws v"
  have "\<not> prefix tx z"
  proof
    assume "prefix tx z"
    then obtain z' where z: "z = c # z'" "prefix w z'" using assms(4) by (cases z) auto
    have "v @ z = u @ t" using \<open>s = v @ z\<close> assms(1) by simp
    then consider e where "v = u @ e" "e @ z = t" | e where "v @ e = u" "z = e @ t"
      by (auto simp: append_eq_append_conv2)
    then show False
    proof cases
      case 1
      show False
      proof (cases e)
        case Nil
        with 1 \<open>prefix tx z\<close> assms(6) show False by simp
      next
        case (Cons d e')
        with 1 \<open>list_all is_ws v\<close> assms(3) show False by auto
      qed
    next
      case 2
      show False
      proof (cases e)
        case Nil
        with 2 \<open>prefix tx z\<close> assms(6) show False by simp
      next
        case (Cons d e')
        with 2 z(1) have "d = c" by simp
        with 2 Cons assms(2,5) show False by auto
      qed
    qed
  qed
  then show "rx_fails (RxSeq (rx_text tx) r) (rev v @ b, z, cs)"
    by (intro rx_fails_seq1 rx_fails_text)
qed

section \<open>Patterns on a text\<close>

text \<open>The pattern takes first exactly the text \<open>u\<close> when \<open>s\<close> follows, and leaves the groups \<open>cs'\<close>.\<close>

definition rx_takes :: "rx \<Rightarrow> jstring \<Rightarrow> jstring \<Rightarrow> (nat \<times> jstring) list \<Rightarrow> (nat \<times> jstring) list \<Rightarrow> bool" where
  "rx_takes r u s cs cs' \<longleftrightarrow> (\<forall>b. rx_first r (b, u @ s, cs) (rev u @ b, s, cs'))"

definition rx_stuck :: "rx \<Rightarrow> jstring \<Rightarrow> (nat \<times> jstring) list \<Rightarrow> bool" where
  "rx_stuck r s cs \<longleftrightarrow> (\<forall>b. rx_fails r (b, s, cs))"

lemma takes_empty: "rx_takes RxEmpty [] s cs cs"
  by (simp add: rx_takes_def rx_first_empty)

lemma takes_seq: "rx_takes a u (v @ s) cs cs1 \<Longrightarrow> rx_takes p v s cs1 cs2 \<Longrightarrow> rx_takes (RxSeq a p) (u @ v) s cs cs2"
  by (auto simp: rx_takes_def intro!: rx_first_seq)

lemma takes_list_Nil: "rx_takes (rx_seq []) [] s cs cs"
  by (simp add: rx_seq_def takes_empty)

lemma takes_list_Cons: "rx_takes a u (v @ s) cs cs1 \<Longrightarrow> rx_takes (rx_seq rs) v s cs1 cs2 \<Longrightarrow> rx_takes (rx_seq (a # rs)) (u @ v) s cs cs2"
  unfolding rx_seq_def by (auto intro: takes_seq)

lemma takes_list_one: "rx_takes a u s cs cs' \<Longrightarrow> rx_takes (rx_seq [a]) u s cs cs'"
  using takes_list_Cons [of a u "[]" s cs cs' "[]" cs'] takes_list_Nil by simp

lemma takes_text: "rx_takes (rx_text w) w s cs cs"
  by (simp add: rx_takes_def rx_first_text)

lemma takes_many: "list_all P u \<Longrightarrow> s = [] \<or> \<not> P (hd s) \<Longrightarrow> rx_takes (rx_many P) u s cs cs"
  by (simp add: rx_takes_def rx_first_many)

lemma takes_some: "list_all P u \<Longrightarrow> u \<noteq> [] \<Longrightarrow> s = [] \<or> \<not> P (hd s) \<Longrightarrow> rx_takes (rx_some P) u s cs cs"
  by (simp add: rx_takes_def rx_first_some)

lemma takes_blank: "s = [] \<or> \<not> is_ws (hd s) \<Longrightarrow> rx_takes rx_ws [32] s cs cs"
  by (rule takes_many) (simp_all add: is_ws_def)

lemma takes_group: "rx_takes a u s cs cs' \<Longrightarrow> rx_takes (RxGroup n a) u s cs ((n, u) # cs')"
  by (simp add: rx_takes_def rx_first_group)

lemma takes_opt: "rx_takes a u s cs cs' \<Longrightarrow> rx_takes (rx_opt a) u s cs cs'"
  by (simp add: rx_takes_def rx_first_opt1)

lemma takes_opt_none: "rx_stuck a s cs \<Longrightarrow> rx_takes (rx_opt a) [] s cs cs"
  by (simp add: rx_takes_def rx_stuck_def rx_first_opt2)

lemma takes_end: "rx_takes RxEnd [] [] cs cs"
  by (simp add: rx_takes_def rx_first_end)

lemma takes_final_end: "rx_takes (RxSeq RxEnd RxEmpty) [] [] cs cs"
  using takes_seq [of RxEnd "[]" "[]" "[]" cs cs RxEmpty cs] takes_end takes_empty by simp

lemma stuck_seq1: "rx_stuck a s cs \<Longrightarrow> rx_stuck (RxSeq a p) s cs"
  by (simp add: rx_stuck_def rx_fails_seq1)

lemma stuck_list_hd: "rx_stuck a s cs \<Longrightarrow> rx_stuck (rx_seq (a # rs)) s cs"
  by (simp add: rx_seq_def stuck_seq1)

lemma stuck_group: "rx_stuck a s cs \<Longrightarrow> rx_stuck (RxGroup n a) s cs"
  by (simp add: rx_stuck_def rx_fails_group)

lemma stuck_text: "\<not> prefix w s \<Longrightarrow> rx_stuck (rx_text w) s cs"
  by (simp add: rx_stuck_def rx_fails_text)

lemma stuck_text_seq: "(\<And>t. s = w @ t \<Longrightarrow> rx_stuck r t cs) \<Longrightarrow> rx_stuck (RxSeq (rx_text w) r) s cs"
  by (simp add: rx_stuck_def rx_fails_text_seq)

lemma stuck_group_text_seq: "(\<And>t. s = w @ t \<Longrightarrow> rx_stuck r t ((n, w) # cs)) \<Longrightarrow> rx_stuck (RxSeq (RxGroup n (rx_text w)) r) s cs"
proof -
  assume *: "\<And>t. s = w @ t \<Longrightarrow> rx_stuck r t ((n, w) # cs)"
  have txt_match: "rx_match (rx_text w) (b, s, cs) k = (if prefix w s then k (rev w @ b, drop (length w) s, cs) else None)" for b s k
    by (induction w arbitrary: b s) (auto simp: rx_text_def split: list.splits)
  show ?thesis
    using * by (auto simp: rx_stuck_def rx_fails_def txt_match prefix_def)
qed

lemma stuck_many_seq: "(\<And>u v. s = u @ v \<Longrightarrow> list_all P u \<Longrightarrow> rx_stuck r v cs) \<Longrightarrow> rx_stuck (RxSeq (rx_many P) r) s cs"
  unfolding rx_stuck_def by (intro allI rx_fails_many_seq) blast

lemma stuck_ws_text:
  "s = u @ t \<Longrightarrow> list_all is_ws u \<Longrightarrow> t = [] \<or> \<not> is_ws (hd t) \<Longrightarrow> \<not> is_ws c \<Longrightarrow> \<not> prefix (c # w) t \<Longrightarrow>
    rx_stuck (RxSeq rx_ws (RxSeq (rx_text (c # w)) r)) s cs"
  unfolding rx_stuck_def by (intro allI rx_fails_ws_text [OF _ _ _ refl])

lemma stuck_ws_some:
  assumes "s = [] \<or> \<not> is_ws (hd s) \<and> \<not> P (hd s)"
  shows "rx_stuck (RxSeq rx_ws (RxSeq (rx_some P) r)) s cs"
proof (rule stuck_many_seq)
  fix u v assume "s = u @ v" "list_all is_ws u"
  then have "u = []" using assms by (cases u) auto
  with \<open>s = u @ v\<close> assms have "v = [] \<or> \<not> P (hd v)" by auto
  then show "rx_stuck (RxSeq (rx_some P) r) v cs"
    unfolding rx_some_def by (intro stuck_seq1) (simp add: rx_stuck_def rx_fails_char)
qed

lemma stuck_ws_group_some:
  assumes "s = [] \<or> \<not> is_ws (hd s) \<and> \<not> P (hd s)"
  shows "rx_stuck (RxSeq rx_ws (RxSeq (RxGroup n (rx_some P)) r)) s cs"
proof (rule stuck_many_seq)
  fix u v assume "s = u @ v" "list_all is_ws u"
  then have "u = []" using assms by (cases u) auto
  with \<open>s = u @ v\<close> assms have "v = [] \<or> \<not> P (hd v)" by auto
  then show "rx_stuck (RxSeq (RxGroup n (rx_some P)) r) v cs"
    unfolding rx_some_def by (intro stuck_seq1 stuck_group) (simp add: rx_stuck_def rx_fails_char)
qed

lemma stuck_opt_seq: "rx_stuck a s cs \<Longrightarrow> rx_stuck r s cs \<Longrightarrow> rx_stuck (RxSeq (rx_opt a) r) s cs"
  by (simp add: rx_stuck_def rx_fails_def rx_opt_def)

text \<open>An alternative of texts, in the context of the rest of the pattern: all others are stuck.\<close>

lemma takes_alts_seq:
  assumes "v \<in> set vs" "rx_takes (RxSeq (rx_text v) r) u s cs cs'"
    "\<And>w. w \<in> set vs \<Longrightarrow> w \<noteq> v \<Longrightarrow> rx_stuck (RxSeq (rx_text w) r) (u @ s) cs"
  shows "rx_takes (RxSeq (rx_alts (map rx_text vs)) r) u s cs cs'"
  using assms
proof (induction vs)
  case (Cons w vs)
  show ?case
  proof (cases "w = v")
    case True
    then show ?thesis using Cons.prems(2) by (cases vs) (auto simp: rx_takes_def rx_first_def)
  next
    case False
    then have stuck: "rx_stuck (RxSeq (rx_text w) r) (u @ s) cs" and "v \<in> set vs"
      using Cons.prems by auto
    then obtain w' vs' where vs: "vs = w' # vs'" by (cases vs) auto
    have "rx_takes (RxSeq (rx_alts (map rx_text vs)) r) u s cs cs'"
      using Cons \<open>v \<in> set vs\<close> by auto
    with stuck vs show ?thesis
      by (simp add: rx_takes_def rx_first_def rx_stuck_def rx_fails_def)
  qed
qed simp

lemma takes_group_alts_seq:
  assumes "v \<in> set vs" "rx_takes (RxSeq (RxGroup n (rx_text v)) r) u s cs cs'"
    "\<And>w. w \<in> set vs \<Longrightarrow> w \<noteq> v \<Longrightarrow> rx_stuck (RxSeq (RxGroup n (rx_text w)) r) (u @ s) cs"
  shows "rx_takes (RxSeq (RxGroup n (rx_alts (map rx_text vs))) r) u s cs cs'"
  using assms
proof (induction vs)
  case (Cons w vs)
  show ?case
  proof (cases "w = v")
    case True
    then show ?thesis using Cons.prems(2) by (cases vs) (auto simp: rx_takes_def rx_first_def)
  next
    case False
    then have stuck: "rx_stuck (RxSeq (RxGroup n (rx_text w)) r) (u @ s) cs" and "v \<in> set vs"
      using Cons.prems by auto
    then obtain w' vs' where vs: "vs = w' # vs'" by (cases vs) auto
    have "rx_takes (RxSeq (RxGroup n (rx_alts (map rx_text vs))) r) u s cs cs'"
      using Cons \<open>v \<in> set vs\<close> by auto
    with stuck vs show ?thesis
      by (simp add: rx_takes_def rx_first_def rx_stuck_def rx_fails_def)
  qed
qed simp

lemma stuck_alts: "(\<And>w. w \<in> set vs \<Longrightarrow> \<not> prefix w s) \<Longrightarrow> rx_stuck (rx_alts (map rx_text vs)) s cs"
proof (induction vs)
  case Nil
  then show ?case by (cases s) (auto simp: rx_stuck_def rx_fails_def)
next
  case (Cons w vs)
  then have "rx_stuck (rx_text w) s cs" "rx_stuck (rx_alts (map rx_text vs)) s cs"
    by (auto intro: stuck_text)
  then show ?case by (cases vs) (auto simp: rx_stuck_def rx_fails_alt)
qed

lemma stuck_alts_seq:
  "(\<And>w. w \<in> set vs \<Longrightarrow> rx_stuck (RxSeq (rx_text w) r) s cs) \<Longrightarrow> rx_stuck (RxSeq (rx_alts (map rx_text vs)) r) s cs"
proof (induction vs)
  case Nil
  then show ?case by (cases s) (auto simp: rx_stuck_def rx_fails_def)
next
  case (Cons w vs)
  then have "rx_stuck (RxSeq (rx_text w) r) s cs" "rx_stuck (RxSeq (rx_alts (map rx_text vs)) r) s cs"
    by auto
  then show ?case by (cases vs) (auto simp: rx_stuck_def rx_fails_def)
qed

lemma anchored_takes: "rx_takes r u [] [] caps \<Longrightarrow> rx_anchored r u = Some caps"
proof -
  assume "rx_takes r u [] [] caps"
  then have "rx_first r ([], u @ [], []) (rev u @ [], [], caps)" unfolding rx_takes_def by blast
  from rx_first_match [OF this] show ?thesis by (simp add: rx_anchored_def)
qed

lemma anchored_stuck: "rx_stuck r s [] \<Longrightarrow> rx_anchored r s = None"
  by (simp add: rx_stuck_def rx_fails_def rx_anchored_def)

text \<open>Repetitions.\<close>

lemma rx_rounds_fuel:
  assumes "length (fst (snd x)) \<le> n"
  shows "rx_rounds (rx_match r) n x k = rx_rounds (rx_match r) (length (fst (snd x))) x k"
  using assms
proof (induction "length (fst (snd x))" arbitrary: x n rule: less_induct)
  case less
  let ?k = "\<lambda>n y. if length (fst (snd y)) < length (fst (snd x)) then rx_rounds (rx_match r) n y k else None"
  show ?case
  proof (cases "length (fst (snd x))")
    case 0
    have "rx_match r x (\<lambda>_. None) = None"
      using rx_match_consumes [of r x "\<lambda>_. None"] by (cases "rx_match r x (\<lambda>_. None)") auto
    with 0 show ?thesis by (cases n) (auto simp: less_eq_Suc_le)
  next
    case (Suc l)
    then obtain n' where n: "n = Suc n'" "l \<le> n'"
      using less.prems by (cases n) auto
    have "?k n' y = ?k l y" for y
    proof (cases "length (fst (snd y)) < length (fst (snd x))")
      case True
      then have "length (fst (snd y)) \<le> l" using Suc by simp
      then have "length (fst (snd y)) \<le> n'" using n(2) by simp
      from less.hyps [OF True this] less.hyps [OF True \<open>length (fst (snd y)) \<le> l\<close>]
      show ?thesis by simp
    qed simp
    then have "?k n' = ?k l" by blast
    with n Suc show ?thesis by simp
  qed
qed

lemma takes_star_Nil: "rx_stuck r s cs \<Longrightarrow> rx_takes (RxStar r) [] s cs cs"
proof -
  assume "rx_stuck r s cs"
  then have "rx_rounds (rx_match r) n (b, s, cs) k = k (b, s, cs)" for n b k
    by (cases n) (simp_all add: rx_stuck_def rx_fails_def)
  then show ?thesis by (simp add: rx_takes_def rx_first_def)
qed

lemma takes_star_Cons:
  assumes "rx_takes r u (v @ s) cs cs1" "u \<noteq> []" "rx_takes (RxStar r) v s cs1 cs2"
  shows "rx_takes (RxStar r) (u @ v) s cs cs2"
proof -
  have "rx_rounds (rx_match r) (length (u @ v @ s)) (b, u @ v @ s, cs) k = Some z" if "k (rev v @ rev u @ b, s, cs2) = Some z" for b k z
  proof -
    obtain n where n: "length (u @ v @ s) = Suc n" "length (v @ s) \<le> n"
      using assms(2) by (cases u) auto
    have "rx_rounds (rx_match r) n (rev u @ b, v @ s, cs1) k = Some z"
      using assms(3) that rx_rounds_fuel [of "(rev u @ b, v @ s, cs1)" n r k] n(2)
      by (simp add: rx_takes_def rx_first_def)
    then have "rx_match r (b, u @ v @ s, cs)
        (\<lambda>y. if length (fst (snd y)) < length (fst (snd (b, u @ v @ s, cs))) then rx_rounds (rx_match r) n y k else None) = Some z"
      using assms(1,2) by (simp add: rx_takes_def rx_first_def)
    then show ?thesis unfolding n(1) rx_rounds.simps by simp
  qed
  then show ?thesis by (simp add: rx_takes_def rx_first_def)
qed

text \<open>The loop over all matches.\<close>

lemma rx_all_skip:
  assumes "rx_fails r (b, c # s, [])" "0 < rx_min r"
  shows "rx_all r b (c # s) = rx_all r (c # b) s"
proof -
  have "rx_search r b (c # s) = map_option (\<lambda>(skipped, z). (c # skipped, z)) (rx_search r (c # b) s)"
    using assms(1) by (simp add: rx_search.simps [of r b "c # s"] rx_fails_def)
  moreover have "length rest < length s" if "rx_search r (c # b) s = Some (skipped, b', rest, caps)" for skipped b' rest caps
    using rx_search_consumes [OF that] assms(2) by simp
  ultimately have "rx_all r b (c # s) = (case rx_search r (c # b) s of
      None \<Rightarrow> [] | Some (skipped, past', rest, caps) \<Rightarrow> caps # (if length rest < length s then rx_all r past' rest else []))"
    unfolding rx_all.simps [of r b "c # s"] by (cases "rx_search r (c # b) s") (auto intro: less_SucI)
  then show ?thesis by (simp only: rx_all.simps [of r "c # b" s])
qed

lemma rx_all_here:
  assumes "rx_first r (b, u @ s, []) (b', s, caps)" "u \<noteq> []"
  shows "rx_all r b (u @ s) = caps # rx_all r b' s"
proof -
  have "rx_search r b (u @ s) = Some ([], b', s, caps)"
    using rx_first_match [OF assms(1)] by (simp add: rx_search.simps [of r b "u @ s"])
  then show ?thesis
    using assms(2) by (simp add: rx_all.simps [of r b "u @ s"])
qed

lemma rx_all_Nil: "0 < rx_min r \<Longrightarrow> rx_all r b [] = []"
proof -
  assume "0 < rx_min r"
  then have "rx_search r b [] = None"
    using rx_search_consumes [of r b "[]"] by (cases "rx_search r b []") auto
  then show ?thesis by (simp add: rx_all.simps [of r b "[]"])
qed

text \<open>The rules for quantified pairs are for the states of the matcher only.\<close>

declare split_paired_Ex [simp] split_paired_All [simp]

end
