(* ===== verification/Playground_Storage.thy ===== *)
theory Playground_Storage
  imports Streaming_Messages JS_Regex
begin

text \<open>
  \<open>features/playground/lib/storage/storage.ts\<close>, the part about messages: what is kept of the history when it is saved
  and what the next start of the page makes of it. The JSON text in between and the schema of
  \<open>storage-schema.ts\<close> are the identity on the values of the type \<open>Message\<close>; \<open>None\<close> is a store that has no readable
  messages: none saved, a text over \<open>MAX_STORED_MESSAGES_BYTES\<close>, or one that the schema refuses.
\<close>

section \<open>Limits\<close>

definition MAX_STORED_MESSAGES :: nat where
  "MAX_STORED_MESSAGES = 100"

definition MAX_LOADED_MESSAGES_CHARS :: nat where
  "MAX_LOADED_MESSAGES_CHARS = 120000"

definition MAX_LOADED_MESSAGE_CHARS :: nat where
  "MAX_LOADED_MESSAGE_CHARS = 40000"

definition TRUNCATED_CONTENT_SUFFIX :: jstring where
  "TRUNCATED_CONTENT_SUFFIX = 10 # 10 # js ''[...]''"

definition MIN_PREFIX_COLLAPSE_LENGTH :: nat where
  "MIN_PREFIX_COLLAPSE_LENGTH = 2000"

definition MIN_REPEATED_SECTION_COUNT :: nat where
  "MIN_REPEATED_SECTION_COUNT = 3"

text \<open>\<open>/^#{2,6}\s+\d+\.\s+.+$/gm\<close>\<close>

definition SECTION_HEADING_LINE_PATTERN :: rx where
  "SECTION_HEADING_LINE_PATTERN =
     (let hash = rx_text (js ''#'') in
      rx_seq [RxLineStart, hash, hash, rx_opt (RxSeq hash (rx_opt (RxSeq hash (rx_opt (RxSeq hash (rx_opt hash)))))),
        rx_some is_ws, rx_some is_digit, rx_text (js ''.''), rx_some is_ws, rx_some (\<lambda>c. \<not> is_line_end c), RxLineEnd])"

section \<open>Trimming\<close>

definition trimMessages :: "Message list \<Rightarrow> Message list" where
  "trimMessages messages =
     (if length messages \<le> MAX_STORED_MESSAGES then messages else drop (length messages - MAX_STORED_MESSAGES) messages)"

definition getMessageSize :: "Message \<Rightarrow> nat" where
  "getMessageSize m =
     (let versionsSize = foldl (\<lambda>size version. size + length (v_content version)) 0 (m_versions m);
          reasoningSize = nullish (map_option (\<lambda>r. length (r_content r)) (m_reasoning m)) 0 in
      versionsSize + reasoningSize)"

definition truncateText :: "jstring \<Rightarrow> nat \<Rightarrow> jstring" where
  "truncateText txt maxLength =
     (if length txt \<le> maxLength then txt
      else if maxLength \<le> length TRUNCATED_CONTENT_SUFFIX then take maxLength txt
      else take (maxLength - length TRUNCATED_CONTENT_SUFFIX) txt @ TRUNCATED_CONTENT_SUFFIX)"

text \<open>The loop from the last message backwards; \<open>result\<close> is already in the order of the history.\<close>

fun sizeTrimLoop :: "Message list \<Rightarrow> nat \<Rightarrow> Message list \<Rightarrow> Message list" where
  "sizeTrimLoop result totalSize [] = result"
| "sizeTrimLoop result totalSize (m # ms) =
     (let messageSize = getMessageSize m in
      if length result > 0 \<and> totalSize + messageSize > MAX_LOADED_MESSAGES_CHARS then result
      else sizeTrimLoop (m # result) (totalSize + messageSize) ms)"

definition trimMessagesByContentSize :: "Message list \<Rightarrow> Message list" where
  "trimMessagesByContentSize messages = sizeTrimLoop [] 0 (rev messages)"

section \<open>Repeated snapshots of the same sections\<close>

record SectionOccurrence =
  so_heading :: jstring
  so_index :: nat

text \<open>\<open>matchAll\<close>: every match with its index.\<close>

function sectionsFrom :: "jstring \<Rightarrow> jstring \<Rightarrow> SectionOccurrence list" where
  "sectionsFrom past s = (case rx_search SECTION_HEADING_LINE_PATTERN past s of
     None \<Rightarrow> []
   | Some (skipped, past', rest, caps) \<Rightarrow>
       \<lparr>so_heading = take (length s - length skipped - length rest) (drop (length skipped) s),
        so_index = length past + length skipped\<rparr> #
       (if length rest < length s then sectionsFrom past' rest else []))"
  by pat_completeness auto
termination by (relation "measure (\<lambda>(past, s). length s)") auto

declare sectionsFrom.simps [simp del]

definition getSectionOccurrences :: "jstring \<Rightarrow> SectionOccurrence list" where
  "getSectionOccurrences txt = sectionsFrom [] txt"

definition getHeadingCounts :: "SectionOccurrence list \<Rightarrow> jstring \<rightharpoonup> nat" where
  "getHeadingCounts occurrences =
     fold (\<lambda>occurrence counts. counts(so_heading occurrence \<mapsto> nullish (counts (so_heading occurrence)) 0 + 1))
       occurrences Map.empty"

text \<open>The loop from the last occurrence backwards, with the headings seen and the indexes found.\<close>

fun lastRepeatedLoop :: "(jstring \<rightharpoonup> nat) \<Rightarrow> SectionOccurrence list \<Rightarrow> jstring list \<Rightarrow> nat list \<Rightarrow> nat list" where
  "lastRepeatedLoop headingCounts [] seen indexes = indexes"
| "lastRepeatedLoop headingCounts (occurrence # rest) seen indexes =
     (let number = nullish (headingCounts (so_heading occurrence)) 0 in
      if number < MIN_REPEATED_SECTION_COUNT \<or> so_heading occurrence \<in> set seen
      then lastRepeatedLoop headingCounts rest seen indexes
      else lastRepeatedLoop headingCounts rest (so_heading occurrence # seen) (indexes @ [so_index occurrence]))"

definition findLastRepeatedSectionRunStart :: "jstring \<Rightarrow> nat option" where
  "findLastRepeatedSectionRunStart txt =
     (let occurrences = getSectionOccurrences txt; headingCounts = getHeadingCounts occurrences;
          lastRepeatedIndexes = lastRepeatedLoop headingCounts (rev occurrences) [] [] in
      if length lastRepeatedIndexes = 0 then None else Some (Min (set lastRepeatedIndexes)))"

definition collapseRepeatedSectionSnapshots :: "jstring \<Rightarrow> jstring" where
  "collapseRepeatedSectionSnapshots txt =
     (if length txt < MIN_PREFIX_COLLAPSE_LENGTH then txt
      else (case findLastRepeatedSectionRunStart txt of None \<Rightarrow> txt | Some lastRepeatedRunStart \<Rightarrow> drop lastRepeatedRunStart txt))"

section \<open>Loading\<close>

text \<open>
  \<open>now k\<close> is the \<open>k\<close>-th reading of the clock. A message that is not changed is the message with the same versions
  and reasoning.
\<close>

definition normalizeStoredMessageForLoad :: "(nat \<Rightarrow> jnum) \<Rightarrow> Message \<Rightarrow> Message" where
  "normalizeStoredMessageForLoad now m =
     (let vs = map (\<lambda>version. version\<lparr>v_content :=
            truncateText (collapseRepeatedSectionSnapshots (v_content version)) MAX_LOADED_MESSAGE_CHARS\<rparr>) (m_versions m);
          reasoning = map_option (\<lambda>r. r\<lparr>r_content := truncateText (r_content r) MAX_LOADED_MESSAGE_CHARS\<rparr>) (m_reasoning m);
          normalized = m\<lparr>m_versions := vs, m_reasoning := reasoning\<rparr> in
      if \<not> isAssistantMessagePending normalized then normalized
      else (let hasContent = hasMessageContent normalized;
                hasReasoning = (case m_reasoning normalized of None \<Rightarrow> False | Some r \<Rightarrow> trim (r_content r) \<noteq> []) in
        if \<not> hasContent \<and> \<not> hasReasoning then normalized
        else (let completedAt = nullish (nullish_opt (m_completedAt normalized)
                (nullish_opt (case m_reasoning normalized of None \<Rightarrow> None | Some r \<Rightarrow> r_completedAt r)
                  (nullish_opt (m_startedAt normalized) (m_createdAt normalized)))) (now 0) in
          completeAssistantTiming
            ((finalizeMessage (now 1) (now 2) normalized None)\<lparr>m_status := Some Complete, m_isReasoningStreaming := Some False\<rparr>)
            completedAt)))"

definition loadMessages :: "(jstring \<Rightarrow> jstring) \<Rightarrow> (nat \<Rightarrow> jnum) \<Rightarrow> Message list option \<Rightarrow> Message list option" where
  "loadMessages tr now saved = (case saved of
     None \<Rightarrow> None
   | Some parsed \<Rightarrow>
       (let normalized = map (\<lambda>(i, m). normalizeStoredMessageForLoad (\<lambda>k. now (3 * i + k)) m) (enumerate 0 parsed);
            trimmed = trimMessages normalized;
            sizeTrimmed = trimMessagesByContentSize trimmed;
            n = 3 * length parsed in
        Some (sanitizeMessagesOnLoad tr (now n) (now (n + 1)) (now (n + 2)) sizeTrimmed)))"

section \<open>Lemmas\<close>

lemma trimMessages_suffix: "\<exists>n. trimMessages ms = drop n ms"
proof (cases "length ms \<le> MAX_STORED_MESSAGES")
  case True
  then have "trimMessages ms = drop 0 ms" by (simp add: trimMessages_def)
  then show ?thesis by blast
next
  case False
  then show ?thesis by (auto simp: trimMessages_def)
qed

lemma sizeTrimLoop_suffix: "\<exists>n. sizeTrimLoop result sz (rev ms) = drop n ms @ result"
proof (induction ms arbitrary: result sz rule: rev_induct)
  case (snoc m ms)
  show ?case
  proof (cases "length result > 0 \<and> sz + getMessageSize m > MAX_LOADED_MESSAGES_CHARS")
    case True
    then show ?thesis by (intro exI [of _ "Suc (length ms)"]) (simp add: Let_def)
  next
    case False
    obtain n where n: "sizeTrimLoop (m # result) (sz + getMessageSize m) (rev ms) = drop n ms @ m # result"
      using snoc by blast
    with False show ?thesis
      by (cases "n \<le> length ms") (auto simp: Let_def intro: exI [of _ n] exI [of _ "length ms"])
  qed
qed simp

lemma trimmed_suffix: "\<exists>n. trimMessagesByContentSize ms = drop n ms"
  using sizeTrimLoop_suffix [of "[]" 0 ms] by (simp add: trimMessagesByContentSize_def)

lemma trimmed_size:
  "length (trimMessages ms) \<le> MAX_STORED_MESSAGES"
  by (simp add: trimMessages_def)

lemma normalized_frame [simp]:
  "m_key (normalizeStoredMessageForLoad now m) = m_key m"
  "m_from (normalizeStoredMessageForLoad now m) = m_from m"
  "m_versions m \<noteq> [] \<Longrightarrow> m_versions (normalizeStoredMessageForLoad now m) \<noteq> []"
  by (simp_all add: normalizeStoredMessageForLoad_def Let_def)

lemma normalized_pending: "pending (normalizeStoredMessageForLoad now m) \<Longrightarrow> pending m"
  by (auto simp: normalizeStoredMessageForLoad_def Let_def pending_iff isAssistantMessagePending_def split: if_splits)

end
