(* ===== verification/Chat_Handler.thy ===== *)
theory Chat_Handler
  imports Conversation Stream_Protocol Playground_Storage
begin

text \<open>
  The running playground: the hooks \<open>use-stream-request.ts\<close>, \<open>use-chat-handler.ts\<close>,
  \<open>use-playground-conversation.ts\<close>, \<open>use-playground-state.ts\<close> and the wiring of
  \<open>index.tsx\<close>, as one state and one handler per callback.

  \<^item> React state and refs are fields of \<open>ChatState\<close>; a handler runs to completion and the next
    one sees its effects (the component has been rendered in between).
  \<^item> An SSE source is a number; \<open>st_openSources\<close> are the sources on which \<open>close()\<close> has
    not been called. A source delivers \<open>message\<close> events only while it is open (sse.js); the
    \<open>error\<close> and \<open>readystatechange\<close> events may come from any source, also from one that was
    closed. \<open>st_endedSources\<close> are the sources whose \<open>readyState\<close> has become \<open>CLOSED\<close> from the other
    side, each with the \<open>status\<close> it had then: they deliver nothing any more.
  \<^item> A non-streaming request is named by its \<open>requestId\<close>, and so is its abort controller.
  \<^item> \<open>Env\<close> is what a handler reads from outside: the translation function, the clock and the
    identifiers that \<open>nanoid()\<close> returns.
  \<^item> \<open>st_saved\<close> is the list that \<open>saveMessages\<close> was last called with, or
    that was loaded.
\<close>

section \<open>State\<close>

record Env =
  e_tr :: "jstring \<Rightarrow> jstring"
  e_clock :: "nat \<Rightarrow> jnum"
  e_id :: "nat \<Rightarrow> jstring"

record ChatState =
  st_messages :: "Message list"
  st_config :: PlaygroundConfig
  st_parameterEnabled :: ParameterEnabled
  st_isStreaming :: bool
  st_sseSource :: "nat option"
  st_isStreamComplete :: bool
  st_openSources :: "nat list"
  st_endedSources :: "(nat \<times> int option) list"
  st_nextSource :: nat
  st_isRequesting :: bool
  st_abortController :: "nat option"
  st_requestId :: nat
  st_inFlight :: "nat list"
  st_aborted :: "nat list"
  st_pendingContent :: jstring
  st_pendingReasoning :: jstring
  st_flushTimer :: bool
  st_editingKey :: "jstring option"
  st_latestMessages :: "Message list"
  st_hasLoaded :: bool
  st_saveTimer :: bool
  st_saved :: "Message list"
  st_toasts :: "jstring list"
  st_sent :: "ChatCompletionRequest list"

definition initialChatState :: "PlaygroundConfig \<Rightarrow> ParameterEnabled \<Rightarrow> ChatState" where
  "initialChatState config en =
     \<lparr>st_messages = [], st_config = config, st_parameterEnabled = en, st_isStreaming = False,
      st_sseSource = None, st_isStreamComplete = False, st_openSources = [], st_endedSources = [], st_nextSource = 0,
      st_isRequesting = False, st_abortController = None, st_requestId = 0, st_inFlight = [],
      st_aborted = [], st_pendingContent = [], st_pendingReasoning = [], st_flushTimer = False,
      st_editingKey = None, st_latestMessages = [], st_hasLoaded = False, st_saveTimer = False,
      st_saved = [], st_toasts = [], st_sent = []\<rparr>"

section \<open>\<open>use-playground-state.ts\<close>\<close>

definition persistMessages :: "Message list \<Rightarrow> ChatState \<Rightarrow> ChatState" where
  "persistMessages messagesToSave s =
     (let s1 = s\<lparr>st_latestMessages := messagesToSave\<rparr> in
      if \<not> st_hasLoaded s1 then s1 else s1\<lparr>st_saveTimer := True\<rparr>)"

definition saveTimerFires :: "ChatState \<Rightarrow> ChatState" where
  "saveTimerFires s = s\<lparr>st_saveTimer := False, st_saved := st_latestMessages s\<rparr>"

definition messagesLoaded :: "Message list \<Rightarrow> ChatState \<Rightarrow> ChatState" where
  "messagesLoaded loadedMessages s =
     s\<lparr>st_latestMessages := loadedMessages, st_hasLoaded := True, st_messages := loadedMessages,
       st_saved := loadedMessages\<rparr>"

text \<open>A reload of the page starts anew, with what was saved last; configuration and flags come from stores of their own.\<close>

definition pageReload :: "PlaygroundConfig \<Rightarrow> ParameterEnabled \<Rightarrow> ChatState \<Rightarrow> ChatState" where
  "pageReload config en s = (initialChatState config en)\<lparr>st_saved := st_saved s\<rparr>"

definition unmountPlayground :: "ChatState \<Rightarrow> ChatState" where
  "unmountPlayground s =
     (if st_saveTimer s then s\<lparr>st_saveTimer := False, st_saved := st_latestMessages s\<rparr> else s)"

definition updateMessages :: "(Message list \<Rightarrow> Message list) \<Rightarrow> ChatState \<Rightarrow> ChatState" where
  "updateMessages updater s =
     (let newMessages = updater (st_messages s) in
      persistMessages newMessages (s\<lparr>st_messages := newMessages\<rparr>))"

definition clearMessages :: "ChatState \<Rightarrow> ChatState" where
  "clearMessages s = updateMessages (\<lambda>_. []) s"

section \<open>\<open>use-chat-handler.ts\<close>, first part\<close>

definition mergePendingStreamChunk :: "jstring \<Rightarrow> jstring \<Rightarrow> jstring" where
  "mergePendingStreamChunk currentChunk nextChunk =
     (if currentChunk = [] \<or> \<not> startsWith nextChunk currentChunk then currentChunk @ nextChunk
      else nextChunk)"

definition applyPendingChunks :: "Env \<Rightarrow> jstring \<Rightarrow> jstring \<Rightarrow> Message \<Rightarrow> Message" where
  "applyPendingChunks env reasoning content m =
     (let m1 = (if reasoning \<noteq> []
            then applyStreamingChunk (e_clock env 0) (e_clock env 1) m ReasoningChunk reasoning else m) in
      if content \<noteq> []
      then applyStreamingChunk (e_clock env 2) (e_clock env 3) m1 ContentChunk content else m1)"

definition flushStreamUpdates :: "Env \<Rightarrow> ChatState \<Rightarrow> ChatState" where
  "flushStreamUpdates env s =
     (let s1 = s\<lparr>st_flushTimer := False\<rparr>;
          reasoning = st_pendingReasoning s1; content = st_pendingContent s1 in
      if reasoning = [] \<and> content = [] then s1
      else updateMessages
        (\<lambda>prev. updateLastAssistantMessage prev (applyPendingChunks env reasoning content))
        (s1\<lparr>st_pendingContent := [], st_pendingReasoning := []\<rparr>))"

definition scheduleStreamFlush :: "ChatState \<Rightarrow> ChatState" where
  "scheduleStreamFlush s = (if st_flushTimer s then s else s\<lparr>st_flushTimer := True\<rparr>)"

definition getDisplayError :: "Env \<Rightarrow> jstring \<Rightarrow> jstring" where
  "getDisplayError env error =
     (if error \<in> set ERROR_MESSAGES then e_tr env error
      else if endsWith error (js '': '' @ CONNECTION_CLOSED)
      then take (length error - length CONNECTION_CLOSED) error @ e_tr env CONNECTION_CLOSED
      else error)"

definition handleStreamUpdate :: "StreamUpdateType \<Rightarrow> jstring \<Rightarrow> ChatState \<Rightarrow> ChatState" where
  "handleStreamUpdate ty chunk s =
     scheduleStreamFlush (case ty of
       Reasoning \<Rightarrow> s\<lparr>st_pendingReasoning := mergePendingStreamChunk (st_pendingReasoning s) chunk\<rparr>
     | Content \<Rightarrow> s\<lparr>st_pendingContent := mergePendingStreamChunk (st_pendingContent s) chunk\<rparr>)"

definition handleStreamComplete :: "Env \<Rightarrow> ChatState \<Rightarrow> ChatState" where
  "handleStreamComplete env s =
     (let s1 = flushStreamUpdates env s; s2 = s1\<lparr>st_isRequesting := False\<rparr> in
      updateMessages (\<lambda>prev. updateLastAssistantMessage prev (\<lambda>message.
        if isAssistantMessageFinal message then message
        else completeAssistantMessage (e_clock env 4) (e_clock env 5) (e_clock env 6) message)) s2)"

definition handleStreamError :: "Env \<Rightarrow> jstring \<Rightarrow> jstring option \<Rightarrow> ChatState \<Rightarrow> ChatState" where
  "handleStreamError env error errorCode s =
     (let s1 = flushStreamUpdates env s; s2 = s1\<lparr>st_isRequesting := False\<rparr>;
          displayError = getDisplayError env error;
          s3 = s2\<lparr>st_toasts := st_toasts s2 @ [displayError]\<rparr>;
          errorTitle = e_tr env API_REQUEST_ERROR in
      updateMessages (\<lambda>prev. updateAssistantMessageWithError prev displayError errorCode errorTitle
        (e_clock env 4)) s3)"

section \<open>\<open>use-stream-request.ts\<close>\<close>

definition closeSource :: "nat option \<Rightarrow> ChatState \<Rightarrow> ChatState" where
  "closeSource source s = (case source of
     None \<Rightarrow> s | Some n \<Rightarrow> s\<lparr>st_openSources := removeAll n (st_openSources s)\<rparr>)"

definition closeActiveStream :: "nat option \<Rightarrow> ChatState \<Rightarrow> ChatState" where
  "closeActiveStream source s =
     (let streamSource = nullish_opt source (st_sseSource s); s1 = closeSource streamSource s in
      if source = None \<or> st_sseSource s1 = source
      then s1\<lparr>st_sseSource := None, st_isStreaming := False\<rparr> else s1)"

definition handleError :: "Env \<Rightarrow> nat \<Rightarrow> jstring \<Rightarrow> jstring option \<Rightarrow> ChatState \<Rightarrow> ChatState" where
  "handleError env source errorMessage errorCode s =
     (if \<not> st_isStreamComplete s
      then closeActiveStream (Some source) (handleStreamError env errorMessage errorCode s) else s)"

text \<open>The listeners. On ill-typed data (outside \<open>ChatCompletionChunk\<close>) the state is kept.\<close>

definition onSseMessage :: "Env \<Rightarrow> nat \<Rightarrow> jstring \<Rightarrow> ChatState \<Rightarrow> ChatState" where
  "onSseMessage env source data s =
     (if isStreamDoneMessage data
      then handleStreamComplete env (closeActiveStream (Some source) (s\<lparr>st_isStreamComplete := True\<rparr>))
      else (case parseStreamMessageUpdates data of
              Inr updates \<Rightarrow> foldl (\<lambda>s u. handleStreamUpdate (su_type u) (su_chunk u) s) s updates
            | Inl IllTyped \<Rightarrow> s
            | Inl _ \<Rightarrow> handleError env source PARSE_ERROR None s))"

definition onSseError :: "Env \<Rightarrow> nat \<Rightarrow> int option \<Rightarrow> jstring option \<Rightarrow> ChatState \<Rightarrow> ChatState" where
  "onSseError env source readyState data s =
     (if \<not> isStreamClosedReadyState readyState
      then (case parseStreamErrorDetails data of
              Inr d \<Rightarrow> handleError env source (sed_errorMessage d) (sed_errorCode d) s
            | Inl _ \<Rightarrow> s)
      else s)"

definition onSseReadyState :: "Env \<Rightarrow> nat \<Rightarrow> int option \<Rightarrow> int option \<Rightarrow> ChatState \<Rightarrow> ChatState" where
  "onSseReadyState env source readyState status s =
     (case truthy_str (getStreamReadyStateError readyState status) of
        Some errorMessage \<Rightarrow> handleError env source errorMessage None s
      | None \<Rightarrow> s)"

text \<open>The ready state that the source object has from then on.\<close>

definition sourceEnds :: "nat \<Rightarrow> int option \<Rightarrow> int option \<Rightarrow> ChatState \<Rightarrow> ChatState" where
  "sourceEnds source readyState status s =
     (if isStreamClosedReadyState readyState then s\<lparr>st_endedSources := (source, status) # st_endedSources s\<rparr> else s)"

text \<open>\<open>startFails\<close>: whether \<open>source.stream()\<close> throws.\<close>

definition sendStreamRequest :: "Env \<Rightarrow> bool \<Rightarrow> ChatCompletionRequest \<Rightarrow> ChatState \<Rightarrow> ChatState" where
  "sendStreamRequest env startFails payload s =
     (let s1 = closeSource (st_sseSource s) s;
          source = st_nextSource s1;
          s2 = s1\<lparr>st_nextSource := Suc source, st_openSources := source # st_openSources s1,
                  st_sseSource := Some source, st_isStreamComplete := False, st_isStreaming := True,
                  st_sent := st_sent s1 @ [payload]\<rparr> in
      if startFails
      then closeActiveStream (Some source) (handleStreamError env STREAM_START_ERROR None s2)
      else s2)"

definition stopStream :: "ChatState \<Rightarrow> ChatState" where
  "stopStream s = closeActiveStream None s"

section \<open>\<open>use-chat-handler.ts\<close>, second part\<close>

definition sendStreamingChat :: "Env \<Rightarrow> bool \<Rightarrow> Message list \<Rightarrow> ChatState \<Rightarrow> ChatState" where
  "sendStreamingChat env startFails messages s =
     (let s1 = s\<lparr>st_isRequesting := True\<rparr>;
          payload = buildChatCompletionPayload messages (st_config s1) (st_parameterEnabled s1) in
      sendStreamRequest env startFails payload s1)"

text \<open>\<open>sendNonStreamingChat\<close> up to its \<open>await\<close>, and the two ways it goes on.\<close>

definition sendNonStreamingChat :: "Message list \<Rightarrow> ChatState \<Rightarrow> ChatState" where
  "sendNonStreamingChat messages s =
     (let payload = buildChatCompletionPayload messages (st_config s) (st_parameterEnabled s);
          requestId = st_requestId s + 1 in
      s\<lparr>st_requestId := requestId, st_abortController := Some requestId, st_isRequesting := True,
        st_inFlight := requestId # st_inFlight s, st_sent := st_sent s @ [payload]\<rparr>)"

definition finallyRequest :: "nat \<Rightarrow> ChatState \<Rightarrow> ChatState" where
  "finallyRequest requestId s =
     (if st_requestId s = requestId then s\<lparr>st_abortController := None, st_isRequesting := False\<rparr> else s)"

definition requestResolved :: "Env \<Rightarrow> nat \<Rightarrow> ChatCompletionResponse \<Rightarrow> ChatState \<Rightarrow> ChatState" where
  "requestResolved env requestId response s =
     (let s1 = s\<lparr>st_inFlight := removeAll requestId (st_inFlight s)\<rparr> in
      finallyRequest requestId
        (if requestId \<in> set (st_aborted s1) then s1
         else if \<not> hasChatCompletionChoice response then handleStreamError env API_REQUEST_ERROR None s1
         else updateMessages (\<lambda>prev. updateLastAssistantMessage prev (\<lambda>message.
           nullish (applyChatCompletionResponse (e_clock env 0) (e_clock env 1) (e_clock env 2) message response)
             message)) s1))"

definition requestRejected :: "Env \<Rightarrow> nat \<Rightarrow> RequestErrorLike option \<Rightarrow> ChatState \<Rightarrow> ChatState" where
  "requestRejected env requestId error s =
     (let s1 = s\<lparr>st_inFlight := removeAll requestId (st_inFlight s)\<rparr> in
      finallyRequest requestId
        (if requestId \<in> set (st_aborted s1) then s1
         else (let d = parseRequestErrorDetails error in
           handleStreamError env (rd_errorMessage d) (rd_errorCode d) s1)))"

definition sendChat :: "Env \<Rightarrow> bool \<Rightarrow> Message list \<Rightarrow> ChatState \<Rightarrow> ChatState" where
  "sendChat env startFails messages s =
     (if pc_stream (st_config s) then sendStreamingChat env startFails messages s
      else sendNonStreamingChat messages s)"

definition abortActive :: "ChatState \<Rightarrow> ChatState" where
  "abortActive s = (case st_abortController s of
     None \<Rightarrow> s | Some c \<Rightarrow> s\<lparr>st_aborted := c # st_aborted s\<rparr>)"

definition stopGeneration :: "Env \<Rightarrow> ChatState \<Rightarrow> ChatState" where
  "stopGeneration env s =
     (let s1 = flushStreamUpdates env (stopStream s);
          s2 = (abortActive s1)\<lparr>st_abortController := None, st_isRequesting := False\<rparr> in
      updateMessages (\<lambda>prev. updateLastAssistantMessage prev (\<lambda>message.
        if isAssistantMessagePending message
        then completeAssistantMessage (e_clock env 4) (e_clock env 5) (e_clock env 6) message
        else message)) s2)"

definition isGenerating :: "ChatState \<Rightarrow> bool" where
  "isGenerating s \<longleftrightarrow> st_isStreaming s \<or> st_isRequesting s"

section \<open>\<open>use-playground-conversation.ts\<close> and \<open>index.tsx\<close>\<close>

definition handleSendMessage :: "Env \<Rightarrow> bool \<Rightarrow> jstring \<Rightarrow> ChatState \<Rightarrow> ChatState" where
  "handleSendMessage env startFails txt s =
     (let nextMessages = appendUserMessagePair (e_id env 0) (e_id env 1) (e_id env 2) (e_id env 3)
            (e_clock env 7) (st_messages s) txt in
      sendChat env startFails nextMessages (updateMessages (\<lambda>_. nextMessages) s))"

definition handleRegenerateMessage :: "Env \<Rightarrow> bool \<Rightarrow> jstring \<Rightarrow> ChatState \<Rightarrow> ChatState" where
  "handleRegenerateMessage env startFails messageKey s =
     (case createRegeneratedMessages (e_id env 0) (e_id env 1) (e_clock env 7) (st_messages s) messageKey of
        None \<Rightarrow> s
      | Some nextMessages \<Rightarrow> sendChat env startFails nextMessages (updateMessages (\<lambda>_. nextMessages) s))"

definition handleEditMessage :: "jstring \<Rightarrow> ChatState \<Rightarrow> ChatState" where
  "handleEditMessage messageKey s = s\<lparr>st_editingKey := Some messageKey\<rparr>"

definition handleEditOpenChange :: "bool \<Rightarrow> ChatState \<Rightarrow> ChatState" where
  "handleEditOpenChange is_open s = (if \<not> is_open then s\<lparr>st_editingKey := None\<rparr> else s)"

definition applyEdit :: "Env \<Rightarrow> bool \<Rightarrow> jstring \<Rightarrow> bool \<Rightarrow> ChatState \<Rightarrow> ChatState" where
  "applyEdit env startFails newContent shouldSubmit s = (case truthy_str (st_editingKey s) of
     None \<Rightarrow> s
   | Some editingMessageKey \<Rightarrow>
       (case applyMessageEdit (e_id env 0) (e_id env 1) (e_clock env 7) (st_messages s)
               editingMessageKey newContent shouldSubmit of
          None \<Rightarrow> s
        | Some editResult \<Rightarrow>
            (let s1 = updateMessages (\<lambda>_. er_messages editResult) (s\<lparr>st_editingKey := None\<rparr>) in
             if er_shouldSend editResult then sendChat env startFails (er_messages editResult) s1 else s1)))"

definition handleDeleteMessage :: "jstring \<Rightarrow> ChatState \<Rightarrow> ChatState" where
  "handleDeleteMessage messageKey s =
     updateMessages (\<lambda>previousMessages. removeMessageByKey previousMessages messageKey) s"

definition handleClearMessages :: "ChatState \<Rightarrow> ChatState" where
  "handleClearMessages s = clearMessages (handleEditOpenChange False s)"

text \<open>\<open>use-message-action-guard.ts\<close>\<close>

definition WAIT_GENERATION :: jstring where
  "WAIT_GENERATION = js ''Please wait for the current generation to complete''"

definition guardAction :: "Env \<Rightarrow> bool \<Rightarrow> (ChatState \<Rightarrow> ChatState) \<Rightarrow> ChatState \<Rightarrow> ChatState" where
  "guardAction env generating action s =
     (if generating then s\<lparr>st_toasts := st_toasts s @ [e_tr env WAIT_GENERATION]\<rparr> else action s)"

section \<open>Lemmas\<close>

text \<open>Every updater the handlers use keeps key, role and the non-empty version list.\<close>

interpretation pending_chunks: message_updater "applyPendingChunks env reasoning content"
  by unfold_locales (simp_all add: applyPendingChunks_def Let_def)

lemma applyPendingChunks_status:
  "m_status (applyPendingChunks env r c m) =
     (if m_status m = Some Error \<or> r = [] \<and> c = [] then m_status m else Some Streaming)"
  by (simp add: applyPendingChunks_def Let_def)

lemma applyPendingChunks_content:
  assumes "m_status m \<noteq> Some Error" "c \<noteq> []"
  shows "getMessageContent (applyPendingChunks env [] c m) =
    getMessageContent m @ getAppendableChunk (getMessageContent m) c"
  using assms by (simp add: applyPendingChunks_def content_chunk)

text \<open>\<open>updateMessages\<close> changes the messages and what concerns saving them, nothing else.\<close>

lemma updateMessages_fields [simp]:
  "st_messages (updateMessages f s) = f (st_messages s)"
  "st_config (updateMessages f s) = st_config s"
  "st_parameterEnabled (updateMessages f s) = st_parameterEnabled s"
  "st_isStreaming (updateMessages f s) = st_isStreaming s"
  "st_sseSource (updateMessages f s) = st_sseSource s"
  "st_isStreamComplete (updateMessages f s) = st_isStreamComplete s"
  "st_openSources (updateMessages f s) = st_openSources s"
  "st_endedSources (updateMessages f s) = st_endedSources s"
  "st_nextSource (updateMessages f s) = st_nextSource s"
  "st_isRequesting (updateMessages f s) = st_isRequesting s"
  "st_abortController (updateMessages f s) = st_abortController s"
  "st_requestId (updateMessages f s) = st_requestId s"
  "st_inFlight (updateMessages f s) = st_inFlight s"
  "st_aborted (updateMessages f s) = st_aborted s"
  "st_pendingContent (updateMessages f s) = st_pendingContent s"
  "st_pendingReasoning (updateMessages f s) = st_pendingReasoning s"
  "st_flushTimer (updateMessages f s) = st_flushTimer s"
  "st_editingKey (updateMessages f s) = st_editingKey s"
  "st_latestMessages (updateMessages f s) = f (st_messages s)"
  "st_hasLoaded (updateMessages f s) = st_hasLoaded s"
  "st_saveTimer (updateMessages f s) \<longleftrightarrow> st_saveTimer s \<or> st_hasLoaded s"
  "st_saved (updateMessages f s) = st_saved s"
  "st_sent (updateMessages f s) = st_sent s"
  by (simp_all add: updateMessages_def persistMessages_def Let_def)

lemma flush_fields [simp]:
  "st_config (flushStreamUpdates env s) = st_config s"
  "st_parameterEnabled (flushStreamUpdates env s) = st_parameterEnabled s"
  "st_isStreaming (flushStreamUpdates env s) = st_isStreaming s"
  "st_sseSource (flushStreamUpdates env s) = st_sseSource s"
  "st_isStreamComplete (flushStreamUpdates env s) = st_isStreamComplete s"
  "st_openSources (flushStreamUpdates env s) = st_openSources s"
  "st_endedSources (flushStreamUpdates env s) = st_endedSources s"
  "st_nextSource (flushStreamUpdates env s) = st_nextSource s"
  "st_isRequesting (flushStreamUpdates env s) = st_isRequesting s"
  "st_abortController (flushStreamUpdates env s) = st_abortController s"
  "st_requestId (flushStreamUpdates env s) = st_requestId s"
  "st_inFlight (flushStreamUpdates env s) = st_inFlight s"
  "st_aborted (flushStreamUpdates env s) = st_aborted s"
  "st_pendingContent (flushStreamUpdates env s) = []"
  "st_pendingReasoning (flushStreamUpdates env s) = []"
  "st_flushTimer (flushStreamUpdates env s) = False"
  "st_editingKey (flushStreamUpdates env s) = st_editingKey s"
  "st_hasLoaded (flushStreamUpdates env s) = st_hasLoaded s"
  "st_saved (flushStreamUpdates env s) = st_saved s"
  by (simp_all add: flushStreamUpdates_def Let_def)

lemma flush_messages:
  "st_messages (flushStreamUpdates env s) =
     (if st_pendingReasoning s = [] \<and> st_pendingContent s = [] then st_messages s
      else updateLastAssistantMessage (st_messages s)
        (applyPendingChunks env (st_pendingReasoning s) (st_pendingContent s)))"
  by (simp add: flushStreamUpdates_def Let_def)

end
