(* ===== verification/Chat_Machine.thy ===== *)
theory Chat_Machine
  imports Chat_Handler
begin

text \<open>
  The playground as an event system: which handler runs on which event, the invariant of its
  reachable states, and the properties of whole runs.
\<close>

section \<open>Events\<close>

datatype Event =
    MessagesLoaded "Message list option"
  | PageReload PlaygroundConfig ParameterEnabled
  | SendMessage jstring
  | SelectPrompt jstring
  | RegenerateMessage jstring
  | EditMessage jstring
  | EditOpenChange bool
  | ApplyEdit jstring bool
  | DeleteMessage jstring
  | ClearMessages
  | StopGeneration
  | UpdateConfig PlaygroundConfig ParameterEnabled
  | SseMessage nat jstring
  | SseError nat "int option" "jstring option"
  | SseReadyState nat "int option" "int option"
  | FlushTimer
  | SaveTimer
  | RequestResolved nat ChatCompletionResponse
  | RequestRejected nat "RequestErrorLike option"

text \<open>
  What is asked of the environment: \<open>nanoid()\<close> returns keys that are not in use. What is loaded is what was saved last,
  or nothing when the store is empty, too large or not readable. A source that the other side has closed delivers no
  message, its \<open>readyState\<close> stays \<open>CLOSED\<close> and does not change again.
\<close>

definition fresh_ids :: "Env \<Rightarrow> ChatState \<Rightarrow> bool" where
  "fresh_ids env s \<longleftrightarrow> e_id env 0 \<noteq> e_id env 2 \<and>
     e_id env 0 \<notin> m_key ` set (st_messages s) \<and> e_id env 2 \<notin> m_key ` set (st_messages s)"

definition settled :: "Message list \<Rightarrow> bool" where
  "settled ms \<longleftrightarrow> distinct (map m_key ms) \<and> list_all (\<lambda>m. m_versions m \<noteq> []) ms \<and>
     list_all (\<lambda>m. \<not> pending m) ms"

inductive chat_step :: "ChatState \<Rightarrow> Event \<Rightarrow> ChatState \<Rightarrow> bool" where
  step_loaded: "\<not> st_hasLoaded s \<Longrightarrow> stored = None \<or> stored = Some (trimMessages (st_saved s)) \<Longrightarrow>
    chat_step s (MessagesLoaded stored) (messagesLoaded (nullish (loadMessages (e_tr (env :: Env)) (e_clock env) stored) []) s)"
| step_reload: "chat_step s (PageReload c p) (pageReload c p s)"
| step_send: "fresh_ids env s \<Longrightarrow> getSubmittableInputText (Some txt) (isGenerating s) = Some t \<Longrightarrow>
    chat_step s (SendMessage txt) (handleSendMessage env startFails t s)"
| step_prompt: "fresh_ids env s \<Longrightarrow> st_messages s = [] \<Longrightarrow>
    chat_step s (SelectPrompt txt) (handleSendMessage env startFails txt s)"
| step_regenerate: "fresh_ids env s \<Longrightarrow> chat_step s (RegenerateMessage k)
    (guardAction env (isGenerating s) (handleRegenerateMessage env startFails k) s)"
| step_edit: "chat_step s (EditMessage k) (guardAction env (isGenerating s) (handleEditMessage k) s)"
| step_edit_open: "chat_step s (EditOpenChange b) (handleEditOpenChange b s)"
| step_apply_edit: "fresh_ids env s \<Longrightarrow> chat_step s (ApplyEdit c b) (applyEdit env startFails c b s)"
| step_delete: "chat_step s (DeleteMessage k) (guardAction env (isGenerating s) (handleDeleteMessage k) s)"
| step_clear: "\<not> isGenerating s \<Longrightarrow> st_messages s \<noteq> [] \<Longrightarrow> chat_step s ClearMessages (handleClearMessages s)"
| step_stop: "isGenerating s \<Longrightarrow> chat_step s StopGeneration (stopGeneration env s)"
| step_config: "chat_step s (UpdateConfig c p) (s\<lparr>st_config := c, st_parameterEnabled := p\<rparr>)"
| step_message: "n \<in> set (st_openSources s) \<Longrightarrow> n \<notin> fst ` set (st_endedSources s) \<Longrightarrow>
    chat_step s (SseMessage n d) (onSseMessage env n d s)"
| step_error: "n < st_nextSource s \<Longrightarrow> (n \<in> fst ` set (st_endedSources s) \<longrightarrow> isStreamClosedReadyState r) \<Longrightarrow>
    chat_step s (SseError n r d) (onSseError env n r d s)"
| step_ready: "n < st_nextSource s \<Longrightarrow> n \<notin> fst ` set (st_endedSources s) \<Longrightarrow>
    chat_step s (SseReadyState n r t) (sourceEnds n r t (onSseReadyState env n r t s))"
| step_flush: "st_flushTimer s \<Longrightarrow> chat_step s FlushTimer (flushStreamUpdates env s)"
| step_save: "st_saveTimer s \<Longrightarrow> chat_step s SaveTimer (saveTimerFires s)"
| step_resolved: "i \<in> set (st_inFlight s) \<Longrightarrow> chat_step s (RequestResolved i r) (requestResolved env i r s)"
| step_rejected: "i \<in> set (st_inFlight s) \<Longrightarrow> chat_step s (RequestRejected i e) (requestRejected env i e s)"

definition chat_start :: "ChatState \<Rightarrow> bool" where
  "chat_start s \<longleftrightarrow> (\<exists>config en. s = initialChatState config en)"

section \<open>The invariant\<close>

definition lastPending :: "Message list \<Rightarrow> bool" where
  "lastPending ms \<longleftrightarrow> ms \<noteq> [] \<and> pending (last ms)"

definition msgs_ok :: "Message list \<Rightarrow> bool" where
  "msgs_ok ms \<longleftrightarrow> distinct (map m_key ms) \<and> list_all (\<lambda>m. m_versions m \<noteq> []) ms \<and>
     list_all (\<lambda>m. \<not> pending m) (butlast ms)"

text \<open>Only a source that was closed with status 200, or none, can still be the current one.\<close>

definition ended_ok :: "nat \<Rightarrow> nat option \<Rightarrow> (nat \<times> int option) list \<Rightarrow> bool" where
  "ended_ok k current ended \<longleftrightarrow> (\<forall>n t. (n, t) \<in> set ended \<longrightarrow> n < k \<and> (current = Some n \<longrightarrow> t \<in> {None, Some 200}))"

lemma ended_ok_closed [intro]: "ended_ok k current ended \<Longrightarrow> ended_ok k None ended"
  and ended_ok_started [intro]: "ended_ok k current ended \<Longrightarrow> ended_ok (Suc k) (Some k) ended"
  and ended_ok_Nil [simp]: "ended_ok k current []"
  by (auto simp: ended_ok_def less_SucI)

lemma ended_ok_Cons:
  "n < k \<Longrightarrow> (current = Some n \<Longrightarrow> t \<in> {None, Some 200}) \<Longrightarrow> ended_ok k current ended \<Longrightarrow> ended_ok k current ((n, t) # ended)"
  by (auto simp: ended_ok_def)

definition stream_inv :: "ChatState \<Rightarrow> bool" where
  "stream_inv s \<longleftrightarrow>
     st_openSources s = (case st_sseSource s of None \<Rightarrow> [] | Some n \<Rightarrow> [n]) \<and>
     (st_isStreaming s \<longleftrightarrow> st_sseSource s \<noteq> None) \<and>
     (st_isStreaming s \<longrightarrow> \<not> st_isStreamComplete s) \<and>
     ended_ok (st_nextSource s) (st_sseSource s) (st_endedSources s) \<and>
     pred_option (\<lambda>n. n < st_nextSource s) (st_sseSource s) \<and>
     (st_pendingContent s \<noteq> [] \<or> st_pendingReasoning s \<noteq> [] \<or> st_flushTimer s \<longrightarrow> st_isStreaming s)"

definition request_inv :: "ChatState \<Rightarrow> bool" where
  "request_inv s \<longleftrightarrow>
     (st_isRequesting s \<longrightarrow> st_isStreaming s \<or>
        st_requestId s \<in> set (st_inFlight s) \<and> st_requestId s \<notin> set (st_aborted s)) \<and>
     list_all (\<lambda>i. i \<le> st_requestId s) (st_inFlight s) \<and>
     list_all (\<lambda>i. i \<le> st_requestId s) (st_aborted s) \<and>
     pred_option (\<lambda>i. i \<le> st_requestId s) (st_abortController s)"

definition persist_inv :: "ChatState \<Rightarrow> bool" where
  "persist_inv s \<longleftrightarrow> st_latestMessages s = st_messages s \<and>
     (st_hasLoaded s \<longrightarrow> st_saveTimer s \<or> st_saved s = st_messages s) \<and> msgs_ok (st_saved s)"

definition core_inv :: "ChatState \<Rightarrow> bool" where
  "core_inv s \<longleftrightarrow> stream_inv s \<and> request_inv s \<and> persist_inv s \<and> msgs_ok (st_messages s)"

definition chat_inv :: "ChatState \<Rightarrow> bool" where
  "chat_inv s \<longleftrightarrow> core_inv s \<and> (lastPending (st_messages s) \<longrightarrow> isGenerating s)"

subsection \<open>Lists of messages\<close>

lemma list_all_butlast: "list_all P (butlast ms) \<Longrightarrow> (ms \<noteq> [] \<Longrightarrow> P (last ms)) \<Longrightarrow> list_all P ms"
  by (cases ms rule: rev_cases) simp_all

lemma msgs_ok_settled: "msgs_ok ms \<Longrightarrow> \<not> lastPending ms \<Longrightarrow> settled ms"
  by (auto simp: msgs_ok_def lastPending_def settled_def intro: list_all_butlast)

lemma settled_msgs_ok: "settled ms \<Longrightarrow> msgs_ok ms"
  by (auto simp: msgs_ok_def settled_def list_all_iff dest: in_set_butlastD)

lemma settled_not_lastPending: "settled ms \<Longrightarrow> \<not> lastPending ms"
  by (auto simp: settled_def lastPending_def list_all_iff)

lemma msgs_ok_Nil [simp]: "msgs_ok []" and lastPending_Nil [simp]: "\<not> lastPending []"
  by (simp_all add: msgs_ok_def lastPending_def)

lemma lastPending_updateLast:
  "lastPending (updateLastAssistantMessage ms f) \<longleftrightarrow>
     ms \<noteq> [] \<and> m_from (last ms) = Assistant \<and> pending (f (last ms))"
  by (cases "m_from (last ms) = Assistant") (auto simp: lastPending_def updateLast_last pending_iff)

context message_updater
begin

lemma upd_msgs_ok: "msgs_ok ms \<Longrightarrow> msgs_ok (updateLastAssistantMessage ms f)"
  by (simp add: msgs_ok_def upd_keys upd_versions)

end

text \<open>Appending a placeholder to a settled prefix.\<close>

lemma msgs_ok_snoc:
  "settled ms \<Longrightarrow> m_key m \<notin> m_key ` set ms \<Longrightarrow> m_versions m \<noteq> [] \<Longrightarrow> msgs_ok (ms @ [m])"
  by (simp add: settled_def msgs_ok_def)

text \<open>What is loaded is a suffix of what was saved, repaired: with one unfinished answer at the end it is settled.\<close>

lemma msgs_ok_drop: "msgs_ok ms \<Longrightarrow> msgs_ok (drop n ms)"
  by (auto simp: msgs_ok_def list_all_iff drop_map [symmetric] butlast_drop dest: in_set_dropD)

lemma msgs_ok_normalized:
  assumes "msgs_ok ms"
  shows "msgs_ok (map (\<lambda>(i, m). normalizeStoredMessageForLoad (now i) m) (enumerate 0 ms))"
proof -
  have "map m_key (map (\<lambda>(i, m). normalizeStoredMessageForLoad (now i) m) (enumerate n ms)) = map m_key ms" for n
    by (induction ms arbitrary: n) auto
  moreover have "list_all (\<lambda>m. m_versions m \<noteq> []) ms \<Longrightarrow>
      list_all (\<lambda>m. m_versions m \<noteq> []) (map (\<lambda>(i, m). normalizeStoredMessageForLoad (now i) m) (enumerate n ms))" for n
    by (induction ms arbitrary: n) auto
  moreover have "list_all (\<lambda>m. \<not> pending m) (butlast ms) \<Longrightarrow>
      list_all (\<lambda>m. \<not> pending m) (butlast (map (\<lambda>(i, m). normalizeStoredMessageForLoad (now i) m) (enumerate n ms)))" for n
  proof (induction ms arbitrary: n)
    case (Cons m ms)
    have "enumerate (Suc n) ms = [] \<longleftrightarrow> ms = []" by (cases ms) simp_all
    with Cons show ?case by (auto dest: normalized_pending split: if_splits)
  qed simp
  ultimately show ?thesis using assms unfolding msgs_ok_def by simp
qed

lemma pending_one:
  assumes "msgs_ok ms"
  shows "length (filter pending ms) \<le> 1"
proof (cases ms rule: rev_cases)
  case (snoc ns m)
  then have "filter pending ns = []" using assms by (simp add: msgs_ok_def list_all_iff filter_empty_conv)
  with snoc show ?thesis by simp
qed simp

lemma sanitized_settled:
  assumes "msgs_ok ms"
  shows "settled (sanitizeMessagesOnLoad tr t1 t2 t3 ms)"
proof -
  have "filter pending (sanitizeMessagesOnLoad tr t1 t2 t3 ms) = []"
    using sanitize_pending_count [of tr t1 t2 t3 ms] pending_one [OF assms] by auto
  moreover have "list_all (\<lambda>m. m_versions m \<noteq> []) (sanitizeMessagesOnLoad tr t1 t2 t3 ms)"
    using assms by (auto simp: msgs_ok_def sanitizeMessagesOnLoad_def list_all_iff dest!: set_update_subset_insert [THEN subsetD]
        split: option.splits)
  ultimately show ?thesis
    using sanitize_pending_count [of tr t1 t2 t3 ms] assms
    by (simp add: settled_def msgs_ok_def list_all_iff filter_empty_conv)
qed

lemma loaded_settled:
  assumes "msgs_ok saved" "stored = None \<or> stored = Some (trimMessages saved)"
  shows "settled (nullish (loadMessages tr now stored) [])"
proof (cases "stored = None")
  case True
  then show ?thesis by (simp add: loadMessages_def settled_def)
next
  case False
  let ?p = "trimMessages saved"
  let ?ms = "map (\<lambda>(i, m). normalizeStoredMessageForLoad (\<lambda>k. now (3 * i + k)) m) (enumerate 0 ?p)"
  obtain n where "?p = drop n saved" using trimMessages_suffix by blast
  then have "msgs_ok ?p" using assms(1) msgs_ok_drop by simp
  from msgs_ok_normalized [OF this] have "msgs_ok ?ms" .
  moreover obtain i j where "trimMessages ?ms = drop i ?ms" "trimMessagesByContentSize (trimMessages ?ms) = drop j (trimMessages ?ms)"
    using trimMessages_suffix trimmed_suffix by meson
  ultimately have "msgs_ok (trimMessagesByContentSize (trimMessages ?ms))"
    using msgs_ok_drop by metis
  with sanitized_settled False assms(2) show ?thesis
    by (auto simp: loadMessages_def Let_def)
qed

lemma settled_take: "settled ms \<Longrightarrow> settled (take n ms)"
  by (auto simp: settled_def list_all_iff take_map [symmetric] dest: in_set_takeD intro: distinct_take)

lemma msgs_ok_take_user:
  assumes "msgs_ok ms" "i < length ms" "m_from (ms ! i) = User"
  shows "settled (take (Suc i) ms)"
proof -
  from assms(2) have t: "take (Suc i) ms = take i (butlast ms) @ [ms ! i]"
    by (simp add: take_Suc_conv_app_nth take_butlast)
  moreover have "distinct (map m_key (take (Suc i) ms))"
    using assms(1) by (simp add: msgs_ok_def take_map [symmetric] distinct_take)
  moreover have "list_all (\<lambda>m. m_versions m \<noteq> []) (take (Suc i) ms)"
    using assms(1) by (auto simp: msgs_ok_def list_all_iff dest: in_set_takeD)
  moreover have "list_all (\<lambda>m. \<not> pending m) (take i (butlast ms) @ [ms ! i])"
    using assms(1,3) by (auto simp: msgs_ok_def list_all_iff pending_iff dest: in_set_takeD)
  ultimately show ?thesis
    by (simp add: settled_def)
qed

lemma map_edit_ok:
  "map m_key (map (editMessage k c b t) ms) = map m_key ms"
  "list_all (\<lambda>m. m_versions m \<noteq> []) ms \<Longrightarrow>
     list_all (\<lambda>m. m_versions m \<noteq> []) (map (editMessage k c b t) ms)"
  "list_all (\<lambda>m. \<not> pending m) (map (editMessage k c b t) ms) = list_all (\<lambda>m. \<not> pending m) ms"
  by (auto simp: list_all_iff)

lemma settled_edit: "settled ms \<Longrightarrow> settled (map (editMessage k c b t) ms)"
  unfolding settled_def map_edit_ok(1,3) using map_edit_ok(2) by blast

lemma msgs_ok_edit: "msgs_ok ms \<Longrightarrow> msgs_ok (map (editMessage k c b t) ms)"
  unfolding msgs_ok_def map_edit_ok(1) map_butlast [symmetric] map_edit_ok(3) using map_edit_ok(2) by blast

lemma lastPending_edit: "lastPending (map (editMessage k c b t) ms) = lastPending ms"
  by (auto simp: lastPending_def last_map)

subsection \<open>The building blocks of the handlers\<close>

interpretation complete_unless_final: message_updater "\<lambda>m. if isAssistantMessageFinal m then m
    else completeAssistantMessage t1 t2 t3 m"
  by unfold_locales simp_all

interpretation complete_if_pending: message_updater "\<lambda>m. if isAssistantMessagePending m
    then completeAssistantMessage t1 t2 t3 m else m"
  by unfold_locales simp_all

interpretation apply_response: message_updater "\<lambda>m. nullish (applyChatCompletionResponse t1 t2 t3 m response) m"
  by unfold_locales (simp_all add: applyChatCompletionResponse_def split: option.splits)

lemma core_updateMessages: "core_inv s \<Longrightarrow> msgs_ok (f (st_messages s)) \<Longrightarrow> core_inv (updateMessages f s)"
  by (auto simp: core_inv_def stream_inv_def request_inv_def persist_inv_def)

lemma flush_persist:
  "persist_inv s \<Longrightarrow> persist_inv (flushStreamUpdates env s)"
  by (auto simp: persist_inv_def flushStreamUpdates_def Let_def)

lemma flush_msgs_ok: "msgs_ok (st_messages s) \<Longrightarrow> msgs_ok (st_messages (flushStreamUpdates env s))"
  by (simp add: flush_messages pending_chunks.upd_msgs_ok)

lemma core_flush: "core_inv s \<Longrightarrow> core_inv (flushStreamUpdates env s)"
  by (simp add: core_inv_def flush_persist flush_msgs_ok) (auto simp: stream_inv_def request_inv_def)

text \<open>After \<open>handleStreamError\<close> nothing is pending and nothing is buffered.\<close>

lemma handleStreamError_fields [simp]:
  "st_isStreaming (handleStreamError env e c s) = st_isStreaming s"
  "st_sseSource (handleStreamError env e c s) = st_sseSource s"
  "st_isStreamComplete (handleStreamError env e c s) = st_isStreamComplete s"
  "st_openSources (handleStreamError env e c s) = st_openSources s"
  "st_endedSources (handleStreamError env e c s) = st_endedSources s"
  "st_nextSource (handleStreamError env e c s) = st_nextSource s"
  "\<not> st_isRequesting (handleStreamError env e c s)"
  "st_requestId (handleStreamError env e c s) = st_requestId s"
  "st_inFlight (handleStreamError env e c s) = st_inFlight s"
  "st_aborted (handleStreamError env e c s) = st_aborted s"
  "st_abortController (handleStreamError env e c s) = st_abortController s"
  "st_pendingContent (handleStreamError env e c s) = []"
  "st_pendingReasoning (handleStreamError env e c s) = []"
  "\<not> st_flushTimer (handleStreamError env e c s)"
  by (simp_all add: handleStreamError_def Let_def)

lemma handleStreamError_messages:
  "st_messages (handleStreamError env e c s) =
     updateLastAssistantMessage (st_messages (flushStreamUpdates env s))
       (markError (getDisplayError env e) c (e_tr env API_REQUEST_ERROR) (e_clock env 4))"
  by (simp add: handleStreamError_def updateAssistantMessageWithError_def Let_def)

lemma markError_status [simp]: "m_status (markError e c t n m) = Some Error"
  by (simp add: markError_def)

lemma handleStreamError_not_pending: "\<not> lastPending (st_messages (handleStreamError env e c s))"
  by (simp add: handleStreamError_messages lastPending_updateLast pending_iff)

lemma core_not_requesting: "core_inv s \<Longrightarrow> core_inv (s\<lparr>st_isRequesting := False\<rparr>)"
  by (auto simp add: core_inv_def stream_inv_def request_inv_def persist_inv_def)

lemma core_toasts: "core_inv s \<Longrightarrow> core_inv (s\<lparr>st_toasts := x\<rparr>)"
  by (auto simp add: core_inv_def stream_inv_def request_inv_def persist_inv_def)

lemma core_handleStreamError: "core_inv s \<Longrightarrow> core_inv (handleStreamError env e c s)"
  unfolding handleStreamError_def Let_def updateAssistantMessageWithError_def
  by (intro core_updateMessages core_toasts core_not_requesting core_flush)
    (simp_all add: core_inv_def mark_error.upd_msgs_ok flush_msgs_ok)

lemma handleStreamComplete_not_pending: "\<not> lastPending (st_messages (handleStreamComplete env s))"
  by (auto simp: handleStreamComplete_def Let_def lastPending_updateLast isAssistantMessageFinal_def
      pending_iff)

lemma core_handleStreamComplete: "core_inv s \<Longrightarrow> core_inv (handleStreamComplete env s)"
  unfolding handleStreamComplete_def Let_def
  by (intro core_updateMessages core_not_requesting core_flush)
    (simp_all add: core_inv_def complete_unless_final.upd_msgs_ok flush_msgs_ok)

lemma closeActiveStream_messages [simp]: "st_messages (closeActiveStream src s) = st_messages s"
  by (simp add: closeActiveStream_def closeSource_def Let_def split: option.splits)

lemma closeActiveStream_isRequesting [simp]:
  "st_isRequesting (closeActiveStream src s) = st_isRequesting s"
  by (simp add: closeActiveStream_def closeSource_def Let_def split: option.splits)

text \<open>Closing a stream is safe once its buffered chunks are gone and no request waits for it.\<close>

lemma core_closeActiveStream:
  assumes "core_inv s" "\<not> st_isRequesting s" "st_pendingContent s = []" "st_pendingReasoning s = []"
    "\<not> st_flushTimer s"
  shows "core_inv (closeActiveStream src s)"
  using assms
  by (cases src; cases "st_sseSource s")
    (auto simp: core_inv_def stream_inv_def request_inv_def persist_inv_def closeActiveStream_def
      closeSource_def Let_def)

lemma inv_handleError: "chat_inv s \<Longrightarrow> chat_inv (handleError env n e c s)"
  by (simp add: chat_inv_def handleError_def core_closeActiveStream core_handleStreamError
      handleStreamError_not_pending)

subsection \<open>Every step keeps the invariant\<close>

lemma inv_onSseError: "chat_inv s \<Longrightarrow> chat_inv (onSseError env n r d s)"
  by (simp add: onSseError_def inv_handleError split: sum.splits)

lemma inv_onSseReadyState: "chat_inv s \<Longrightarrow> chat_inv (onSseReadyState env n r d s)"
  by (simp add: onSseReadyState_def inv_handleError split: option.splits)

lemma handleStreamUpdate_fields [simp]:
  "st_messages (handleStreamUpdate ty c s) = st_messages s"
  "st_isStreaming (handleStreamUpdate ty c s) = st_isStreaming s"
  "st_isRequesting (handleStreamUpdate ty c s) = st_isRequesting s"
  by (simp_all add: handleStreamUpdate_def scheduleStreamFlush_def split: StreamUpdateType.splits)

lemma core_handleStreamUpdate: "core_inv s \<Longrightarrow> st_isStreaming s \<Longrightarrow> core_inv (handleStreamUpdate ty c s)"
  by (cases ty) (auto simp: core_inv_def stream_inv_def request_inv_def persist_inv_def
      handleStreamUpdate_def scheduleStreamFlush_def)

lemma inv_handleStreamUpdates:
  "chat_inv s \<Longrightarrow> st_isStreaming s \<Longrightarrow>
    chat_inv (foldl (\<lambda>s u. handleStreamUpdate (su_type u) (su_chunk u) s) s (us :: StreamMessageUpdate list))"
proof (induction us arbitrary: s)
  case (Cons u us)
  then show ?case
    by (simp add: chat_inv_def core_handleStreamUpdate isGenerating_def)
qed simp

lemma open_is_streaming: "core_inv s \<Longrightarrow> n \<in> set (st_openSources s) \<Longrightarrow> st_isStreaming s \<and> st_sseSource s = Some n"
  by (auto simp: core_inv_def stream_inv_def split: option.splits)

text \<open>
  \<open>[DONE]\<close> closes the stream before the buffered chunks are flushed: the invariant holds again
  after the flush.
\<close>

lemma core_done:
  assumes "core_inv s" "st_sseSource s = Some n"
  shows "core_inv (handleStreamComplete env (closeActiveStream (Some n) (s\<lparr>st_isStreamComplete := True\<rparr>)))"
    (is "core_inv (handleStreamComplete env ?c)")
proof -
  have "core_inv ((flushStreamUpdates env ?c)\<lparr>st_isRequesting := False\<rparr>)"
    using assms flush_persist [of ?c env] flush_msgs_ok [of ?c env]
    by (auto simp: core_inv_def stream_inv_def request_inv_def persist_inv_def closeActiveStream_def
        closeSource_def Let_def)
  then show ?thesis
    unfolding handleStreamComplete_def Let_def
    by (rule core_updateMessages) (use assms in \<open>simp add: core_inv_def complete_unless_final.upd_msgs_ok flush_msgs_ok\<close>)
qed

lemma inv_onSseMessage:
  assumes "chat_inv s" "n \<in> set (st_openSources s)"
  shows "chat_inv (onSseMessage env n d s)"
proof -
  from assms have "st_isStreaming s" "st_sseSource s = Some n"
    using open_is_streaming by (auto simp: chat_inv_def)
  moreover from this assms(1) have "chat_inv (handleStreamComplete env
      (closeActiveStream (Some n) (s\<lparr>st_isStreamComplete := True\<rparr>)))"
    by (simp add: chat_inv_def core_done handleStreamComplete_not_pending)
  ultimately show ?thesis
    using assms(1) inv_handleError [of s] inv_handleStreamUpdates [of s]
    by (simp add: onSseMessage_def split: sum.splits js_error.splits)
qed

lemma inv_flush:
  assumes "chat_inv s" "st_flushTimer s"
  shows "chat_inv (flushStreamUpdates env s)"
proof -
  have "st_isStreaming s"
    using assms by (auto simp: chat_inv_def core_inv_def stream_inv_def)
  then show ?thesis
    using assms by (simp add: chat_inv_def core_flush isGenerating_def)
qed

lemma core_stop:
  assumes "core_inv s"
  shows "core_inv ((abortActive (flushStreamUpdates env (stopStream s)))
    \<lparr>st_abortController := None, st_isRequesting := False\<rparr>)"
  using assms flush_persist [of "stopStream s" env] flush_msgs_ok [of "stopStream s" env]
  by (cases "st_sseSource s"; cases "st_abortController s")
    (auto simp: core_inv_def stream_inv_def request_inv_def persist_inv_def stopStream_def
        closeActiveStream_def abortActive_def closeSource_def Let_def)

lemma abortActive_messages [simp]: "st_messages (abortActive s) = st_messages s"
  by (simp add: abortActive_def split: option.splits)

lemma stop_not_pending: "\<not> lastPending (st_messages (stopGeneration env s))"
  by (auto simp: stopGeneration_def Let_def lastPending_updateLast pending_iff isAssistantMessagePending_def)

lemma core_stopGeneration: "core_inv s \<Longrightarrow> core_inv (stopGeneration env s)"
  unfolding stopGeneration_def Let_def
  by (rule core_updateMessages [OF core_stop])
    (simp_all add: core_inv_def complete_if_pending.upd_msgs_ok flush_msgs_ok stopStream_def)

lemma stop_not_generating: "\<not> isGenerating (stopGeneration env s)"
  by (simp add: isGenerating_def stopGeneration_def Let_def stopStream_def closeActiveStream_def
      abortActive_def closeSource_def split: option.splits)

text \<open>Requests.\<close>

lemma core_finally_updated:
  assumes "core_inv s"
  shows "core_inv (finallyRequest i (s\<lparr>st_inFlight := removeAll i (st_inFlight s)\<rparr>))"
  using assms by (auto simp: core_inv_def stream_inv_def request_inv_def persist_inv_def
      finallyRequest_def list_all_iff)

lemma finallyRequest_fields [simp]:
  "st_messages (finallyRequest i s) = st_messages s"
  "st_isStreaming (finallyRequest i s) = st_isStreaming s"
  by (simp_all add: finallyRequest_def)

lemma handleStreamError_isRequesting:
  "handleStreamError env e c (s\<lparr>st_isRequesting := b\<rparr>) = handleStreamError env e c s"
  by (simp add: handleStreamError_def flushStreamUpdates_def updateMessages_def persistMessages_def Let_def)

lemma finally_updateMessages: "finallyRequest i (updateMessages f s) = updateMessages f (finallyRequest i s)"
  by (simp add: finallyRequest_def updateMessages_def persistMessages_def Let_def)

lemma core_finally: "core_inv s \<Longrightarrow> core_inv (finallyRequest i s)"
  by (auto simp: core_inv_def stream_inv_def request_inv_def persist_inv_def finallyRequest_def)

lemma core_requestError:
  assumes "core_inv s"
  shows "core_inv (finallyRequest i (handleStreamError env e c (s\<lparr>st_inFlight := removeAll i (st_inFlight s)\<rparr>)))"
proof -
  have "core_inv (s\<lparr>st_inFlight := removeAll i (st_inFlight s), st_isRequesting := False\<rparr>)"
    using assms by (auto simp: core_inv_def stream_inv_def request_inv_def persist_inv_def list_all_iff)
  then show ?thesis
    using core_handleStreamError handleStreamError_isRequesting core_finally by metis
qed

lemma inv_aborted:
  assumes "chat_inv s" "i \<in> set (st_aborted s)"
  shows "chat_inv (finallyRequest i (s\<lparr>st_inFlight := removeAll i (st_inFlight s)\<rparr>))"
  using assms core_finally_updated [of s i]
  by (auto simp: chat_inv_def isGenerating_def core_inv_def request_inv_def finallyRequest_def)

lemma inv_requestRejected: "chat_inv s \<Longrightarrow> chat_inv (requestRejected env i e s)"
  using core_requestError [of s i env] inv_aborted [of s i]
  by (simp add: requestRejected_def Let_def chat_inv_def handleStreamError_not_pending)

lemma response_not_pending:
  "hasChatCompletionChoice response \<Longrightarrow> \<not> lastPending (updateLastAssistantMessage ms
     (\<lambda>m. nullish (applyChatCompletionResponse t1 t2 t3 m response) m))"
  by (auto simp: lastPending_updateLast applyChatCompletionResponse_def hasChatCompletionChoice_def pending_iff)

lemma inv_requestResolved:
  assumes "chat_inv s"
  shows "chat_inv (requestResolved env i response s)"
proof -
  have "chat_inv (finallyRequest i (updateMessages (\<lambda>prev. updateLastAssistantMessage prev (\<lambda>message.
      nullish (applyChatCompletionResponse t1 t2 t3 message response) message))
      (s\<lparr>st_inFlight := removeAll i (st_inFlight s)\<rparr>)))" if "hasChatCompletionChoice response" for t1 t2 t3
    using assms that core_finally_updated [of s i]
    by (simp add: chat_inv_def finally_updateMessages core_updateMessages apply_response.upd_msgs_ok
        core_inv_def [of s] response_not_pending)
  moreover have "chat_inv (finallyRequest i (handleStreamError env API_REQUEST_ERROR None
      (s\<lparr>st_inFlight := removeAll i (st_inFlight s)\<rparr>)))"
    using assms core_requestError [of s i env] by (simp add: chat_inv_def handleStreamError_not_pending)
  ultimately show ?thesis
    using assms inv_aborted [of s i] by (simp add: requestResolved_def Let_def)
qed

text \<open>Sending: the placeholder just appended is covered by the request that starts.\<close>

lemma core_stream_started:
  assumes "core_inv s"
  shows "core_inv (sendStreamingChat env False ms s) \<and> st_isStreaming (sendStreamingChat env False ms s)"
proof (cases "st_sseSource s")
  case None
  with assms show ?thesis
    by (auto simp: sendStreamingChat_def sendStreamRequest_def Let_def closeSource_def core_inv_def
        stream_inv_def request_inv_def persist_inv_def)
next
  case (Some n)
  with assms show ?thesis
    by (auto simp: sendStreamingChat_def sendStreamRequest_def Let_def closeSource_def core_inv_def
        stream_inv_def request_inv_def persist_inv_def)
qed

lemma stream_start_fails:
  "\<exists>n. sendStreamingChat env True ms s =
     closeActiveStream (Some n) (handleStreamError env STREAM_START_ERROR None (sendStreamingChat env False ms s))"
  by (simp add: sendStreamingChat_def sendStreamRequest_def Let_def) blast

lemma inv_sendStreamingChat:
  assumes "core_inv s"
  shows "chat_inv (sendStreamingChat env startFails ms s)"
proof (cases startFails)
  case True
  then show ?thesis
    using stream_start_fails [of env ms s] core_stream_started [OF assms, of env ms]
    by (auto simp: chat_inv_def core_closeActiveStream core_handleStreamError handleStreamError_not_pending)
next
  case False
  then show ?thesis
    using core_stream_started [OF assms, of env ms] by (simp add: chat_inv_def isGenerating_def)
qed

lemma inv_sendNonStreamingChat: "core_inv s \<Longrightarrow> chat_inv (sendNonStreamingChat ms s)"
  by (auto simp: sendNonStreamingChat_def Let_def chat_inv_def core_inv_def stream_inv_def request_inv_def
      persist_inv_def isGenerating_def list_all_iff pred_option_def)

lemma inv_sendChat: "core_inv s \<Longrightarrow> chat_inv (sendChat env startFails ms s)"
  by (simp add: sendChat_def inv_sendStreamingChat inv_sendNonStreamingChat)

lemma inv_send_messages:
  "core_inv s \<Longrightarrow> msgs_ok ms \<Longrightarrow> chat_inv (sendChat env startFails ms (updateMessages (\<lambda>_. ms) s))"
  by (simp add: inv_sendChat core_updateMessages)

lemma idle_settled: "chat_inv s \<Longrightarrow> \<not> isGenerating s \<Longrightarrow> settled (st_messages s)"
  by (auto simp: chat_inv_def core_inv_def intro: msgs_ok_settled)

lemma inv_handleSendMessage:
  assumes "chat_inv s" "settled (st_messages s)" "fresh_ids env s"
  shows "chat_inv (handleSendMessage env startFails txt s)"
proof -
  have "msgs_ok (appendUserMessagePair (e_id env 0) (e_id env 1) (e_id env 2) (e_id env 3) t (st_messages s) txt)" for t
    using assms(2,3) by (auto simp: appendUserMessagePair_def msgs_ok_def settled_def fresh_ids_def butlast_append)
  then show ?thesis
    using assms(1) by (simp add: handleSendMessage_def Let_def inv_send_messages chat_inv_def [of s])
qed

lemma settled_append_placeholder:
  "settled ms \<Longrightarrow> k \<notin> m_key ` set ms \<Longrightarrow> msgs_ok (ms @ [createLoadingAssistantMessage k v t])"
  by (simp add: msgs_ok_snoc)

lemma inv_handleRegenerateMessage:
  assumes "chat_inv s" "settled (st_messages s)" "fresh_ids env s"
  shows "chat_inv (handleRegenerateMessage env startFails k s)"
proof -
  have "msgs_ok ms" if r: "createRegeneratedMessages (e_id env 0) v t (st_messages s) k = Some ms" for v t ms
  proof -
    obtain n where "ms = take n (st_messages s) @ [createLoadingAssistantMessage (e_id env 0) v t]"
      using createRegeneratedMessages_Some [OF r] by blast
    then show ?thesis
      using assms(2,3) by (auto simp: fresh_ids_def intro!: settled_append_placeholder settled_take dest: in_set_takeD)
  qed
  then show ?thesis
    using assms(1) by (simp add: handleRegenerateMessage_def inv_send_messages chat_inv_def [of s] split: option.splits)
qed

lemma edit_submitted_ok:
  assumes "msgs_ok ms" "applyMessageEdit k v t ms key c b = Some r" "k \<notin> m_key ` set ms"
  shows "msgs_ok (er_messages r) \<and> (\<not> er_shouldSend r \<longrightarrow> lastPending (er_messages r) = lastPending ms)"
proof -
  from applyMessageEdit_Some [OF assms(2)] obtain i where i: "i < length ms"
    "er_shouldSend r \<longleftrightarrow> b \<and> m_from (ms ! i) = User"
    "er_messages r = (if er_shouldSend r
      then map (editMessage key c b t) (take (Suc i) ms) @ [createLoadingAssistantMessage k v t]
      else map (editMessage key c b t) ms)"
    by blast
  have "k \<notin> m_key ` set (map (editMessage key c b t) (take (Suc i) ms))"
    using assms(3) by (auto dest!: in_set_takeD)
  then have "er_shouldSend r \<Longrightarrow> msgs_ok (map (editMessage key c b t) (take (Suc i) ms) @
      [createLoadingAssistantMessage k v t])"
    using i assms(1) by (intro settled_append_placeholder settled_edit msgs_ok_take_user) simp_all
  then show ?thesis
    using i(3) assms(1) by (simp add: msgs_ok_edit lastPending_edit)
qed

lemma inv_applyEdit:
  assumes "chat_inv s" "fresh_ids env s"
  shows "chat_inv (applyEdit env startFails c b s)"
proof (cases "truthy_str (st_editingKey s)")
  case None
  then show ?thesis using assms by (simp add: applyEdit_def)
next
  case (Some key)
  let ?e = "applyMessageEdit (e_id env 0) (e_id env 1) (e_clock env 7) (st_messages s) key c b"
  have core: "core_inv (s\<lparr>st_editingKey := None\<rparr>)"
    using assms(1) by (auto simp: chat_inv_def core_inv_def stream_inv_def request_inv_def persist_inv_def)
  show ?thesis
  proof (cases ?e)
    case None
    with Some assms show ?thesis by (simp add: applyEdit_def)
  next
    case (Some r)
    then have "msgs_ok (er_messages r)" "\<not> er_shouldSend r \<longrightarrow> lastPending (er_messages r) = lastPending (st_messages s)"
      using edit_submitted_ok [OF _ Some] assms by (auto simp: chat_inv_def core_inv_def fresh_ids_def)
    with core Some \<open>truthy_str _ = Some key\<close> assms(1) show ?thesis
      by (simp add: applyEdit_def Let_def inv_send_messages)
        (simp add: chat_inv_def core_updateMessages isGenerating_def)
  qed
qed

lemma inv_handleDeleteMessage:
  assumes "chat_inv s" "settled (st_messages s)"
  shows "chat_inv (handleDeleteMessage k s)"
proof -
  have "settled (removeMessageByKey (st_messages s) k)"
    using assms(2) by (simp add: settled_def removeMessageByKey_def list_all_iff distinct_map_filter)
  then show ?thesis
    using assms(1) by (simp add: handleDeleteMessage_def chat_inv_def core_updateMessages settled_msgs_ok
        settled_not_lastPending)
qed

lemma inv_guardAction:
  assumes "chat_inv s" "\<And>s. chat_inv s \<Longrightarrow> \<not> isGenerating s \<Longrightarrow> s = t \<Longrightarrow> chat_inv (action s)" "s = t"
  shows "chat_inv (guardAction env (isGenerating s) action s)"
  using assms by (auto simp: guardAction_def chat_inv_def core_toasts isGenerating_def)

lemma inv_stopGeneration: "chat_inv s \<Longrightarrow> chat_inv (stopGeneration env s)"
  by (simp add: chat_inv_def core_stopGeneration stop_not_pending)

lemma inv_loaded: "chat_inv s \<Longrightarrow> settled ms \<Longrightarrow> chat_inv (messagesLoaded ms s)"
  by (auto simp: messagesLoaded_def chat_inv_def core_inv_def stream_inv_def request_inv_def persist_inv_def
      settled_msgs_ok settled_not_lastPending)

lemma inv_reload: "chat_inv s \<Longrightarrow> chat_inv (pageReload c p s)"
  by (simp add: pageReload_def initialChatState_def chat_inv_def core_inv_def stream_inv_def request_inv_def persist_inv_def)

text \<open>A source that ends with another status than 200 is closed by the handler.\<close>

lemma closed_by_handler:
  assumes "chat_inv s" "isStreamClosedReadyState r" "st_sseSource (onSseReadyState env n r t s) = Some n"
  shows "t \<in> {None, Some 200}"
proof (rule ccontr)
  assume "t \<notin> {None, Some 200}"
  then have "truthy_str (getStreamReadyStateError r t) \<noteq> None"
    using assms(2) by (auto simp: getStreamReadyStateError_def isStreamClosedReadyState_def STREAM_CLOSED_READY_STATE_def
        js_def truthy_str_def)
  then have "st_sseSource (handleError env n (the (truthy_str (getStreamReadyStateError r t))) None s) = Some n"
    using assms(3) by (auto simp: onSseReadyState_def)
  moreover have "st_sseSource s = Some n \<Longrightarrow> \<not> st_isStreamComplete s"
    using assms(1) by (auto simp: chat_inv_def core_inv_def stream_inv_def)
  ultimately show False
    by (auto simp: handleError_def closeActiveStream_def closeSource_def Let_def split: if_splits)
qed

lemma closeActiveStream_counters [simp]:
  "st_nextSource (closeActiveStream src s) = st_nextSource s"
  "st_endedSources (closeActiveStream src s) = st_endedSources s"
  by (simp_all add: closeActiveStream_def closeSource_def Let_def split: option.splits)

lemma onSseReadyState_counters [simp]:
  "st_nextSource (onSseReadyState env n r t s) = st_nextSource s"
  "st_endedSources (onSseReadyState env n r t s) = st_endedSources s"
  by (simp_all add: onSseReadyState_def handleError_def split: option.splits)

lemma inv_ended_list:
  "chat_inv s \<Longrightarrow> ended_ok (st_nextSource s) (st_sseSource s) ended \<Longrightarrow> chat_inv (s\<lparr>st_endedSources := ended\<rparr>)"
  by (auto simp: chat_inv_def core_inv_def stream_inv_def request_inv_def persist_inv_def isGenerating_def)

lemma inv_ended:
  assumes "chat_inv s" "n < st_nextSource s"
  shows "chat_inv (sourceEnds n r t (onSseReadyState env n r t s))"
proof -
  let ?s = "onSseReadyState env n r t s"
  have inv: "chat_inv ?s" using assms(1) by (rule inv_onSseReadyState)
  have "ended_ok (st_nextSource ?s) (st_sseSource ?s) ((n, t) # st_endedSources ?s)" if "isStreamClosedReadyState r"
    using inv assms closed_by_handler [OF assms(1) that]
    by (intro ended_ok_Cons) (auto simp: chat_inv_def core_inv_def stream_inv_def)
  with inv inv_ended_list [OF inv] show ?thesis
    by (simp add: sourceEnds_def)
qed

lemma chat_step_inv: "chat_step s e s' \<Longrightarrow> chat_inv s \<Longrightarrow> chat_inv s'"
proof (induction rule: chat_step.induct)
  case (step_loaded s stored env)
  then have "msgs_ok (st_saved s)"
    by (simp add: chat_inv_def core_inv_def persist_inv_def)
  with step_loaded show ?case
    using inv_loaded loaded_settled by blast
next
  case (step_send env s _ t startFails)
  then have "\<not> isGenerating s"
    by (auto simp: getSubmittableInputText_def split: if_splits)
  with step_send show ?case
    by (auto intro: inv_handleSendMessage idle_settled)
next
  case (step_prompt env s _ startFails)
  then show ?case
    by (auto intro!: inv_handleSendMessage simp: settled_def)
next
  case (step_regenerate env s k startFails)
  then show ?case
    by (auto intro!: inv_guardAction inv_handleRegenerateMessage idle_settled)
next
  case (step_edit s k env)
  then show ?case
    by (auto simp: guardAction_def handleEditMessage_def chat_inv_def core_inv_def stream_inv_def request_inv_def
        persist_inv_def isGenerating_def)
next
  case (step_edit_open s b)
  then show ?case
    by (auto simp: handleEditOpenChange_def chat_inv_def core_inv_def stream_inv_def request_inv_def
        persist_inv_def isGenerating_def)
next
  case (step_delete s k env)
  then show ?case
    by (auto intro!: inv_guardAction inv_handleDeleteMessage idle_settled)
next
  case (step_clear s)
  then have "core_inv (handleEditOpenChange False s)"
    by (auto simp: handleEditOpenChange_def chat_inv_def core_inv_def stream_inv_def request_inv_def persist_inv_def)
  then show ?case
    by (simp add: handleClearMessages_def clearMessages_def chat_inv_def core_updateMessages)
next
  case (step_config s c p)
  then show ?case
    by (auto simp: chat_inv_def core_inv_def stream_inv_def request_inv_def persist_inv_def isGenerating_def)
next
  case (step_save s)
  then show ?case
    by (auto simp: saveTimerFires_def chat_inv_def core_inv_def stream_inv_def request_inv_def persist_inv_def
        isGenerating_def)
qed (simp_all add: inv_reload inv_applyEdit inv_onSseMessage inv_onSseError inv_ended inv_flush
    inv_requestResolved inv_requestRejected inv_stopGeneration)

interpretation chat: invariant_system chat_start chat_step chat_inv
proof
  show "chat_start s \<Longrightarrow> chat_inv s" for s
    by (auto simp: chat_start_def initialChatState_def chat_inv_def core_inv_def stream_inv_def request_inv_def
        persist_inv_def)
qed (rule chat_step_inv)

abbreviation chat_reachable :: "ChatState \<Rightarrow> bool" where
  "chat_reachable \<equiv> reachable chat_start chat_step"

section \<open>A stream that ends without a word\<close>

text \<open>
  The current source is closed by the server with status 200, or with none, and no \<open>[DONE]\<close> has come: no listener
  reacts. The events below come from the environment; all others are actions of the user.
\<close>

definition silentlyEnded :: "ChatState \<Rightarrow> nat \<Rightarrow> bool" where
  "silentlyEnded s n \<longleftrightarrow> st_sseSource s = Some n \<and> n \<in> fst ` set (st_endedSources s)"

fun environmentEvent :: "Event \<Rightarrow> bool" where
  "environmentEvent (MessagesLoaded stored) = True"
| "environmentEvent (SseMessage n d) = True"
| "environmentEvent (SseError n r d) = True"
| "environmentEvent (SseReadyState n r t) = True"
| "environmentEvent FlushTimer = True"
| "environmentEvent SaveTimer = True"
| "environmentEvent (RequestResolved i r) = True"
| "environmentEvent (RequestRejected i e) = True"
| "environmentEvent e = False"

lemma silent_status: "chat_inv s \<Longrightarrow> silentlyEnded s n \<Longrightarrow> \<exists>t\<in>{None, Some 200}. (n, t) \<in> set (st_endedSources s)"
  by (force simp: silentlyEnded_def chat_inv_def core_inv_def stream_inv_def ended_ok_def)

lemma silent_generating: "chat_inv s \<Longrightarrow> silentlyEnded s n \<Longrightarrow> isGenerating s"
  by (auto simp: silentlyEnded_def chat_inv_def core_inv_def stream_inv_def isGenerating_def)

lemma handleError_other: "st_sseSource s = Some n \<Longrightarrow> m \<noteq> n \<Longrightarrow> st_sseSource (handleError env m e c s) = Some n"
  by (simp add: handleError_def closeActiveStream_def closeSource_def Let_def)

lemma handleError_ended [simp]: "st_endedSources (handleError env m e c s) = st_endedSources s"
  by (simp add: handleError_def)

lemma request_stream [simp]:
  "st_sseSource (requestResolved env i r s) = st_sseSource s" "st_endedSources (requestResolved env i r s) = st_endedSources s"
  "st_sseSource (requestRejected env i e s) = st_sseSource s" "st_endedSources (requestRejected env i e s) = st_endedSources s"
  by (simp_all add: requestResolved_def requestRejected_def finallyRequest_def Let_def)

lemma silent_kept:
  assumes "chat_step s e s'" "chat_inv s" "silentlyEnded s n" "environmentEvent e"
  shows "silentlyEnded s' n"
  using assms
proof (induction rule: chat_step.cases)
  case (step_message m s d env)
  then have "st_sseSource s = Some m" by (auto simp: chat_inv_def dest: open_is_streaming)
  with step_message show ?case by (simp add: silentlyEnded_def)
next
  case (step_error m s r d env)
  show ?case
  proof (cases "m = n")
    case True
    with step_error show ?thesis by (simp add: silentlyEnded_def onSseError_def)
  next
    case False
    with step_error show ?thesis
      by (auto simp: silentlyEnded_def onSseError_def handleError_other split: sum.splits)
  qed
next
  case (step_ready m s env r t)
  then have "m \<noteq> n" by (auto simp: silentlyEnded_def)
  with step_ready show ?case
    by (auto simp: silentlyEnded_def sourceEnds_def onSseReadyState_def handleError_other split: option.splits)
next
  case (step_loaded s stored env)
  then show ?case by (simp add: silentlyEnded_def messagesLoaded_def)
next
  case (step_save s)
  then show ?case by (simp add: silentlyEnded_def saveTimerFires_def)
qed (simp_all add: silentlyEnded_def)

section \<open>A stream from its first event to \<open>[DONE]\<close>\<close>

datatype StreamAction = Arrive jstring | TimerFires

text \<open>The visible text an event carries; \<open>None\<close> for anything but plain content.\<close>

definition contentOf :: "jstring \<Rightarrow> jstring option" where
  "contentOf d = (if isStreamDoneMessage d then None
     else (case parseStreamMessageUpdates d of
       Inr [] \<Rightarrow> Some []
     | Inr [u] \<Rightarrow> (case su_type u of Content \<Rightarrow> Some (su_chunk u) | Reasoning \<Rightarrow> None)
     | _ \<Rightarrow> None))"

fun streamSession :: "Env \<Rightarrow> nat \<Rightarrow> StreamAction list \<Rightarrow> ChatState \<Rightarrow> ChatState" where
  "streamSession env n [] s = s"
| "streamSession env n (Arrive d # acts) s = streamSession env n acts (onSseMessage env n d s)"
| "streamSession env n (TimerFires # acts) s = streamSession env n acts (flushStreamUpdates env s)"

fun deliveredText :: "StreamAction list \<Rightarrow> jstring" where
  "deliveredText [] = []"
| "deliveredText (Arrive d # acts) = nullish (contentOf d) [] @ deliveredText acts"
| "deliveredText (TimerFires # acts) = deliveredText acts"

text \<open>
  No event repeats the buffered text and no flushed batch repeats the text shown so far: the two
  places where the code takes a chunk for a snapshot.
\<close>

fun unambiguous :: "jstring \<Rightarrow> jstring \<Rightarrow> StreamAction list \<Rightarrow> bool" where
  "unambiguous shown buf [] \<longleftrightarrow> (shown = [] \<or> buf = [] \<or> \<not> prefix shown buf)"
| "unambiguous shown buf (Arrive d # acts) \<longleftrightarrow> (case contentOf d of
     None \<Rightarrow> False
   | Some c \<Rightarrow> (buf = [] \<or> \<not> prefix buf c) \<and> unambiguous shown (buf @ c) acts)"
| "unambiguous shown buf (TimerFires # acts) \<longleftrightarrow>
     (shown = [] \<or> buf = [] \<or> \<not> prefix shown buf) \<and> unambiguous (shown @ buf) [] acts"

text \<open>The state of a content stream: what the last message shows and what is buffered.\<close>

definition streamingState :: "Message list \<Rightarrow> nat \<Rightarrow> jstring \<Rightarrow> jstring \<Rightarrow> ChatState \<Rightarrow> bool" where
  "streamingState history n shown buf s \<longleftrightarrow>
     (\<exists>m. st_messages s = history @ [m] \<and> pending m \<and> getMessageContent m = shown) \<and>
     st_pendingContent s = buf \<and> st_pendingReasoning s = [] \<and> st_sseSource s = Some n"

lemma streamingState_event:
  assumes "streamingState history n shown buf s" "contentOf d = Some c" "buf = [] \<or> \<not> prefix buf c"
  shows "streamingState history n shown (buf @ c) (onSseMessage env n d s)"
proof -
  from assms(2) obtain us where us: "\<not> isStreamDoneMessage d" "parseStreamMessageUpdates d = Inr us"
    "us = [] \<and> c = [] \<or> (\<exists>u. us = [u] \<and> su_type u = Content \<and> c = su_chunk u)"
    by (auto simp: contentOf_def split: if_splits sum.splits list.splits StreamUpdateType.splits)
  with assms(1,3) show ?thesis
    by (auto simp: onSseMessage_def streamingState_def handleStreamUpdate_def scheduleStreamFlush_def
        mergePendingStreamChunk_def)
qed

lemma streamingState_flush:
  assumes "streamingState history n shown buf s" "shown = [] \<or> buf = [] \<or> \<not> prefix shown buf"
  shows "streamingState history n (shown @ buf) [] (flushStreamUpdates env s)"
proof -
  obtain m where m: "st_messages s = history @ [m]" "pending m" "getMessageContent m = shown"
    using assms(1) by (auto simp: streamingState_def)
  have "m_status m \<noteq> Some Error"
    using m(2) by (auto simp: pending_iff)
  then have "buf \<noteq> [] \<Longrightarrow> getMessageContent (applyPendingChunks env [] buf m) = shown @ buf"
    "buf \<noteq> [] \<Longrightarrow> pending (applyPendingChunks env [] buf m)"
    using assms(2) m(2,3) by (auto simp: applyPendingChunks_content appendable_delta pending_iff
        pending_chunks.role_kept applyPendingChunks_status)
  with assms(1) m show ?thesis
    by (cases "buf = []") (auto simp: streamingState_def flush_messages updateLastAssistantMessage_def pending_iff)
qed

lemma streamingState_session:
  "streamingState history n shown buf s \<Longrightarrow> unambiguous shown buf acts \<Longrightarrow>
    \<exists>shown' buf'. streamingState history n shown' buf' (streamSession env n acts s) \<and>
      shown' @ buf' = shown @ buf @ deliveredText acts \<and> (shown' = [] \<or> buf' = [] \<or> \<not> prefix shown' buf')"
proof (induction env n acts s arbitrary: shown buf rule: streamSession.induct)
  case (1 env n s)
  then show ?case by auto
next
  case (2 env n d acts s)
  from "2.prems"(2) obtain c where c: "contentOf d = Some c" "buf = [] \<or> \<not> prefix buf c"
    "unambiguous shown (buf @ c) acts"
    by (auto split: option.splits)
  from "2.IH" [OF streamingState_event [OF "2.prems"(1) c(1,2)] c(3)] c(1) show ?case
    by simp
next
  case (3 env n acts s)
  from "3.prems"(2) have a: "shown = [] \<or> buf = [] \<or> \<not> prefix shown buf" "unambiguous (shown @ buf) [] acts"
    by simp_all
  from "3.IH" [OF streamingState_flush [OF "3.prems"(1) a(1)] a(2)] show ?case
    by simp
qed

lemma streamingState_done:
  assumes "streamingState history n shown buf s" "shown = [] \<or> buf = [] \<or> \<not> prefix shown buf"
  shows "\<exists>m. st_messages (onSseMessage env n STREAM_DONE_MESSAGE s) = history @ [m] \<and>
    m_status m = Some Complete \<and> getMessageContent m = pt_visibleContent (parseThinkTags (shown @ buf)) \<and>
    \<not> isGenerating (onSseMessage env n STREAM_DONE_MESSAGE s)"
proof -
  let ?c = "closeActiveStream (Some n) (s\<lparr>st_isStreamComplete := True\<rparr>)"
  have "st_messages (flushStreamUpdates env ?c) = st_messages (flushStreamUpdates env s)"
    by (simp add: flush_messages closeActiveStream_def closeSource_def Let_def)
  then obtain m where m: "st_messages (flushStreamUpdates env ?c) = history @ [m]" "pending m"
    "getMessageContent m = shown @ buf"
    using streamingState_flush [OF assms] by (auto simp: streamingState_def)
  have "st_messages (handleStreamComplete env ?c) = history @
      [completeAssistantMessage (e_clock env 4) (e_clock env 5) (e_clock env 6) m]"
    using m final_not_pending [of m]
    by (auto simp: handleStreamComplete_def Let_def updateLastAssistantMessage_def pending_iff)
  moreover have "\<not> isGenerating (handleStreamComplete env ?c)"
    using assms(1) by (simp add: isGenerating_def handleStreamComplete_def Let_def streamingState_def
        closeActiveStream_def closeSource_def)
  ultimately show ?thesis
    using m(3) by (simp add: onSseMessage_def isStreamDoneMessage_def getMessageContent_finalizeMessage)
qed

end
