(* ===== verification/Chat_Properties.thy ===== *)
theory Chat_Properties
  imports Chat_Machine
begin

text \<open>
  The properties of the running playground, with a concrete run as their witness: a prompt is
  selected in the empty chat, the stream starts, two events arrive, the user stops.
\<close>

section \<open>A concrete run\<close>

definition demo_env :: Env where
  "demo_env = \<lparr>e_tr = (\<lambda>s. s), e_clock = (\<lambda>_. 0), e_id = (\<lambda>n. replicate n 97)\<rparr>"

definition demo_started :: ChatState where
  "demo_started = handleSendMessage demo_env False (js ''hi'')
     (messagesLoaded [] (initialChatState DEFAULT_CONFIG DEFAULT_PARAMETER_ENABLED))"

lemma demo_reachable: "chat_reachable demo_started"
proof -
  let ?i = "initialChatState DEFAULT_CONFIG DEFAULT_PARAMETER_ENABLED"
  have "chat_reachable ?i"
    by (rule reach_start) (auto simp: chat_start_def)
  moreover have "chat_step ?i (MessagesLoaded None) (messagesLoaded [] ?i)"
    using step_loaded [of ?i None demo_env] by (simp add: initialChatState_def loadMessages_def)
  ultimately have "chat_reachable (messagesLoaded [] ?i)"
    by (rule reach_step)
  moreover have "chat_step (messagesLoaded [] ?i) (SelectPrompt (js ''hi'')) demo_started"
    unfolding demo_started_def
    by (rule step_prompt) (simp_all add: fresh_ids_def demo_env_def messagesLoaded_def)
  ultimately show ?thesis
    by (rule reach_step)
qed

lemma demo_started_eval:
  "st_isStreaming demo_started" "st_hasLoaded demo_started" "st_sseSource demo_started = Some 0"
  "st_messages demo_started = [createUserMessage [] [97] (js ''hi'') 0, createLoadingAssistantMessage [97, 97] [97, 97, 97] 0]"
  "st_pendingContent demo_started = []" "st_pendingReasoning demo_started = []"
  by (simp_all add: demo_started_def handleSendMessage_def Let_def sendChat_def DEFAULT_CONFIG_def
      sendStreamingChat_def sendStreamRequest_def closeSource_def initialChatState_def messagesLoaded_def
      updateMessages_def persistMessages_def appendUserMessagePair_def demo_env_def numeral_3_eq_3 numeral_2_eq_2)

lemma demo_started_counters: "st_nextSource demo_started = 1" "st_endedSources demo_started = []"
  by (simp_all add: demo_started_def handleSendMessage_def Let_def sendChat_def DEFAULT_CONFIG_def
      sendStreamingChat_def sendStreamRequest_def closeSource_def initialChatState_def messagesLoaded_def
      updateMessages_def persistMessages_def)

lemma demo_stop_reachable: "chat_reachable (stopGeneration demo_env demo_started)"
  by (rule reach_step [OF demo_reachable step_stop]) (simp add: isGenerating_def demo_started_eval)

section \<open>Properties\<close>

text \<open>
  C1. When the spinner can be stuck, exactly: in every reachable state of the playground, over any number of page
  reloads, only the last message can be pending (loading or streaming), and only while the interface shows that it is
  generating. Whenever it is generating, the current stream is open on both sides, or the request of the current
  request id is in flight and not aborted, or the server has closed the current stream with status 200 (or none) and
  without \<open>[DONE]\<close>. In that last case no event of the environment ends it: no message, error, timer or answer, only the
  user.
\<close>

theorem no_stuck_spinner:
  assumes "chat_reachable s"
  shows "list_all (\<lambda>m. \<not> pending m) (butlast (st_messages s)) \<and>
    (isGenerating s \<or> list_all (\<lambda>m. \<not> pending m) (st_messages s)) \<and>
    (isGenerating s \<longrightarrow>
       (\<exists>n. st_sseSource s = Some n \<and> n \<in> set (st_openSources s) \<and> n \<notin> fst ` set (st_endedSources s)) \<or>
       st_requestId s \<in> set (st_inFlight s) \<and> st_requestId s \<notin> set (st_aborted s) \<or>
       (\<exists>n t. silentlyEnded s n \<and> (n, t) \<in> set (st_endedSources s) \<and> t \<in> {None, Some 200})) \<and>
    (\<forall>n e s'. silentlyEnded s n \<and> environmentEvent e \<and> chat_step s e s' \<longrightarrow> silentlyEnded s' n \<and> isGenerating s')"
proof (intro conjI)
  have inv: "chat_inv s"
    using assms by (rule chat.reachable_inv)
  then show "list_all (\<lambda>m. \<not> pending m) (butlast (st_messages s))"
    by (simp add: chat_inv_def core_inv_def msgs_ok_def)
  show "isGenerating s \<or> list_all (\<lambda>m. \<not> pending m) (st_messages s)"
    using inv idle_settled by (auto simp: settled_def)
  have "isGenerating s \<longrightarrow> (\<exists>n. st_sseSource s = Some n \<and> n \<in> set (st_openSources s)) \<or>
       st_requestId s \<in> set (st_inFlight s) \<and> st_requestId s \<notin> set (st_aborted s)"
    using inv by (auto simp: chat_inv_def core_inv_def stream_inv_def request_inv_def isGenerating_def)
  then show "isGenerating s \<longrightarrow>
       (\<exists>n. st_sseSource s = Some n \<and> n \<in> set (st_openSources s) \<and> n \<notin> fst ` set (st_endedSources s)) \<or>
       st_requestId s \<in> set (st_inFlight s) \<and> st_requestId s \<notin> set (st_aborted s) \<or>
       (\<exists>n t. silentlyEnded s n \<and> (n, t) \<in> set (st_endedSources s) \<and> t \<in> {None, Some 200})"
    using silent_status [OF inv] unfolding silentlyEnded_def by blast
  show "\<forall>n e s'. silentlyEnded s n \<and> environmentEvent e \<and> chat_step s e s' \<longrightarrow> silentlyEnded s' n \<and> isGenerating s'"
    using silent_kept [OF _ inv] silent_generating chat_step_inv [OF _ inv] by blast
qed

text \<open>The server closes the stream of the concrete run with status 200, then the source fires an error event.\<close>

definition demo_silent :: ChatState where
  "demo_silent = sourceEnds 0 (Some 2) (Some 200) (onSseReadyState demo_env 0 (Some 2) (Some 200) demo_started)"

lemma demo_silent_reachable: "chat_reachable demo_silent"
  unfolding demo_silent_def
  by (rule reach_step [OF demo_reachable step_ready]) (simp_all add: demo_started_counters)

lemma demo_silent_ended: "silentlyEnded demo_silent 0" "fst ` set (st_endedSources demo_silent) = {0}" "st_nextSource demo_silent = 1"
  by (simp_all add: demo_silent_def silentlyEnded_def sourceEnds_def onSseReadyState_def getStreamReadyStateError_def
      truthy_str_def isStreamClosedReadyState_def STREAM_CLOSED_READY_STATE_def demo_started_eval demo_started_counters)

theorem no_stuck_spinner_witness:
  "silentlyEnded (onSseError demo_env 0 (Some 2) None demo_silent) 0 \<and>
   isGenerating (onSseError demo_env 0 (Some 2) None demo_silent)"
proof -
  have "chat_step demo_silent (SseError 0 (Some 2) None) (onSseError demo_env 0 (Some 2) None demo_silent)"
    by (rule step_error) (simp_all add: demo_silent_ended isStreamClosedReadyState_def STREAM_CLOSED_READY_STATE_def)
  moreover have "environmentEvent (SseError 0 (Some 2) None)" by simp
  ultimately show ?thesis
    using no_stuck_spinner [OF demo_silent_reachable] demo_silent_ended(1) by blast
qed

text \<open>
  C23. At most one live stream: in every reachable state every source on which \<open>close()\<close> has not
  been called is the current one, the flag \<open>isStreaming\<close> says exactly whether there is one, and
  buffered chunks or a pending flush exist only while it is open, so that no chunk can be applied to
  a conversation that has been stopped.
\<close>

theorem single_live_stream:
  assumes "chat_reachable s"
  shows "st_openSources s = (case st_sseSource s of None \<Rightarrow> [] | Some n \<Rightarrow> [n]) \<and>
    st_isStreaming s = (st_sseSource s \<noteq> None) \<and>
    (st_isStreaming s \<or> st_pendingContent s = [] \<and> st_pendingReasoning s = [] \<and> st_flushTimer s = False)"
  using chat.reachable_inv [OF assms] by (auto simp: chat_inv_def core_inv_def stream_inv_def)

theorem single_live_stream_witness: "st_openSources demo_started = [0]"
  using single_live_stream [OF demo_reachable] by (simp add: demo_started_eval)

text \<open>
  Message identity: in every reachable state all messages have different keys, so that an edit, a
  deletion or a regeneration by key acts on one message, and every message has a current version.
\<close>

theorem message_keys_distinct:
  assumes "chat_reachable s"
  shows "distinct (map m_key (st_messages s)) \<and> list_all (\<lambda>m. m_versions m \<noteq> []) (st_messages s)"
  using chat.reachable_inv [OF assms] by (simp add: chat_inv_def core_inv_def msgs_ok_def)

theorem message_keys_distinct_witness: "distinct (map m_key (st_messages demo_started))"
  using message_keys_distinct [OF demo_reachable] by simp

text \<open>
  C24. No update is lost by the debounced saving: in every reachable state after loading, the messages
  handed to \<open>saveMessages\<close> last are the current ones or the save timer is running, and leaving
  the page saves the current ones in either case.
\<close>

theorem debounced_save_complete:
  assumes "chat_reachable s" "st_hasLoaded s"
  shows "(st_saveTimer s \<or> st_saved s = st_messages s) \<and>
    st_saved (unmountPlayground s) = st_messages s \<and> st_saved (saveTimerFires s) = st_messages s"
  using chat.reachable_inv [OF assms(1)] assms(2)
  by (auto simp: chat_inv_def core_inv_def persist_inv_def unmountPlayground_def saveTimerFires_def)

theorem debounced_save_complete_witness:
  "st_saved (unmountPlayground demo_started) = st_messages demo_started"
  using debounced_save_complete [OF demo_reachable demo_started_eval(2)] by simp

text \<open>
  C18. The stop button: from any reachable state it leaves no stream, no buffered text and no pending
  message, the history before the last message is untouched, and when the response of the request
  that was running arrives later it changes nothing that the user sees.
\<close>

theorem stop_settles:
  assumes "chat_reachable s"
  shows "let s' = stopGeneration env s in
    isGenerating s' = False \<and> st_openSources s' = [] \<and> st_pendingContent s' = [] \<and>
    st_pendingReasoning s' = [] \<and> list_all (\<lambda>m. \<not> pending m) (st_messages s') \<and>
    butlast (st_messages s') = butlast (st_messages s) \<and>
    (case st_abortController s of None \<Rightarrow> True | Some i \<Rightarrow>
       st_messages (requestResolved env' i response s') = st_messages s' \<and>
       st_messages (requestRejected env' i error s') = st_messages s' \<and>
       st_toasts (requestRejected env' i error s') = st_toasts s')"
proof -
  let ?s' = "stopGeneration env s"
  have inv: "chat_inv ?s'"
    using chat.reachable_inv [OF assms] by (rule inv_stopGeneration)
  have idle: "\<not> isGenerating ?s'"
    by (rule stop_not_generating)
  from inv idle have "st_openSources ?s' = []" "st_pendingContent ?s' = []" "st_pendingReasoning ?s' = []"
    by (auto simp: chat_inv_def core_inv_def stream_inv_def isGenerating_def split: option.splits)
  moreover have "list_all (\<lambda>m. \<not> pending m) (st_messages ?s')"
    using idle_settled [OF inv idle] by (simp add: settled_def)
  moreover have "butlast (st_messages ?s') = butlast (st_messages s)"
    by (simp add: stopGeneration_def Let_def flush_messages stopStream_def)
  moreover have "i \<in> set (st_aborted ?s')" if "st_abortController s = Some i" for i
    using that by (simp add: stopGeneration_def Let_def abortActive_def stopStream_def closeActiveStream_def
        closeSource_def split: option.splits)
  ultimately show ?thesis
    using idle by (auto simp: Let_def requestResolved_def requestRejected_def finallyRequest_def split: option.splits)
qed

theorem stop_settles_witness:
  "list_all (\<lambda>m. \<not> pending m) (st_messages (stopGeneration demo_env demo_started))"
  using stop_settles [OF demo_reachable, of demo_env demo_env "\<lparr>resp_choices = None\<rparr>" None] by (simp add: Let_def)

text \<open>
  C2. A stream end to end: while the current source delivers content events, with flush timers firing
  anywhere in between, and then \<open>[DONE]\<close>, the history is untouched and the placeholder becomes a
  complete message whose text is the visible part of the concatenated deltas, whatever the batching,
  provided no event repeats the buffered text and no batch repeats the text shown; and the interface
  is idle again.
\<close>

theorem stream_session_delivers:
  assumes "streamingState history n [] [] s" "unambiguous [] [] acts"
  shows "let s' = onSseMessage env n STREAM_DONE_MESSAGE (streamSession env n acts s) in
    (\<exists>m. st_messages s' = history @ [m] \<and> m_status m = Some Complete \<and>
       getMessageContent m = pt_visibleContent (parseThinkTags (deliveredText acts))) \<and>
    isGenerating s' = False"
proof -
  obtain shown buf where s: "streamingState history n shown buf (streamSession env n acts s)"
    "shown @ buf = deliveredText acts" "shown = [] \<or> buf = [] \<or> \<not> prefix shown buf"
    using streamingState_session [OF assms, of env] by auto
  from streamingState_done [OF s(1,3), of env] s(2) show ?thesis
    by (auto simp: Let_def)
qed

definition demo_event :: jstring where
  "demo_event = js ''{\"choices\":[{\"delta\":{\"content\":\"Hi\"}}]}''"

lemma demo_event_content: "contentOf demo_event = Some (js ''Hi'')"
  unfolding demo_event_def by code_simp

theorem stream_session_delivers_witness:
  "let s' = onSseMessage demo_env 0 STREAM_DONE_MESSAGE
     (streamSession demo_env 0 [Arrive demo_event, TimerFires] demo_started) in
   (\<exists>m. st_messages s' = [createUserMessage [] [97] (js ''hi'') 0, m] \<and> m_status m = Some Complete \<and>
      getMessageContent m = js ''Hi'') \<and> isGenerating s' = False"
proof -
  have start: "streamingState [createUserMessage [] [97] (js ''hi'') 0] 0 [] [] demo_started"
    by (simp add: streamingState_def demo_started_eval)
  have clean: "unambiguous [] [] [Arrive demo_event, TimerFires]"
    by (simp add: demo_event_content)
  have "pt_visibleContent (parseThinkTags (js ''Hi'')) = js ''Hi''"
    by code_simp
  then show ?thesis
    using stream_session_delivers [OF start clean, of demo_env]
    by (simp add: demo_event_content Let_def)
qed

text \<open>
  C40. What the missing guard of \<open>applyEdit\<close> allows: without streaming, when an edit is submitted
  while request \<open>i\<close> is running, the old request is not aborted; its response fills the placeholder
  of the new request, which is shown as complete while the new request is still running.
\<close>

theorem edit_submit_keeps_old_request:
  assumes "pc_stream (st_config s) = False" "truthy_str (st_editingKey s) = Some key"
    and "applyMessageEdit (e_id env 0) (e_id env 1) (e_clock env 7) (st_messages s) key c True = Some r"
    and "er_shouldSend r" "i \<le> st_requestId s" "i \<notin> set (st_aborted s)" "firstChoice response = Some choice"
  shows "let s1 = applyEdit env False c True s; s2 = requestResolved env' i response s1 in
    st_messages s1 = er_messages r \<and> lastPending (st_messages s1) \<and>
    st_messages s2 = butlast (er_messages r) @ [applyChatCompletionChoice (e_clock env' 0) (e_clock env' 1)
      (e_clock env' 2) (last (er_messages r)) choice] \<and>
    isGenerating s2"
proof -
  obtain ms where ms: "er_messages r = ms @ [createLoadingAssistantMessage (e_id env 0) (e_id env 1) (e_clock env 7)]"
    using applyMessageEdit_Some [OF assms(3)] assms(4) by auto
  have "applyEdit env False c True s =
      sendNonStreamingChat (er_messages r) (updateMessages (\<lambda>_. er_messages r) (s\<lparr>st_editingKey := None\<rparr>))"
    using assms by (simp add: applyEdit_def Let_def sendChat_def)
  with assms(5,6,7) ms show ?thesis
    by (simp add: Let_def sendNonStreamingChat_def requestResolved_def finallyRequest_def isGenerating_def
        hasChatCompletionChoice_def applyChatCompletionResponse_def updateLastAssistantMessage_def lastPending_def)
qed

text \<open>The state after: a message is being edited, then a text is sent without streaming.\<close>

definition demo_busy :: ChatState where
  "demo_busy = (initialChatState (DEFAULT_CONFIG\<lparr>pc_stream := False\<rparr>) DEFAULT_PARAMETER_ENABLED)
     \<lparr>st_messages := [createUserMessage [98] [] (js ''hi'') 0, createLoadingAssistantMessage [99] [] 0],
      st_editingKey := Some [98], st_requestId := 1, st_inFlight := [1], st_isRequesting := True,
      st_abortController := Some 1\<rparr>"

lemma demo_busy_eval:
  "st_messages demo_busy = [createUserMessage [98] [] (js ''hi'') 0, createLoadingAssistantMessage [99] [] 0]"
  "pc_stream (st_config demo_busy) = False" "st_editingKey demo_busy = Some [98]"
  "st_requestId demo_busy = 1" "st_aborted demo_busy = []"
  by (simp_all add: demo_busy_def initialChatState_def)

theorem edit_submit_keeps_old_request_witness:
  "\<exists>response. let s1 = applyEdit demo_env False (js ''yo'') True demo_busy; s2 = requestResolved demo_env 1 response s1 in
     lastPending (st_messages s1) \<and> lastPending (st_messages s2) = False \<and> isGenerating s2"
proof -
  let ?ms = "[createUserMessage [98] [] (js ''hi'') 0, createLoadingAssistantMessage [99] [] 0]"
  let ?choice = "\<lparr>c_content = Some (js ''old''), c_reasoning_content = None\<rparr>"
  obtain r where "applyMessageEdit (e_id demo_env 0) (e_id demo_env 1) (e_clock demo_env 7) ?ms [98] (js ''yo'') True = Some r"
    "er_shouldSend r"
    by (simp add: applyMessageEdit_def)
  then have "let s1 = applyEdit demo_env False (js ''yo'') True demo_busy;
      s2 = requestResolved demo_env 1 \<lparr>resp_choices = Some [?choice]\<rparr> s1 in
      lastPending (st_messages s1) \<and> st_messages s2 = butlast (er_messages r) @ [applyChatCompletionChoice
        (e_clock demo_env 0) (e_clock demo_env 1) (e_clock demo_env 2) (last (er_messages r)) ?choice] \<and> isGenerating s2"
    using edit_submit_keeps_old_request [of demo_busy "[98]" demo_env "js ''yo''" r 1 "\<lparr>resp_choices = Some [?choice]\<rparr>"
        ?choice demo_env]
    by (auto simp: demo_busy_eval truthy_str_def firstChoice_def Let_def)
  then show ?thesis
    by (intro exI [of _ "\<lparr>resp_choices = Some [?choice]\<rparr>"])
      (auto simp: Let_def lastPending_def [of "butlast ms @ [m]" for ms m] pending_iff)
qed

end
