(* ===== verification/JS_Collections.thy ===== *)
theory JS_Collections
  imports JS_Json "HOL-Library.Multiset"
begin

text \<open>
  \<open>Map\<close> and \<open>Array.prototype.sort\<close> as the dashboard code uses them: a \<open>Map\<close> is an
  association list in insertion order, a sort is stable and driven by a comparator that returns a
  number. The contracts are locales: \<open>comparator\<close> (a consistent comparator, for which sorting
  sorts) and \<open>aggregator\<close> (a loop that adds amounts to the entries of a map).
\<close>

section \<open>\<open>Map\<close>\<close>

type_synonym ('k, 'v) amap = "('k \<times> 'v) list"

definition map_set :: "'k \<Rightarrow> 'v \<Rightarrow> ('k, 'v) amap \<Rightarrow> ('k, 'v) amap" where
  "map_set k v m = (if k \<in> fst ` set m then replace_key k v m else m @ [(k, v)])"

definition map_values :: "('k, 'v) amap \<Rightarrow> 'v list" where
  "map_values m = map snd m"

text \<open>\<open>const x = m.get(k) ?? init; ...; m.set(k, step(x))\<close>\<close>

definition map_upsert :: "'k \<Rightarrow> 'v \<Rightarrow> ('v \<Rightarrow> 'v) \<Rightarrow> ('k, 'v) amap \<Rightarrow> ('k, 'v) amap" where
  "map_upsert k init step m = map_set k (step (nullish (map_of m k) init)) m"

declare map_set_def [js_eval] map_values_def [js_eval] map_upsert_def [js_eval]

lemma map_of_map_set [simp]: "map_of (map_set k v m) = (map_of m)(k \<mapsto> v)"
proof (cases "k \<in> fst ` set m")
  case True
  then have "map_of m k \<noteq> None" by (simp add: map_of_eq_None_iff)
  with True show ?thesis by (simp add: map_set_def map_of_replace_key)
next
  case False
  then have "map_of m k = None" by (simp add: map_of_eq_None_iff)
  with False show ?thesis by (auto simp: map_set_def map_add_def fun_eq_iff split: option.splits)
qed

lemma keys_map_set: "fst ` set (map_set k v m) = insert k (fst ` set m)"
  using keys_replace_key [of k v m] by (auto simp: map_set_def simp flip: set_map)

lemma distinct_map_set: "distinct (map fst m) \<Longrightarrow> distinct (map fst (map_set k v m))"
  by (auto simp: map_set_def keys_replace_key)

lemma keys_map_upsert: "fst ` set (map_upsert k i f m) = insert k (fst ` set m)"
  by (simp add: map_upsert_def keys_map_set)

lemma distinct_map_upsert: "distinct (map fst m) \<Longrightarrow> distinct (map fst (map_upsert k i f m))"
  by (simp add: map_upsert_def distinct_map_set)

lemma map_of_map_upsert:
  "map_of (map_upsert k i f m) = (map_of m)(k \<mapsto> f (nullish (map_of m k) i))"
  by (simp add: map_upsert_def)

text \<open>The sum of a measure over the values with some property.\<close>

lemma sum_replace_key:
  fixes w :: "'v \<Rightarrow> 'b::ab_group_add"
  assumes "distinct (map fst m)" "map_of m k = Some v"
  shows "(\<Sum>e\<leftarrow>replace_key k v' m. w (snd e)) = (\<Sum>e\<leftarrow>m. w (snd e)) - w v + w v'"
  using assms
proof (induction k v' m rule: replace_key.induct)
  case (2 k v' k' u ps)
  then show ?case
    by (auto simp: algebra_simps replace_key.simps map_of_eq_None_iff)
qed simp

lemma sum_map_upsert:
  fixes w :: "'v \<Rightarrow> 'b::ab_group_add"
  assumes "distinct (map fst m)" "map_of m k = None \<Longrightarrow> w i = 0"
  shows "(\<Sum>e\<leftarrow>map_upsert k i f m. w (snd e)) =
    (\<Sum>e\<leftarrow>m. w (snd e)) - w (nullish (map_of m k) i) + w (f (nullish (map_of m k) i))"
proof (cases "map_of m k")
  case None
  then have "k \<notin> fst ` set m" by (simp add: map_of_eq_None_iff)
  with None assms(2) show ?thesis by (simp add: map_upsert_def map_set_def)
next
  case (Some v)
  then have "k \<in> fst ` set m" by (force dest: map_of_SomeD)
  with Some assms(1) show ?thesis by (simp add: map_upsert_def map_set_def sum_replace_key)
qed

section \<open>Sorting\<close>

text \<open>\<open>a || b\<close> on numbers, as comparators are chained.\<close>

definition cmp_or :: "jnum \<Rightarrow> jnum \<Rightarrow> jnum" where
  "cmp_or a b = (if a \<noteq> 0 then a else b)"

fun sort_insert :: "('a \<Rightarrow> 'a \<Rightarrow> jnum) \<Rightarrow> 'a \<Rightarrow> 'a list \<Rightarrow> 'a list" where
  "sort_insert cmp x [] = [x]"
| "sort_insert cmp x (y # ys) = (if cmp x y \<le> 0 then x # y # ys else y # sort_insert cmp x ys)"

definition js_sort :: "('a \<Rightarrow> 'a \<Rightarrow> jnum) \<Rightarrow> 'a list \<Rightarrow> 'a list" where
  "js_sort cmp xs = foldr (sort_insert cmp) xs []"

declare cmp_or_def [js_eval] js_sort_def [js_eval]

lemma mset_sort_insert [simp]: "mset (sort_insert cmp x ys) = add_mset x (mset ys)"
  by (induction cmp x ys rule: sort_insert.induct) auto

lemma mset_js_sort [simp]: "mset (js_sort cmp xs) = mset xs"
  by (induction xs) (simp_all add: js_sort_def)

lemma set_js_sort [simp]: "set (js_sort cmp xs) = set xs"
  by (metis mset_js_sort set_mset_mset)

lemma length_js_sort [simp]: "length (js_sort cmp xs) = length xs"
  by (metis mset_js_sort size_mset)

lemma sum_list_js_sort:
  fixes w :: "'a \<Rightarrow> 'b::comm_monoid_add"
  shows "(\<Sum>x\<leftarrow>js_sort cmp xs. w x) = (\<Sum>x\<leftarrow>xs. w x)"
  by (metis mset_js_sort mset_map sum_mset_sum_list)

lemma distinct_map_js_sort: "distinct (map f (js_sort cmp xs)) = distinct (map f xs)"
proof -
  have "mset (map f (js_sort cmp xs)) = mset (map f xs)"
    by (simp only: mset_map mset_js_sort)
  then show ?thesis
    by (rule mset_eq_imp_distinct_iff)
qed

locale comparator =
  fixes cmp :: "'a \<Rightarrow> 'a \<Rightarrow> jnum"
  assumes cmp_sign: "0 < cmp a b \<longleftrightarrow> cmp b a < 0"
    and cmp_trans: "cmp a b \<le> 0 \<Longrightarrow> cmp b c \<le> 0 \<Longrightarrow> cmp a c \<le> 0"
begin

lemma cmp_total: "\<not> cmp a b \<le> 0 \<Longrightarrow> cmp b a \<le> 0"
  using cmp_sign [of a b] by linarith

lemma cmp_eq_sym: "cmp a b = 0 \<Longrightarrow> cmp b a = 0"
  using cmp_sign [of a b] cmp_sign [of b a] by linarith

lemma cmp_trans_strict: "cmp a b < 0 \<Longrightarrow> cmp b c \<le> 0 \<Longrightarrow> cmp a c < 0"
  using cmp_trans [of b c a] cmp_sign [of a c] cmp_sign [of b a] cmp_sign [of c a]
  by (metis cmp_total leD leI)

lemma cmp_trans_strict': "cmp a b \<le> 0 \<Longrightarrow> cmp b c < 0 \<Longrightarrow> cmp a c < 0"
  using cmp_trans [of c a b] cmp_sign by (metis cmp_total leD leI)

lemma sorted_sort_insert:
  "sorted_wrt (\<lambda>a b. cmp a b \<le> 0) ys \<Longrightarrow> sorted_wrt (\<lambda>a b. cmp a b \<le> 0) (sort_insert cmp x ys)"
proof (induction ys)
  case (Cons y ys)
  have "set (sort_insert cmp x ys) = insert x (set ys)"
    by (metis mset_sort_insert set_mset_mset set_mset_add_mset_insert)
  with Cons show ?case
    by (auto intro: cmp_trans cmp_total)
qed simp

lemma sorted_js_sort: "sorted_wrt (\<lambda>a b. cmp a b \<le> 0) (js_sort cmp xs)"
  by (induction xs) (simp_all add: js_sort_def sorted_sort_insert)

end

lemma comparator_chain:
  assumes f: "comparator f" and g: "comparator g"
  shows "comparator (\<lambda>a b. cmp_or (f a b) (g a b))"
proof
  show "0 < cmp_or (f a b) (g a b) \<longleftrightarrow> cmp_or (f b a) (g b a) < 0" for a b
    using comparator.cmp_sign [OF f] comparator.cmp_sign [OF g]
    by (auto simp: cmp_or_def dest: comparator.cmp_eq_sym [OF f])
  show "cmp_or (f a c) (g a c) \<le> 0"
    if "cmp_or (f a b) (g a b) \<le> 0" "cmp_or (f b c) (g b c) \<le> 0" for a b c
  proof (cases "f a b < 0 \<or> f b c < 0")
    case True
    with that have "f a c < 0"
      using comparator.cmp_trans_strict [OF f, of a b c] comparator.cmp_trans_strict' [OF f, of a b c]
      by (auto simp: cmp_or_def split: if_splits)
    then show ?thesis by (simp add: cmp_or_def)
  next
    case False
    with that have "f a b = 0" "f b c = 0" "g a b \<le> 0" "g b c \<le> 0"
      by (auto simp: cmp_or_def split: if_splits)
    moreover from this have "f a c \<le> 0" "f c a \<le> 0"
      using comparator.cmp_trans [OF f] comparator.cmp_eq_sym [OF f] by (metis order_refl)+
    moreover from this have "f a c = 0"
      using comparator.cmp_sign [OF f, of c a] by linarith
    ultimately show ?thesis
      using comparator.cmp_trans [OF g] by (simp add: cmp_or_def)
  qed
qed

lemma comparator_image: "comparator f \<Longrightarrow> comparator (\<lambda>a b. f (h a) (h b))"
  by (auto simp: comparator_def)

interpretation descending: comparator "\<lambda>a b. w b - (w a :: jnum)"
  by unfold_locales auto

text \<open>
  String comparison by code units: the comparison operators of the language, and an instance of the
  contract that \<open>localeCompare\<close> is documented to satisfy.
\<close>

fun code_unit_compare :: "jstring \<Rightarrow> jstring \<Rightarrow> jnum" where
  "code_unit_compare [] [] = 0"
| "code_unit_compare [] (y # ys) = - 1"
| "code_unit_compare (x # xs) [] = 1"
| "code_unit_compare (x # xs) (y # ys) = (if x < y then - 1 else if y < x then 1 else code_unit_compare xs ys)"

lemma code_unit_sign: "0 < code_unit_compare a b \<longleftrightarrow> code_unit_compare b a < 0"
  by (induction a b rule: code_unit_compare.induct) auto

lemma code_unit_trans: "code_unit_compare a b \<le> 0 \<Longrightarrow> code_unit_compare b c \<le> 0 \<Longrightarrow> code_unit_compare a c \<le> 0"
proof (induction a b arbitrary: c rule: code_unit_compare.induct)
  case (1 c)
  then show ?case by simp
next
  case (2 y ys c)
  then show ?case by (cases c) auto
next
  case (3 x xs c)
  then show ?case by simp
next
  case (4 x xs y ys c)
  then show ?case by (cases c) (auto split: if_splits)
qed

interpretation code_units: comparator code_unit_compare
  by unfold_locales (simp_all add: code_unit_sign code_unit_trans)

section \<open>Aggregation\<close>

text \<open>
  A loop \<open>for (const x of xs) upsert(map, key(x), ...)\<close> that adds \<open>amount x\<close> to the measure
  \<open>w\<close> of the entry of its key.
\<close>

locale aggregator =
  fixes key :: "'x \<Rightarrow> 'k" and init :: "'x \<Rightarrow> 'v" and step :: "'x \<Rightarrow> 'v \<Rightarrow> 'v"
    and w :: "'v \<Rightarrow> jnum" and amount :: "'x \<Rightarrow> jnum"
    and good :: "'x \<Rightarrow> bool" and ok :: "'k \<Rightarrow> 'v \<Rightarrow> bool"
  assumes init_ok: "good x \<Longrightarrow> ok (key x) (init x)"
    and step_ok: "good x \<Longrightarrow> ok (key x) v \<Longrightarrow> ok (key x) (step x v)"
    and init_zero: "good x \<Longrightarrow> w (init x) = 0"
    and step_adds: "good x \<Longrightarrow> ok (key x) v \<Longrightarrow> w (step x v) = w v + amount x"
begin

abbreviation add1 :: "('k, 'v) amap \<Rightarrow> 'x \<Rightarrow> ('k, 'v) amap" where
  "add1 m x \<equiv> map_upsert (key x) (init x) (step x) m"

definition all_ok :: "('k, 'v) amap \<Rightarrow> bool" where
  "all_ok m \<longleftrightarrow> distinct (map fst m) \<and> (\<forall>k v. map_of m k = Some v \<longrightarrow> ok k v)"

lemma all_ok_Nil [simp]: "all_ok []"
  by (simp add: all_ok_def)

lemma current_ok: "all_ok m \<Longrightarrow> good x \<Longrightarrow> ok (key x) (nullish (map_of m (key x)) (init x))"
  by (cases "map_of m (key x)") (auto simp: all_ok_def init_ok)

lemma add1_ok: "all_ok m \<Longrightarrow> good x \<Longrightarrow> all_ok (add1 m x)"
  using current_ok [of m x] by (auto simp: all_ok_def distinct_map_upsert map_of_map_upsert step_ok)

lemma fold_ok: "all_ok m \<Longrightarrow> list_all good xs \<Longrightarrow> all_ok (foldl add1 m xs)"
  by (induction xs arbitrary: m) (simp_all add: add1_ok)

lemma fold_keys: "fst ` set (foldl add1 m xs) = fst ` set m \<union> key ` set xs"
  by (induction xs arbitrary: m) (auto simp: keys_map_upsert)

lemma w_nullish: "good x \<Longrightarrow> w (nullish o1 (init x)) = (case o1 of None \<Rightarrow> 0 | Some v \<Rightarrow> w v)"
  by (cases o1) (simp_all add: init_zero)

text \<open>What one entry has collected.\<close>

lemma fold_entry:
  "all_ok m \<Longrightarrow> list_all good xs \<Longrightarrow> (case map_of (foldl add1 m xs) k of None \<Rightarrow> 0 | Some v \<Rightarrow> w v) =
     (case map_of m k of None \<Rightarrow> 0 | Some v \<Rightarrow> w v) + (\<Sum>x\<leftarrow>filter (\<lambda>x. key x = k) xs. amount x)"
  by (induction xs arbitrary: m)
    (auto simp: map_of_map_upsert step_adds current_ok w_nullish add1_ok)

text \<open>Nothing is lost and nothing is counted twice.\<close>

lemma fold_total:
  "all_ok m \<Longrightarrow> list_all good xs \<Longrightarrow>
    (\<Sum>e\<leftarrow>foldl add1 m xs. w (snd e)) = (\<Sum>e\<leftarrow>m. w (snd e)) + (\<Sum>x\<leftarrow>xs. amount x)"
proof (induction xs arbitrary: m)
  case (Cons x xs)
  then have "(\<Sum>e\<leftarrow>add1 m x. w (snd e)) = (\<Sum>e\<leftarrow>m. w (snd e)) + amount x"
    by (subst sum_map_upsert) (auto simp: all_ok_def [of m] init_zero step_adds current_ok)
  with Cons show ?case
    by (simp add: add1_ok algebra_simps)
qed simp

end

end
