(* ===== verification/Flow_Model.thy ===== *)
theory Flow_Model
  imports JS_Collections
begin

text \<open>
  \<open>features/dashboard/lib/flow.ts\<close>, the data of the dashboard's flow (Sankey) chart, with the types
  of \<open>features/dashboard/types.ts\<close> and the helpers of \<open>lib/flow-selection.ts\<close>.

  \<^item> Identifiers (\<open>user_id\<close>, \<open>token_id\<close>, \<open>channel_id\<close>) are integers, the metrics are numbers;
    both come from JSON, so they are finite.
  \<^item> \<open>lc\<close> is \<open>String.prototype.localeCompare\<close>, \<open>scheme\<close> the colour scheme of the chart
    library, \<open>fmt\<close> the number format of \<open>Intl\<close>.
\<close>

section \<open>Types\<close>

record FlowQuotaDataItem =
  fi_user_id :: "int option"
  fi_username :: "jstring option"
  fi_node_name :: "jstring option"
  fi_use_group :: "jstring option"
  fi_token_id :: "int option"
  fi_token_name :: "jstring option"
  fi_channel_id :: "int option"
  fi_channel_name :: "jstring option"
  fi_model_name :: "jstring option"
  fi_token_used :: "jnum option"
  fi_count :: "jnum option"
  fi_quota :: "jnum option"

datatype FlowMetric = MQuota | MTokens | MRequests

datatype FlowOverflowMode = Aggregate | Hide

datatype FlowRole = RoleUser | RoleAdmin | RoleRoot

datatype FlowNodeKind = KUser | KNode | KToken | KGroup | KModel | KChannel

record FlowNodeFilter =
  nf_kind :: FlowNodeKind
  nf_id :: jstring

record FlowLinkSelection =
  ls_source :: jstring
  ls_target :: jstring

record FlowBuildOptions =
  bo_role :: "FlowRole option"
  bo_selectedUsers :: "jstring list option"
  bo_selectedNodes :: "FlowNodeFilter list option"
  bo_activeNode :: "FlowNodeFilter option"
  bo_activeLink :: "FlowLinkSelection option"
  bo_colorPalette :: "jstring list option"
  bo_visibleStages :: "FlowNodeKind list option"
  bo_topNodeLimit :: "jnum option"
  bo_overflowMode :: "FlowOverflowMode option"
  bo_maskSensitive :: bool
  bo_deletedTokenLabel :: "(int \<Rightarrow> jstring) option"
  bo_otherNodeLabel :: "(FlowNodeKind \<Rightarrow> jstring) option"

record DashboardFlowNode =
  dn_id :: jstring
  dn_label :: jstring
  dn_kind :: FlowNodeKind
  dn_value :: jnum
  dn_requests :: jnum
  dn_quota :: jnum
  dn_tokens :: jnum
  dn_color :: jstring
  dn_colorKey :: jstring
  dn_highlighted :: "bool option"
  dn_dimmed :: "bool option"

record DashboardFlowLink =
  dl_source :: jstring
  dl_target :: jstring
  dl_value :: jnum
  dl_requests :: jnum
  dl_quota :: jnum
  dl_tokens :: jnum
  dl_sourceLabel :: jstring
  dl_targetLabel :: jstring
  dl_color :: jstring
  dl_linkColor :: jstring
  dl_linkAlpha :: jnum
  dl_hoverColor :: jstring
  dl_colorKey :: jstring
  dl_share :: jnum
  dl_highlighted :: "bool option"
  dl_dimmed :: "bool option"

record DashboardFlowGraph =
  fg_nodes :: "DashboardFlowNode list"
  fg_links :: "DashboardFlowLink list"

record FlowUserFilterOption =
  uo_value :: jstring
  uo_label :: jstring
  uo_valueLabel :: jstring
  uo_valueRaw :: jnum
  uo_color :: jstring

record FlowNodeFilterOption =
  no_kind :: FlowNodeKind
  no_value :: jstring
  no_label :: jstring
  no_valueLabel :: jstring
  no_valueRaw :: jnum
  no_color :: jstring

record FlowFilterOptions =
  fo_users :: "FlowUserFilterOption list"
  fo_nodes :: "FlowNodeFilterOption list"

record FlowSummary =
  sm_quota :: jnum
  sm_tokens :: jnum
  sm_requests :: jnum

record ProcessedFlowData =
  pf_summary :: FlowSummary
  pf_flow :: DashboardFlowGraph
  pf_filterOptions :: FlowFilterOptions

record FlowMetrics =
  fm_quota :: jnum
  fm_tokens :: jnum
  fm_requests :: jnum

record FlowPathNode =
  pn_id :: jstring
  pn_label :: jstring
  pn_kind :: FlowNodeKind

record PreparedFlowPath =
  pp_path :: "FlowPathNode list"
  pp_metrics :: FlowMetrics

record FlowNodeRank =
  rk_node :: FlowPathNode
  rk_value :: jnum

type_synonym FlowPathContext = "(int \<Rightarrow> jstring) option"

record FlowGraphOptions =
  gr_topNodeLimit :: "jnum option"
  gr_overflowMode :: "FlowOverflowMode option"
  gr_otherNodeLabel :: "(FlowNodeKind \<Rightarrow> jstring) option"
  gr_activeNode :: "FlowNodeFilter option"
  gr_activeLink :: "FlowLinkSelection option"
  gr_maskSensitive :: bool

record FlowHighlightSets =
  hs_nodes :: "jstring list"
  hs_links :: "jstring list"

section \<open>Constants\<close>

definition DEFAULT_FLOW_CHART_COLOR :: jstring where
  "DEFAULT_FLOW_CHART_COLOR = js ''#1664FF''"

definition OTHER_FLOW_NODE_IDS :: "FlowNodeKind \<Rightarrow> jstring" where
  "OTHER_FLOW_NODE_IDS kind = (case kind of
     KUser \<Rightarrow> js ''user:__other__'' | KNode \<Rightarrow> js ''node:__other__'' | KToken \<Rightarrow> js ''token:__other__''
   | KGroup \<Rightarrow> js ''group:__other__'' | KModel \<Rightarrow> js ''model:__other__'' | KChannel \<Rightarrow> js ''channel:__other__'')"

definition DEFAULT_OTHER_FLOW_NODE_LABELS :: "FlowNodeKind \<Rightarrow> jstring" where
  "DEFAULT_OTHER_FLOW_NODE_LABELS kind = (case kind of
     KUser \<Rightarrow> js ''Other users'' | KNode \<Rightarrow> js ''Other nodes'' | KToken \<Rightarrow> js ''Other tokens''
   | KGroup \<Rightarrow> js ''Other groups'' | KModel \<Rightarrow> js ''Other models'' | KChannel \<Rightarrow> js ''Other channels'')"

definition SENSITIVE_FLOW_KINDS :: "FlowNodeKind list" where
  "SENSITIVE_FLOW_KINDS = [KUser, KNode, KToken, KGroup, KChannel]"

definition OTHER_FLOW_NODE_ID_SET :: "jstring list" where
  "OTHER_FLOW_NODE_ID_SET = map OTHER_FLOW_NODE_IDS [KUser, KNode, KToken, KGroup, KModel, KChannel]"

definition MIN_FLOW_STAGES :: nat where
  "MIN_FLOW_STAGES = 2"

definition FLOW_MASK_TEXT :: jstring where
  "FLOW_MASK_TEXT = [8226, 8226, 8226, 8226]"

section \<open>Paths\<close>

definition numberValue :: "'a::zero option \<Rightarrow> 'a" where
  "numberValue value = (case value of None \<Rightarrow> 0 | Some n \<Rightarrow> n)"

definition rowMetrics :: "FlowQuotaDataItem \<Rightarrow> FlowMetrics" where
  "rowMetrics row = \<lparr>fm_quota = numberValue (fi_quota row), fm_tokens = numberValue (fi_token_used row),
     fm_requests = numberValue (fi_count row)\<rparr>"

definition metricValue :: "FlowMetrics \<Rightarrow> FlowMetric \<Rightarrow> jnum" where
  "metricValue metrics metric = (case metric of
     MRequests \<Rightarrow> fm_requests metrics | MTokens \<Rightarrow> fm_tokens metrics | MQuota \<Rightarrow> fm_quota metrics)"

definition userNode :: "FlowQuotaDataItem \<Rightarrow> FlowPathNode" where
  "userNode row = (let userID = numberValue (fi_user_id row) in
     \<lparr>pn_id = (if userID > 0 then js ''user:'' @ int_str userID
                else js ''user:'' @ or_str (fi_username row) (js ''unknown'')),
      pn_label = or_str (fi_username row)
        (if userID > 0 then js ''user-'' @ int_str userID else js ''Unknown User''),
      pn_kind = KUser\<rparr>)"

definition nodeNameNode :: "FlowQuotaDataItem \<Rightarrow> FlowPathNode" where
  "nodeNameNode row = (let nodeName = or_str (fi_node_name row) (js ''default-node'') in
     \<lparr>pn_id = js ''node:'' @ nodeName, pn_label = nodeName, pn_kind = KNode\<rparr>)"

definition deletedTokenLabel :: "int \<Rightarrow> FlowPathContext \<Rightarrow> jstring" where
  "deletedTokenLabel tokenID ctx =
     (if tokenID \<le> 0 then js ''Unknown Token''
      else (case ctx of Some f \<Rightarrow> f tokenID | None \<Rightarrow> js ''token-'' @ int_str tokenID))"

definition tokenNode :: "FlowQuotaDataItem \<Rightarrow> FlowPathContext \<Rightarrow> FlowPathNode" where
  "tokenNode row ctx = (let tokenID = numberValue (fi_token_id row) in
     \<lparr>pn_id = (if tokenID > 0 then js ''token:'' @ int_str tokenID
                else js ''token:'' @ or_str (fi_token_name row) (js ''unknown'')),
      pn_label = or_str (fi_token_name row) (deletedTokenLabel tokenID ctx),
      pn_kind = KToken\<rparr>)"

definition groupNode :: "FlowQuotaDataItem \<Rightarrow> FlowPathNode" where
  "groupNode row = (let useGroup = or_str (fi_use_group row) (js ''unknown'') in
     \<lparr>pn_id = js ''group:'' @ useGroup, pn_label = useGroup, pn_kind = KGroup\<rparr>)"

definition modelNode :: "FlowQuotaDataItem \<Rightarrow> FlowPathNode" where
  "modelNode row = (let model = or_str (fi_model_name row) (js ''unknown'') in
     \<lparr>pn_id = js ''model:'' @ model, pn_label = or_str (fi_model_name row) (js ''Unknown Model''),
      pn_kind = KModel\<rparr>)"

definition channelNode :: "FlowQuotaDataItem \<Rightarrow> FlowPathNode" where
  "channelNode row = (let channelID = numberValue (fi_channel_id row) in
     \<lparr>pn_id = (if channelID > 0 then js ''channel:'' @ int_str channelID
                else js ''channel:'' @ or_str (fi_channel_name row) (js ''unknown'')),
      pn_label = or_str (fi_channel_name row)
        (if channelID > 0 then js ''channel-'' @ int_str channelID else js ''Unknown''),
      pn_kind = KChannel\<rparr>)"

definition NODE_BUILDERS :: "FlowNodeKind \<Rightarrow> FlowQuotaDataItem \<Rightarrow> FlowPathContext \<Rightarrow> FlowPathNode" where
  "NODE_BUILDERS kind row ctx = (case kind of
     KUser \<Rightarrow> userNode row | KNode \<Rightarrow> nodeNameNode row | KToken \<Rightarrow> tokenNode row ctx
   | KGroup \<Rightarrow> groupNode row | KModel \<Rightarrow> modelNode row | KChannel \<Rightarrow> channelNode row)"

definition getFlowStages :: "FlowRole \<Rightarrow> FlowNodeKind list" where
  "getFlowStages role = (case role of
     RoleRoot \<Rightarrow> [KUser, KNode, KToken, KGroup, KModel, KChannel]
   | RoleAdmin \<Rightarrow> [KUser, KGroup, KModel, KChannel]
   | RoleUser \<Rightarrow> [KToken, KGroup, KModel])"

definition resolveVisibleStages :: "FlowRole \<Rightarrow> FlowNodeKind list option \<Rightarrow> FlowNodeKind list" where
  "resolveVisibleStages role visibleStages =
     (let stages = getFlowStages role in
      case visibleStages of
        None \<Rightarrow> stages
      | Some visible \<Rightarrow>
          (let filtered = filter (\<lambda>stage. stage \<in> set visible) stages in
           if length filtered \<ge> MIN_FLOW_STAGES then filtered else stages))"

definition flowPathForStages ::
    "FlowQuotaDataItem \<Rightarrow> FlowNodeKind list \<Rightarrow> FlowPathContext \<Rightarrow> FlowPathNode list" where
  "flowPathForStages row stages ctx = map (\<lambda>stage. NODE_BUILDERS stage row ctx) stages"

section \<open>Colours\<close>

text \<open>\<open>lib/charts.ts\<close>; a scheme is a list of (\<open>maxDomainLength\<close>, colours), not empty.\<close>

type_synonym color_scheme = "(nat option \<times> jstring option list) list"

definition getDashboardChartColors :: "color_scheme \<Rightarrow> nat \<Rightarrow> jstring list" where
  "getDashboardChartColors schemes domainLength =
     (let scheme = nullish (find (\<lambda>(maxDomainLength, _). case maxDomainLength of
            None \<Rightarrow> True | Some n \<Rightarrow> n = 0 \<or> domainLength \<le> n) schemes) (last schemes) in
      map the (filter (\<lambda>color. color \<noteq> None) (snd scheme)))"

definition colorAt :: "color_scheme \<Rightarrow> nat \<Rightarrow> jstring list option \<Rightarrow> jstring" where
  "colorAt schemes index palette =
     (let colors = (case palette of
            Some (c # cs) \<Rightarrow> c # cs
          | _ \<Rightarrow> getDashboardChartColors schemes (index + 1)) in
      if colors = [] then DEFAULT_FLOW_CHART_COLOR else colors ! (index mod length colors))"

definition colorPalette :: "color_scheme \<Rightarrow> nat \<Rightarrow> jstring list option \<Rightarrow> jstring list" where
  "colorPalette schemes colorCount palette = (case palette of
     Some (c # cs) \<Rightarrow> c # cs
   | _ \<Rightarrow> (let colors = getDashboardChartColors schemes colorCount in
           if colors \<noteq> [] then colors else [DEFAULT_FLOW_CHART_COLOR]))"

text \<open>\<open>x.toFixed(2)\<close> for \<open>0 \<le> x\<close>: the nearer of the two decimals, the larger one on a tie.\<close>

definition toFixed2 :: "jnum \<Rightarrow> jstring" where
  "toFixed2 x = (let n = nat \<lfloor>x * 100 + 1 / 2\<rfloor> in
     nat_str (n div 100) @ js ''.'' @ nat_str (n mod 100 div 10) @ nat_str (n mod 10))"

record AlphaColor =
  ac_color :: jstring
  ac_alpha :: jnum

definition alphaColor :: "jstring \<Rightarrow> jnum \<Rightarrow> AlphaColor" where
  "alphaColor color alpha =
     (let normalized = trim color;
          hex = (if startsWith normalized (js ''#'') then drop 1 normalized else normalized) in
      if length hex \<noteq> 6 \<or> list_ex (\<lambda>c. hex_val c = None) hex
      then \<lparr>ac_color = normalized, ac_alpha = alpha\<rparr>
      else (let value = foldl (\<lambda>n c. 16 * n + the (hex_val c)) 0 hex;
                red = value div 65536 mod 256; green = value div 256 mod 256; blue = value mod 256 in
        \<lparr>ac_color = js ''rgba('' @ nat_str red @ js '', '' @ nat_str green @ js '', '' @ nat_str blue @
            js '', '' @ toFixed2 alpha @ js '')'',
         ac_alpha = 1\<rparr>))"

definition stableColorMap ::
    "color_scheme \<Rightarrow> jstring list \<Rightarrow> jstring list option \<Rightarrow> (jstring, jstring) amap" where
  "stableColorMap schemes keys palette =
     (let uniqueKeys = dedup keys; colors = colorPalette schemes (length uniqueKeys) palette in
      foldl (\<lambda>m (key, index). map_set key (colorAt schemes index (Some colors)) m) []
        (zip uniqueKeys [0..<length uniqueKeys]))"

end
