(* ===== verification/Flow_Graph.thy ===== *)
theory Flow_Graph
  imports Flow_Model
begin

text \<open>
  The second half of \<open>flow.ts\<close>: filtering rows, limiting a column to its top nodes, aggregating
  rows into nodes and links, masking, highlighting, and the composed result
  \<open>buildDashboardFlowData\<close>.
\<close>

section \<open>Filters\<close>

definition filterRows :: "FlowQuotaDataItem list \<Rightarrow> FlowBuildOptions \<Rightarrow> FlowQuotaDataItem list" where
  "filterRows rows options =
     (let selectedUsers = nullish (bo_selectedUsers options) [] in
      if selectedUsers = [] then rows
      else filter (\<lambda>row. pn_id (userNode row) \<in> set selectedUsers) rows)"

definition kindName :: "FlowNodeKind \<Rightarrow> jstring" where
  "kindName kind = (case kind of
     KUser \<Rightarrow> js ''user'' | KNode \<Rightarrow> js ''node'' | KToken \<Rightarrow> js ''token''
   | KGroup \<Rightarrow> js ''group'' | KModel \<Rightarrow> js ''model'' | KChannel \<Rightarrow> js ''channel'')"

definition nodeFilterKey :: "FlowNodeFilter \<Rightarrow> jstring" where
  "nodeFilterKey flt = kindName (nf_kind flt) @ [0] @ nf_id flt"

definition normalizeSelectedNodeFilters ::
    "FlowNodeFilter list option \<Rightarrow> FlowNodeKind list \<Rightarrow> (FlowNodeKind, jstring list) amap" where
  "normalizeSelectedNodeFilters selectedNodes stages =
     foldl (\<lambda>filters flt.
        if nf_kind flt \<notin> set stages then filters
        else map_upsert (nf_kind flt) [] (\<lambda>selected. selected @ [nf_id flt]) filters)
       [] (nullish selectedNodes [])"

definition pathNodesByKind :: "FlowPathNode list \<Rightarrow> (FlowNodeKind, jstring list) amap" where
  "pathNodesByKind path =
     foldl (\<lambda>m node. map_upsert (pn_kind node) [] (\<lambda>ids. ids @ [pn_id node]) m) [] path"

definition pathMatchesNodeFilters :: "FlowPathNode list \<Rightarrow> (FlowNodeKind, jstring list) amap \<Rightarrow> bool" where
  "pathMatchesNodeFilters path filters =
     (if filters = [] then True
      else list_all (\<lambda>(kind, selectedIds).
        (case map_of (pathNodesByKind path) kind of
           None \<Rightarrow> False
         | Some pathIds \<Rightarrow> list_ex (\<lambda>id. id \<in> set pathIds) selectedIds)) filters)"

definition filterRowsByNodes ::
    "FlowQuotaDataItem list \<Rightarrow> FlowNodeFilter list option \<Rightarrow> FlowNodeKind list \<Rightarrow> FlowPathContext \<Rightarrow>
      FlowQuotaDataItem list" where
  "filterRowsByNodes rows selectedNodes stages ctx =
     (let filters = normalizeSelectedNodeFilters selectedNodes stages in
      if filters = [] then rows
      else filter (\<lambda>row. pathMatchesNodeFilters (flowPathForStages row stages ctx) filters) rows)"

definition selectedNodeFiltersExceptKind ::
    "FlowNodeFilter list option \<Rightarrow> FlowNodeKind \<Rightarrow> FlowNodeFilter list option" where
  "selectedNodeFiltersExceptKind selectedNodes kind =
     (let filtered = filter (\<lambda>flt. nf_kind flt \<noteq> kind) (nullish selectedNodes []) in
      if length filtered > 0 then Some filtered else None)"

section \<open>Aggregation\<close>

definition newNode :: "FlowPathNode \<Rightarrow> jstring \<Rightarrow> jstring \<Rightarrow> DashboardFlowNode" where
  "newNode pathNode color colorKey =
     \<lparr>dn_id = pn_id pathNode, dn_label = pn_label pathNode, dn_kind = pn_kind pathNode, dn_value = 0,
      dn_requests = 0, dn_quota = 0, dn_tokens = 0, dn_color = color, dn_colorKey = colorKey,
      dn_highlighted = None, dn_dimmed = None\<rparr>"

definition bumpNode :: "FlowMetrics \<Rightarrow> FlowMetric \<Rightarrow> DashboardFlowNode \<Rightarrow> DashboardFlowNode" where
  "bumpNode metrics metric n =
     n\<lparr>dn_value := dn_value n + metricValue metrics metric, dn_requests := dn_requests n + fm_requests metrics,
       dn_quota := dn_quota n + fm_quota metrics, dn_tokens := dn_tokens n + fm_tokens metrics\<rparr>"

definition addNode ::
    "(jstring, DashboardFlowNode) amap \<Rightarrow> FlowPathNode \<Rightarrow> FlowMetrics \<Rightarrow> FlowMetric \<Rightarrow> jstring \<Rightarrow> jstring \<Rightarrow>
      (jstring, DashboardFlowNode) amap" where
  "addNode m pathNode metrics metric color colorKey =
     map_upsert (pn_id pathNode) (newNode pathNode color colorKey) (bumpNode metrics metric) m"

definition pathLinkKey :: "FlowPathNode \<Rightarrow> FlowPathNode \<Rightarrow> jstring" where
  "pathLinkKey source target = pn_id source @ [0] @ pn_id target"

definition newLink :: "FlowPathNode \<Rightarrow> FlowPathNode \<Rightarrow> jstring \<Rightarrow> jstring \<Rightarrow> DashboardFlowLink" where
  "newLink source target color colorKey =
     \<lparr>dl_source = pn_id source, dl_target = pn_id target, dl_value = 0, dl_requests = 0, dl_quota = 0,
      dl_tokens = 0, dl_sourceLabel = pn_label source, dl_targetLabel = pn_label target,
      dl_color = color, dl_linkColor = color, dl_linkAlpha = 1, dl_hoverColor = color,
      dl_colorKey = colorKey, dl_share = 0, dl_highlighted = None, dl_dimmed = None\<rparr>"

definition bumpLink :: "FlowMetrics \<Rightarrow> FlowMetric \<Rightarrow> DashboardFlowLink \<Rightarrow> DashboardFlowLink" where
  "bumpLink metrics metric l =
     l\<lparr>dl_value := dl_value l + metricValue metrics metric, dl_requests := dl_requests l + fm_requests metrics,
       dl_quota := dl_quota l + fm_quota metrics, dl_tokens := dl_tokens l + fm_tokens metrics\<rparr>"

definition addLink ::
    "(jstring, DashboardFlowLink) amap \<Rightarrow> FlowPathNode \<Rightarrow> FlowPathNode \<Rightarrow> FlowMetrics \<Rightarrow> FlowMetric \<Rightarrow>
      jstring \<Rightarrow> jstring \<Rightarrow> (jstring, DashboardFlowLink) amap" where
  "addLink m source target metrics metric color colorKey =
     map_upsert (pathLinkKey source target) (newLink source target color colorKey) (bumpLink metrics metric) m"

definition buildSummary :: "FlowQuotaDataItem list \<Rightarrow> FlowSummary" where
  "buildSummary rows =
     foldl (\<lambda>summary row. let metrics = rowMetrics row in
        summary\<lparr>sm_quota := sm_quota summary + fm_quota metrics,
                sm_tokens := sm_tokens summary + fm_tokens metrics,
                sm_requests := sm_requests summary + fm_requests metrics\<rparr>)
       \<lparr>sm_quota = 0, sm_tokens = 0, sm_requests = 0\<rparr> rows"

section \<open>The top nodes of a column\<close>

definition normalizeTopNodeLimit :: "jnum option \<Rightarrow> nat option" where
  "normalizeTopNodeLimit limit = (case limit of
     None \<Rightarrow> None
   | Some l \<Rightarrow> (let parsed = \<lfloor>l\<rfloor> in if parsed > 0 then Some (nat parsed) else None))"

definition otherFlowNode :: "FlowNodeKind \<Rightarrow> (FlowNodeKind \<Rightarrow> jstring) option \<Rightarrow> FlowPathNode" where
  "otherFlowNode kind labeler =
     \<lparr>pn_id = OTHER_FLOW_NODE_IDS kind,
      pn_label = nullish (map_option (\<lambda>f. f kind) labeler) (DEFAULT_OTHER_FLOW_NODE_LABELS kind),
      pn_kind = kind\<rparr>"

definition compareRanks :: "(jstring \<Rightarrow> jstring \<Rightarrow> jnum) \<Rightarrow> FlowNodeRank \<Rightarrow> FlowNodeRank \<Rightarrow> jnum" where
  "compareRanks lc a b =
     cmp_or (rk_value b - rk_value a)
       (cmp_or (lc (pn_label (rk_node a)) (pn_label (rk_node b)))
          (lc (pn_id (rk_node a)) (pn_id (rk_node b))))"

definition addRank :: "jstring \<Rightarrow> jnum \<Rightarrow> (jstring, FlowNodeRank) amap \<Rightarrow> FlowPathNode \<Rightarrow> (jstring, FlowNodeRank) amap" where
  "addRank key value m node =
     map_upsert key \<lparr>rk_node = node, rk_value = 0\<rparr> (\<lambda>current. current\<lparr>rk_value := rk_value current + value\<rparr>) m"

definition stageTotals ::
    "FlowQuotaDataItem list \<Rightarrow> FlowMetric \<Rightarrow> FlowNodeKind list \<Rightarrow> FlowPathContext \<Rightarrow>
      (FlowNodeKind, (jstring, FlowNodeRank) amap) amap" where
  "stageTotals rows metric stages ctx =
     foldl (\<lambda>totals row.
        (let value = metricValue (rowMetrics row) metric in
         foldl (\<lambda>totals node. case map_of totals (pn_kind node) of
             None \<Rightarrow> totals
           | Some stageTotals \<Rightarrow> map_set (pn_kind node) (addRank (pn_id node) value stageTotals node) totals)
           totals (flowPathForStages row stages ctx)))
       (foldl (\<lambda>m stage. map_set stage [] m) [] stages) rows"

definition topIds :: "(jstring \<Rightarrow> jstring \<Rightarrow> jnum) \<Rightarrow> nat \<Rightarrow> (jstring, FlowNodeRank) amap \<Rightarrow> jstring list" where
  "topIds lc limit stage_totals =
     map (\<lambda>rank. pn_id (rk_node rank)) (take limit (js_sort (compareRanks lc) (map_values stage_totals)))"

definition buildTopNodeSets ::
    "(jstring \<Rightarrow> jstring \<Rightarrow> jnum) \<Rightarrow> FlowQuotaDataItem list \<Rightarrow> FlowMetric \<Rightarrow> FlowNodeKind list \<Rightarrow> nat option \<Rightarrow>
      FlowPathContext \<Rightarrow> (FlowNodeKind, jstring list) amap option" where
  "buildTopNodeSets lc rows metric stages limit ctx = (case limit of
     None \<Rightarrow> None
   | Some n \<Rightarrow> if n = 0 then None
       else Some (map (\<lambda>(kind, stage_totals). (kind, topIds lc n stage_totals)) (stageTotals rows metric stages ctx)))"

definition isTopFlowNode :: "FlowPathNode \<Rightarrow> (FlowNodeKind, jstring list) amap option \<Rightarrow> bool" where
  "isTopFlowNode node topNodeSets =
     (case (case topNodeSets of None \<Rightarrow> None | Some m \<Rightarrow> map_of m (pn_kind node)) of
        None \<Rightarrow> True | Some topNodes \<Rightarrow> pn_id node \<in> set topNodes)"

definition applyTopNodeLimit ::
    "FlowPathNode list \<Rightarrow> (FlowNodeKind, jstring list) amap option \<Rightarrow> FlowOverflowMode \<Rightarrow>
      (FlowNodeKind \<Rightarrow> jstring) option \<Rightarrow> FlowPathNode list option" where
  "applyTopNodeLimit path topNodeSets mode labeler =
     (if topNodeSets = None then Some path
      else if \<not> list_ex (\<lambda>node. \<not> isTopFlowNode node topNodeSets) path then Some path
      else if mode = Hide then None
      else Some (map (\<lambda>node. if isTopFlowNode node topNodeSets then node
                              else otherFlowNode (pn_kind node) labeler) path))"

section \<open>Highlighting and masking\<close>

definition pathContainsFlowNode :: "FlowPathNode list \<Rightarrow> FlowNodeFilter \<Rightarrow> bool" where
  "pathContainsFlowNode path flt \<longleftrightarrow>
     list_ex (\<lambda>node. pn_kind node = nf_kind flt \<and> pn_id node = nf_id flt) path"

text \<open>The consecutive pairs of a path: what the loops over \<open>path[i]\<close>, \<open>path[i + 1]\<close> visit.\<close>

definition pathPairs :: "'a list \<Rightarrow> ('a \<times> 'a) list" where
  "pathPairs path = zip path (tl path)"

definition pathContainsFlowLink :: "FlowPathNode list \<Rightarrow> FlowLinkSelection \<Rightarrow> bool" where
  "pathContainsFlowLink path link \<longleftrightarrow>
     list_ex (\<lambda>(a, b). pn_id a = ls_source link \<and> pn_id b = ls_target link) (pathPairs path)"

definition matchesPath :: "FlowNodeFilter option \<Rightarrow> FlowLinkSelection option \<Rightarrow> FlowPathNode list \<Rightarrow> bool" where
  "matchesPath activeNode activeLink path = (case activeLink of
     Some link \<Rightarrow> pathContainsFlowLink path link
   | None \<Rightarrow> (case activeNode of Some n \<Rightarrow> pathContainsFlowNode path n | None \<Rightarrow> False))"

definition buildFlowHighlightSets ::
    "PreparedFlowPath list \<Rightarrow> FlowNodeFilter option \<Rightarrow> FlowLinkSelection option \<Rightarrow> FlowNodeKind list \<Rightarrow>
      FlowHighlightSets option" where
  "buildFlowHighlightSets preparedPaths activeNode activeLink stages =
     (let nodeActive = (case activeNode of None \<Rightarrow> False | Some n \<Rightarrow> nf_kind n \<in> set stages) in
      if \<not> nodeActive \<and> activeLink = None then None
      else (let matching = filter (\<lambda>prepared. matchesPath activeNode activeLink (pp_path prepared)) preparedPaths;
                highlightedNodes = concat (map (\<lambda>prepared. map pn_id (pp_path prepared)) matching);
                highlightedLinks = concat (map (\<lambda>prepared. map (\<lambda>(a, b). pathLinkKey a b)
                  (pathPairs (pp_path prepared))) matching) in
        if highlightedNodes = [] then None
        else Some \<lparr>hs_nodes = highlightedNodes, hs_links = highlightedLinks\<rparr>))"

definition maskFlowLabel :: "jstring \<Rightarrow> jstring" where
  "maskFlowLabel label = (if length label = 0 then label else FLOW_MASK_TEXT)"

definition isMaskedNode :: "DashboardFlowNode \<Rightarrow> bool" where
  "isMaskedNode node \<longleftrightarrow> dn_kind node \<in> set SENSITIVE_FLOW_KINDS \<and> dn_id node \<notin> set OTHER_FLOW_NODE_ID_SET"

definition maskedById :: "(jstring, DashboardFlowNode) amap \<Rightarrow> (jstring, jstring) amap" where
  "maskedById nodes =
     foldl (\<lambda>m node. map_set (dn_id node) (maskFlowLabel (dn_label node)) m) []
       (filter isMaskedNode (map_values nodes))"

definition maskFlowGraphLabels ::
    "(jstring, DashboardFlowNode) amap \<Rightarrow> (jstring, DashboardFlowLink) amap \<Rightarrow>
      (jstring, DashboardFlowNode) amap \<times> (jstring, DashboardFlowLink) amap" where
  "maskFlowGraphLabels nodes links =
     (let masked = maskedById nodes;
          nodes' = map (\<lambda>(k, node). (k, if isMaskedNode node
            then node\<lparr>dn_label := maskFlowLabel (dn_label node)\<rparr> else node)) nodes in
      if masked = [] then (nodes', links)
      else (nodes', map (\<lambda>(k, link). (k, link
        \<lparr>dl_sourceLabel := nullish (map_of masked (dl_source link)) (dl_sourceLabel link),
         dl_targetLabel := nullish (map_of masked (dl_target link)) (dl_targetLabel link)\<rparr>)) links))"

definition linkStableKey :: "DashboardFlowLink \<Rightarrow> jstring" where
  "linkStableKey link = dl_source link @ [0] @ dl_target link"

definition applyFlowHighlights ::
    "(jstring, DashboardFlowNode) amap \<Rightarrow> (jstring, DashboardFlowLink) amap \<Rightarrow> FlowHighlightSets option \<Rightarrow>
      (jstring, DashboardFlowNode) amap \<times> (jstring, DashboardFlowLink) amap" where
  "applyFlowHighlights nodes links highlightSets = (case highlightSets of
     None \<Rightarrow> (nodes, links)
   | Some hs \<Rightarrow>
       (map (\<lambda>(k, node). (k, node\<lparr>dn_highlighted := Some (dn_id node \<in> set (hs_nodes hs)),
           dn_dimmed := Some (dn_id node \<notin> set (hs_nodes hs))\<rparr>)) nodes,
        map (\<lambda>(k, link). (k, link\<lparr>dl_highlighted := Some (linkStableKey link \<in> set (hs_links hs)),
           dl_dimmed := Some (linkStableKey link \<notin> set (hs_links hs))\<rparr>)) links))"

section \<open>Display colours\<close>

definition compareLinkColors :: "(jstring \<Rightarrow> jstring \<Rightarrow> jnum) \<Rightarrow> DashboardFlowLink \<Rightarrow> DashboardFlowLink \<Rightarrow> jnum" where
  "compareLinkColors lc a b = cmp_or (dl_value b - dl_value a) (lc (linkStableKey a) (linkStableKey b))"

text \<open>
  The links are objects that the loop over one source's sorted links mutates; a link is found
  again by its source and target, which are unique in the array.
\<close>

definition displayColor :: "(jstring \<Rightarrow> jstring \<Rightarrow> jnum) \<Rightarrow> DashboardFlowLink list \<Rightarrow> DashboardFlowLink \<Rightarrow> AlphaColor" where
  "displayColor lc links link =
     (let sortedLinks = js_sort (compareLinkColors lc) (filter (\<lambda>l. dl_source l = dl_source link) links);
          denominator = max (length sortedLinks - 1) 1;
          index = nullish (findIndex (\<lambda>l. linkStableKey l = linkStableKey link) sortedLinks) 0;
          alpha = (if length sortedLinks = 1 then 34 / 100
                   else 24 / 100 + (of_nat index / of_nat denominator) * (2 / 10)) in
      alphaColor (dl_color link) alpha)"

definition assignLinkDisplayColors :: "(jstring \<Rightarrow> jstring \<Rightarrow> jnum) \<Rightarrow> DashboardFlowLink list \<Rightarrow> DashboardFlowLink list" where
  "assignLinkDisplayColors lc links =
     map (\<lambda>link. let d = displayColor lc links link in
       link\<lparr>dl_linkColor := ac_color d, dl_linkAlpha := ac_alpha d, dl_hoverColor := dl_color link\<rparr>) links"

definition byValueThenLabel :: "(jstring \<Rightarrow> jstring \<Rightarrow> jnum) \<Rightarrow> DashboardFlowNode \<Rightarrow> DashboardFlowNode \<Rightarrow> jnum" where
  "byValueThenLabel lc a b = cmp_or (dn_value b - dn_value a) (lc (dn_label a) (dn_label b))"

section \<open>The graph\<close>

definition preparePaths ::
    "FlowQuotaDataItem list \<Rightarrow> FlowNodeKind list \<Rightarrow> FlowPathContext \<Rightarrow> (FlowNodeKind, jstring list) amap option \<Rightarrow>
      FlowOverflowMode \<Rightarrow> (FlowNodeKind \<Rightarrow> jstring) option \<Rightarrow> PreparedFlowPath list" where
  "preparePaths rows stages ctx topNodeSets overflowMode labeler =
     concat (map (\<lambda>row. case applyTopNodeLimit (flowPathForStages row stages ctx) topNodeSets overflowMode labeler of
        None \<Rightarrow> [] | Some path \<Rightarrow> [\<lparr>pp_path = path, pp_metrics = rowMetrics row\<rparr>]) rows)"

definition rootIds :: "PreparedFlowPath list \<Rightarrow> jstring list" where
  "rootIds preparedPaths =
     filter (\<lambda>id. id \<noteq> []) (concat (map (\<lambda>prepared. case pp_path prepared of [] \<Rightarrow> [] | n # _ \<Rightarrow> [pn_id n]) preparedPaths))"

text \<open>One round of the aggregation loop.\<close>

definition addPathNodes ::
    "FlowMetric \<Rightarrow> (FlowPathNode \<Rightarrow> jstring) \<Rightarrow> (jstring, DashboardFlowNode) amap \<Rightarrow> PreparedFlowPath \<Rightarrow>
      (jstring, DashboardFlowNode) amap" where
  "addPathNodes metric colorOf nodes prepared = (case pp_path prepared of
     [] \<Rightarrow> nodes
   | rootNode # _ \<Rightarrow> foldl (\<lambda>nodes node. addNode nodes node (pp_metrics prepared) metric (colorOf rootNode) (pn_id rootNode))
       nodes (pp_path prepared))"

definition addPathLinks ::
    "FlowMetric \<Rightarrow> (FlowPathNode \<Rightarrow> jstring) \<Rightarrow> (jstring, DashboardFlowLink) amap \<Rightarrow> PreparedFlowPath \<Rightarrow>
      (jstring, DashboardFlowLink) amap" where
  "addPathLinks metric colorOf links prepared = (case pp_path prepared of
     [] \<Rightarrow> links
   | rootNode # _ \<Rightarrow> foldl (\<lambda>links (source, target). addLink links source target (pp_metrics prepared) metric
       (colorOf rootNode) (pn_id rootNode)) links (pathPairs (pp_path prepared)))"

definition assignShares :: "PreparedFlowPath list \<Rightarrow> DashboardFlowLink list \<Rightarrow> DashboardFlowLink list" where
  "assignShares preparedPaths flowLinks =
     (let total = sum_list (map dl_value (filter (\<lambda>link. dl_source link \<in> set (rootIds preparedPaths)) flowLinks)) in
      map (\<lambda>link. link\<lparr>dl_share := (if total > 0 then dl_value link / total else 0)\<rparr>) flowLinks)"

text \<open>The paths of all rows, limited to the top nodes of each column.\<close>

definition graphPaths ::
    "(jstring \<Rightarrow> jstring \<Rightarrow> jnum) \<Rightarrow> FlowQuotaDataItem list \<Rightarrow> FlowMetric \<Rightarrow> FlowNodeKind list \<Rightarrow> FlowPathContext \<Rightarrow>
      FlowGraphOptions \<Rightarrow> PreparedFlowPath list" where
  "graphPaths lc rows metric stages ctx options =
     preparePaths rows stages ctx
       (buildTopNodeSets lc rows metric stages (normalizeTopNodeLimit (gr_topNodeLimit options)) ctx)
       (nullish (gr_overflowMode options) Aggregate) (gr_otherNodeLabel options)"

definition buildFlowGraph ::
    "(jstring \<Rightarrow> jstring \<Rightarrow> jnum) \<Rightarrow> color_scheme \<Rightarrow> FlowQuotaDataItem list \<Rightarrow> FlowMetric \<Rightarrow> FlowRole \<Rightarrow>
      jstring list option \<Rightarrow> FlowNodeKind list option \<Rightarrow> FlowPathContext \<Rightarrow> FlowGraphOptions \<Rightarrow> DashboardFlowGraph" where
  "buildFlowGraph lc schemes rows metric role palette visibleStages ctx options =
     (let stages = resolveVisibleStages role visibleStages;
          preparedPaths = graphPaths lc rows metric stages ctx options;
          colors = stableColorMap schemes (js_sort lc (rootIds preparedPaths)) palette;
          colorOf = (\<lambda>rootNode. nullish (map_of colors (pn_id rootNode)) (colorAt schemes 0 palette));
          nodes = foldl (addPathNodes metric colorOf) [] preparedPaths;
          links = foldl (addPathLinks metric colorOf) [] preparedPaths;
          masked = (if gr_maskSensitive options then maskFlowGraphLabels nodes links else (nodes, links));
          highlighted = applyFlowHighlights (fst masked) (snd masked)
            (buildFlowHighlightSets preparedPaths (gr_activeNode options) (gr_activeLink options) stages);
          flowLinks = js_sort (\<lambda>a b. cmp_or (lc (dl_source a) (dl_source b)) (lc (dl_target a) (dl_target b)))
            (map_values (snd highlighted)) in
      \<lparr>fg_nodes = js_sort (byValueThenLabel lc) (map_values (fst highlighted)),
       fg_links = assignLinkDisplayColors lc (assignShares preparedPaths flowLinks)\<rparr>)"

section \<open>Filter options\<close>

record UserTotal =
  ut_label :: jstring
  ut_value :: jnum
  ut_color :: jstring

definition buildUserFilterOptions ::
    "(jstring \<Rightarrow> jstring \<Rightarrow> jnum) \<Rightarrow> color_scheme \<Rightarrow> (jnum \<Rightarrow> jstring) \<Rightarrow> FlowQuotaDataItem list \<Rightarrow> FlowMetric \<Rightarrow>
      jstring list option \<Rightarrow> FlowUserFilterOption list" where
  "buildUserFilterOptions lc schemes fmt rows metric palette =
     (let colors = stableColorMap schemes (js_sort lc (map (\<lambda>row. pn_id (userNode row)) rows)) palette;
          users = foldl (\<lambda>users row.
            let user = userNode row in
            if (fi_user_id row = None \<or> fi_user_id row = Some 0) \<and> truthy_str (fi_username row) = None then users
            else map_upsert (pn_id user)
              \<lparr>ut_label = pn_label user, ut_value = 0,
               ut_color = nullish (map_of colors (pn_id user)) (colorAt schemes 0 palette)\<rparr>
              (\<lambda>current. current\<lparr>ut_value := ut_value current + metricValue (rowMetrics row) metric\<rparr>) users)
            [] rows in
      js_sort (\<lambda>a b. cmp_or (uo_valueRaw b - uo_valueRaw a) (lc (uo_label a) (uo_label b)))
        (map (\<lambda>(value, user). \<lparr>uo_value = value, uo_label = ut_label user, uo_valueLabel = fmt (ut_value user),
           uo_valueRaw = ut_value user, uo_color = ut_color user\<rparr>) users))"

text \<open>One stage of \<open>buildNodeFilterOptions\<close>.\<close>

definition stageOptions ::
    "(jnum \<Rightarrow> jstring) \<Rightarrow> (jstring \<Rightarrow> jstring) \<Rightarrow> FlowQuotaDataItem list \<Rightarrow> FlowMetric \<Rightarrow> FlowNodeKind list \<Rightarrow>
      FlowPathContext \<Rightarrow> FlowNodeFilter list option \<Rightarrow> FlowNodeKind \<Rightarrow> FlowNodeFilterOption list" where
  "stageOptions fmt colorOf rows metric stages ctx selectedNodes stage =
     (let candidateRows = filterRowsByNodes rows (selectedNodeFiltersExceptKind selectedNodes stage) stages ctx;
          totals = foldl (\<lambda>totals row. let node = NODE_BUILDERS stage row ctx in
              addRank (nodeFilterKey \<lparr>nf_kind = pn_kind node, nf_id = pn_id node\<rparr>)
                (metricValue (rowMetrics row) metric) totals node)
            [] candidateRows in
      map (\<lambda>rank. \<lparr>no_kind = pn_kind (rk_node rank), no_value = pn_id (rk_node rank), no_label = pn_label (rk_node rank),
         no_valueLabel = fmt (rk_value rank), no_valueRaw = rk_value rank, no_color = colorOf (pn_id (rk_node rank))\<rparr>)
        (map_values totals))"

definition compareNodeOptions ::
    "(jstring \<Rightarrow> jstring \<Rightarrow> jnum) \<Rightarrow> FlowNodeKind list \<Rightarrow> FlowNodeFilterOption \<Rightarrow> FlowNodeFilterOption \<Rightarrow> jnum" where
  "compareNodeOptions lc stages a b =
     (let stageOrder = (\<lambda>k. of_nat (nullish (findIndex (\<lambda>s. s = k) stages) 0)) in
      cmp_or (stageOrder (no_kind a) - stageOrder (no_kind b))
        (cmp_or (no_valueRaw b - no_valueRaw a)
          (cmp_or (lc (no_label a) (no_label b)) (lc (no_value a) (no_value b)))))"

definition buildNodeFilterOptions ::
    "(jstring \<Rightarrow> jstring \<Rightarrow> jnum) \<Rightarrow> color_scheme \<Rightarrow> (jnum \<Rightarrow> jstring) \<Rightarrow> FlowQuotaDataItem list \<Rightarrow> FlowMetric \<Rightarrow>
      FlowRole \<Rightarrow> FlowNodeKind list option \<Rightarrow> jstring list option \<Rightarrow> FlowPathContext \<Rightarrow> FlowNodeFilter list option \<Rightarrow>
      FlowNodeFilterOption list" where
  "buildNodeFilterOptions lc schemes fmt rows metric role visibleStages palette ctx selectedNodes =
     (let stages = resolveVisibleStages role visibleStages;
          colorIds = dedup (concat (map (\<lambda>row. map pn_id (flowPathForStages row stages ctx)) rows));
          colors = stableColorMap schemes (js_sort lc colorIds) palette;
          colorOf = (\<lambda>id. nullish (map_of colors id) (colorAt schemes 0 palette)) in
      js_sort (compareNodeOptions lc stages)
        (concat (map (stageOptions fmt colorOf rows metric stages ctx selectedNodes) stages)))"

definition buildFlowFilterOptions ::
    "(jstring \<Rightarrow> jstring \<Rightarrow> jnum) \<Rightarrow> color_scheme \<Rightarrow> (jnum \<Rightarrow> jstring) \<Rightarrow> FlowQuotaDataItem list \<Rightarrow> FlowMetric \<Rightarrow>
      jstring list option \<Rightarrow> FlowRole \<Rightarrow> FlowNodeKind list option \<Rightarrow> FlowNodeFilter list option \<Rightarrow> FlowFilterOptions" where
  "buildFlowFilterOptions lc schemes fmt rows metric palette role visibleStages selectedNodes =
     \<lparr>fo_users = buildUserFilterOptions lc schemes fmt rows metric palette,
      fo_nodes = buildNodeFilterOptions lc schemes fmt rows metric role visibleStages palette None selectedNodes\<rparr>"

definition buildDashboardFlowData ::
    "(jstring \<Rightarrow> jstring \<Rightarrow> jnum) \<Rightarrow> color_scheme \<Rightarrow> (jnum \<Rightarrow> jstring) \<Rightarrow> FlowQuotaDataItem list \<Rightarrow> FlowMetric \<Rightarrow>
      FlowBuildOptions \<Rightarrow> ProcessedFlowData" where
  "buildDashboardFlowData lc schemes fmt rows metric options =
     (let role = nullish (bo_role options) RoleUser;
          palette = bo_colorPalette options;
          ctx = bo_deletedTokenLabel options;
          stages = resolveVisibleStages role (bo_visibleStages options);
          userFilteredRows = filterRows rows options;
          filteredRows = filterRowsByNodes userFilteredRows (bo_selectedNodes options) stages ctx in
      \<lparr>pf_summary = buildSummary filteredRows,
       pf_flow = buildFlowGraph lc schemes filteredRows metric role palette (bo_visibleStages options) ctx
         \<lparr>gr_topNodeLimit = bo_topNodeLimit options, gr_overflowMode = bo_overflowMode options,
          gr_otherNodeLabel = bo_otherNodeLabel options, gr_activeNode = bo_activeNode options,
          gr_activeLink = bo_activeLink options, gr_maskSensitive = bo_maskSensitive options\<rparr>,
       pf_filterOptions =
         \<lparr>fo_users = buildUserFilterOptions lc schemes fmt rows metric palette,
          fo_nodes = buildNodeFilterOptions lc schemes fmt userFilteredRows metric role
            (bo_visibleStages options) palette ctx (bo_selectedNodes options)\<rparr>\<rparr>)"

section \<open>Drawing order and \<open>flow-selection.ts\<close>\<close>

text \<open>\<open>Number(undefined)\<close> is NaN, and a difference with NaN is falsy.\<close>

definition flagDifference :: "bool option \<Rightarrow> bool option \<Rightarrow> jnum" where
  "flagDifference a b = (case (a, b) of (Some x, Some y) \<Rightarrow> of_bool x - of_bool y | _ \<Rightarrow> 0)"

definition byLinkDrawPriority :: "(jstring \<Rightarrow> jstring \<Rightarrow> jnum) \<Rightarrow> DashboardFlowLink \<Rightarrow> DashboardFlowLink \<Rightarrow> jnum" where
  "byLinkDrawPriority lc a b =
     cmp_or (flagDifference (dl_dimmed a) (dl_dimmed b))
       (cmp_or (flagDifference (dl_highlighted b) (dl_highlighted a))
          (cmp_or (dl_value b - dl_value a) (lc (linkStableKey a) (linkStableKey b))))"

definition sankeyZIndex :: "nat \<Rightarrow> DashboardFlowLink \<Rightarrow> nat" where
  "sankeyZIndex index link =
     (if dl_highlighted link = Some True then 1000000 + index
      else if dl_dimmed link = Some True then index
      else 100000 + index)"

definition sankeyLinks :: "(jstring \<Rightarrow> jstring \<Rightarrow> jnum) \<Rightarrow> DashboardFlowGraph \<Rightarrow> (DashboardFlowLink \<times> nat) list" where
  "sankeyLinks lc flow =
     (let sorted_links = js_sort (byLinkDrawPriority lc) (filter (\<lambda>link. dl_value link > 0) (fg_links flow)) in
      map (\<lambda>(index, link). (link, sankeyZIndex index link)) (zip [0..<length sorted_links] sorted_links))"

datatype FlowDisplayState = DisplayLoading | DisplayError | DisplayEmpty | DisplayChart

record FlowResponse =
  fr_success :: bool
  fr_data :: "FlowQuotaDataItem list option"
  fr_message :: "jstring option"

definition requireSuccessfulFlowRows :: "FlowResponse \<Rightarrow> jstring \<Rightarrow> jstring + FlowQuotaDataItem list" where
  "requireSuccessfulFlowRows response fallbackMessage =
     (if \<not> fr_success response then Inl (or_str (fr_message response) fallbackMessage)
      else Inr (nullish (fr_data response) []))"

definition flowDisplayState :: "bool \<Rightarrow> bool \<Rightarrow> nat \<Rightarrow> bool \<Rightarrow> FlowDisplayState" where
  "flowDisplayState isLoading isError linkCount themeReady =
     (if isLoading then DisplayLoading else if isError then DisplayError
      else if linkCount = 0 then DisplayEmpty else if \<not> themeReady then DisplayLoading else DisplayChart)"

definition compactFlowSelectionLabel :: "int \<Rightarrow> jstring" where
  "compactFlowSelectionLabel n = (if n > 0 then int_str n else js ''*'')"

definition visibleFlowUsers :: "FlowUserFilterOption list \<Rightarrow> jstring list \<Rightarrow> FlowUserFilterOption list" where
  "visibleFlowUsers users selectedUsers =
     (if selectedUsers = [] then users else filter (\<lambda>user. uo_value user \<in> set selectedUsers) users)"

end
