(* ===== verification/Flow_Conservation.thy ===== *)
theory Flow_Conservation
  imports Flow_Graph
begin

text \<open>
  The aggregation of the flow chart: the node and link maps as instances of \<open>aggregator\<close>, and what
  masking, highlighting, sorting, sharing and colouring leave unchanged.
\<close>

section \<open>Identifiers and kinds\<close>

definition kindPrefix :: "FlowNodeKind \<Rightarrow> jstring" where
  "kindPrefix kind = kindName kind @ js '':''"

definition wellKinded :: "FlowPathNode \<Rightarrow> bool" where
  "wellKinded n \<longleftrightarrow> prefix (kindPrefix (pn_kind n)) (pn_id n)"

lemma prefix_common: "prefix a s \<Longrightarrow> prefix b s \<Longrightarrow> prefix a b \<or> prefix b a"
  using prefix_same_cases by blast

lemma kindPrefix_unique: "prefix (kindPrefix k) s \<Longrightarrow> prefix (kindPrefix k') s \<Longrightarrow> k = k'"
  by (drule (1) prefix_common, cases k; cases k') (simp_all add: kindPrefix_def kindName_def js_def)

lemma builder_kind [simp]: "pn_kind (NODE_BUILDERS k row ctx) = k"
  by (cases k) (simp_all add: NODE_BUILDERS_def userNode_def nodeNameNode_def tokenNode_def groupNode_def
      modelNode_def channelNode_def Let_def)

lemma builder_wellKinded: "wellKinded (NODE_BUILDERS k row ctx)"
  by (cases k) (simp_all add: wellKinded_def NODE_BUILDERS_def userNode_def nodeNameNode_def tokenNode_def
      groupNode_def modelNode_def channelNode_def kindPrefix_def kindName_def Let_def js_def)

lemma other_wellKinded: "wellKinded (otherFlowNode k labeler)"
  by (cases k) (simp_all add: wellKinded_def otherFlowNode_def OTHER_FLOW_NODE_IDS_def kindPrefix_def
      kindName_def js_def)

lemma other_kind [simp]: "pn_kind (otherFlowNode k labeler) = k"
  by (simp add: otherFlowNode_def)

lemma wellKinded_same_id: "wellKinded a \<Longrightarrow> wellKinded b \<Longrightarrow> pn_id a = pn_id b \<Longrightarrow> pn_kind a = pn_kind b"
  unfolding wellKinded_def using kindPrefix_unique by metis

section \<open>Prepared paths\<close>

text \<open>The columns of every prepared path are the visible stages.\<close>

definition pathOver :: "FlowNodeKind list \<Rightarrow> FlowPathNode list \<Rightarrow> bool" where
  "pathOver stages path \<longleftrightarrow> map pn_kind path = stages \<and> list_all wellKinded path"

lemma pathOver_flowPath: "pathOver stages (flowPathForStages row stages ctx)"
  by (simp add: pathOver_def flowPathForStages_def o_def builder_wellKinded list_all_iff)

lemma pathOver_limit:
  assumes "applyTopNodeLimit path sets mode labeler = Some path'" "pathOver stages path"
  shows "pathOver stages path'"
  using assms
  by (auto simp: applyTopNodeLimit_def pathOver_def list_all_iff other_wellKinded split: if_splits)

lemma prepared_over: "p \<in> set (preparePaths rows stages ctx sets mode labeler) \<Longrightarrow> pathOver stages (pp_path p)"
  by (auto simp: preparePaths_def split: option.splits intro: pathOver_limit pathOver_flowPath)

text \<open>In aggregating mode no row is dropped.\<close>

lemma aggregate_keeps_rows:
  assumes "mode = Aggregate \<or> sets = None"
  shows "map pp_metrics (preparePaths rows stages ctx sets mode labeler) = map rowMetrics rows"
proof -
  have "applyTopNodeLimit path sets mode labeler \<noteq> None" for path
    using assms by (auto simp: applyTopNodeLimit_def)
  then show ?thesis
    by (induction rows) (auto simp: preparePaths_def split: option.splits)
qed

section \<open>Nodes\<close>

type_synonym node_item = "FlowPathNode \<times> FlowMetrics \<times> FlowPathNode"

definition nodeItems :: "PreparedFlowPath list \<Rightarrow> node_item list" where
  "nodeItems ps = concat (map (\<lambda>p. map (\<lambda>n. (n, pp_metrics p, hd (pp_path p))) (pp_path p)) ps)"

lemma addPathNodes_items:
  "addPathNodes metric colorOf m p = foldl (\<lambda>m (n, mt, r). addNode m n mt metric (colorOf r) (pn_id r)) m
     (map (\<lambda>n. (n, pp_metrics p, hd (pp_path p))) (pp_path p))"
  by (cases "pp_path p") (simp_all add: addPathNodes_def foldl_map)

lemma nodes_as_items:
  "foldl (addPathNodes metric colorOf) m ps =
     foldl (\<lambda>m (n, mt, r). addNode m n mt metric (colorOf r) (pn_id r)) m (nodeItems ps)"
  by (induction ps arbitrary: m) (simp_all add: nodeItems_def addPathNodes_items)

interpretation node_agg: aggregator
  "\<lambda>(n, mt, r). pn_id n" "\<lambda>(n, mt, r). newNode n (colorOf r) (pn_id r)"
  "\<lambda>(n, mt, r). bumpNode mt metric"
  "\<lambda>v. if dn_kind v = kd then dn_value v else 0"
  "\<lambda>(n, mt, r). if pn_kind n = kd then metricValue mt metric else 0"
  "\<lambda>(n, mt, r). wellKinded n" "\<lambda>k v. dn_id v = k \<and> prefix (kindPrefix (dn_kind v)) k"
  for colorOf metric kd
  by unfold_locales (auto simp: newNode_def bumpNode_def wellKinded_def dest: kindPrefix_unique)

lemma addNode_add1:
  "(\<lambda>m (n, mt, r). addNode m n mt metric (colorOf r) (pn_id r)) =
     (\<lambda>m x. map_upsert ((\<lambda>(n, mt, r). pn_id n) x) ((\<lambda>(n, mt, r). newNode n (colorOf r) (pn_id r)) x)
        ((\<lambda>(n, mt, r). bumpNode mt metric) x) m)"
  by (auto simp: addNode_def fun_eq_iff)

text \<open>The value of the column of kind \<open>kd\<close>.\<close>

lemma nodeItems_kind_sum:
  assumes "list_all (\<lambda>p. pathOver stages (pp_path p)) ps" "distinct stages" "kd \<in> set stages"
  shows "(\<Sum>x\<leftarrow>nodeItems ps. (\<lambda>(n, mt, r). if pn_kind n = kd then metricValue mt metric else 0) x) =
    (\<Sum>p\<leftarrow>ps. metricValue (pp_metrics p) metric)"
proof -
  have one: "(\<Sum>k\<leftarrow>ks. if k = kd then c else 0) = (if kd \<in> set ks then c else 0)" if "distinct ks" for ks and c :: jnum
    using that by (induction ks) auto
  have "(\<Sum>n\<leftarrow>path. if pn_kind n = kd then c else 0) = c" if "pathOver stages path" for path and c :: jnum
  proof -
    have "map (\<lambda>n. if pn_kind n = kd then c else 0) path = map (\<lambda>k. if k = kd then c else 0) (map pn_kind path)"
      by simp
    with that one [of stages c] assms(2,3) show ?thesis
      by (simp only: pathOver_def if_True)
  qed
  with assms(1) show ?thesis
    by (induction ps) (simp_all add: nodeItems_def o_def)
qed

lemma nodeItems_good:
  "list_all (\<lambda>p. pathOver stages (pp_path p)) ps \<Longrightarrow> list_all (\<lambda>(n, mt, r). wellKinded n) (nodeItems ps)"
  by (auto simp: nodeItems_def list_all_iff pathOver_def)

lemma column_sum:
  assumes "list_all (\<lambda>p. pathOver stages (pp_path p)) ps" "distinct stages" "kd \<in> set stages"
  shows "(\<Sum>v\<leftarrow>map_values (foldl (addPathNodes metric colorOf) [] ps). if dn_kind v = kd then dn_value v else 0) =
    (\<Sum>p\<leftarrow>ps. metricValue (pp_metrics p) metric)"
  using node_agg.fold_total [OF node_agg.all_ok_Nil nodeItems_good [OF assms(1)],
      where colorOf = colorOf and metric = metric and kd = kd]
    nodeItems_kind_sum [OF assms, of metric]
  unfolding nodes_as_items addNode_add1 map_values_def by (simp add: o_def)

text \<open>What one node has collected: the metric of every visit to it.\<close>

abbreviation visits :: "FlowMetric \<Rightarrow> PreparedFlowPath list \<Rightarrow> (FlowPathNode list \<Rightarrow> FlowPathNode list) \<Rightarrow> jstring \<Rightarrow> jnum" where
  "visits metric ps part i \<equiv>
     (\<Sum>p\<leftarrow>ps. \<Sum>n\<leftarrow>filter (\<lambda>n. pn_id n = i) (part (pp_path p)). metricValue (pp_metrics p) metric)"

lemma nodeItems_visits:
  "(\<Sum>x\<leftarrow>filter (\<lambda>(n, mt, r). pn_id n = i) (nodeItems ps). (\<lambda>(n, mt, r). metricValue mt metric) x) =
     visits metric ps (\<lambda>path. path) i"
  by (induction ps) (simp_all add: nodeItems_def filter_map o_def)

lemma node_entry:
  assumes good: "list_all (\<lambda>p. pathOver stages (pp_path p)) ps"
    and v: "v \<in> set (map_values (foldl (addPathNodes metric colorOf) [] ps))"
  shows "prefix (kindPrefix (dn_kind v)) (dn_id v) \<and> dn_value v = visits metric ps (\<lambda>path. path) (dn_id v)"
proof -
  let ?m = "foldl (addPathNodes metric colorOf) [] ps"
  note items = nodeItems_good [OF good]
  have ok: "node_agg.all_ok ?m"
    using node_agg.fold_ok [OF node_agg.all_ok_Nil items, where colorOf = colorOf and metric = metric]
    by (simp only: nodes_as_items addNode_add1)
  from v obtain k where "(k, v) \<in> set ?m"
    by (auto simp: map_values_def)
  with ok have kv: "map_of ?m k = Some v" "dn_id v = k" "prefix (kindPrefix (dn_kind v)) k"
    by (auto simp: node_agg.all_ok_def)
  have "dn_value v = (\<Sum>x\<leftarrow>filter (\<lambda>(n, mt, r). pn_id n = k) (nodeItems ps).
      (\<lambda>(n, mt, r). if pn_kind n = dn_kind v then metricValue mt metric else 0) x)"
    using node_agg.fold_entry [OF node_agg.all_ok_Nil items, where colorOf = colorOf and metric = metric
        and kd = "dn_kind v" and k = k] kv(1)
    by (simp add: nodes_as_items addNode_def split_def)
  also have "\<dots> = (\<Sum>x\<leftarrow>filter (\<lambda>(n, mt, r). pn_id n = k) (nodeItems ps). (\<lambda>(n, mt, r). metricValue mt metric) x)"
    using items kv(3)
    by (intro arg_cong [where f = sum_list] map_cong refl)
      (auto simp: list_all_iff wellKinded_def dest: kindPrefix_unique)
  finally show ?thesis
    using kv(2,3) by (simp add: nodeItems_visits)
qed

section \<open>Links\<close>

type_synonym link_item = "FlowPathNode \<times> FlowPathNode \<times> FlowMetrics \<times> FlowPathNode"

definition linkItems :: "PreparedFlowPath list \<Rightarrow> link_item list" where
  "linkItems ps = concat (map (\<lambda>p. map (\<lambda>(a, b). (a, b, pp_metrics p, hd (pp_path p))) (pathPairs (pp_path p))) ps)"

definition nulFree :: "PreparedFlowPath \<Rightarrow> bool" where
  "nulFree p \<longleftrightarrow> list_all (\<lambda>n. 0 \<notin> set (pn_id n)) (pp_path p)"

lemma addPathLinks_items:
  "addPathLinks metric colorOf m p = foldl (\<lambda>m (a, b, mt, r). addLink m a b mt metric (colorOf r) (pn_id r)) m
     (map (\<lambda>(a, b). (a, b, pp_metrics p, hd (pp_path p))) (pathPairs (pp_path p)))"
  by (cases "pp_path p") (simp_all add: addPathLinks_def foldl_map pathPairs_def split_def)

lemma links_as_items:
  "foldl (addPathLinks metric colorOf) m ps =
     foldl (\<lambda>m (a, b, mt, r). addLink m a b mt metric (colorOf r) (pn_id r)) m (linkItems ps)"
  by (induction ps arbitrary: m) (simp_all add: linkItems_def addPathLinks_items)

lemma nul_split: "0 \<notin> set a \<Longrightarrow> 0 \<notin> set c \<Longrightarrow> a @ (0 :: jchar) # b = c @ 0 # d \<Longrightarrow> a = c \<and> b = d"
proof (induction a arbitrary: c)
  case Nil
  then show ?case by (cases c) auto
next
  case (Cons x a)
  then show ?case by (cases c) auto
qed

lemma linkKey_inj:
  "linkStableKey l = pathLinkKey a b \<Longrightarrow> 0 \<notin> set (dl_source l) \<Longrightarrow> 0 \<notin> set (pn_id a) \<Longrightarrow>
    dl_source l = pn_id a \<and> dl_target l = pn_id b"
  using nul_split [of "dl_source l" "pn_id a" "dl_target l" "pn_id b"]
  by (simp add: linkStableKey_def pathLinkKey_def)

lemma bumpLink_fields [simp]:
  "dl_source (bumpLink mt metric l) = dl_source l" "dl_target (bumpLink mt metric l) = dl_target l"
  "dl_value (bumpLink mt metric l) = dl_value l + metricValue mt metric"
  "linkStableKey (bumpLink mt metric l) = linkStableKey l"
  by (simp_all add: bumpLink_def linkStableKey_def)

lemma newLink_fields [simp]:
  "dl_source (newLink a b c k) = pn_id a" "dl_target (newLink a b c k) = pn_id b" "dl_value (newLink a b c k) = 0"
  "linkStableKey (newLink a b c k) = pathLinkKey a b"
  by (simp_all add: newLink_def linkStableKey_def pathLinkKey_def)

interpretation link_agg: aggregator
  "\<lambda>(a, b, mt, r). pathLinkKey a b" "\<lambda>(a, b, mt, r). newLink a b (colorOf r) (pn_id r)"
  "\<lambda>(a, b, mt, r). bumpLink mt metric"
  "\<lambda>l. if P (dl_source l) (dl_target l) then dl_value l else 0"
  "\<lambda>(a, b, mt, r). if P (pn_id a) (pn_id b) then metricValue mt metric else 0"
  "\<lambda>(a, b, mt, r). 0 \<notin> set (pn_id a)" "\<lambda>k l. linkStableKey l = k \<and> 0 \<notin> set (dl_source l)"
  for colorOf metric P
  by unfold_locales (auto split: prod.splits dest!: linkKey_inj)

lemma addLink_add1:
  "(\<lambda>m (a, b, mt, r). addLink m a b mt metric (colorOf r) (pn_id r)) =
     (\<lambda>m x. map_upsert ((\<lambda>(a, b, mt, r). pathLinkKey a b) x) ((\<lambda>(a, b, mt, r). newLink a b (colorOf r) (pn_id r)) x)
        ((\<lambda>(a, b, mt, r). bumpLink mt metric) x) m)"
  by (auto simp: addLink_def fun_eq_iff)

lemma fst_pathPairs: "map fst (pathPairs path) = butlast path"
  by (simp add: pathPairs_def butlast_conv_take map_fst_zip_take)

lemma snd_pathPairs: "map snd (pathPairs path) = tl path"
  by (simp add: pathPairs_def map_snd_zip_take)

lemma linkItems_good: "list_all nulFree ps \<Longrightarrow> list_all (\<lambda>(a, b, mt, r). 0 \<notin> set (pn_id a)) (linkItems ps)"
  by (auto simp: linkItems_def list_all_iff nulFree_def pathPairs_def dest: set_zip_leftD)

lemma link_sum:
  assumes "list_all nulFree ps"
  shows "(\<Sum>l\<leftarrow>map_values (foldl (addPathLinks metric colorOf) [] ps). if P (dl_source l) (dl_target l) then dl_value l else 0) =
    (\<Sum>p\<leftarrow>ps. \<Sum>(a, b)\<leftarrow>pathPairs (pp_path p). if P (pn_id a) (pn_id b) then metricValue (pp_metrics p) metric else 0)"
proof -
  have "(\<Sum>x\<leftarrow>linkItems ps. (\<lambda>(a, b, mt, r). if P (pn_id a) (pn_id b) then metricValue mt metric else 0) x) =
    (\<Sum>p\<leftarrow>ps. \<Sum>(a, b)\<leftarrow>pathPairs (pp_path p). if P (pn_id a) (pn_id b) then metricValue (pp_metrics p) metric else 0)"
    by (induction ps) (simp_all add: linkItems_def o_def split_def cong: if_cong)
  then show ?thesis
    using link_agg.fold_total [OF link_agg.all_ok_Nil linkItems_good [OF assms],
        where colorOf = colorOf and metric = metric and P = P]
    unfolding links_as_items addLink_add1 map_values_def by (simp add: o_def)
qed

lemma sum_pairs_fst:
  "(\<Sum>(a, b)\<leftarrow>pathPairs path. if pn_id a = i then c else (0 :: jnum)) = (\<Sum>n\<leftarrow>filter (\<lambda>n. pn_id n = i) (butlast path). c)"
proof -
  have "(\<Sum>(a, b)\<leftarrow>pathPairs path. if pn_id a = i then c else 0) = (\<Sum>n\<leftarrow>map fst (pathPairs path). if pn_id n = i then c else 0)"
    by (simp add: o_def split_def)
  then show ?thesis by (simp only: fst_pathPairs sum_list_map_filter')
qed

lemma sum_pairs_snd:
  "(\<Sum>(a, b)\<leftarrow>pathPairs path. if pn_id b = i then c else (0 :: jnum)) = (\<Sum>n\<leftarrow>filter (\<lambda>n. pn_id n = i) (tl path). c)"
proof -
  have "(\<Sum>(a, b)\<leftarrow>pathPairs path. if pn_id b = i then c else 0) = (\<Sum>n\<leftarrow>map snd (pathPairs path). if pn_id n = i then c else 0)"
    by (simp add: o_def split_def)
  then show ?thesis by (simp only: snd_pathPairs sum_list_map_filter')
qed

section \<open>What the later passes keep\<close>

definition node_core :: "DashboardFlowNode \<Rightarrow> jstring \<times> FlowNodeKind \<times> jnum" where
  "node_core n = (dn_id n, dn_kind n, dn_value n)"

definition link_core :: "DashboardFlowLink \<Rightarrow> jstring \<times> jstring \<times> jnum" where
  "link_core l = (dl_source l, dl_target l, dl_value l)"

lemma mask_core:
  "map (node_core \<circ> snd) (fst (maskFlowGraphLabels nodes links)) = map (node_core \<circ> snd) nodes"
  "map (link_core \<circ> snd) (snd (maskFlowGraphLabels nodes links)) = map (link_core \<circ> snd) links"
  by (auto simp: maskFlowGraphLabels_def Let_def node_core_def link_core_def)

lemma highlight_core:
  "map (node_core \<circ> snd) (fst (applyFlowHighlights nodes links hs)) = map (node_core \<circ> snd) nodes"
  "map (link_core \<circ> snd) (snd (applyFlowHighlights nodes links hs)) = map (link_core \<circ> snd) links"
  by (auto simp: applyFlowHighlights_def node_core_def link_core_def split: option.splits)

lemma shares_core: "map link_core (assignShares ps ls) = map link_core ls"
  by (simp add: assignShares_def Let_def link_core_def)

lemma colors_core: "map link_core (assignLinkDisplayColors lc ls) = map link_core ls"
  by (simp add: assignLinkDisplayColors_def Let_def link_core_def)

lemma graph_core:
  assumes "ps = graphPaths lc rows metric (resolveVisibleStages role visible) ctx options"
    and "G = buildFlowGraph lc schemes rows metric role palette visible ctx options"
  shows "\<exists>colorOf. mset (map node_core (fg_nodes G)) =
      mset (map node_core (map_values (foldl (addPathNodes metric colorOf) [] ps))) \<and>
    mset (map link_core (fg_links G)) = mset (map link_core (map_values (foldl (addPathLinks metric colorOf) [] ps)))"
proof -
  define colorOf where "colorOf rootNode = nullish (map_of (stableColorMap schemes (js_sort lc (rootIds ps)) palette)
    (pn_id rootNode)) (colorAt schemes 0 palette)" for rootNode :: FlowPathNode
  let ?n = "foldl (addPathNodes metric colorOf) [] ps" and ?l = "foldl (addPathLinks metric colorOf) [] ps"
  define masked where "masked = (if gr_maskSensitive options then maskFlowGraphLabels ?n ?l else (?n, ?l))"
  define high where "high = applyFlowHighlights (fst masked) (snd masked)
      (buildFlowHighlightSets ps (gr_activeNode options) (gr_activeLink options) (resolveVisibleStages role visible))"
  have "map (node_core \<circ> snd) (fst high) = map (node_core \<circ> snd) ?n"
    "map (link_core \<circ> snd) (snd high) = map (link_core \<circ> snd) ?l"
    by (simp_all add: high_def highlight_core masked_def mask_core)
  moreover have "fg_nodes G = js_sort (byValueThenLabel lc) (map_values (fst high))"
    "fg_links G = assignLinkDisplayColors lc (assignShares ps (js_sort (\<lambda>a b. cmp_or (lc (dl_source a) (dl_source b))
       (lc (dl_target a) (dl_target b))) (map_values (snd high))))"
    unfolding assms(2) buildFlowGraph_def Let_def high_def masked_def colorOf_def [abs_def] assms(1)
    by simp_all
  moreover from this have "mset (map node_core (fg_nodes G)) = mset (map (node_core \<circ> snd) (fst high))"
    "mset (map link_core (fg_links G)) = mset (map (link_core \<circ> snd) (snd high))"
    by (simp_all only: shares_core colors_core) (simp_all add: map_values_def multiset.map_comp)
  ultimately show ?thesis
    by (intro exI [of _ colorOf]) (simp add: map_values_def del: mset_map)
qed

end
