(* ===== verification/Flow_Properties.thy ===== *)
theory Flow_Properties
  imports Flow_Conservation
begin

text \<open>The properties of the flow chart.\<close>

section \<open>Lemmas\<close>

lemma stages_distinct: "distinct (resolveVisibleStages role visible)"
  by (cases role) (auto simp: resolveVisibleStages_def getFlowStages_def Let_def split: option.splits)

lemma stages_length: "2 \<le> length (resolveVisibleStages role visible)"
  by (cases role) (auto simp: resolveVisibleStages_def getFlowStages_def MIN_FLOW_STAGES_def Let_def split: option.splits)

lemma graphPaths_over:
  "list_all (\<lambda>p. pathOver stages (pp_path p)) (graphPaths lc rows metric stages ctx options)"
  by (auto simp: list_all_iff graphPaths_def intro: prepared_over)

lemma sum_core:
  assumes "mset (map f xs) = mset (map f ys)"
  shows "(\<Sum>x\<leftarrow>xs. g (f x)) = (\<Sum>y\<leftarrow>ys. (g (f y) :: jnum))"
proof -
  have "(\<Sum>x\<leftarrow>map f xs. g x) = (\<Sum>y\<leftarrow>map f ys. g y)"
    using assms by (metis mset_map sum_mset_sum_list)
  then show ?thesis by (simp add: o_def)
qed

lemma summary_total:
  "(\<Sum>row\<leftarrow>rows. metricValue (rowMetrics row) metric) = (let s = buildSummary rows in
     metricValue \<lparr>fm_quota = sm_quota s, fm_tokens = sm_tokens s, fm_requests = sm_requests s\<rparr> metric)"
proof -
  have "foldl (\<lambda>summary row. let metrics = rowMetrics row in
        summary\<lparr>sm_quota := sm_quota summary + fm_quota metrics,
                sm_tokens := sm_tokens summary + fm_tokens metrics,
                sm_requests := sm_requests summary + fm_requests metrics\<rparr>) s rows =
     \<lparr>sm_quota = sm_quota s + (\<Sum>row\<leftarrow>rows. fm_quota (rowMetrics row)),
      sm_tokens = sm_tokens s + (\<Sum>row\<leftarrow>rows. fm_tokens (rowMetrics row)),
      sm_requests = sm_requests s + (\<Sum>row\<leftarrow>rows. fm_requests (rowMetrics row))\<rparr>" for s
    by (induction rows arbitrary: s) (simp_all add: Let_def)
  then show ?thesis
    by (cases metric) (simp_all add: buildSummary_def Let_def metricValue_def)
qed

lemma sum_metric_of: "(\<Sum>x\<leftarrow>xs. metricValue (f x) metric) = sum_list (map (\<lambda>mt. metricValue mt metric) (map f xs))"
  by (simp add: o_def)

lemma sum_core_nodes:
  assumes "mset (map node_core xs) = mset (map node_core ys)"
  shows "(\<Sum>n\<leftarrow>xs. if dn_kind n = kd then dn_value n else 0) = (\<Sum>n\<leftarrow>ys. if dn_kind n = kd then dn_value n else 0)"
  using sum_core [OF assms, of "\<lambda>(i, k, v). if k = kd then v else 0"] by (simp add: node_core_def)

lemma sum_core_links:
  assumes "mset (map link_core xs) = mset (map link_core ys)"
  shows "(\<Sum>l\<leftarrow>xs. if P (dl_source l) (dl_target l) then dl_value l else 0) =
    (\<Sum>l\<leftarrow>ys. if P (dl_source l) (dl_target l) then dl_value l else 0)"
  using sum_core [OF assms, of "\<lambda>(s, t, v). if P s t then v else 0"] by (simp add: link_core_def)

lemma graph_column:
  assumes "kd \<in> set (resolveVisibleStages role visible)"
  shows "(\<Sum>n\<leftarrow>fg_nodes (buildFlowGraph lc schemes rows metric role palette visible ctx options).
      if dn_kind n = kd then dn_value n else 0) =
    (\<Sum>p\<leftarrow>graphPaths lc rows metric (resolveVisibleStages role visible) ctx options. metricValue (pp_metrics p) metric)"
proof -
  let ?ps = "graphPaths lc rows metric (resolveVisibleStages role visible) ctx options"
  obtain colorOf where c: "mset (map node_core (fg_nodes (buildFlowGraph lc schemes rows metric role palette visible ctx options))) =
      mset (map node_core (map_values (foldl (addPathNodes metric colorOf) [] ?ps)))"
    using graph_core [OF refl refl] by blast
  show ?thesis
    unfolding sum_core_nodes [OF c] by (rule column_sum [OF graphPaths_over stages_distinct assms])
qed

lemma visits_part:
  assumes "\<And>p. p \<in> set ps \<Longrightarrow> filter (\<lambda>n. pn_id n = i) (part (pp_path p)) = filter (\<lambda>n. pn_id n = i) (pp_path p)"
  shows "visits metric ps part i = visits metric ps (\<lambda>path. path) i"
  using assms by (intro arg_cong [where f = sum_list] map_cong refl) simp

lemma over_other_kind:
  assumes "wellKinded m" "prefix (kindPrefix kd) i" "pn_kind m \<noteq> kd"
  shows "pn_id m \<noteq> i"
  using assms kindPrefix_unique by (auto simp: wellKinded_def)

lemma filter_butlast_over:
  assumes "pathOver stages path" "kd \<noteq> last stages" "prefix (kindPrefix kd) i"
  shows "filter (\<lambda>n. pn_id n = i) (butlast path) = filter (\<lambda>n. pn_id n = i) path"
proof (cases path rule: rev_cases)
  case (snoc path' m)
  with assms have "wellKinded m" "pn_kind m \<noteq> kd"
    by (auto simp: pathOver_def)
  with snoc over_other_kind [OF _ assms(3)] show ?thesis by simp
qed simp

lemma filter_tl_over:
  assumes "pathOver stages path" "kd \<noteq> hd stages" "prefix (kindPrefix kd) i"
  shows "filter (\<lambda>n. pn_id n = i) (tl path) = filter (\<lambda>n. pn_id n = i) path"
proof (cases path)
  case (Cons m path')
  with assms have "wellKinded m" "pn_kind m \<noteq> kd"
    by (auto simp: pathOver_def)
  with Cons over_other_kind [OF _ assms(3)] show ?thesis by simp
qed simp

section \<open>Properties\<close>

text \<open>
  C19. Every column of the chart carries the same total: for every visible stage the values of the
  nodes of that kind add up to the metric of all rows, which is what the summary shows, whatever the
  role, the hidden stages, the top-node limit, masking and highlighting, when the overflow is
  aggregated (or no limit applies).
\<close>

theorem columns_match_summary:
  assumes "kd \<in> set (resolveVisibleStages role visible)"
    and "nullish (gr_overflowMode options) Aggregate = Aggregate \<or> normalizeTopNodeLimit (gr_topNodeLimit options) = None"
  shows "(\<Sum>n\<leftarrow>fg_nodes (buildFlowGraph lc schemes rows metric role palette visible ctx options).
      if dn_kind n = kd then dn_value n else 0) =
    (let s = buildSummary rows in
     metricValue \<lparr>fm_quota = sm_quota s, fm_tokens = sm_tokens s, fm_requests = sm_requests s\<rparr> metric)"
proof -
  have "map pp_metrics (graphPaths lc rows metric (resolveVisibleStages role visible) ctx options) = map rowMetrics rows"
    unfolding graphPaths_def using assms(2) by (intro aggregate_keeps_rows) (auto simp: buildTopNodeSets_def)
  then have "(\<Sum>p\<leftarrow>graphPaths lc rows metric (resolveVisibleStages role visible) ctx options. metricValue (pp_metrics p) metric) =
      (\<Sum>row\<leftarrow>rows. metricValue (rowMetrics row) metric)"
    by (metis sum_metric_of)
  then show ?thesis
    by (simp only: graph_column [OF assms(1)] summary_total)
qed

definition demo_row :: "jstring \<Rightarrow> jstring \<Rightarrow> jnum \<Rightarrow> FlowQuotaDataItem" where
  "demo_row token model q = \<lparr>fi_user_id = Some 7, fi_username = None, fi_node_name = None, fi_use_group = Some (js ''vip''),
     fi_token_id = None, fi_token_name = Some token, fi_channel_id = None, fi_channel_name = None,
     fi_model_name = Some model, fi_token_used = None, fi_count = Some 1, fi_quota = Some q\<rparr>"

definition demo_rows :: "FlowQuotaDataItem list" where
  "demo_rows = [demo_row (js ''a'') (js ''m1'') 5, demo_row (js ''b'') (js ''m1'') 7, demo_row (js ''c'') (js ''m2'') 1]"

definition demo_options :: FlowGraphOptions where
  "demo_options = \<lparr>gr_topNodeLimit = Some 2, gr_overflowMode = None, gr_otherNodeLabel = None, gr_activeNode = None,
     gr_activeLink = None, gr_maskSensitive = True\<rparr>"

theorem columns_match_summary_witness:
  "(\<Sum>n\<leftarrow>fg_nodes (buildFlowGraph code_unit_compare [] demo_rows MQuota RoleUser (Some [js ''#112233'']) None None demo_options).
      if dn_kind n = KToken then dn_value n else 0) = 13"
proof -
  have "KToken \<in> set (resolveVisibleStages RoleUser None)"
    by (simp add: resolveVisibleStages_def getFlowStages_def)
  from columns_match_summary [OF this, of demo_options code_unit_compare "[]" demo_rows MQuota "Some [js ''#112233'']" None]
  show ?thesis
    by (simp add: demo_options_def demo_rows_def demo_row_def buildSummary_def rowMetrics_def numberValue_def metricValue_def Let_def)
qed

text \<open>
  C4. The chart conserves flow: at every node outside the last column the values of the outgoing links
  add up to the value of the node, and at every node outside the first column so do the incoming ones,
  when no name contains the NUL character that separates the two ids in a link's key.
\<close>

theorem flow_conservation:
  assumes "stages = resolveVisibleStages role visible"
    and "G = buildFlowGraph lc schemes rows metric role palette visible ctx options"
    and "list_all nulFree (graphPaths lc rows metric stages ctx options)"
    and "n \<in> set (fg_nodes G)"
  shows "(dn_kind n \<noteq> last stages \<longrightarrow> (\<Sum>l\<leftarrow>fg_links G. if dl_source l = dn_id n then dl_value l else 0) = dn_value n) \<and>
    (dn_kind n \<noteq> hd stages \<longrightarrow> (\<Sum>l\<leftarrow>fg_links G. if dl_target l = dn_id n then dl_value l else 0) = dn_value n)"
proof -
  let ?ps = "graphPaths lc rows metric stages ctx options"
  obtain colorOf where c: "mset (map node_core (fg_nodes G)) =
      mset (map node_core (map_values (foldl (addPathNodes metric colorOf) [] ?ps)))"
    "mset (map link_core (fg_links G)) = mset (map link_core (map_values (foldl (addPathLinks metric colorOf) [] ?ps)))"
    using graph_core [OF refl assms(2)] assms(1) by blast
  have "node_core n \<in> set (map node_core (map_values (foldl (addPathNodes metric colorOf) [] ?ps)))"
    using assms(4) c(1) by (metis image_eqI list.set_map set_mset_mset)
  then obtain v where v: "v \<in> set (map_values (foldl (addPathNodes metric colorOf) [] ?ps))" "node_core n = node_core v"
    by auto
  from node_entry [OF graphPaths_over v(1)] v(2)
  have n: "prefix (kindPrefix (dn_kind n)) (dn_id n)" "dn_value n = visits metric ?ps (\<lambda>path. path) (dn_id n)"
    by (simp_all add: node_core_def)
  have over: "p \<in> set ?ps \<Longrightarrow> pathOver stages (pp_path p)" for p
    using graphPaths_over by (auto simp: list_all_iff)
  have "visits metric ?ps butlast (dn_id n) = dn_value n" if "dn_kind n \<noteq> last stages"
    unfolding n(2) using that over n(1) by (intro visits_part) (auto intro: filter_butlast_over)
  moreover have "visits metric ?ps tl (dn_id n) = dn_value n" if "dn_kind n \<noteq> hd stages"
    unfolding n(2) using that over n(1) by (intro visits_part) (auto intro: filter_tl_over)
  ultimately show ?thesis
    using sum_core_links [OF c(2), of "\<lambda>s t. s = dn_id n"] link_sum [OF assms(3), of "\<lambda>s t. s = dn_id n" metric colorOf]
      sum_core_links [OF c(2), of "\<lambda>s t. t = dn_id n"] link_sum [OF assms(3), of "\<lambda>s t. t = dn_id n" metric colorOf]
    by (simp add: sum_pairs_fst sum_pairs_snd)
qed

theorem flow_conservation_witness:
  "\<exists>n. n \<in> set (fg_nodes (buildFlowGraph code_unit_compare [] demo_rows MQuota RoleUser None None None demo_options)) \<and>
     dn_kind n = KToken \<and>
     (\<Sum>l\<leftarrow>fg_links (buildFlowGraph code_unit_compare [] demo_rows MQuota RoleUser None None None demo_options).
        if dl_source l = dn_id n then dl_value l else 0) = dn_value n"
proof -
  let ?G = "buildFlowGraph code_unit_compare [] demo_rows MQuota RoleUser None None None demo_options"
  have st: "resolveVisibleStages RoleUser None = [KToken, KGroup, KModel]"
    by (simp add: resolveVisibleStages_def getFlowStages_def)
  have nul: "list_all nulFree (graphPaths code_unit_compare demo_rows MQuota [KToken, KGroup, KModel] None demo_options)"
    by code_simp
  have "(\<Sum>n\<leftarrow>fg_nodes ?G. if dn_kind n = KToken then dn_value n else 0) = 13"
    by (subst graph_column) (simp_all add: st, code_simp)
  then have "(\<Sum>n\<leftarrow>fg_nodes ?G. if dn_kind n = KToken then dn_value n else 0) \<noteq> 0"
    by simp
  then obtain n where "n \<in> set (fg_nodes ?G)" "dn_kind n = KToken"
    by (metis (mono_tags, lifting) sum_list_0 map_eq_conv)
  then show ?thesis
    using flow_conservation [OF st [symmetric] refl nul] by auto
qed

end
