(* ===== verification/Flow_Display.thy ===== *)
theory Flow_Display
  imports Flow_Properties
begin

text \<open>
  Shares, the top-node limit, masking and highlighting of the flow chart.
\<close>

section \<open>Shares\<close>

lemma sum_list_zero: "(\<And>x. x \<in> set xs \<Longrightarrow> f x = 0) \<Longrightarrow> (\<Sum>x\<leftarrow>xs. f x) = (0 :: jnum)"
  by (induction xs) auto

lemma rootIds_over:
  assumes "list_all (\<lambda>p. pathOver stages (pp_path p)) ps" "stages \<noteq> []"
  shows "set (rootIds ps) = (\<lambda>p. pn_id (hd (pp_path p))) ` set ps"
proof -
  have "pp_path p \<noteq> [] \<and> pn_id (hd (pp_path p)) \<noteq> []" if "p \<in> set ps" for p
  proof -
    from that assms have "pathOver stages (pp_path p)" by (auto simp: list_all_iff)
    with assms(2) obtain n path where p: "pp_path p = n # path" "wellKinded n"
      by (cases "pp_path p") (auto simp: pathOver_def)
    then have "prefix (kindPrefix (pn_kind n)) (pn_id n)" by (simp add: wellKinded_def)
    then have "pn_id n \<noteq> []" by (auto simp: kindPrefix_def)
    with p show ?thesis by simp
  qed
  then have "rootIds ps = map (\<lambda>p. pn_id (hd (pp_path p))) ps"
  proof (induction ps)
    case (Cons p ps)
    moreover from Cons.prems [of p] have "pp_path p \<noteq> []" "pn_id (hd (pp_path p)) \<noteq> []"
      by simp_all
    ultimately show ?case
      by (cases "pp_path p") (simp_all add: rootIds_def)
  qed (simp add: rootIds_def)
  then show ?thesis by simp
qed

lemma root_sources:
  assumes "list_all (\<lambda>p. pathOver stages (pp_path p)) ps" "distinct stages" "2 \<le> length stages" "p \<in> set ps"
  shows "(\<Sum>(a, b)\<leftarrow>pathPairs (pp_path p). if pn_id a \<in> set (rootIds ps) then c else (0 :: jnum)) = c"
proof -
  obtain s1 s2 ss where stages: "stages = s1 # s2 # ss"
    using assms(3) by (metis Suc_le_length_iff numeral_2_eq_2)
  have over: "pathOver stages (pp_path p)"
    using assms(1,4) by (auto simp: list_all_iff)
  then obtain a b path where path: "pp_path p = a # b # path"
    unfolding stages by (cases "pp_path p"; cases "tl (pp_path p)") (auto simp: pathOver_def)
  have "pn_id m \<notin> set (rootIds ps)" if "m \<in> set (b # path)" for m
  proof
    assume "pn_id m \<in> set (rootIds ps)"
    then obtain q where q: "q \<in> set ps" "pn_id m = pn_id (hd (pp_path q))"
      using rootIds_over [OF assms(1)] stages by auto
    then have "pathOver stages (pp_path q)" using assms(1) by (auto simp: list_all_iff)
    then have "wellKinded (hd (pp_path q))" "pn_kind (hd (pp_path q)) = s1"
      unfolding stages by (cases "pp_path q"; auto simp: pathOver_def)+
    moreover have "wellKinded m" "pn_kind m \<in> set (s2 # ss)"
      using over that path stages by (auto simp: pathOver_def list_all_iff)
    moreover from calculation(1,3) q(2) have "pn_kind m = pn_kind (hd (pp_path q))"
      using wellKinded_same_id by blast
    ultimately show False
      using assms(2) unfolding stages by simp
  qed
  then have "(\<Sum>n\<leftarrow>butlast (b # path). if pn_id n \<in> set (rootIds ps) then c else 0) = 0"
    by (intro sum_list_zero) (meson in_set_butlastD)
  moreover have "pn_id a \<in> set (rootIds ps)"
    using rootIds_over [OF assms(1)] stages assms(4) path by force
  moreover have "(\<Sum>(a, b)\<leftarrow>pathPairs (pp_path p). if pn_id a \<in> set (rootIds ps) then c else 0) =
      (\<Sum>n\<leftarrow>map fst (pathPairs (pp_path p)). if pn_id n \<in> set (rootIds ps) then c else 0)"
    by (simp add: o_def split_def)
  ultimately show ?thesis
    by (simp add: fst_pathPairs path)
qed

lemma links_of_graph:
  assumes "ps = graphPaths lc rows metric (resolveVisibleStages role visible) ctx options"
  shows "\<exists>colorOf ls. fg_links (buildFlowGraph lc schemes rows metric role palette visible ctx options) =
      assignLinkDisplayColors lc (assignShares ps ls) \<and>
      mset (map link_core ls) = mset (map link_core (map_values (foldl (addPathLinks metric colorOf) [] ps)))"
proof -
  define G where "G = buildFlowGraph lc schemes rows metric role palette visible ctx options"
  obtain ls where ls: "fg_links G = assignLinkDisplayColors lc (assignShares ps ls)"
    by (auto simp: G_def buildFlowGraph_def Let_def assms)
  then have "map link_core (fg_links G) = map link_core ls"
    by (simp only: shares_core colors_core)
  with ls graph_core [OF assms G_def] show ?thesis
    unfolding G_def by metis
qed

lemma total_of_roots:
  assumes "ps = graphPaths lc rows metric (resolveVisibleStages role visible) ctx options" "list_all nulFree ps"
    and "mset (map link_core ls) = mset (map link_core (map_values (foldl (addPathLinks metric colorOf) [] ps)))"
  shows "sum_list (map dl_value (filter (\<lambda>l. dl_source l \<in> set (rootIds ps)) ls)) =
    (\<Sum>p\<leftarrow>ps. metricValue (pp_metrics p) metric)"
proof -
  have over: "list_all (\<lambda>p. pathOver (resolveVisibleStages role visible) (pp_path p)) ps"
    unfolding assms(1) by (rule graphPaths_over)
  have "sum_list (map dl_value (filter (\<lambda>l. dl_source l \<in> set (rootIds ps)) ls)) =
      (\<Sum>l\<leftarrow>ls. if dl_source l \<in> set (rootIds ps) then dl_value l else 0)"
    by (rule sum_list_map_filter')
  also have "\<dots> = (\<Sum>p\<leftarrow>ps. \<Sum>(a, b)\<leftarrow>pathPairs (pp_path p).
      if pn_id a \<in> set (rootIds ps) then metricValue (pp_metrics p) metric else 0)"
    using sum_core_links [OF assms(3), of "\<lambda>s t. s \<in> set (rootIds ps)"]
      link_sum [OF assms(2), of "\<lambda>s t. s \<in> set (rootIds ps)" metric colorOf] by (simp only:)
  also have "\<dots> = (\<Sum>p\<leftarrow>ps. metricValue (pp_metrics p) metric)"
    by (intro arg_cong [where f = sum_list] map_cong refl root_sources [OF over stages_distinct stages_length])
  finally show ?thesis .
qed

text \<open>
  The share of a link is its part of the whole: when the rows carry a positive total, every link's
  share is its value divided by the metric of all paths, and the shares of the links that leave the
  first column add up to one; otherwise every share is zero.
\<close>

theorem link_shares:
  assumes "ps = graphPaths lc rows metric (resolveVisibleStages role visible) ctx options" "list_all nulFree ps"
    and "links = fg_links (buildFlowGraph lc schemes rows metric role palette visible ctx options)"
    and "tot = (\<Sum>p\<leftarrow>ps. metricValue (pp_metrics p) metric)"
  shows "list_all (\<lambda>l. dl_share l = (if tot > 0 then dl_value l / tot else 0)) links \<and>
    (tot > 0 \<longrightarrow> (\<Sum>l\<leftarrow>links. if dl_source l \<in> set (rootIds ps) then dl_share l else 0) = 1)"
proof -
  obtain colorOf ls where ls: "links = assignLinkDisplayColors lc (assignShares ps ls)"
    "mset (map link_core ls) = mset (map link_core (map_values (foldl (addPathLinks metric colorOf) [] ps)))"
    using links_of_graph [OF assms(1)] assms(3) by metis
  have t: "sum_list (map dl_value (filter (\<lambda>l. dl_source l \<in> set (rootIds ps)) ls)) = tot"
    unfolding assms(4) by (rule total_of_roots [OF assms(1,2) ls(2)])
  have "(\<Sum>l\<leftarrow>ls. if dl_source l \<in> set (rootIds ps) then dl_value l / tot else 0) =
      (\<Sum>l\<leftarrow>ls. (if dl_source l \<in> set (rootIds ps) then dl_value l else 0) * (1 / tot))"
    by (intro arg_cong [where f = sum_list] map_cong refl) simp
  also have "\<dots> = tot * (1 / tot)"
    unfolding sum_list_mult_const using t by (simp add: sum_list_map_filter')
  finally have "tot > 0 \<Longrightarrow> (\<Sum>l\<leftarrow>ls. if dl_source l \<in> set (rootIds ps) then dl_value l / tot else 0) = 1"
    by simp
  then show ?thesis
    unfolding ls(1) assignLinkDisplayColors_def assignShares_def Let_def t
    by (simp add: list_all_iff o_def cong: if_cong)
qed

lemma demo_stages: "resolveVisibleStages RoleUser None = [KToken, KGroup, KModel]"
  by (simp add: resolveVisibleStages_def getFlowStages_def)

lemma demo_nulFree: "list_all nulFree (graphPaths code_unit_compare demo_rows MQuota [KToken, KGroup, KModel] None demo_options)"
  by code_simp

lemma demo_total: "(\<Sum>p\<leftarrow>graphPaths code_unit_compare demo_rows MQuota [KToken, KGroup, KModel] None demo_options.
    metricValue (pp_metrics p) MQuota) = 13"
  by code_simp

theorem link_shares_witness:
  "let ps = graphPaths code_unit_compare demo_rows MQuota (resolveVisibleStages RoleUser None) None demo_options;
       links = fg_links (buildFlowGraph code_unit_compare [] demo_rows MQuota RoleUser None None None demo_options) in
   (\<Sum>l\<leftarrow>links. if dl_source l \<in> set (rootIds ps) then dl_share l else 0) = 1"
  using link_shares [OF refl _ refl refl, of code_unit_compare demo_rows MQuota RoleUser None None demo_options "[]" None]
  by (simp add: demo_stages demo_nulFree demo_total Let_def)

section \<open>The top-node limit\<close>

text \<open>What \<open>stageTotals\<close> holds for one stage: the ranks of the nodes of that stage alone.\<close>

definition stageRanks :: "FlowQuotaDataItem list \<Rightarrow> FlowMetric \<Rightarrow> FlowPathContext \<Rightarrow> FlowNodeKind \<Rightarrow> (jstring, FlowNodeRank) amap" where
  "stageRanks rows metric ctx kd =
     foldl (\<lambda>m row. addRank (pn_id (NODE_BUILDERS kd row ctx)) (metricValue (rowMetrics row) metric) m (NODE_BUILDERS kd row ctx)) [] rows"

lemma inner_totals:
  assumes "map_of totals kd = Some m" "distinct ks" "set ks \<subseteq> dom (map_of totals)"
  shows "map_of (foldl (\<lambda>totals node. case map_of totals (pn_kind node) of
             None \<Rightarrow> totals
           | Some stage_totals \<Rightarrow> map_set (pn_kind node) (addRank (pn_id node) value stage_totals node) totals)
           totals (map (\<lambda>k. NODE_BUILDERS k row ctx) ks)) kd =
    Some (if kd \<in> set ks then addRank (pn_id (NODE_BUILDERS kd row ctx)) value m (NODE_BUILDERS kd row ctx) else m)"
  using assms
proof (induction ks arbitrary: totals m)
  case (Cons k ks)
  from Cons.prems(3) obtain mk where mk: "map_of totals k = Some mk" by auto
  let ?t = "map_set k (addRank (pn_id (NODE_BUILDERS k row ctx)) value mk (NODE_BUILDERS k row ctx)) totals"
  have dom: "set ks \<subseteq> dom (map_of ?t)"
    using Cons.prems(3) by auto
  show ?case
  proof (cases "kd = k")
    case True
    with Cons.prems mk have "map_of ?t kd = Some (addRank (pn_id (NODE_BUILDERS kd row ctx)) value m (NODE_BUILDERS kd row ctx))"
      by simp
    from Cons.IH [OF this _ dom] Cons.prems(2) True mk show ?thesis by simp
  next
    case False
    with Cons.prems have "map_of ?t kd = Some m" by simp
    from Cons.IH [OF this _ dom] Cons.prems(2) False mk show ?thesis by simp
  qed
qed simp

lemma inner_dom:
  "dom (map_of (foldl (\<lambda>totals node. case map_of totals (pn_kind node) of
             None \<Rightarrow> totals
           | Some stage_totals \<Rightarrow> map_set (pn_kind node) (addRank (pn_id node) value stage_totals node) totals)
           totals nodes)) = dom (map_of totals)"
  by (induction nodes arbitrary: totals) (auto split: option.splits)

lemma initial_totals: "map_of (foldl (\<lambda>m stage. map_set stage [] m) m0 stages) kd =
    (if kd \<in> set stages then Some [] else map_of m0 kd)"
  by (induction stages arbitrary: m0) auto

lemma stageTotals_ranks:
  assumes "distinct stages" "kd \<in> set stages"
  shows "map_of (stageTotals rows metric stages ctx) kd = Some (stageRanks rows metric ctx kd)"
proof -
  have "map_of totals kd = Some m \<Longrightarrow> set stages \<subseteq> dom (map_of totals) \<Longrightarrow>
      map_of (foldl (\<lambda>totals row.
        (let value = metricValue (rowMetrics row) metric in
         foldl (\<lambda>totals node. case map_of totals (pn_kind node) of
             None \<Rightarrow> totals
           | Some stage_totals \<Rightarrow> map_set (pn_kind node) (addRank (pn_id node) value stage_totals node) totals)
           totals (flowPathForStages row stages ctx))) totals rows) kd =
      Some (foldl (\<lambda>m row. addRank (pn_id (NODE_BUILDERS kd row ctx)) (metricValue (rowMetrics row) metric) m
        (NODE_BUILDERS kd row ctx)) m rows)" for totals m
  proof (induction rows arbitrary: totals m)
    case (Cons row rows)
    from inner_totals [OF Cons.prems(1) assms(1) Cons.prems(2)] assms(2)
    have "map_of (foldl (\<lambda>totals node. case map_of totals (pn_kind node) of
             None \<Rightarrow> totals
           | Some stage_totals \<Rightarrow> map_set (pn_kind node)
               (addRank (pn_id node) (metricValue (rowMetrics row) metric) stage_totals node) totals)
           totals (flowPathForStages row stages ctx)) kd =
      Some (addRank (pn_id (NODE_BUILDERS kd row ctx)) (metricValue (rowMetrics row) metric) m (NODE_BUILDERS kd row ctx))"
      by (simp add: flowPathForStages_def)
    from Cons.IH [OF this] Cons.prems(2) show ?case
      by (simp add: Let_def inner_dom)
  qed simp
  moreover have "map_of (foldl (\<lambda>m stage. map_set stage [] m) [] stages) kd = Some []"
    "set stages \<subseteq> dom (map_of (foldl (\<lambda>m stage. map_set stage ([] :: (jstring, FlowNodeRank) amap) m) [] stages))"
    using assms(2) by (auto simp: initial_totals)
  ultimately show ?thesis
    unfolding stageTotals_def stageRanks_def by blast
qed

interpretation rank_agg: aggregator
  "\<lambda>row. pn_id (NODE_BUILDERS kd row ctx)" "\<lambda>row. \<lparr>rk_node = NODE_BUILDERS kd row ctx, rk_value = 0\<rparr>"
  "\<lambda>row current. current\<lparr>rk_value := rk_value current + metricValue (rowMetrics row) metric\<rparr>"
  "rk_value" "\<lambda>row. metricValue (rowMetrics row) metric" "\<lambda>row. True" "\<lambda>k v. pn_id (rk_node v) = k"
  for kd ctx metric
  by unfold_locales simp_all

text \<open>The total of one node over all rows.\<close>

definition nodeTotal :: "FlowQuotaDataItem list \<Rightarrow> FlowMetric \<Rightarrow> FlowPathContext \<Rightarrow> FlowNodeKind \<Rightarrow> jstring \<Rightarrow> jnum" where
  "nodeTotal rows metric ctx kd i =
     (\<Sum>row\<leftarrow>filter (\<lambda>row. pn_id (NODE_BUILDERS kd row ctx) = i) rows. metricValue (rowMetrics row) metric)"

lemma stageRanks_value:
  assumes "r \<in> set (map_values (stageRanks rows metric ctx kd))"
  shows "rk_value r = nodeTotal rows metric ctx kd (pn_id (rk_node r))"
proof -
  have ok: "rank_agg.all_ok (stageRanks rows metric ctx kd)"
    unfolding stageRanks_def addRank_def by (rule rank_agg.fold_ok) (simp_all add: list_all_iff)
  from assms obtain k where "(k, r) \<in> set (stageRanks rows metric ctx kd)"
    by (auto simp: map_values_def)
  with ok have "map_of (stageRanks rows metric ctx kd) k = Some r" "pn_id (rk_node r) = k"
    by (auto simp: rank_agg.all_ok_def)
  with rank_agg.fold_entry [OF rank_agg.all_ok_Nil, of rows kd ctx metric k] show ?thesis
    by (simp add: stageRanks_def addRank_def nodeTotal_def list_all_iff)
qed

lemma stageRanks_ids: "(\<lambda>r. pn_id (rk_node r)) ` set (map_values (stageRanks rows metric ctx kd)) =
    (\<lambda>row. pn_id (NODE_BUILDERS kd row ctx)) ` set rows"
proof -
  have ok: "rank_agg.all_ok (stageRanks rows metric ctx kd)"
    unfolding stageRanks_def addRank_def by (rule rank_agg.fold_ok) (simp_all add: list_all_iff)
  then have "pn_id (rk_node (snd e)) = fst e" if "e \<in> set (stageRanks rows metric ctx kd)" for e
    using that by (cases e) (auto simp: rank_agg.all_ok_def)
  then have "(\<lambda>r. pn_id (rk_node r)) ` set (map_values (stageRanks rows metric ctx kd)) = fst ` set (stageRanks rows metric ctx kd)"
    by (simp add: map_values_def image_image)
  then show ?thesis
    unfolding stageRanks_def addRank_def using rank_agg.fold_keys [of kd ctx metric "[]" rows] by simp
qed

lemma compareRanks_comparator: "comparator lc \<Longrightarrow> comparator (compareRanks lc)"
  unfolding compareRanks_def
  by (rule comparator_chain [OF descending.comparator_axioms [of rk_value] comparator_chain
        [OF comparator_image [of lc "\<lambda>r. pn_label (rk_node r)"] comparator_image [of lc "\<lambda>r. pn_id (rk_node r)"]]])

text \<open>
  The limited column keeps the largest nodes: with a limit \<open>n\<close> at most \<open>n\<close> ids are kept per
  visible stage, they are ids of that stage, and every node of the stage that is not kept has a total
  no larger than every node that is, for any locale's string comparison.
\<close>

theorem top_nodes_are_largest:
  assumes "comparator lc" "kd \<in> set stages" "stages = resolveVisibleStages role visible" "0 < n"
  shows "\<exists>sets kept. buildTopNodeSets lc rows metric stages (Some n) ctx = Some sets \<and> map_of sets kd = Some kept \<and>
    length kept \<le> n \<and> set kept \<subseteq> (\<lambda>row. pn_id (NODE_BUILDERS kd row ctx)) ` set rows \<and>
    (\<forall>i j. i \<in> set kept \<longrightarrow> j \<in> (\<lambda>row. pn_id (NODE_BUILDERS kd row ctx)) ` set rows \<longrightarrow> j \<notin> set kept \<longrightarrow>
      nodeTotal rows metric ctx kd j \<le> nodeTotal rows metric ctx kd i)"
proof -
  let ?ranks = "map_values (stageRanks rows metric ctx kd)"
  define sorted_ranks where "sorted_ranks = js_sort (compareRanks lc) ?ranks"
  define kept where "kept = topIds lc n (stageRanks rows metric ctx kd)"
  have kept_eq: "kept = map (\<lambda>r. pn_id (rk_node r)) (take n sorted_ranks)"
    by (simp add: kept_def topIds_def sorted_ranks_def)
  have "map_of (map (\<lambda>(kind, t). (kind, topIds lc n t)) (stageTotals rows metric stages ctx)) kd = Some kept"
    using stageTotals_ranks [OF _ assms(2)] stages_distinct assms(3) by (simp add: map_of_map kept_def)
  then have sets: "\<exists>sets. buildTopNodeSets lc rows metric stages (Some n) ctx = Some sets \<and> map_of sets kd = Some kept"
    using assms(4) by (simp add: buildTopNodeSets_def)
  have ids: "(\<lambda>r. pn_id (rk_node r)) ` set sorted_ranks = (\<lambda>row. pn_id (NODE_BUILDERS kd row ctx)) ` set rows"
    by (simp add: sorted_ranks_def stageRanks_ids)
  have value_eq: "rk_value r = nodeTotal rows metric ctx kd (pn_id (rk_node r))" if "r \<in> set sorted_ranks" for r
    using that stageRanks_value by (simp add: sorted_ranks_def)
  have sorted: "sorted_wrt (\<lambda>a b. compareRanks lc a b \<le> 0) sorted_ranks"
    unfolding sorted_ranks_def by (rule comparator.sorted_js_sort [OF compareRanks_comparator [OF assms(1)]])
  have "nodeTotal rows metric ctx kd j \<le> nodeTotal rows metric ctx kd i"
    if i: "i \<in> set kept" and j: "j \<in> (\<lambda>row. pn_id (NODE_BUILDERS kd row ctx)) ` set rows" "j \<notin> set kept" for i j
  proof -
    obtain a where a: "a \<in> set (take n sorted_ranks)" "i = pn_id (rk_node a)"
      using i by (auto simp: kept_eq)
    obtain b where b: "b \<in> set sorted_ranks" "j = pn_id (rk_node b)"
      using j(1) unfolding ids [symmetric] by blast
    with j(2) have "b \<in> set (drop n sorted_ranks)"
      by (metis Un_iff append_take_drop_id image_eqI kept_eq list.set_map set_append)
    with a(1) sorted have "compareRanks lc a b \<le> 0"
      by (metis append_take_drop_id sorted_wrt_append)
    then have "rk_value b \<le> rk_value a"
      by (auto simp: compareRanks_def cmp_or_def split: if_splits)
    with a b value_eq show ?thesis
      by (auto dest: in_set_takeD)
  qed
  moreover have "set kept \<subseteq> (\<lambda>row. pn_id (NODE_BUILDERS kd row ctx)) ` set rows"
    using ids by (auto simp: kept_eq dest!: in_set_takeD)
  ultimately show ?thesis
    using sets by (auto simp: kept_eq)
qed

theorem top_nodes_are_largest_witness:
  "\<exists>sets kept. buildTopNodeSets code_unit_compare demo_rows MQuota [KToken, KGroup, KModel] (Some 2) None = Some sets \<and>
     map_of sets KToken = Some kept \<and> length kept \<le> 2"
  using top_nodes_are_largest [OF code_units.comparator_axioms _ demo_stages [symmetric], of KToken 2 demo_rows MQuota None]
  by auto

section \<open>Masking\<close>

text \<open>Every link joins two nodes of the graph, so a masked node's id is known when links are masked.\<close>

lemma maskedById_lookup:
  assumes "n \<in> set (map_values nodes)" "isMaskedNode n"
  shows "\<exists>lbl \<in> {[], FLOW_MASK_TEXT}. map_of (maskedById nodes) (dn_id n) = Some lbl"
proof -
  have upd: "map_of (foldl (\<lambda>m node. map_set (dn_id node) (maskFlowLabel (dn_label node)) m) m ns) i = Some lbl \<Longrightarrow>
      (map_of m i = Some lbl) \<or> lbl \<in> {[], FLOW_MASK_TEXT}" for m i lbl and ns :: "DashboardFlowNode list"
  proof (induction ns arbitrary: m)
    case (Cons a ns)
    have "maskFlowLabel (dn_label a) \<in> {[], FLOW_MASK_TEXT}"
      by (auto simp: maskFlowLabel_def)
    with Cons.IH [of "map_set (dn_id a) (maskFlowLabel (dn_label a)) m"] Cons.prems show ?case
      by (auto split: if_splits)
  qed simp
  have known: "fst ` set (foldl (\<lambda>m node. map_set (dn_id node) (maskFlowLabel (dn_label node)) m) m ns) =
      fst ` set m \<union> dn_id ` set ns" for m and ns :: "DashboardFlowNode list"
    by (induction ns arbitrary: m) (auto simp: keys_map_set)
  have "dn_id n \<in> dn_id ` set (filter isMaskedNode (map_values nodes))"
    using assms by auto
  then have "dn_id n \<in> fst ` set (maskedById nodes)"
    unfolding maskedById_def known by simp
  then have "map_of (maskedById nodes) (dn_id n) \<noteq> None"
    by (simp add: map_of_eq_None_iff)
  then obtain lbl where lbl: "map_of (maskedById nodes) (dn_id n) = Some lbl"
    by auto
  then have "lbl \<in> {[], FLOW_MASK_TEXT}"
    using upd [of "[]" _ "dn_id n" lbl] unfolding maskedById_def by auto
  with lbl show ?thesis by blast
qed

lemma node_ids_of_paths:
  assumes "list_all (\<lambda>p. pathOver stages (pp_path p)) ps" "p \<in> set ps" "m \<in> set (pp_path p)"
  shows "\<exists>v \<in> set (map_values (foldl (addPathNodes metric colorOf) [] ps)). dn_id v = pn_id m \<and> dn_kind v = pn_kind m"
proof -
  let ?m = "foldl (addPathNodes metric colorOf) [] ps"
  note items = nodeItems_good [OF assms(1)]
  have ok: "node_agg.all_ok ?m"
    using node_agg.fold_ok [OF node_agg.all_ok_Nil items, where colorOf = colorOf and metric = metric]
    by (simp only: nodes_as_items addNode_add1)
  have "fst ` set ?m = (\<lambda>(n, mt, r). pn_id n) ` set (nodeItems ps)"
    using node_agg.fold_keys [of colorOf metric "[]" "nodeItems ps"] by (simp add: nodes_as_items addNode_add1)
  moreover have "pn_id m \<in> (\<lambda>(n, mt, r). pn_id n) ` set (nodeItems ps)"
    using assms(2,3) by (force simp: nodeItems_def)
  ultimately obtain v where v: "(pn_id m, v) \<in> set ?m" by force
  with ok have "dn_id v = pn_id m" "prefix (kindPrefix (dn_kind v)) (pn_id m)"
    by (auto simp: node_agg.all_ok_def)
  moreover have "wellKinded m"
    using assms by (auto simp: list_all_iff pathOver_def)
  ultimately show ?thesis
    using v kindPrefix_unique [of "dn_kind v" "pn_id m" "pn_kind m"] by (force simp: map_values_def wellKinded_def)
qed

lemma link_ends_of_paths:
  assumes "list_all (\<lambda>p. pathOver stages (pp_path p)) ps" "list_all nulFree ps"
    "l \<in> set (map_values (foldl (addPathLinks metric colorOf) [] ps))"
  shows "\<exists>p a b. p \<in> set ps \<and> (a, b) \<in> set (pathPairs (pp_path p)) \<and> dl_source l = pn_id a \<and> dl_target l = pn_id b"
proof -
  let ?m = "foldl (addPathLinks metric colorOf) [] ps"
  note items = linkItems_good [OF assms(2)]
  have ok: "link_agg.all_ok ?m"
    using link_agg.fold_ok [OF link_agg.all_ok_Nil items, where colorOf = colorOf and metric = metric]
    by (simp only: links_as_items addLink_add1)
  from assms(3) obtain k where kl: "(k, l) \<in> set ?m" by (auto simp: map_values_def)
  with ok have l: "linkStableKey l = k" "0 \<notin> set (dl_source l)"
    by (auto simp: link_agg.all_ok_def)
  have "fst ` set ?m = (\<lambda>(a, b, mt, r). pathLinkKey a b) ` set (linkItems ps)"
    using link_agg.fold_keys [of colorOf metric "[]" "linkItems ps"] by (simp add: links_as_items addLink_add1)
  with kl obtain a b mt r where i: "(a, b, mt, r) \<in> set (linkItems ps)" "k = pathLinkKey a b"
    by force
  with items have "0 \<notin> set (pn_id a)" by (auto simp: list_all_iff)
  with l i(2) have "dl_source l = pn_id a \<and> dl_target l = pn_id b"
    using linkKey_inj by blast
  moreover from i(1) obtain p where "p \<in> set ps" "(a, b) \<in> set (pathPairs (pp_path p))"
    by (auto simp: linkItems_def)
  ultimately show ?thesis by blast
qed

definition rawNodes where
  "rawNodes lc schemes rows metric role palette visible ctx options =
     (let ps = graphPaths lc rows metric (resolveVisibleStages role visible) ctx options;
          colors = stableColorMap schemes (js_sort lc (rootIds ps)) palette in
      foldl (addPathNodes metric (\<lambda>rootNode. nullish (map_of colors (pn_id rootNode)) (colorAt schemes 0 palette))) [] ps)"

definition rawLinks where
  "rawLinks lc schemes rows metric role palette visible ctx options =
     (let ps = graphPaths lc rows metric (resolveVisibleStages role visible) ctx options;
          colors = stableColorMap schemes (js_sort lc (rootIds ps)) palette in
      foldl (addPathLinks metric (\<lambda>rootNode. nullish (map_of colors (pn_id rootNode)) (colorAt schemes 0 palette))) [] ps)"

definition maskedMaps where
  "maskedMaps lc schemes rows metric role palette visible ctx options =
     (let nodes = rawNodes lc schemes rows metric role palette visible ctx options;
          links = rawLinks lc schemes rows metric role palette visible ctx options in
      if gr_maskSensitive options then maskFlowGraphLabels nodes links else (nodes, links))"

definition highlightedMaps where
  "highlightedMaps lc schemes rows metric role palette visible ctx options =
     (let masked = maskedMaps lc schemes rows metric role palette visible ctx options in
      applyFlowHighlights (fst masked) (snd masked)
        (buildFlowHighlightSets (graphPaths lc rows metric (resolveVisibleStages role visible) ctx options)
          (gr_activeNode options) (gr_activeLink options) (resolveVisibleStages role visible)))"

lemma graph_nodes_mem:
  "set (fg_nodes (buildFlowGraph lc schemes rows metric role palette visible ctx options)) =
     snd ` set (fst (highlightedMaps lc schemes rows metric role palette visible ctx options))"
  unfolding buildFlowGraph_def highlightedMaps_def maskedMaps_def rawNodes_def rawLinks_def Let_def
  by (simp add: map_values_def)

definition link_view where
  "link_view l = (dl_source l, dl_target l, dl_sourceLabel l, dl_targetLabel l, dl_highlighted l, dl_dimmed l)"

lemma shares_view: "link_view ` set (assignLinkDisplayColors lc (assignShares ps ls)) = link_view ` set ls"
  by (simp add: assignLinkDisplayColors_def assignShares_def Let_def image_image link_view_def)

lemma graph_links_mem:
  "link_view ` set (fg_links (buildFlowGraph lc schemes rows metric role palette visible ctx options)) =
     link_view ` snd ` set (snd (highlightedMaps lc schemes rows metric role palette visible ctx options))"
  unfolding buildFlowGraph_def highlightedMaps_def maskedMaps_def rawNodes_def rawLinks_def Let_def
  by (simp add: shares_view map_values_def)

lemma highlight_node_labels:
  "n \<in> snd ` set (fst (applyFlowHighlights nodes links hs)) \<Longrightarrow>
    \<exists>m. m \<in> snd ` set nodes \<and> dn_id n = dn_id m \<and> dn_label n = dn_label m"
  by (cases hs) (force simp: applyFlowHighlights_def)+

lemma highlight_link_labels:
  "l \<in> snd ` set (snd (applyFlowHighlights nodes links hs)) \<Longrightarrow>
    \<exists>m. m \<in> snd ` set links \<and> dl_source l = dl_source m \<and> dl_target l = dl_target m \<and>
      dl_sourceLabel l = dl_sourceLabel m \<and> dl_targetLabel l = dl_targetLabel m"
  by (cases hs) (force simp: applyFlowHighlights_def)+

definition sensitiveId :: "jstring \<Rightarrow> bool" where
  "sensitiveId i \<longleftrightarrow> list_ex (\<lambda>k. prefix (kindPrefix k) i) SENSITIVE_FLOW_KINDS \<and> i \<notin> set OTHER_FLOW_NODE_ID_SET"

lemma masked_link_labels:
  assumes "\<And>e. e \<in> set links \<Longrightarrow> \<exists>v \<in> set (map_values nodes). dn_id v = i (snd e) \<and> prefix (kindPrefix (dn_kind v)) (dn_id v)"
    and "(k, l) \<in> set links" "sensitiveId (i l)"
  shows "map_of (maskedById nodes) (i l) \<in> {Some [], Some FLOW_MASK_TEXT}"
proof -
  obtain v where v: "v \<in> set (map_values nodes)" "dn_id v = i l" "prefix (kindPrefix (dn_kind v)) (i l)"
    using assms(1) [OF assms(2)] by auto
  with assms(3) have "isMaskedNode v"
    using kindPrefix_unique by (auto simp: sensitiveId_def isMaskedNode_def list_ex_iff)
  from maskedById_lookup [OF v(1) this] v(2) show ?thesis by auto
qed

lemma mask_nodes_ok:
  assumes "\<And>v. v \<in> set (map_values nodes) \<Longrightarrow> prefix (kindPrefix (dn_kind v)) (dn_id v)"
    and "n \<in> snd ` set (fst (maskFlowGraphLabels nodes links))" "sensitiveId (dn_id n)"
  shows "dn_label n \<in> {[], FLOW_MASK_TEXT}"
proof -
  obtain v where v: "v \<in> set (map_values nodes)" "n = (if isMaskedNode v then v\<lparr>dn_label := maskFlowLabel (dn_label v)\<rparr> else v)"
    using assms(2) by (auto simp: maskFlowGraphLabels_def Let_def map_values_def image_iff split: if_splits) force+
  from v(2) assms(3) have "sensitiveId (dn_id v)"
    by (auto split: if_splits)
  with assms(1) [OF v(1)] have "isMaskedNode v"
    using kindPrefix_unique by (auto simp: sensitiveId_def isMaskedNode_def list_ex_iff)
  with v(2) show ?thesis by (simp add: maskFlowLabel_def)
qed

lemma mask_links_ok:
  assumes ends: "\<And>e i. e \<in> set links \<Longrightarrow> i = dl_source \<or> i = dl_target \<Longrightarrow>
      \<exists>v \<in> set (map_values nodes). dn_id v = i (snd e) \<and> prefix (kindPrefix (dn_kind v)) (dn_id v)"
    and l: "l \<in> snd ` set (snd (maskFlowGraphLabels nodes links))"
  shows "(sensitiveId (dl_source l) \<longrightarrow> dl_sourceLabel l \<in> {[], FLOW_MASK_TEXT}) \<and>
    (sensitiveId (dl_target l) \<longrightarrow> dl_targetLabel l \<in> {[], FLOW_MASK_TEXT})"
proof -
  obtain k l0 where l0: "(k, l0) \<in> set links" "dl_source l = dl_source l0" "dl_target l = dl_target l0"
    "dl_sourceLabel l = nullish (map_of (maskedById nodes) (dl_source l0)) (dl_sourceLabel l0)"
    "dl_targetLabel l = nullish (map_of (maskedById nodes) (dl_target l0)) (dl_targetLabel l0)"
    using l by (auto simp: maskFlowGraphLabels_def Let_def split: if_splits)
  have lookup: "map_of (maskedById nodes) (i l0) \<in> {Some [], Some FLOW_MASK_TEXT}"
    if "sensitiveId (i l0)" "i = dl_source \<or> i = dl_target" for i
    using masked_link_labels [of links nodes i k l0] ends that l0(1) by blast
  show ?thesis
    using l0 lookup [of dl_source] lookup [of dl_target] by auto
qed

lemma pathPairs_mem: "(a, b) \<in> set (pathPairs path) \<Longrightarrow> a \<in> set path \<and> b \<in> set path"
  by (cases path) (auto simp: pathPairs_def dest: set_zip_leftD set_zip_rightD)

text \<open>
  C25. Masking hides every sensitive name: in a graph built with \<open>maskSensitive\<close>, each node of a
  sensitive kind other than the aggregated \<open>__other__\<close> nodes, and each end of a link with such a node,
  is labelled with the mask text (or empty), so that no user, token, node, group or channel name
  reaches the chart.
\<close>

theorem masking_hides_labels:
  assumes "gr_maskSensitive options"
    and "list_all nulFree (graphPaths lc rows metric (resolveVisibleStages role visible) ctx options)"
    and "G = buildFlowGraph lc schemes rows metric role palette visible ctx options"
  shows "list_all (\<lambda>n. sensitiveId (dn_id n) \<longrightarrow> dn_label n \<in> {[], FLOW_MASK_TEXT}) (fg_nodes G) \<and>
    list_all (\<lambda>l. (sensitiveId (dl_source l) \<longrightarrow> dl_sourceLabel l \<in> {[], FLOW_MASK_TEXT}) \<and>
      (sensitiveId (dl_target l) \<longrightarrow> dl_targetLabel l \<in> {[], FLOW_MASK_TEXT})) (fg_links G)"
proof -
  let ?n = "rawNodes lc schemes rows metric role palette visible ctx options"
  let ?l = "rawLinks lc schemes rows metric role palette visible ctx options"
  let ?h = "highlightedMaps lc schemes rows metric role palette visible ctx options"
  note over = graphPaths_over [of "resolveVisibleStages role visible" lc rows metric ctx options]
  obtain hs where h: "?h = applyFlowHighlights (fst (maskFlowGraphLabels ?n ?l)) (snd (maskFlowGraphLabels ?n ?l)) hs"
    using assms(1) by (simp add: highlightedMaps_def maskedMaps_def Let_def)
  have nodes: "prefix (kindPrefix (dn_kind v)) (dn_id v)" if "v \<in> set (map_values ?n)" for v
    using node_entry [OF over] that unfolding rawNodes_def Let_def by blast
  have ends: "\<exists>v \<in> set (map_values ?n). dn_id v = i (snd e) \<and> prefix (kindPrefix (dn_kind v)) (dn_id v)"
    if e: "e \<in> set ?l" and i: "i = dl_source \<or> i = dl_target" for e i
  proof -
    have "snd e \<in> set (map_values ?l)" using e by (simp add: map_values_def)
    then obtain p a b where p: "p \<in> set (graphPaths lc rows metric (resolveVisibleStages role visible) ctx options)"
      "(a, b) \<in> set (pathPairs (pp_path p))" "dl_source (snd e) = pn_id a" "dl_target (snd e) = pn_id b"
      using link_ends_of_paths [OF over assms(2)] unfolding rawLinks_def Let_def by blast
    then obtain m where m: "m \<in> set (pp_path p)" "i (snd e) = pn_id m"
      using pathPairs_mem [OF p(2)] i p(3,4) by auto
    then obtain v where "v \<in> set (map_values ?n)" "dn_id v = pn_id m"
      using node_ids_of_paths [OF over p(1) m(1)] unfolding rawNodes_def Let_def by blast
    with nodes m(2) show ?thesis by metis
  qed
  have "sensitiveId (dn_id n) \<longrightarrow> dn_label n \<in> {[], FLOW_MASK_TEXT}" if "n \<in> set (fg_nodes G)" for n
    using that mask_nodes_ok [OF nodes] highlight_node_labels unfolding assms(3) graph_nodes_mem h by metis
  moreover have "(sensitiveId (dl_source l) \<longrightarrow> dl_sourceLabel l \<in> {[], FLOW_MASK_TEXT}) \<and>
      (sensitiveId (dl_target l) \<longrightarrow> dl_targetLabel l \<in> {[], FLOW_MASK_TEXT})" if l: "l \<in> set (fg_links G)" for l
  proof -
    from l have "link_view l \<in> link_view ` snd ` set (snd ?h)"
      unfolding assms(3) graph_links_mem [symmetric] by blast
    then obtain l1 where l1: "l1 \<in> snd ` set (snd ?h)" "link_view l = link_view l1" by blast
    obtain l2 where "l2 \<in> snd ` set (snd (maskFlowGraphLabels ?n ?l))" "dl_source l1 = dl_source l2"
      "dl_target l1 = dl_target l2" "dl_sourceLabel l1 = dl_sourceLabel l2" "dl_targetLabel l1 = dl_targetLabel l2"
      using highlight_link_labels l1(1) unfolding h by blast
    moreover from this(1) have "(sensitiveId (dl_source l2) \<longrightarrow> dl_sourceLabel l2 \<in> {[], FLOW_MASK_TEXT}) \<and>
        (sensitiveId (dl_target l2) \<longrightarrow> dl_targetLabel l2 \<in> {[], FLOW_MASK_TEXT})"
      using ends by (intro mask_links_ok [where nodes = ?n and links = ?l]) blast+
    ultimately show ?thesis
      using l1(2) by (simp add: link_view_def)
  qed
  ultimately show ?thesis
    by (simp add: list_all_iff)
qed

theorem masking_hides_labels_witness:
  "list_all (\<lambda>n. sensitiveId (dn_id n) \<longrightarrow> dn_label n \<in> {[], FLOW_MASK_TEXT})
     (fg_nodes (buildFlowGraph code_unit_compare [] demo_rows MQuota RoleUser None None None demo_options)) \<and>
   sensitiveId (js ''token:a'')"
  using masking_hides_labels [of demo_options code_unit_compare demo_rows MQuota RoleUser None None _ "[]" None] demo_nulFree
  by (simp add: demo_stages demo_options_def sensitiveId_def SENSITIVE_FLOW_KINDS_def kindPrefix_def kindName_def
      OTHER_FLOW_NODE_ID_SET_def OTHER_FLOW_NODE_IDS_def js_def)

section \<open>Highlighting\<close>

lemma highlight_sets_iff:
  assumes "buildFlowHighlightSets ps activeNode activeLink stages = Some hs"
  shows "k \<in> set (hs_links hs) \<longleftrightarrow> (\<exists>p \<in> set ps. matchesPath activeNode activeLink (pp_path p) \<and>
      (\<exists>(a, b) \<in> set (pathPairs (pp_path p)). k = pathLinkKey a b))"
    and "i \<in> set (hs_nodes hs) \<longleftrightarrow> (\<exists>p \<in> set ps. matchesPath activeNode activeLink (pp_path p) \<and>
      (\<exists>n \<in> set (pp_path p). i = pn_id n))"
proof -
  let ?matching = "filter (\<lambda>prepared. matchesPath activeNode activeLink (pp_path prepared)) ps"
  have "hs_nodes hs = concat (map (\<lambda>prepared. map pn_id (pp_path prepared)) ?matching)"
    "hs_links hs = concat (map (\<lambda>prepared. map (\<lambda>(a, b). pathLinkKey a b) (pathPairs (pp_path prepared))) ?matching)"
    using assms by (auto simp: buildFlowHighlightSets_def Let_def split: if_splits)
  then show "k \<in> set (hs_links hs) \<longleftrightarrow> (\<exists>p \<in> set ps. matchesPath activeNode activeLink (pp_path p) \<and>
      (\<exists>(a, b) \<in> set (pathPairs (pp_path p)). k = pathLinkKey a b))"
    and "i \<in> set (hs_nodes hs) \<longleftrightarrow> (\<exists>p \<in> set ps. matchesPath activeNode activeLink (pp_path p) \<and>
      (\<exists>n \<in> set (pp_path p). i = pn_id n))"
    by auto
qed

lemma highlight_views:
  "l \<in> snd ` set (snd (applyFlowHighlights nodes links (Some hs))) \<Longrightarrow>
     dl_highlighted l = Some (linkStableKey l \<in> set (hs_links hs)) \<and> dl_dimmed l = Some (linkStableKey l \<notin> set (hs_links hs))"
  "n \<in> snd ` set (fst (applyFlowHighlights nodes links (Some hs))) \<Longrightarrow>
     dn_highlighted n = Some (dn_id n \<in> set (hs_nodes hs)) \<and> dn_dimmed n = Some (dn_id n \<notin> set (hs_nodes hs))"
  by (auto simp: applyFlowHighlights_def linkStableKey_def)

text \<open>
  Highlighting follows whole paths: when a selection matches something, a link is highlighted
  exactly when some row's path that matches the selection runs through it, a node exactly when such a
  path visits it, and everything else is dimmed.
\<close>

theorem highlight_follows_paths:
  assumes "ps = graphPaths lc rows metric (resolveVisibleStages role visible) ctx options"
    and "buildFlowHighlightSets ps (gr_activeNode options) (gr_activeLink options) (resolveVisibleStages role visible) = Some hs"
    and "G = buildFlowGraph lc schemes rows metric role palette visible ctx options"
  shows "list_all (\<lambda>l. dl_highlighted l = Some (list_ex (\<lambda>p. matchesPath (gr_activeNode options) (gr_activeLink options) (pp_path p) \<and>
        linkStableKey l \<in> (\<lambda>(a, b). pathLinkKey a b) ` set (pathPairs (pp_path p))) ps) \<and>
      dl_dimmed l = map_option Not (dl_highlighted l)) (fg_links G) \<and>
    list_all (\<lambda>n. dn_highlighted n = Some (list_ex (\<lambda>p. matchesPath (gr_activeNode options) (gr_activeLink options) (pp_path p) \<and>
        dn_id n \<in> pn_id ` set (pp_path p)) ps) \<and>
      dn_dimmed n = map_option Not (dn_highlighted n)) (fg_nodes G)"
proof -
  let ?h = "highlightedMaps lc schemes rows metric role palette visible ctx options"
  obtain N L where h: "?h = applyFlowHighlights N L (Some hs)"
    using assms(1,2) by (auto simp: highlightedMaps_def Let_def)
  have links: "dl_highlighted l = Some (linkStableKey l \<in> set (hs_links hs)) \<and> dl_dimmed l = Some (linkStableKey l \<notin> set (hs_links hs))"
    if "l \<in> set (fg_links G)" for l
  proof -
    from that obtain l1 where "l1 \<in> snd ` set (snd ?h)" "link_view l = link_view l1"
      using graph_links_mem unfolding assms(3) by (metis (no_types, lifting) image_iff)
    with highlight_views(1) [of l1 N L hs] show ?thesis
      by (simp add: h link_view_def linkStableKey_def)
  qed
  have nodes: "dn_highlighted n = Some (dn_id n \<in> set (hs_nodes hs)) \<and> dn_dimmed n = Some (dn_id n \<notin> set (hs_nodes hs))"
    if "n \<in> set (fg_nodes G)" for n
    using that highlight_views(2) [of n N L hs] unfolding assms(3) graph_nodes_mem h by blast
  have "(linkStableKey l \<in> set (hs_links hs)) = list_ex (\<lambda>p. matchesPath (gr_activeNode options) (gr_activeLink options) (pp_path p) \<and>
        linkStableKey l \<in> (\<lambda>(a, b). pathLinkKey a b) ` set (pathPairs (pp_path p))) ps" for l
    by (simp add: highlight_sets_iff [OF assms(2)] list_ex_iff image_iff split_def Bex_def)
  moreover have "(dn_id n \<in> set (hs_nodes hs)) = list_ex (\<lambda>p. matchesPath (gr_activeNode options) (gr_activeLink options) (pp_path p) \<and>
        dn_id n \<in> pn_id ` set (pp_path p)) ps" for n :: DashboardFlowNode
    by (auto simp: highlight_sets_iff [OF assms(2)] list_ex_iff)
  ultimately show ?thesis
    using links nodes by (simp add: list_all_iff)
qed

definition demo_selection :: FlowGraphOptions where
  "demo_selection = demo_options\<lparr>gr_activeNode := Some \<lparr>nf_kind = KToken, nf_id = js ''token:a''\<rparr>\<rparr>"

theorem highlight_follows_paths_witness:
  "list_all (\<lambda>l. dl_highlighted l = Some (list_ex (\<lambda>p. matchesPath (gr_activeNode demo_selection) (gr_activeLink demo_selection) (pp_path p) \<and>
        linkStableKey l \<in> (\<lambda>(a, b). pathLinkKey a b) ` set (pathPairs (pp_path p)))
      (graphPaths code_unit_compare demo_rows MQuota (resolveVisibleStages RoleUser None) None demo_selection)))
     (fg_links (buildFlowGraph code_unit_compare [] demo_rows MQuota RoleUser None None None demo_selection))"
proof -
  have "buildFlowHighlightSets (graphPaths code_unit_compare demo_rows MQuota (resolveVisibleStages RoleUser None) None demo_selection)
      (gr_activeNode demo_selection) (gr_activeLink demo_selection) (resolveVisibleStages RoleUser None) \<noteq> None"
    by code_simp
  then obtain hs where "buildFlowHighlightSets (graphPaths code_unit_compare demo_rows MQuota (resolveVisibleStages RoleUser None) None demo_selection)
      (gr_activeNode demo_selection) (gr_activeLink demo_selection) (resolveVisibleStages RoleUser None) = Some hs"
    by blast
  from highlight_follows_paths [OF refl this refl, of "[]" None] show ?thesis
    by (simp add: list_all_iff)
qed

end
