(* ===== verification/Status_Codes.thy ===== *)
theory Status_Codes
  imports JS_Collections
begin

text \<open>
  \<open>lib/http-status-code-rules.ts\<close>: lists of HTTP status codes and ranges (\<open>401, 403, 500-599\<close>) are
  parsed, merged and printed in a normal form. A list of ranges denotes a set of codes; the normal
  form is the unique ordered list of separated ranges of that set.
\<close>

section \<open>The code\<close>

record StatusCodeRange =
  sr_start :: nat
  sr_end :: nat

record ParsedHttpStatusCodeRules =
  hr_ok :: bool
  hr_ranges :: "StatusCodeRange list"
  hr_tokens :: "jstring list"
  hr_normalized :: jstring
  hr_invalidTokens :: "jstring list"

definition isNumber :: "jstring \<Rightarrow> bool" where
  "isNumber s \<longleftrightarrow> s \<noteq> [] \<and> list_all is_digit s"

definition isValidCode :: "nat \<Rightarrow> bool" where
  "isValidCode code \<longleftrightarrow> code \<ge> 100 \<and> code \<le> 599"

text \<open>\<open>const [a, b] = cleaned.split('-')\<close>: further parts are ignored.\<close>

definition parseToken :: "jstring \<Rightarrow> StatusCodeRange option" where
  "parseToken token =
     (let cleaned = filter (\<lambda>c. \<not> is_ws c) (trim token) in
      if cleaned = [] then None
      else if 45 \<in> set cleaned then
        (case split_on 45 cleaned of
           a # b # _ \<Rightarrow>
             if \<not> isNumber a \<or> \<not> isNumber b then None
             else (let start = digits_val a; end_code = digits_val b in
               if \<not> isValidCode start \<or> \<not> isValidCode end_code \<or> start > end_code then None
               else Some \<lparr>sr_start = start, sr_end = end_code\<rparr>)
         | _ \<Rightarrow> None)
      else if \<not> isNumber cleaned then None
      else (let code = digits_val cleaned in
        if \<not> isValidCode code then None else Some \<lparr>sr_start = code, sr_end = code\<rparr>))"

definition compareRanges :: "StatusCodeRange \<Rightarrow> StatusCodeRange \<Rightarrow> jnum" where
  "compareRanges a b =
     (if sr_start a \<noteq> sr_start b then of_nat (sr_start a) - of_nat (sr_start b)
      else of_nat (sr_end a) - of_nat (sr_end b))"

definition mergeStep :: "StatusCodeRange list \<Rightarrow> StatusCodeRange \<Rightarrow> StatusCodeRange list" where
  "mergeStep merged current =
     (if merged = [] \<or> sr_start current > sr_end (last merged) + 1 then merged @ [current]
      else butlast merged @ [(last merged)\<lparr>sr_end := max (sr_end (last merged)) (sr_end current)\<rparr>])"

definition mergeRanges :: "StatusCodeRange list \<Rightarrow> StatusCodeRange list" where
  "mergeRanges ranges =
     (if ranges = [] then [] else foldl mergeStep [] (js_sort compareRanges ranges))"

definition printRange :: "StatusCodeRange \<Rightarrow> jstring" where
  "printRange r = (if sr_start r = sr_end r then nat_str (sr_start r)
     else nat_str (sr_start r) @ js ''-'' @ nat_str (sr_end r))"

definition ruleSegments :: "jstring \<Rightarrow> jstring list" where
  "ruleSegments raw =
     filter (\<lambda>s. s \<noteq> []) (map trim (split_on 44 (map (\<lambda>c. if c = 65292 then 44 else c) raw)))"

definition parseHttpStatusCodeRules :: "jstring option \<Rightarrow> ParsedHttpStatusCodeRules" where
  "parseHttpStatusCodeRules input =
     (let raw = trim (nullish input []) in
      if length raw = 0 then
        \<lparr>hr_ok = True, hr_ranges = [], hr_tokens = [], hr_normalized = [], hr_invalidTokens = []\<rparr>
      else
        (let segments = ruleSegments raw;
             invalidTokens = filter (\<lambda>s. parseToken s = None) segments;
             ranges = map (\<lambda>s. the (parseToken s)) (filter (\<lambda>s. parseToken s \<noteq> None) segments) in
         if length invalidTokens > 0 then
           \<lparr>hr_ok = False, hr_ranges = [], hr_tokens = [], hr_normalized = raw, hr_invalidTokens = invalidTokens\<rparr>
         else
           (let merged = mergeRanges ranges; tokens = map printRange merged in
            \<lparr>hr_ok = True, hr_ranges = merged, hr_tokens = tokens, hr_normalized = join (js '','') tokens,
             hr_invalidTokens = []\<rparr>)))"

section \<open>Ranges as sets\<close>

definition codes :: "StatusCodeRange list \<Rightarrow> nat set" where
  "codes rs = (\<Union>r \<in> set rs. {sr_start r..sr_end r})"

definition proper :: "StatusCodeRange \<Rightarrow> bool" where
  "proper r \<longleftrightarrow> sr_start r \<le> sr_end r"

definition separated :: "StatusCodeRange list \<Rightarrow> bool" where
  "separated rs \<longleftrightarrow> sorted_wrt (\<lambda>a b. sr_end a + 1 < sr_start b) rs \<and> list_all proper rs"

lemma codes_Nil [simp]: "codes [] = {}"
  and codes_Cons: "codes (r # rs) = {sr_start r..sr_end r} \<union> codes rs"
  and codes_append: "codes (rs @ ss) = codes rs \<union> codes ss"
  by (auto simp: codes_def)

lemma separated_Cons:
  "separated (r # rs) \<longleftrightarrow> (\<forall>x \<in> set rs. sr_end r + 1 < sr_start x) \<and> proper r \<and> separated rs"
  by (auto simp: separated_def)

lemma separated_above: "separated (r # rs) \<Longrightarrow> c \<in> codes rs \<Longrightarrow> Suc (sr_end r) < c"
  by (fastforce simp: codes_def separated_Cons)

lemma separated_tail: "separated (r # rs) \<Longrightarrow> codes rs = codes (r # rs) - {sr_start r..sr_end r}"
  by (auto simp: codes_Cons dest: separated_above)

text \<open>The normal form is unique: the first range is determined by the set, then the others are.\<close>

lemma separated_head:
  assumes "separated (r # rs)" "separated (s # ss)" "codes (r # rs) = codes (s # ss)"
  shows "sr_start s \<le> sr_start r \<and> sr_end s \<le> sr_end r"
proof
  have rp: "sr_start r \<le> sr_end r" and sp: "sr_start s \<le> sr_end s"
    using assms(1,2) by (simp_all add: separated_Cons proper_def)
  have "sr_start r \<in> codes (s # ss)"
    unfolding assms(3) [symmetric] using rp by (simp add: codes_Cons)
  then show st: "sr_start s \<le> sr_start r"
    using separated_above [OF assms(2), of "sr_start r"] sp by (auto simp: codes_Cons)
  show "sr_end s \<le> sr_end r"
  proof (rule ccontr)
    assume "\<not> sr_end s \<le> sr_end r"
    with st rp have "Suc (sr_end r) \<in> codes (s # ss)"
      by (simp add: codes_Cons)
    then have "Suc (sr_end r) \<in> codes (r # rs)"
      unfolding assms(3) .
    then show False
      using separated_above [OF assms(1), of "Suc (sr_end r)"] by (auto simp: codes_Cons)
  qed
qed

lemma separated_unique: "separated rs \<Longrightarrow> separated ss \<Longrightarrow> codes rs = codes ss \<Longrightarrow> rs = ss"
proof (induction rs arbitrary: ss)
  case Nil
  then show ?case by (cases ss) (auto simp: codes_Cons separated_Cons proper_def)
next
  case (Cons r rs)
  then obtain s ss' where ss: "ss = s # ss'"
    by (cases ss) (auto simp: codes_Cons separated_Cons proper_def)
  have eq: "sr_start r = sr_start s" "sr_end r = sr_end s"
    using separated_head [of r rs s ss'] separated_head [of s ss' r rs] Cons.prems ss by auto
  have "codes rs = codes ss'"
    using separated_tail [of r rs] separated_tail [of s ss'] Cons.prems ss eq by simp
  then have "rs = ss'"
    using Cons ss by (simp add: separated_Cons)
  with ss eq show ?case by simp
qed

section \<open>Merging\<close>

interpretation range_order: comparator compareRanges
  by unfold_locales (auto simp: compareRanges_def split: if_splits)

lemma mergeStep_ok:
  assumes "separated m" "proper r" "m \<noteq> [] \<Longrightarrow> sr_start (last m) \<le> sr_start r"
  shows "separated (mergeStep m r) \<and> codes (mergeStep m r) = codes (m @ [r]) \<and>
    sr_start (last (mergeStep m r)) \<le> sr_start r"
proof (cases m rule: rev_cases)
  case Nil
  with assms show ?thesis by (simp add: mergeStep_def separated_def)
next
  case (snoc m' l)
  with assms show ?thesis
    by (auto simp: mergeStep_def separated_def proper_def sorted_wrt_append codes_append codes_Cons list_all_iff max_def)
qed

lemma foldl_mergeStep:
  assumes "separated m" "list_all proper rs" "sorted_wrt (\<lambda>a b. sr_start a \<le> sr_start b) rs"
    "m \<noteq> [] \<Longrightarrow> list_all (\<lambda>r. sr_start (last m) \<le> sr_start r) rs"
  shows "separated (foldl mergeStep m rs) \<and> codes (foldl mergeStep m rs) = codes (m @ rs)"
  using assms
proof (induction rs arbitrary: m)
  case (Cons r rs)
  then have ok: "separated (mergeStep m r)" "codes (mergeStep m r) = codes (m @ [r])"
    "sr_start (last (mergeStep m r)) \<le> sr_start r"
    using mergeStep_ok [of m r] by auto
  have "list_all (\<lambda>x. sr_start (last (mergeStep m r)) \<le> sr_start x) rs"
    using ok(3) Cons.prems(3) by (auto simp: list_all_iff)
  with Cons.IH [OF ok(1)] Cons.prems ok(2) show ?case
    by (simp add: codes_append codes_Cons Un_assoc)
qed simp

lemma mergeRanges_ok:
  assumes "list_all proper rs"
  shows "separated (mergeRanges rs) \<and> codes (mergeRanges rs) = codes rs"
proof (cases "rs = []")
  case True
  then show ?thesis by (simp add: mergeRanges_def separated_def)
next
  case False
  have "sorted_wrt (\<lambda>a b. sr_start a \<le> sr_start b) (js_sort compareRanges rs)"
    using range_order.sorted_js_sort [of rs]
    by (rule sorted_wrt_mono_rel [rotated]) (auto simp: compareRanges_def split: if_splits)
  moreover have "codes (js_sort compareRanges rs) = codes rs"
    by (simp add: codes_def)
  ultimately show ?thesis
    using foldl_mergeStep [of "[]" "js_sort compareRanges rs"] assms False
    by (simp add: mergeRanges_def separated_def list_all_iff)
qed

section \<open>Printing and parsing a token\<close>

lemma parseToken_Some:
  "parseToken t = Some r \<Longrightarrow> isValidCode (sr_start r) \<and> isValidCode (sr_end r) \<and> proper r"
  by (auto simp: parseToken_def Let_def proper_def split: if_splits list.splits)

lemma digit_not_ws: "is_digit c \<Longrightarrow> \<not> is_ws c"
  by (auto simp: is_digit_iff is_ws_def word_le_nat_alt)

lemma digit_not_comma: "is_digit c \<Longrightarrow> c \<noteq> 45 \<and> c \<noteq> 44 \<and> c \<noteq> 65292"
  by (auto simp: is_digit_iff)

text \<open>A text without whitespace is its own trimmed and cleaned form.\<close>

lemma trim_no_ws: "list_all (\<lambda>c. \<not> is_ws c) s \<Longrightarrow> trim s = s"
  by (cases "s = []") (auto intro!: trim_fixed simp: list_all_iff)

lemma printRange_chars:
  "c \<in> set (printRange r) \<Longrightarrow> is_digit c \<or> c = 45"
  using nat_str_digits [of "sr_start r"] nat_str_digits [of "sr_end r"]
  by (auto simp: printRange_def list_all_iff js_def split: if_splits)

lemma printRange_no_ws: "list_all (\<lambda>c. \<not> is_ws c) (printRange r)"
  using printRange_chars [of _ r] digit_not_ws
  by (fastforce simp: list_all_iff is_ws_def word_le_nat_alt)

lemma printRange_no_comma: "44 \<notin> set (printRange r) \<and> 65292 \<notin> set (printRange r)"
  using printRange_chars [of _ r] digit_not_comma by force

lemma printRange_nonempty [simp]: "printRange r \<noteq> []"
  by (simp add: printRange_def)

lemma isNumber_nat_str [simp]: "isNumber (nat_str n)"
  by (simp add: isNumber_def nat_str_digits)

lemma nat_str_no_dash: "45 \<notin> set (nat_str n)"
  using nat_str_digits [of n] digit_not_comma by (auto simp: list_all_iff)

lemma parseToken_printRange:
  assumes "isValidCode (sr_start r)" "isValidCode (sr_end r)" "proper r"
  shows "parseToken (printRange r) = Some r"
proof -
  have "filter (\<lambda>c. \<not> is_ws c) (trim (printRange r)) = printRange r"
    using printRange_no_ws [of r] by (simp add: trim_no_ws filter_id_conv list_all_iff)
  moreover have "split_on 45 (nat_str m @ 45 # nat_str n) = [nat_str m, nat_str n]" for m n
    by (simp add: split_on_append split_on_clean nat_str_no_dash)
  ultimately show ?thesis
    using assms nat_str_no_dash
    by (cases "sr_start r = sr_end r") (auto simp: parseToken_def printRange_def js_def proper_def Let_def)
qed

section \<open>Whole lists\<close>

definition tokenCodes :: "jstring \<Rightarrow> nat set" where
  "tokenCodes t = (case parseToken t of None \<Rightarrow> {} | Some r \<Rightarrow> {sr_start r..sr_end r})"

abbreviation inputSegments :: "jstring option \<Rightarrow> jstring list" where
  "inputSegments input \<equiv> ruleSegments (trim (nullish input []))"

lemma ruleSegments_Nil [simp]: "ruleSegments [] = []"
  by (simp add: ruleSegments_def)

text \<open>The empty input is no special case.\<close>

lemma parse_rules_unfold:
  "parseHttpStatusCodeRules input =
     (if list_all (\<lambda>s. parseToken s \<noteq> None) (inputSegments input) then
        (let merged = mergeRanges (map (\<lambda>s. the (parseToken s)) (inputSegments input)) in
         \<lparr>hr_ok = True, hr_ranges = merged, hr_tokens = map printRange merged,
          hr_normalized = join (js '','') (map printRange merged), hr_invalidTokens = []\<rparr>)
      else \<lparr>hr_ok = False, hr_ranges = [], hr_tokens = [], hr_normalized = trim (nullish input []),
        hr_invalidTokens = filter (\<lambda>s. parseToken s = None) (inputSegments input)\<rparr>)"
proof (cases "list_all (\<lambda>s. parseToken s \<noteq> None) (inputSegments input)")
  case True
  then have "filter (\<lambda>s. parseToken s \<noteq> None) (inputSegments input) = inputSegments input"
    "filter (\<lambda>s. parseToken s = None) (inputSegments input) = []"
    by (auto simp: filter_id_conv filter_empty_conv list_all_iff)
  with True show ?thesis
    by (cases "trim (nullish input []) = []")
      (simp_all add: parseHttpStatusCodeRules_def mergeRanges_def Let_def)
next
  case False
  then have "filter (\<lambda>s. parseToken s = None) (inputSegments input) \<noteq> []" "trim (nullish input []) \<noteq> []"
    by (auto simp: filter_empty_conv list_all_iff)
  with False show ?thesis
    by (simp add: parseHttpStatusCodeRules_def Let_def)
qed

lemma hr_ok_iff:
  "hr_ok (parseHttpStatusCodeRules input) \<longleftrightarrow> list_all (\<lambda>s. parseToken s \<noteq> None) (inputSegments input)"
  unfolding parse_rules_unfold by (simp add: Let_def)

lemma parsed_ranges:
  assumes "list_all (\<lambda>s. parseToken s \<noteq> None) segs"
  defines "ranges \<equiv> map (\<lambda>s. the (parseToken s)) segs"
  shows "separated (mergeRanges ranges) \<and> codes (mergeRanges ranges) = (\<Union>s\<in>set segs. tokenCodes s)
    \<and> codes (mergeRanges ranges) \<subseteq> {100..599}"
proof -
  have valid: "isValidCode (sr_start r) \<and> isValidCode (sr_end r) \<and> proper r" if "r \<in> set ranges" for r
    using that assms by (force simp: list_all_iff dest: parseToken_Some)
  then have "list_all proper ranges"
    by (simp add: list_all_iff)
  note merge = mergeRanges_ok [OF this]
  have "codes ranges = (\<Union>s\<in>set segs. tokenCodes s)"
    using assms by (force simp: codes_def tokenCodes_def list_all_iff)
  moreover have "codes ranges \<subseteq> {100..599}"
    using valid by (force simp: codes_def isValidCode_def)
  ultimately show ?thesis
    using merge by simp
qed

lemma separated_valid:
  assumes "separated rs" "codes rs \<subseteq> {100..599}" "r \<in> set rs"
  shows "isValidCode (sr_start r) \<and> isValidCode (sr_end r) \<and> proper r"
proof -
  from assms have "proper r" by (simp add: separated_def list_all_iff)
  with assms(3) have "sr_start r \<in> codes rs" "sr_end r \<in> codes rs"
    by (auto simp: codes_def proper_def)
  with assms(2) \<open>proper r\<close> show ?thesis by (auto simp: isValidCode_def)
qed

lemma mergeRanges_separated: "separated rs \<Longrightarrow> mergeRanges rs = rs"
  using mergeRanges_ok [of rs] separated_unique [of "mergeRanges rs" rs] by (simp add: separated_def)

lemma trim_printed: "trim (join [44] (map printRange rs)) = join [44] (map printRange rs)"
proof (rule trim_no_ws)
  have "\<not> is_ws 44" by (simp add: is_ws_def)
  moreover have "set (join [44] ws) \<subseteq> insert 44 (\<Union>(set ` set ws))" for ws :: "jstring list"
    by (induction "[44 :: jchar]" ws rule: join.induct) auto
  ultimately show "list_all (\<lambda>c. \<not> is_ws c) (join [44] (map printRange rs))"
    using printRange_no_ws unfolding list_all_iff by fastforce
qed

lemma ruleSegments_printed: "ruleSegments (join [44] (map printRange rs)) = map printRange rs"
proof (cases "rs = []")
  case False
  have "set (join [44] ws) \<subseteq> insert 44 (\<Union>(set ` set ws))" for ws :: "jstring list"
    by (induction "[44 :: jchar]" ws rule: join.induct) auto
  then have "65292 \<notin> set (join [44] (map printRange rs))"
    using printRange_no_comma by fastforce
  then have "map (\<lambda>c. if c = 65292 then 44 else c) (join [44] (map printRange rs)) = join [44] (map printRange rs)"
    by (intro map_idI) auto
  moreover have "split_on 44 (join [44] (map printRange rs)) = map printRange rs"
    using False printRange_no_comma by (intro split_on_join) (auto simp: list_all_iff)
  moreover have "trim (printRange r) = printRange r" for r
    by (rule trim_no_ws [OF printRange_no_ws])
  ultimately show ?thesis
    by (simp add: ruleSegments_def comp_def filter_id_conv)
qed simp

text \<open>Printing is injective on normal forms, because parsing inverts it.\<close>

lemma parse_printed:
  assumes "separated rs" "codes rs \<subseteq> {100..599}"
  shows "hr_ok (parseHttpStatusCodeRules (Some (join [44] (map printRange rs))))
    \<and> hr_ranges (parseHttpStatusCodeRules (Some (join [44] (map printRange rs)))) = rs"
proof -
  have "parseToken (printRange r) = Some r" if "r \<in> set rs" for r
    using separated_valid [OF assms that] by (simp add: parseToken_printRange)
  then have "list_all (\<lambda>s. parseToken s \<noteq> None) (map printRange rs)"
    "map (\<lambda>s. the (parseToken s)) (map printRange rs) = rs"
    by (auto simp: list_all_iff intro: map_idI)
  with assms show ?thesis
    unfolding parse_rules_unfold
    by (simp add: trim_printed ruleSegments_printed mergeRanges_separated Let_def del: map_map)
qed

lemma parsed_ok:
  assumes "hr_ok (parseHttpStatusCodeRules input)"
  defines "p \<equiv> parseHttpStatusCodeRules input"
  shows "separated (hr_ranges p)" "codes (hr_ranges p) \<subseteq> {100..599}"
    "hr_tokens p = map printRange (hr_ranges p)"
    "hr_normalized p = join [44] (map printRange (hr_ranges p))" "hr_invalidTokens p = []"
  using assms(1) parsed_ranges [of "inputSegments input"]
  unfolding p_def parse_rules_unfold [of input] by (auto simp: Let_def js_def split: if_splits)

section \<open>Properties\<close>

text \<open>
  C5. A list of status codes is accepted exactly when each of its segments is a code or a range
  between 100 and 599. The ranges of an accepted list denote exactly the codes its segments name,
  they are ordered, disjoint and not adjacent, and within bounds; a rejected list yields no range
  at all, its offending segments, and the text as it was typed.
\<close>

theorem status_rules_refine_sets:
  "let p = parseHttpStatusCodeRules input; segs = ruleSegments (trim (nullish input [])) in
   (hr_ok p \<longleftrightarrow> list_all (\<lambda>s. parseToken s \<noteq> None) segs) \<and>
   (if hr_ok p
    then codes (hr_ranges p) = (\<Union>s\<in>set segs. tokenCodes s) \<and> separated (hr_ranges p)
      \<and> codes (hr_ranges p) \<subseteq> {100..599} \<and> hr_invalidTokens p = []
    else hr_ranges p = [] \<and> hr_tokens p = [] \<and> hr_normalized p = trim (nullish input [])
      \<and> hr_invalidTokens p = filter (\<lambda>s. parseToken s = None) segs \<and> hr_invalidTokens p \<noteq> [])"
  using parsed_ranges [of "inputSegments input"]
  unfolding parse_rules_unfold [of input]
  by (auto simp: Let_def filter_empty_conv list_all_iff)

text \<open>
  C20. The normal form is a fixed point: parsing the normalized text of an accepted list gives the
  same ranges, the same tokens and the same normalized text.
\<close>

theorem status_rules_roundtrip:
  assumes "hr_ok (parseHttpStatusCodeRules input)"
  shows "parseHttpStatusCodeRules (Some (hr_normalized (parseHttpStatusCodeRules input)))
    = parseHttpStatusCodeRules input"
proof -
  let ?p = "parseHttpStatusCodeRules input"
  let ?q = "parseHttpStatusCodeRules (Some (hr_normalized ?p))"
  note p = parsed_ok [OF assms]
  have q: "hr_ok ?q" "hr_ranges ?q = hr_ranges ?p"
    using parse_printed [OF p(1,2)] by (simp_all add: p(4))
  show ?thesis
    using parsed_ok(3,4,5) [OF q(1)] p(3,4,5) q assms
    by (intro ParsedHttpStatusCodeRules.equality) simp_all
qed

theorem status_rules_roundtrip_witness:
  "parseHttpStatusCodeRules (Some (hr_normalized (parseHttpStatusCodeRules (Some (js ''500-502, 401 ,503'')))))
     = parseHttpStatusCodeRules (Some (js ''500-502, 401 ,503''))"
  by (rule status_rules_roundtrip, unfold hr_ok_iff) code_simp

text \<open>
  The normal form is canonical: two accepted lists have the same normalized text exactly when
  they denote the same set of codes, however they were spelled.
\<close>

theorem status_rules_canonical:
  assumes "hr_ok (parseHttpStatusCodeRules a)" "hr_ok (parseHttpStatusCodeRules b)"
  shows "hr_normalized (parseHttpStatusCodeRules a) = hr_normalized (parseHttpStatusCodeRules b) \<longleftrightarrow>
    codes (hr_ranges (parseHttpStatusCodeRules a)) = codes (hr_ranges (parseHttpStatusCodeRules b))"
proof
  assume "hr_normalized (parseHttpStatusCodeRules a) = hr_normalized (parseHttpStatusCodeRules b)"
  then have "hr_ranges (parseHttpStatusCodeRules a) = hr_ranges (parseHttpStatusCodeRules b)"
    using parse_printed [OF parsed_ok(1,2) [OF assms(1)]] parse_printed [OF parsed_ok(1,2) [OF assms(2)]]
    unfolding parsed_ok(4) [OF assms(1), symmetric] parsed_ok(4) [OF assms(2), symmetric] by metis
  then show "codes (hr_ranges (parseHttpStatusCodeRules a)) = codes (hr_ranges (parseHttpStatusCodeRules b))"
    by simp
next
  assume "codes (hr_ranges (parseHttpStatusCodeRules a)) = codes (hr_ranges (parseHttpStatusCodeRules b))"
  then have "hr_ranges (parseHttpStatusCodeRules a) = hr_ranges (parseHttpStatusCodeRules b)"
    using parsed_ok(1) [OF assms(1)] parsed_ok(1) [OF assms(2)] by (intro separated_unique)
  then show "hr_normalized (parseHttpStatusCodeRules a) = hr_normalized (parseHttpStatusCodeRules b)"
    by (simp add: parsed_ok(4) [OF assms(1)] parsed_ok(4) [OF assms(2)])
qed

theorem status_rules_canonical_witness:
  "hr_normalized (parseHttpStatusCodeRules (Some (js ''400,401'')))
      = hr_normalized (parseHttpStatusCodeRules (Some (js ''400-401''))) \<longleftrightarrow>
    codes (hr_ranges (parseHttpStatusCodeRules (Some (js ''400,401'')))) =
      codes (hr_ranges (parseHttpStatusCodeRules (Some (js ''400-401''))))"
proof (rule status_rules_canonical)
  show "hr_ok (parseHttpStatusCodeRules (Some (js ''400,401'')))" unfolding hr_ok_iff by code_simp
  show "hr_ok (parseHttpStatusCodeRules (Some (js ''400-401'')))" unfolding hr_ok_iff by code_simp
qed

text \<open>
  Only the first two parts of a range are read: whatever follows a second dash is ignored, so
  a malformed token such as \<open>200-300-abc\<close> is accepted as \<open>200-300\<close>.
\<close>

theorem range_extra_parts_ignored:
  "parseToken (nat_str a @ 45 # nat_str b @ 45 # rest) = parseToken (nat_str a @ 45 # nat_str b)"
proof -
  let ?clean = "\<lambda>s. filter (\<lambda>c. \<not> is_ws c) (trim s)"
  have no_ws: "filter (\<lambda>c. \<not> is_ws c) (nat_str n) = nat_str n" for n
    using nat_str_digits [of n] digit_not_ws by (auto simp: filter_id_conv list_all_iff)
  have dash: "\<not> is_ws 45" by (simp add: is_ws_def)
  have trim: "?clean s = filter (\<lambda>c. \<not> is_ws c) s" for s
  proof -
    have "filter (\<lambda>c. \<not> is_ws c) (dropWhile is_ws u) = filter (\<lambda>c. \<not> is_ws c) u" for u
      by (induction u) auto
    then show ?thesis
      by (simp add: trim_def trim_end_def trim_start_def rev_filter [symmetric])
  qed
  show ?thesis
    unfolding parseToken_def trim
    by (simp add: no_ws dash split_on_append split_on_clean nat_str_no_dash Let_def)
qed

end
