(* ===== verification/Status_Code_Mapping.thy ===== *)
theory Status_Code_Mapping
  imports JS_Collections
begin

text \<open>
  \<open>features/channels/lib/status-code-risk-guard.ts\<close>: the mapping of upstream status codes that a
  channel may define is checked for invalid entries and for redirects of gateway timeouts (504, 524),
  which need a confirmation.
\<close>

section \<open>The code\<close>

definition NON_REDIRECTABLE_STATUS_CODES :: "nat list" where
  "NON_REDIRECTABLE_STATUS_CODES = [504, 524]"

text \<open>\<open>/^[1-5]\d{2}$/.test(s)\<close>\<close>

definition isStatusCodeText :: "jstring \<Rightarrow> bool" where
  "isStatusCodeText s \<longleftrightarrow> length s = 3 \<and> 49 \<le> hd s \<and> hd s \<le> 53 \<and> list_all is_digit (tl s)"

definition parseStatusCodeKey :: "jstring \<Rightarrow> nat option" where
  "parseStatusCodeKey rawKey =
     (let normalized = trim rawKey in
      if \<not> isStatusCodeText normalized then None else Some (digits_val normalized))"

definition parseStatusCodeMappingTarget :: "json \<Rightarrow> nat option" where
  "parseStatusCodeMappingTarget rawValue = (case rawValue of
     JNum n \<Rightarrow> if of_int \<lfloor>n\<rfloor> = n then (if n \<ge> 100 \<and> n \<le> 599 then Some (nat \<lfloor>n\<rfloor>) else None) else None
   | JStr s \<Rightarrow>
       (let normalized = trim s in
        if \<not> isStatusCodeText normalized then None
        else (let code = digits_val normalized in if code \<ge> 100 \<and> code \<le> 599 then Some code else None))
   | _ \<Rightarrow> None)"

text \<open>The common beginning of the two collectors: the entries of the mapping, or none.\<close>

definition statusCodeEntries :: "jstring \<Rightarrow> (jstring \<times> json) list" where
  "statusCodeEntries str =
     (if trim str = [] then []
      else case JSON_parse str of
        None \<Rightarrow> []
      | Some parsed \<Rightarrow> (case plain_object parsed of None \<Rightarrow> [] | Some ps \<Rightarrow> ps))"

definition isInvalidEntry :: "jstring \<times> json \<Rightarrow> bool" where
  "isInvalidEntry e \<longleftrightarrow> parseStatusCodeKey (fst e) = None \<or> parseStatusCodeMappingTarget (snd e) = None"

fun describeInvalid :: "(jnum \<Rightarrow> jstring) \<Rightarrow> (jstring \<times> json) list \<Rightarrow> js_error + jstring list" where
  "describeInvalid num_str [] = Inr []"
| "describeInvalid num_str (e # es) =
     (if isInvalidEntry e then
        (case to_string num_str (snd e) of
           Inl err \<Rightarrow> Inl err
         | Inr v \<Rightarrow> map_sum id ((#) (fst e @ [32, 8594, 32] @ v)) (describeInvalid num_str es))
      else describeInvalid num_str es)"

definition collectInvalidStatusCodeEntries :: "(jnum \<Rightarrow> jstring) \<Rightarrow> jstring \<Rightarrow> js_error + jstring list" where
  "collectInvalidStatusCodeEntries num_str str = describeInvalid num_str (statusCodeEntries str)"

definition showRedirect :: "nat \<times> nat \<Rightarrow> jstring" where
  "showRedirect p = nat_str (fst p) @ js '' -> '' @ nat_str (snd p)"

definition riskyRedirect :: "jstring \<times> json \<Rightarrow> (nat \<times> nat) option" where
  "riskyRedirect e = (case (parseStatusCodeKey (fst e), parseStatusCodeMappingTarget (snd e)) of
     (Some fromCode, Some toCode) \<Rightarrow>
       if fromCode \<notin> set NON_REDIRECTABLE_STATUS_CODES then None
       else if fromCode = toCode then None else Some (fromCode, toCode)
   | _ \<Rightarrow> None)"

definition collectDisallowedStatusCodeRedirects :: "jstring \<Rightarrow> jstring list" where
  "collectDisallowedStatusCodeRedirects str =
     js_sort code_unit_compare (dedup (map showRedirect (List.map_filter riskyRedirect (statusCodeEntries str))))"

definition collectNewDisallowedStatusCodeRedirects :: "jstring \<Rightarrow> jstring \<Rightarrow> jstring list" where
  "collectNewDisallowedStatusCodeRedirects originalStr currentStr =
     (let currentRisky = collectDisallowedStatusCodeRedirects currentStr in
      if length currentRisky = 0 then []
      else (let originalRisky = collectDisallowedStatusCodeRedirects originalStr in
        filter (\<lambda>mapping. mapping \<notin> set originalRisky) currentRisky))"

section \<open>Lemmas\<close>

lemma statusCodeText_bounds:
  assumes "isStatusCodeText s"
  shows "100 \<le> digits_val s \<and> digits_val s \<le> 599"
proof -
  from assms obtain a b c where s: "s = [a, b, c]"
    by (auto simp: isStatusCodeText_def numeral_3_eq_3 length_Suc_conv)
  with assms show ?thesis
    by (auto simp: isStatusCodeText_def digits_val_def digit_val_def is_digit_iff word_le_nat_alt)
qed

lemma parseStatusCodeKey_bounds: "parseStatusCodeKey k = Some c \<Longrightarrow> 100 \<le> c \<and> c \<le> 599"
  using statusCodeText_bounds by (auto simp: parseStatusCodeKey_def Let_def split: if_splits)

lemma target_bounds: "parseStatusCodeMappingTarget v = Some c \<Longrightarrow> 100 \<le> c \<and> c \<le> 599"
  by (auto simp: parseStatusCodeMappingTarget_def Let_def le_floor_iff floor_le_iff nat_le_iff le_nat_iff
      split: json.splits if_splits)

text \<open>A redirect is printed with two codes of three digits, so that different redirects look different.\<close>

lemma split_dash: "split_on 32 (showRedirect p) = [nat_str (fst p), js ''->'', nat_str (snd p)]"
proof -
  have "32 \<notin> set (nat_str n)" for n
    using nat_str_digits [of n] by (auto simp: list_all_iff is_digit_iff)
  then show ?thesis
    by (simp add: showRedirect_def js_def split_on_append split_on_clean)
qed

lemma showRedirect_inj: "showRedirect p = showRedirect q \<longleftrightarrow> p = q"
  by (metis split_dash list.inject nat_str_inj prod_eqI)

lemma riskyRedirect_Some:
  "riskyRedirect (k, v) = Some (f, t) \<longleftrightarrow> parseStatusCodeKey k = Some f \<and> parseStatusCodeMappingTarget v = Some t \<and>
    f \<in> {504, 524} \<and> f \<noteq> t"
  by (auto simp: riskyRedirect_def NON_REDIRECTABLE_STATUS_CODES_def split: option.splits if_splits)

lemma in_map_filter: "y \<in> set (List.map_filter g xs) \<longleftrightarrow> (\<exists>x \<in> set xs. g x = Some y)"
  by (induction xs) (auto simp: List.map_filter_simps split: option.splits)

lemma redirects_distinct: "distinct (collectDisallowedStatusCodeRedirects str)"
  using distinct_map_js_sort [of id code_unit_compare "dedup xs" for xs]
  by (simp add: collectDisallowedStatusCodeRedirects_def)

lemma set_redirects:
  "set (collectDisallowedStatusCodeRedirects str) = showRedirect ` set (List.map_filter riskyRedirect (statusCodeEntries str))"
  by (simp add: collectDisallowedStatusCodeRedirects_def)

lemma collectNew_filter:
  "collectNewDisallowedStatusCodeRedirects a b =
    filter (\<lambda>m. m \<notin> set (collectDisallowedStatusCodeRedirects a)) (collectDisallowedStatusCodeRedirects b)"
  by (simp add: collectNewDisallowedStatusCodeRedirects_def Let_def)

lemma describeInvalid_Nil:
  "describeInvalid num_str es = Inr [] \<longleftrightarrow> list_all (\<lambda>e. \<not> isInvalidEntry e) es"
proof (induction num_str es rule: describeInvalid.induct)
  case (2 num_str e es)
  then show ?case
    by (cases "describeInvalid num_str es") (auto split: sum.splits)
qed simp

lemma describeInvalid_length:
  "describeInvalid num_str es = Inr out \<Longrightarrow> length out = length (filter isInvalidEntry es)"
proof (induction num_str es arbitrary: out rule: describeInvalid.induct)
  case (2 num_str e es)
  then show ?case
    by (cases "describeInvalid num_str es") (auto split: if_splits sum.splits)
qed simp

section \<open>Properties\<close>

text \<open>
  The redirects that need a confirmation: the collected list names, without repetition and in
  string order, exactly the pairs of different valid codes that an entry of the mapping redirects from
  504 or 524. Text that is not a JSON object has none.
\<close>

theorem risky_redirects_exact:
  "sorted_wrt (\<lambda>a b. code_unit_compare a b \<le> 0) (collectDisallowedStatusCodeRedirects str) \<and>
   distinct (collectDisallowedStatusCodeRedirects str) \<and>
   (showRedirect (f, t) \<in> set (collectDisallowedStatusCodeRedirects str) \<longleftrightarrow>
     f \<in> {504, 524} \<and> f \<noteq> t \<and>
     (\<exists>k v. (k, v) \<in> set (statusCodeEntries str) \<and> parseStatusCodeKey k = Some f \<and>
       parseStatusCodeMappingTarget v = Some t \<and> 100 \<le> t \<and> t \<le> 599))"
proof (intro conjI)
  show "sorted_wrt (\<lambda>a b. code_unit_compare a b \<le> 0) (collectDisallowedStatusCodeRedirects str)"
    unfolding collectDisallowedStatusCodeRedirects_def by (rule code_units.sorted_js_sort)
  have "showRedirect (f, t) \<in> set (collectDisallowedStatusCodeRedirects str) \<longleftrightarrow>
      (f, t) \<in> set (List.map_filter riskyRedirect (statusCodeEntries str))"
    unfolding set_redirects using showRedirect_inj by auto
  also have "\<dots> \<longleftrightarrow> f \<in> {504, 524} \<and> f \<noteq> t \<and> (\<exists>k v. (k, v) \<in> set (statusCodeEntries str) \<and>
      parseStatusCodeKey k = Some f \<and> parseStatusCodeMappingTarget v = Some t)"
    unfolding in_map_filter by (metis riskyRedirect_Some prod.exhaust)
  finally show "showRedirect (f, t) \<in> set (collectDisallowedStatusCodeRedirects str) \<longleftrightarrow>
     f \<in> {504, 524} \<and> f \<noteq> t \<and>
     (\<exists>k v. (k, v) \<in> set (statusCodeEntries str) \<and> parseStatusCodeKey k = Some f \<and>
       parseStatusCodeMappingTarget v = Some t \<and> 100 \<le> t \<and> t \<le> 599)"
    using target_bounds by blast
qed (rule redirects_distinct)

end
