(* ===== verification/Model_Mapping.thy ===== *)
theory Model_Mapping
  imports JS_Collections
begin

text \<open>
  \<open>features/channels/lib/model-mapping-validation.ts\<close> and \<open>upstream-update-utils.ts\<close>: the list of
  models of a channel (a comma-separated text), the mapping that redirects models to others (a JSON
  text), and the model lists of the upstream check. A \<open>Set\<close> is the list of its elements in
  insertion order.
\<close>

section \<open>The code\<close>

definition parseModelsString :: "jstring \<Rightarrow> jstring list" where
  "parseModelsString modelsStr =
     (if modelsStr = [] then [] else filter (\<lambda>m. m \<noteq> []) (map trim (split_on 44 modelsStr)))"

definition formatModelsArray :: "jstring list \<Rightarrow> jstring" where
  "formatModelsArray models = join (js '','') (dedup models)"

definition normalizeModelName :: "jstring \<Rightarrow> jstring" where
  "normalizeModelName model = trim model"

text \<open>\<open>JSON.parse\<close> followed by the test for a plain object.\<close>

definition parsedObject :: "jstring \<Rightarrow> (jstring \<times> json) list option" where
  "parsedObject text = Option.bind (JSON_parse text) plain_object"

definition extractMappingSourceModels :: "jstring \<Rightarrow> jstring list" where
  "extractMappingSourceModels modelMapping =
     (let trimmed = trim modelMapping in
      if trimmed = [] then []
      else case parsedObject trimmed of
        None \<Rightarrow> []
      | Some ps \<Rightarrow> dedup (filter (\<lambda>k. k \<noteq> []) (map (\<lambda>p. trim (fst p)) ps)))"

definition stringValue :: "json \<Rightarrow> jstring option" where
  "stringValue v = (case v of JStr s \<Rightarrow> Some (trim s) | _ \<Rightarrow> None)"

definition extractRedirectModels :: "jstring \<Rightarrow> jstring list" where
  "extractRedirectModels modelMapping =
     (let trimmed = trim modelMapping in
      if trimmed = [] then []
      else case parsedObject trimmed of
        None \<Rightarrow> []
      | Some ps \<Rightarrow> dedup (filter (\<lambda>v. v \<noteq> []) (List.map_filter (\<lambda>p. stringValue (snd p)) ps)))"

definition hasModelConfigChanged :: "jstring list \<Rightarrow> jstring \<Rightarrow> jstring list \<Rightarrow> jstring \<Rightarrow> bool" where
  "hasModelConfigChanged currentModels currentModelMapping initialModels initialModelMapping =
     (if length initialModels = 0 \<and> initialModelMapping = [] then True
      else if length currentModels \<noteq> length initialModels then True
      else if list_ex (\<lambda>i. currentModels ! i \<noteq> initialModels ! i) [0..<length currentModels] then True
      else trim currentModelMapping \<noteq> trim initialModelMapping)"

definition findMissingModelsInMapping :: "jstring \<Rightarrow> jstring list \<Rightarrow> jstring list" where
  "findMissingModelsInMapping modelMapping currentModels =
     (if modelMapping = [] \<or> trim modelMapping = [] then []
      else case parsedObject modelMapping of
        None \<Rightarrow> []
      | Some ps \<Rightarrow>
          (let modelSet = dedup (map normalizeModelName currentModels) in
           dedup (filter (\<lambda>key. key \<noteq> [] \<and> key \<notin> set modelSet) (map (\<lambda>p. normalizeModelName (fst p)) ps))))"

record MappingValidation =
  mv_valid :: bool
  mv_error :: "jstring option"

definition is_string :: "json \<Rightarrow> bool" where
  "is_string v = (case v of JStr _ \<Rightarrow> True | _ \<Rightarrow> False)"

definition validateModelMappingJson :: "jstring \<Rightarrow> MappingValidation" where
  "validateModelMappingJson modelMapping =
     (if modelMapping = [] \<or> trim modelMapping = [] then \<lparr>mv_valid = True, mv_error = None\<rparr>
      else case JSON_parse modelMapping of
        None \<Rightarrow> \<lparr>mv_valid = False, mv_error = Some (js ''Model mapping must be valid JSON format'')\<rparr>
      | Some parsed \<Rightarrow> (case plain_object parsed of
          None \<Rightarrow> \<lparr>mv_valid = False, mv_error = Some (js ''Model mapping must be a valid JSON object'')\<rparr>
        | Some ps \<Rightarrow>
            if list_ex (\<lambda>p. \<not> is_string (snd p)) ps
            then \<lparr>mv_valid = False, mv_error = Some (js ''Model mapping values must be strings'')\<rparr>
            else \<lparr>mv_valid = True, mv_error = None\<rparr>))"

definition findExposedTargetModels :: "jstring \<Rightarrow> jstring list \<Rightarrow> jstring list" where
  "findExposedTargetModels modelMapping currentModels =
     (let redirectModels = extractRedirectModels modelMapping in
      if length redirectModels = 0 then []
      else (let modelSet = dedup (map normalizeModelName currentModels) in
        filter (\<lambda>model. normalizeModelName model \<in> set modelSet) redirectModels))"

record ModelCategories =
  mc_normalizedCurrentModels :: "jstring list"
  mc_normalizedRedirectModels :: "jstring list"
  mc_classificationSet :: "jstring list"
  mc_redirectOnlySet :: "jstring list"

definition categorizeModelsWithRedirect :: "jstring list \<Rightarrow> jstring list \<Rightarrow> ModelCategories" where
  "categorizeModelsWithRedirect currentModels redirectModels =
     (let current = dedup (filter (\<lambda>m. m \<noteq> []) (map normalizeModelName currentModels));
          redirect = dedup (filter (\<lambda>m. m \<noteq> []) (map normalizeModelName redirectModels)) in
      \<lparr>mc_normalizedCurrentModels = current, mc_normalizedRedirectModels = redirect,
       mc_classificationSet = dedup (current @ redirect),
       mc_redirectOnlySet = dedup (filter (\<lambda>m. m \<notin> set current) redirect)\<rparr>)"

subsection \<open>The upstream check\<close>

text \<open>\<open>String(model || '').trim()\<close>\<close>

definition modelText :: "(jnum \<Rightarrow> jstring) \<Rightarrow> json \<Rightarrow> js_error + jstring" where
  "modelText num_str model = map_sum id trim (if truthy model then to_string num_str model else Inr [])"

fun modelTexts :: "(jnum \<Rightarrow> jstring) \<Rightarrow> json list \<Rightarrow> js_error + jstring list" where
  "modelTexts num_str [] = Inr []"
| "modelTexts num_str (m # ms) = (case modelText num_str m of
     Inl e \<Rightarrow> Inl e
   | Inr s \<Rightarrow> map_sum id ((#) s) (modelTexts num_str ms))"

definition normalizeModelList :: "(jnum \<Rightarrow> jstring) \<Rightarrow> json list \<Rightarrow> js_error + jstring list" where
  "normalizeModelList num_str models =
     map_sum id (\<lambda>ts. dedup (filter (\<lambda>m. m \<noteq> []) ts)) (modelTexts num_str models)"

text \<open>\<open>normalizeModelList((v as unknown[]) || [])\<close>: only an array has \<open>map\<close>.\<close>

definition normalizeProperty :: "(jnum \<Rightarrow> jstring) \<Rightarrow> json option \<Rightarrow> js_error + jstring list" where
  "normalizeProperty num_str v =
     (if \<not> truthy_opt v then normalizeModelList num_str []
      else case v of Some (JArr ms) \<Rightarrow> normalizeModelList num_str ms | _ \<Rightarrow> Inl TypeError)"

record UpstreamUpdateMeta =
  um_enabled :: bool
  um_pendingAddModels :: "jstring list"
  um_pendingRemoveModels :: "jstring list"

definition parsedSettings :: "json option \<Rightarrow> json option" where
  "parsedSettings settings = (case settings of
     Some (JObj ps) \<Rightarrow> Some (JObj ps)
   | Some (JStr s) \<Rightarrow> JSON_parse s
   | _ \<Rightarrow> None)"

definition is_object_like :: "json option \<Rightarrow> bool" where
  "is_object_like v = (case v of Some (JObj _) \<Rightarrow> True | Some (JArr _) \<Rightarrow> True | _ \<Rightarrow> False)"

definition parseUpstreamUpdateMeta :: "(jnum \<Rightarrow> jstring) \<Rightarrow> json option \<Rightarrow> js_error + UpstreamUpdateMeta" where
  "parseUpstreamUpdateMeta num_str settings =
     (let parsed = parsedSettings settings in
      if \<not> is_object_like parsed
      then Inr \<lparr>um_enabled = False, um_pendingAddModels = [], um_pendingRemoveModels = []\<rparr>
      else case normalizeProperty num_str (opt_prop parsed (js ''upstream_model_update_last_detected_models'')) of
        Inl e \<Rightarrow> Inl e
      | Inr adds \<Rightarrow>
          (case normalizeProperty num_str (opt_prop parsed (js ''upstream_model_update_last_removed_models'')) of
             Inl e \<Rightarrow> Inl e
           | Inr removes \<Rightarrow> Inr
               \<lparr>um_enabled = (opt_prop parsed (js ''upstream_model_update_check_enabled'') = Some (JBool True)),
                um_pendingAddModels = adds, um_pendingRemoveModels = removes\<rparr>))"

section \<open>Lists of models\<close>

lemma set_trim: "set (trim s) \<subseteq> set s"
  by (auto simp: trim_def trim_end_def trim_start_def dest!: set_dropWhileD)

text \<open>What \<open>parseModelsString\<close> returns: names that can be written into a list and read back.\<close>

definition modelName :: "jstring \<Rightarrow> bool" where
  "modelName m \<longleftrightarrow> m \<noteq> [] \<and> trim m = m \<and> 44 \<notin> set m"

lemma parseModelsString_names: "list_all modelName (parseModelsString s)"
  using set_trim split_on_no_sep [of _ 44 s]
  by (fastforce simp: parseModelsString_def modelName_def list_all_iff)

lemma parse_format:
  assumes "list_all modelName models"
  shows "parseModelsString (formatModelsArray models) = dedup models"
proof (cases "dedup models = []")
  case True
  then show ?thesis by (simp add: formatModelsArray_def parseModelsString_def)
next
  case False
  have names: "list_all modelName (dedup models)"
    using assms by (simp add: list_all_iff)
  then have split: "split_on 44 (formatModelsArray models) = dedup models"
    using False unfolding formatModelsArray_def js_def
    by (simp add: split_on_join list_all_iff modelName_def)
  have "formatModelsArray models \<noteq> []"
  proof
    assume "formatModelsArray models = []"
    with split have "dedup models = [[]]" by simp
    with names show False by (simp add: modelName_def)
  qed
  moreover have "map trim (dedup models) = dedup models"
    using names by (intro map_idI) (simp add: list_all_iff modelName_def)
  moreover have "filter (\<lambda>m. m \<noteq> []) (dedup models) = dedup models"
    using names by (simp add: filter_id_conv list_all_iff modelName_def)
  ultimately show ?thesis
    by (simp add: parseModelsString_def split)
qed

section \<open>The mapping\<close>

lemma set_missing:
  "set (findMissingModelsInMapping mapping models) =
     (case parsedObject mapping of
        None \<Rightarrow> {}
      | Some ps \<Rightarrow> if trim mapping = [] then {} else trim ` fst ` set ps - {[]} - trim ` set models)"
  by (auto simp: findMissingModelsInMapping_def normalizeModelName_def split: option.splits)

lemma missing_after_adding:
  assumes "set (findMissingModelsInMapping mapping models) \<subseteq> set models'" "trim ` set models \<subseteq> trim ` set models'"
  shows "findMissingModelsInMapping mapping models' = []"
proof -
  have "set (findMissingModelsInMapping mapping models') = {}"
  proof (cases "parsedObject mapping")
    case (Some ps)
    have "k \<in> trim ` set models'" if "k \<in> trim ` fst ` set ps" "k \<noteq> []" "trim mapping \<noteq> []" for k
    proof (cases "k \<in> trim ` set models")
      case False
      with that Some assms(1) have "k \<in> set models'"
        by (auto simp: set_missing)
      moreover from that(1) have "trim k = k"
        by auto
      ultimately show ?thesis by force
    qed (use assms(2) in blast)
    with Some show ?thesis
      by (auto simp: set_missing)
  qed (simp add: set_missing)
  then show ?thesis by simp
qed

lemma valid_mapping_iff:
  "mv_valid (validateModelMappingJson mapping) \<longleftrightarrow>
     trim mapping = [] \<or> (\<exists>ps. JSON_parse mapping = Some (JObj ps) \<and> snd ` set ps \<subseteq> range JStr)"
proof -
  have plain: "plain_object v = Some ps \<longleftrightarrow> v = JObj ps" for v ps
    by (cases v) auto
  have str: "is_string v \<longleftrightarrow> v \<in> range JStr" for v
    by (cases v) (auto simp: is_string_def)
  show ?thesis
    by (auto simp: validateModelMappingJson_def plain str list_ex_iff image_subset_iff split: option.splits)
qed

section \<open>The upstream check\<close>

lemma to_string_error: "to_string f v = Inl e \<Longrightarrow> e = TypeError"
  and elem_strings_error: "elem_strings f vs = Inl e \<Longrightarrow> e = TypeError"
  by (induction f v and f vs arbitrary: e and e rule: to_string_elem_strings.induct)
    (auto split: if_splits sum.splits simp: map_sum_def)

definition printable :: "(jnum \<Rightarrow> jstring) \<Rightarrow> json \<Rightarrow> bool" where
  "printable num_str v \<longleftrightarrow> \<not> truthy v \<or> isl (to_string num_str v) = False"

definition modelArray :: "(jnum \<Rightarrow> jstring) \<Rightarrow> json option \<Rightarrow> bool" where
  "modelArray num_str v \<longleftrightarrow> \<not> truthy_opt v \<or> (case v of Some (JArr ms) \<Rightarrow> list_all (printable num_str) ms | _ \<Rightarrow> False)"

lemma modelTexts_cases:
  "case modelTexts num_str ms of Inl e \<Rightarrow> e = TypeError \<and> \<not> list_all (printable num_str) ms
     | Inr ts \<Rightarrow> list_all (printable num_str) ms \<and> list_all (\<lambda>t. trim t = t) ts"
proof (induction num_str ms rule: modelTexts.induct)
  case (2 num_str m ms)
  show ?case
  proof (cases "truthy m")
    case True
    then show ?thesis
      using "2" to_string_error [of num_str m]
      by (cases "to_string num_str m"; cases "modelTexts num_str ms") (auto simp: modelText_def printable_def)
  next
    case False
    then show ?thesis
      using "2" by (cases "modelTexts num_str ms") (auto simp: modelText_def printable_def)
  qed
qed simp

lemma normalizeModelList_cases:
  "case normalizeModelList num_str ms of Inl e \<Rightarrow> e = TypeError \<and> \<not> list_all (printable num_str) ms
     | Inr ts \<Rightarrow> list_all (printable num_str) ms \<and> distinct ts \<and> list_all (\<lambda>t. t \<noteq> [] \<and> trim t = t) ts"
  using modelTexts_cases [of num_str ms]
  by (cases "modelTexts num_str ms") (auto simp: normalizeModelList_def list_all_iff)

lemma normalizeProperty_cases:
  "case normalizeProperty num_str v of Inl e \<Rightarrow> e = TypeError \<and> \<not> modelArray num_str v
     | Inr ts \<Rightarrow> modelArray num_str v \<and> distinct ts \<and> list_all (\<lambda>t. t \<noteq> [] \<and> trim t = t) ts"
proof (cases "truthy_opt v")
  case True
  then obtain w where "v = Some w" by (cases v) (auto simp: truthy_opt_def)
  show ?thesis
  proof (cases w)
    case (JArr ms)
    with \<open>v = Some w\<close> True show ?thesis
      using normalizeModelList_cases [of num_str ms]
      by (simp add: normalizeProperty_def modelArray_def split: sum.splits)
  qed (use \<open>v = Some w\<close> True in \<open>auto simp: normalizeProperty_def modelArray_def\<close>)
next
  case False
  then show ?thesis
    by (simp add: normalizeProperty_def modelArray_def normalizeModelList_def dedup_def)
qed

section \<open>Properties\<close>

text \<open>
  The text of a channel's models is a faithful representation: reading a text, writing the names
  and reading them again gives the names without repetitions, and writing once more changes nothing.
\<close>

theorem models_roundtrip:
  "parseModelsString (formatModelsArray (parseModelsString s)) = dedup (parseModelsString s) \<and>
   formatModelsArray (parseModelsString (formatModelsArray (parseModelsString s))) =
     formatModelsArray (parseModelsString s)"
  using parse_format [OF parseModelsString_names [of s]] by (simp add: formatModelsArray_def)

text \<open>
  The missing models of a mapping are exactly its nonblank source names that the list does not
  have, and adding them the way the drawer does (as text) leaves none missing, provided that no
  source name contains a comma.
\<close>

theorem adding_missing_models_completes:
  assumes "models = parseModelsString text"
    and "missing = findMissingModelsInMapping mapping models"
    and "list_all (\<lambda>m. 44 \<notin> set m) missing"
    and "saved = formatModelsArray (dedup (models @ missing))"
  shows "set (parseModelsString saved) = set models \<union> set missing
    \<and> findMissingModelsInMapping mapping (parseModelsString saved) = []"
proof -
  have "list_all modelName models"
    unfolding assms(1) by (rule parseModelsString_names)
  moreover have "list_all modelName missing"
    using assms(3) unfolding assms(2)
    by (auto simp: list_all_iff modelName_def set_missing split: option.splits if_splits)
  ultimately have "parseModelsString saved = dedup (models @ missing)"
    unfolding assms(4) by (subst parse_format) (auto simp: list_all_iff)
  then have set: "set (parseModelsString saved) = set models \<union> set missing"
    by simp
  then show ?thesis
    using missing_after_adding [of mapping models "parseModelsString saved"] assms(2) by auto
qed

definition demo_mapping :: jstring where
  "demo_mapping = [123] @ [34, 97, 34, 58, 34, 98, 34] @ [125]"

definition demo_comma_mapping :: jstring where
  "demo_comma_mapping = [123] @ [34, 97, 44, 98, 34, 58, 34, 99, 34] @ [125]"

lemma demo_missing: "findMissingModelsInMapping demo_mapping [] = [js ''a'']"
  by code_simp

theorem adding_missing_models_completes_witness:
  "findMissingModelsInMapping demo_mapping (parseModelsString (formatModelsArray (dedup ([] @ [js ''a''])))) = []"
proof -
  have "[] = parseModelsString []"
    by (simp add: parseModelsString_def)
  from adding_missing_models_completes [OF this demo_missing [symmetric] _ refl]
  show ?thesis by (simp add: js_def)
qed

text \<open>
  A source name with a comma stays missing: adding it writes the comma into the list, where it
  separates two other names. (The mapping here has the single entry \<open>"a,b": "c"\<close>.)
\<close>

theorem comma_name_stays_missing:
  "let missing = findMissingModelsInMapping demo_comma_mapping [];
       saved = parseModelsString (formatModelsArray (dedup ([] @ missing))) in
   missing = [js ''a,b''] \<and> saved = [js ''a'', js ''b''] \<and>
   findMissingModelsInMapping demo_comma_mapping saved = [js ''a,b'']"
  by code_simp

text \<open>
  The mapping validator accepts exactly the blank text and the JSON objects whose values are all
  strings, and a rejected mapping always comes with a message.
\<close>

theorem model_mapping_validation_exact:
  "(mv_valid (validateModelMappingJson mapping) \<longleftrightarrow>
     trim mapping = [] \<or> (\<exists>ps. JSON_parse mapping = Some (JObj ps) \<and> snd ` set ps \<subseteq> range JStr)) \<and>
   (mv_valid (validateModelMappingJson mapping) \<longleftrightarrow> mv_error (validateModelMappingJson mapping) = None)"
  using valid_mapping_iff [of mapping] by (auto simp: validateModelMappingJson_def split: option.splits)

text \<open>
  C36. Reading the result of an upstream check from a channel's settings: what is returned are
  normalized lists (trimmed, nonblank names without repetition); and it throws, always a
  \<open>TypeError\<close>, exactly when one of the two stored lists is a truthy value that is no array or
  an array with an element that cannot be printed.
\<close>

theorem upstream_meta_result:
  "let parsed = parsedSettings settings; result = parseUpstreamUpdateMeta num_str settings in
   (isl result \<longleftrightarrow> is_object_like parsed \<and>
      \<not> (modelArray num_str (opt_prop parsed (js ''upstream_model_update_last_detected_models'')) \<and>
         modelArray num_str (opt_prop parsed (js ''upstream_model_update_last_removed_models'')))) \<and>
   (case result of
      Inl e \<Rightarrow> e = TypeError
    | Inr meta \<Rightarrow> distinct (um_pendingAddModels meta) \<and> distinct (um_pendingRemoveModels meta) \<and>
        list_all (\<lambda>t. t \<noteq> [] \<and> trim t = t) (um_pendingAddModels meta @ um_pendingRemoveModels meta))"
  using normalizeProperty_cases [of num_str "opt_prop (parsedSettings settings) (js ''upstream_model_update_last_detected_models'')"]
    normalizeProperty_cases [of num_str "opt_prop (parsedSettings settings) (js ''upstream_model_update_last_removed_models'')"]
  by (auto simp: parseUpstreamUpdateMeta_def Let_def split: sum.splits)

end
