(* ===== verification/Permissions.thy ===== *)
theory Permissions
  imports JS_Collections
begin

text \<open>
  \<open>lib/roles.ts\<close> and \<open>lib/admin-permissions.ts\<close>: roles, the test for a permission of the signed-in
  user, and the normalization of a permission matrix over the catalog that the server sends. A
  \<open>Record\<close> is the association list of its own properties.
\<close>

section \<open>The code\<close>

definition ROLE_GUEST :: int where "ROLE_GUEST = 0"
definition ROLE_USER :: int where "ROLE_USER = 1"
definition ROLE_ADMIN :: int where "ROLE_ADMIN = 10"
definition ROLE_SUPER_ADMIN :: int where "ROLE_SUPER_ADMIN = 100"

definition ROLE_LABEL_KEYS :: "(int \<times> jstring) list" where
  "ROLE_LABEL_KEYS = [(ROLE_SUPER_ADMIN, js ''Super Admin''), (ROLE_ADMIN, js ''Admin''), (ROLE_USER, js ''User''),
     (ROLE_GUEST, js ''Guest'')]"

definition getRoleLabelKey :: "int option \<Rightarrow> jstring" where
  "getRoleLabelKey role =
     nullish (Option.bind role (map_of ROLE_LABEL_KEYS)) (nullish (map_of ROLE_LABEL_KEYS ROLE_GUEST) [])"

type_synonym AdminPermissionMatrix = "(jstring \<times> (jstring \<times> bool) list) list"

record UserPermissions =
  up_admin_permissions :: "AdminPermissionMatrix option"

text \<open>Of the user only the fields that the modelled code reads.\<close>

record AuthUser =
  au_role :: int
  au_permissions :: "UserPermissions option"

record PermissionActionDef =
  pa_action :: jstring
  pa_label_key :: jstring
  pa_description_key :: jstring

record PermissionResourceDef =
  pr_resource :: jstring
  pr_label_key :: jstring
  pr_actions :: "PermissionActionDef list"

record PermissionRoleDef =
  pl_key :: jstring
  pl_name :: jstring
  pl_built_in :: bool
  pl_superuser :: bool
  pl_grants :: AdminPermissionMatrix

record PermissionCatalog =
  pc_resources :: "PermissionResourceDef list"
  pc_roles :: "PermissionRoleDef list"

definition EMPTY_PERMISSION_CATALOG :: PermissionCatalog where
  "EMPTY_PERMISSION_CATALOG = \<lparr>pc_resources = [], pc_roles = []\<rparr>"

definition ADMIN_ROLE_KEY :: jstring where
  "ADMIN_ROLE_KEY = js ''admin''"

text \<open>\<open>matrix?.[resource]?.[action]\<close>\<close>

definition matrixEntry :: "AdminPermissionMatrix option \<Rightarrow> jstring \<Rightarrow> jstring \<Rightarrow> bool option" where
  "matrixEntry matrix res act =
     Option.bind matrix (\<lambda>m. Option.bind (map_of m res) (\<lambda>actions. map_of actions act))"

definition hasPermission :: "AuthUser option \<Rightarrow> jstring \<Rightarrow> jstring \<Rightarrow> bool" where
  "hasPermission user res act = (case user of
     None \<Rightarrow> False
   | Some u \<Rightarrow>
       if au_role u = ROLE_SUPER_ADMIN then True
       else matrixEntry (Option.bind (au_permissions u) up_admin_permissions) res act = Some True)"

definition roleGrants :: "PermissionCatalog \<Rightarrow> jstring \<Rightarrow> AdminPermissionMatrix" where
  "roleGrants catalog roleKey =
     nullish (map_option pl_grants (List.find (\<lambda>role. pl_key role = roleKey) (pc_roles catalog))) []"

definition permissionValue :: "AdminPermissionMatrix option \<Rightarrow> AdminPermissionMatrix \<Rightarrow> jstring \<Rightarrow> jstring \<Rightarrow> bool" where
  "permissionValue v baseline res act =
     nullish (nullish_opt (matrixEntry v res act) (matrixEntry (Some baseline) res act)) False"

definition normalizeResource ::
  "AdminPermissionMatrix option \<Rightarrow> AdminPermissionMatrix \<Rightarrow> PermissionResourceDef \<Rightarrow> (jstring \<times> bool) list" where
  "normalizeResource v baseline res =
     foldl (\<lambda>actions a. obj_put (pa_action a) (permissionValue v baseline (pr_resource res) (pa_action a)) actions)
       [] (pr_actions res)"

definition normalizeAdminPermissions :: "AdminPermissionMatrix option \<Rightarrow> PermissionCatalog \<Rightarrow> AdminPermissionMatrix" where
  "normalizeAdminPermissions v catalog =
     (let baseline = roleGrants catalog ADMIN_ROLE_KEY in
      foldl (\<lambda>normalized res. obj_put (pr_resource res) (normalizeResource v baseline res) normalized)
        [] (pc_resources catalog))"

section \<open>Lemmas\<close>

lemma foldl_obj_put:
  "map_of (foldl (\<lambda>ps x. obj_put (key x) (val x) ps) acc xs) k =
     (case List.find (\<lambda>x. key x = k) (rev xs) of Some x \<Rightarrow> Some (val x) | None \<Rightarrow> map_of acc k)"
  by (induction xs rule: rev_induct) (auto split: option.splits)

lemma foldl_obj_put_cong:
  assumes "\<And>x. x \<in> set xs \<Longrightarrow> val x = val' x"
  shows "foldl (\<lambda>ps x. obj_put (key x) (val x) ps) acc xs = foldl (\<lambda>ps x. obj_put (key x) (val' x) ps) acc xs"
  using assms by (intro foldl_cong) auto

text \<open>The value of an entry is determined by the names, not by the place in the catalog.\<close>

lemma map_of_normalizeResource:
  "map_of (normalizeResource v b res) act =
     (if act \<in> pa_action ` set (pr_actions res) then Some (permissionValue v b (pr_resource res) act) else None)"
proof (cases "List.find (\<lambda>a. pa_action a = act) (rev (pr_actions res))")
  case None
  then have "act \<notin> pa_action ` set (pr_actions res)"
    by (auto simp: find_None_iff)
  with None show ?thesis
    by (simp add: normalizeResource_def foldl_obj_put)
next
  case (Some a)
  then have "pa_action a = act" "a \<in> set (rev (pr_actions res))"
    by (auto simp: find_Some_iff simp del: set_rev)
  with Some show ?thesis
    by (auto simp: normalizeResource_def foldl_obj_put)
qed

text \<open>The last description of a resource in the catalog counts.\<close>

definition resourceDef :: "PermissionCatalog \<Rightarrow> jstring \<Rightarrow> PermissionResourceDef option" where
  "resourceDef catalog res = List.find (\<lambda>r. pr_resource r = res) (rev (pc_resources catalog))"

lemma resourceDef_name: "resourceDef catalog res = Some r \<Longrightarrow> pr_resource r = res"
  by (auto simp: resourceDef_def find_Some_iff)

lemma normalized_entry:
  "matrixEntry (Some (normalizeAdminPermissions v catalog)) res act =
     (case resourceDef catalog res of
        None \<Rightarrow> None
      | Some r \<Rightarrow>
          if act \<in> pa_action ` set (pr_actions r)
          then Some (permissionValue v (roleGrants catalog ADMIN_ROLE_KEY) res act) else None)"
  using foldl_obj_put [of pr_resource "normalizeResource v (roleGrants catalog ADMIN_ROLE_KEY)" "[]" "pc_resources catalog" res]
  by (auto simp: matrixEntry_def normalizeAdminPermissions_def Let_def resourceDef_def [symmetric]
      map_of_normalizeResource resourceDef_name split: option.splits)

section \<open>Properties\<close>

text \<open>
  C28. A normalized matrix has exactly the entries of the catalog; each is the given value where there
  is one, otherwise the admin role's grant, otherwise denied. Normalizing again changes nothing.
\<close>

theorem normalize_permissions_total:
  "matrixEntry (Some (normalizeAdminPermissions v catalog)) res act =
     (case resourceDef catalog res of
        None \<Rightarrow> None
      | Some r \<Rightarrow>
          if act \<in> pa_action ` set (pr_actions r)
          then Some (case matrixEntry v res act of
            Some b \<Rightarrow> b
          | None \<Rightarrow> matrixEntry (Some (roleGrants catalog ADMIN_ROLE_KEY)) res act = Some True)
          else None) \<and>
   matrixEntry (Some (normalizeAdminPermissions (Some (normalizeAdminPermissions v catalog)) catalog)) res act =
     matrixEntry (Some (normalizeAdminPermissions v catalog)) res act"
proof
  have val: "permissionValue v b res act =
      (case matrixEntry v res act of Some x \<Rightarrow> x | None \<Rightarrow> matrixEntry (Some b) res act = Some True)" for v b
    by (cases "matrixEntry v res act"; cases "matrixEntry (Some b) res act") (auto simp: permissionValue_def)
  show "matrixEntry (Some (normalizeAdminPermissions v catalog)) res act =
     (case resourceDef catalog res of
        None \<Rightarrow> None
      | Some r \<Rightarrow>
          if act \<in> pa_action ` set (pr_actions r)
          then Some (case matrixEntry v res act of
            Some b \<Rightarrow> b
          | None \<Rightarrow> matrixEntry (Some (roleGrants catalog ADMIN_ROLE_KEY)) res act = Some True)
          else None)"
    unfolding normalized_entry val ..
  show "matrixEntry (Some (normalizeAdminPermissions (Some (normalizeAdminPermissions v catalog)) catalog)) res act =
     matrixEntry (Some (normalizeAdminPermissions v catalog)) res act"
    by (auto simp: normalized_entry permissionValue_def split: option.splits)
qed

end
