(* ===== verification/Channel_Submit.thy ===== *)
theory Channel_Submit
  imports Status_Code_Mapping Model_Mapping Permissions
begin

text \<open>
  The submit handler of the channel drawer (\<open>onSubmit\<close> of
  \<open>features/channels/components/drawers/channel-mutate-drawer.tsx\<close>): the sequence of guards between
  the form and the request that saves the channel, with the permission test, the two confirmations
  and the completion of the model list. The answers of the two dialogs are functions of what they
  show; fields of the form that the handler does not read are the extension of the record.
\<close>

section \<open>The code\<close>

record ChannelFormValues =
  cf_key :: jstring
  cf_models :: jstring
  cf_model_mapping :: "jstring option"
  cf_status_code_mapping :: "jstring option"

record SubmitContext =
  sc_user :: "AuthUser option"
  sc_isEditing :: bool
  sc_dirtyFields :: "jstring list"
  sc_initialModels :: "jstring list"
  sc_initialModelMapping :: jstring
  sc_initialStatusCodeMapping :: jstring

datatype MissingModelsAction = ActAdd | ActSubmit | ActCancel

record SubmitDialogs =
  sd_confirmStatusCodeRisk :: "jstring list \<Rightarrow> bool"
  sd_confirmMissingModelMappings :: "jstring list \<Rightarrow> MissingModelsAction"

text \<open>
  How the handler ends. \<open>Mutate data\<close> is the call of \<open>channelMutation.mutateAsync(data)\<close>; when the
  model list was completed the form's \<open>models\<close> field is set to \<open>data.models\<close> as well.
\<close>

datatype 'd SubmitOutcome =
    KeyRequired
  | SensitiveChangeDenied
  | InvalidStatusEntries "jstring list"
  | RiskRejected
  | InvalidModelMapping jstring
  | MissingCancelled
  | Thrown js_error
  | Mutate 'd

definition SENSITIVE_FORM_FIELDS :: "jstring list" where
  "SENSITIVE_FORM_FIELDS = map js [''type'', ''base_url'', ''key'', ''openai_organization'', ''other'', ''key_mode'',
     ''param_override'', ''header_override'', ''settings'', ''setting'', ''advanced_custom'', ''is_enterprise_account'',
     ''vertex_key_type'', ''aws_key_type'', ''azure_responses_version'', ''force_format'', ''thinking_to_content'',
     ''proxy'', ''pass_through_body_enabled'', ''system_prompt'', ''system_prompt_override'', ''allow_service_tier'',
     ''disable_store'', ''allow_safety_identifier'', ''allow_include_obfuscation'', ''allow_inference_geo'',
     ''allow_speed'', ''claude_beta_query'', ''disable_task_polling_sleep'', ''upstream_model_update_check_enabled'',
     ''upstream_model_update_auto_sync_enabled'', ''upstream_model_update_ignored_models'']"

definition canEditSensitive :: "AuthUser option \<Rightarrow> bool" where
  "canEditSensitive user = hasPermission user (js ''channel'') (js ''sensitive_write'')"

definition sensitiveLocked :: "SubmitContext \<Rightarrow> bool" where
  "sensitiveLocked ctx \<longleftrightarrow> sc_isEditing ctx \<and> \<not> canEditSensitive (sc_user ctx)"

text \<open>The check of \<open>status_code_mapping\<close>; \<open>None\<close> goes on.\<close>

definition checkStatusCodeMapping ::
  "(jnum \<Rightarrow> jstring) \<Rightarrow> SubmitContext \<Rightarrow> SubmitDialogs \<Rightarrow> 'a ChannelFormValues_scheme \<Rightarrow> 'a ChannelFormValues_scheme SubmitOutcome option" where
  "checkStatusCodeMapping num_str ctx dialogs data = (case cf_status_code_mapping data of
     None \<Rightarrow> None
   | Some mapping \<Rightarrow>
       if trim mapping = [] then None
       else (case collectInvalidStatusCodeEntries num_str mapping of
          Inl e \<Rightarrow> Some (Thrown e)
        | Inr invalidEntries \<Rightarrow>
            if length invalidEntries > 0 then Some (InvalidStatusEntries invalidEntries)
            else (let riskyRedirects = collectNewDisallowedStatusCodeRedirects (sc_initialStatusCodeMapping ctx) mapping in
              if length riskyRedirects > 0 \<and> \<not> sd_confirmStatusCodeRisk dialogs riskyRedirects
              then Some RiskRejected else None)))"

definition hasModelMapping :: "'a ChannelFormValues_scheme \<Rightarrow> bool" where
  "hasModelMapping data = (case cf_model_mapping data of None \<Rightarrow> False | Some s \<Rightarrow> trim s \<noteq> [])"

definition completeModels :: "SubmitContext \<Rightarrow> SubmitDialogs \<Rightarrow> 'a ChannelFormValues_scheme \<Rightarrow> 'a ChannelFormValues_scheme SubmitOutcome" where
  "completeModels ctx dialogs data =
     (let modelMappingValue = or_str (cf_model_mapping data) [];
          normalizedModels = parseModelsString (cf_models data) in
      if hasModelMapping data then
        (let missingModels = findMissingModelsInMapping modelMappingValue normalizedModels;
             shouldPromptMissing = length missingModels > 0 \<and>
               hasModelConfigChanged normalizedModels modelMappingValue (sc_initialModels ctx) (sc_initialModelMapping ctx) in
         if shouldPromptMissing then
           (case sd_confirmMissingModelMappings dialogs missingModels of
              ActCancel \<Rightarrow> MissingCancelled
            | ActAdd \<Rightarrow> Mutate (data\<lparr>cf_models := formatModelsArray (dedup (normalizedModels @ missingModels))\<rparr>)
            | ActSubmit \<Rightarrow> Mutate data)
         else Mutate data)
      else Mutate data)"

definition onSubmit ::
  "(jnum \<Rightarrow> jstring) \<Rightarrow> SubmitContext \<Rightarrow> SubmitDialogs \<Rightarrow> 'a ChannelFormValues_scheme \<Rightarrow> 'a ChannelFormValues_scheme SubmitOutcome" where
  "onSubmit num_str ctx dialogs data =
     (if \<not> sc_isEditing ctx \<and> trim (cf_key data) = [] then KeyRequired
      else if sensitiveLocked ctx \<and> list_ex (\<lambda>field. field \<in> set (sc_dirtyFields ctx)) SENSITIVE_FORM_FIELDS
      then SensitiveChangeDenied
      else (case checkStatusCodeMapping num_str ctx dialogs data of
         Some outcome \<Rightarrow> outcome
       | None \<Rightarrow>
           if hasModelMapping data then
             (let validation = validateModelMappingJson (or_str (cf_model_mapping data) []) in
              if \<not> mv_valid validation
              then InvalidModelMapping (or_str (mv_error validation) (js ''Invalid model mapping''))
              else completeModels ctx dialogs data)
           else completeModels ctx dialogs data))"

section \<open>Lemmas\<close>

lemma checkStatusCodeMapping_None:
  assumes "cf_status_code_mapping data = Some mapping"
  shows "checkStatusCodeMapping num_str ctx dialogs data = None \<longleftrightarrow>
    list_all (\<lambda>e. \<not> isInvalidEntry e) (statusCodeEntries mapping) \<and>
    (collectNewDisallowedStatusCodeRedirects (sc_initialStatusCodeMapping ctx) mapping = [] \<or>
     sd_confirmStatusCodeRisk dialogs (collectNewDisallowedStatusCodeRedirects (sc_initialStatusCodeMapping ctx) mapping))"
proof (cases "trim mapping = []")
  case True
  then have "statusCodeEntries mapping = []"
    by (simp add: statusCodeEntries_def)
  with assms True show ?thesis
    by (simp add: checkStatusCodeMapping_def collectNew_filter collectDisallowedStatusCodeRedirects_def
        List.map_filter_simps dedup_def js_sort_def)
next
  case False
  show ?thesis
  proof (cases "collectInvalidStatusCodeEntries num_str mapping")
    case (Inl e)
    then have "describeInvalid num_str (statusCodeEntries mapping) \<noteq> Inr []"
      by (simp add: collectInvalidStatusCodeEntries_def)
    with Inl False assms show ?thesis
      by (simp add: checkStatusCodeMapping_def describeInvalid_Nil)
  next
    case (Inr out)
    then have "out = [] \<longleftrightarrow> list_all (\<lambda>e. \<not> isInvalidEntry e) (statusCodeEntries mapping)"
      using describeInvalid_Nil [of num_str "statusCodeEntries mapping"]
      by (simp add: collectInvalidStatusCodeEntries_def)
    with Inr False assms show ?thesis
      by (auto simp: checkStatusCodeMapping_def Let_def)
  qed
qed

lemma completeModels_Mutate:
  "completeModels ctx dialogs data = Mutate d \<Longrightarrow> d = data \<or>
     d = data\<lparr>cf_models := formatModelsArray (dedup (parseModelsString (cf_models data) @
       findMissingModelsInMapping (or_str (cf_model_mapping data) []) (parseModelsString (cf_models data))))\<rparr>"
  by (auto simp: completeModels_def Let_def split: if_splits MissingModelsAction.splits)

lemma onSubmit_Mutate:
  assumes "onSubmit num_str ctx dialogs data = Mutate d"
  shows "\<not> (\<not> sc_isEditing ctx \<and> trim (cf_key data) = [])"
    "\<not> (sensitiveLocked ctx \<and> set SENSITIVE_FORM_FIELDS \<inter> set (sc_dirtyFields ctx) \<noteq> {})"
    "checkStatusCodeMapping num_str ctx dialogs data = None"
    "hasModelMapping data \<Longrightarrow> mv_valid (validateModelMappingJson (or_str (cf_model_mapping data) []))"
    "completeModels ctx dialogs data = Mutate d"
proof -
  have no_outcome: "checkStatusCodeMapping num_str ctx dialogs data \<noteq> Some (Mutate d)"
    by (auto simp: checkStatusCodeMapping_def Let_def split: option.splits sum.splits if_splits)
  show "\<not> (\<not> sc_isEditing ctx \<and> trim (cf_key data) = [])"
    "\<not> (sensitiveLocked ctx \<and> set SENSITIVE_FORM_FIELDS \<inter> set (sc_dirtyFields ctx) \<noteq> {})"
    using assms by (auto simp: onSubmit_def list_ex_iff split: if_splits)
  show none: "checkStatusCodeMapping num_str ctx dialogs data = None"
    using assms no_outcome by (auto simp: onSubmit_def split: if_splits option.splits)
  show "hasModelMapping data \<Longrightarrow> mv_valid (validateModelMappingJson (or_str (cf_model_mapping data) []))"
    "completeModels ctx dialogs data = Mutate d"
    using assms none by (auto simp: onSubmit_def Let_def split: if_splits)
qed

lemma onSubmit_MutateI:
  assumes "sc_isEditing ctx \<or> trim (cf_key data) \<noteq> []"
    "\<not> sensitiveLocked ctx \<or> set SENSITIVE_FORM_FIELDS \<inter> set (sc_dirtyFields ctx) = {}"
    "checkStatusCodeMapping num_str ctx dialogs data = None"
    "hasModelMapping data \<Longrightarrow> mv_valid (validateModelMappingJson (or_str (cf_model_mapping data) []))"
  shows "onSubmit num_str ctx dialogs data = completeModels ctx dialogs data"
  using assms by (auto simp: onSubmit_def Let_def list_ex_iff)

section \<open>Properties\<close>

text \<open>
  C3. What reaches the server: when the handler sends a channel, a new channel has a key; an editor
  without the permission for sensitive settings has touched none of the sensitive fields; every
  entry of the status code mapping is valid, and redirects of gateway timeouts that the channel did
  not have before were confirmed by the user; a model mapping is a JSON object of strings; and of the
  submitted values at most the model list was changed, by adding the missing models.
\<close>

theorem submit_is_guarded:
  assumes "onSubmit num_str ctx dialogs data = Mutate d"
  shows "(sc_isEditing ctx \<or> trim (cf_key data) \<noteq> []) \<and>
    (sc_isEditing ctx \<longrightarrow> \<not> hasPermission (sc_user ctx) (js ''channel'') (js ''sensitive_write'') \<longrightarrow>
      set SENSITIVE_FORM_FIELDS \<inter> set (sc_dirtyFields ctx) = {}) \<and>
    (\<forall>mapping. cf_status_code_mapping data = Some mapping \<longrightarrow>
      list_all (\<lambda>e. \<not> isInvalidEntry e) (statusCodeEntries mapping) \<and>
      (set (collectDisallowedStatusCodeRedirects mapping)
         \<subseteq> set (collectDisallowedStatusCodeRedirects (sc_initialStatusCodeMapping ctx)) \<or>
       sd_confirmStatusCodeRisk dialogs
         (collectNewDisallowedStatusCodeRedirects (sc_initialStatusCodeMapping ctx) mapping))) \<and>
    (\<forall>mapping. cf_model_mapping data = Some mapping \<longrightarrow>
      trim mapping = [] \<or> (\<exists>ps. JSON_parse mapping = Some (JObj ps) \<and> snd ` set ps \<subseteq> range JStr)) \<and>
    (d = data \<or> d = data\<lparr>cf_models := formatModelsArray (dedup (parseModelsString (cf_models data) @
       findMissingModelsInMapping (or_str (cf_model_mapping data) []) (parseModelsString (cf_models data))))\<rparr>)"
proof (intro conjI allI impI)
  note m = onSubmit_Mutate [OF assms]
  show "sc_isEditing ctx \<or> trim (cf_key data) \<noteq> []" using m(1) by blast
  show "set SENSITIVE_FORM_FIELDS \<inter> set (sc_dirtyFields ctx) = {}"
    if "sc_isEditing ctx" "\<not> hasPermission (sc_user ctx) (js ''channel'') (js ''sensitive_write'')"
    using m(2) that by (simp add: sensitiveLocked_def canEditSensitive_def)
  fix mapping assume "cf_status_code_mapping data = Some mapping"
  note ok = m(3) [unfolded checkStatusCodeMapping_None [OF this]]
  then show "list_all (\<lambda>e. \<not> isInvalidEntry e) (statusCodeEntries mapping)" by blast
  show "set (collectDisallowedStatusCodeRedirects mapping)
         \<subseteq> set (collectDisallowedStatusCodeRedirects (sc_initialStatusCodeMapping ctx)) \<or>
       sd_confirmStatusCodeRisk dialogs
         (collectNewDisallowedStatusCodeRedirects (sc_initialStatusCodeMapping ctx) mapping)"
    using ok by (auto simp: collectNew_filter filter_empty_conv)
next
  fix mapping assume mapping: "cf_model_mapping data = Some mapping"
  show "trim mapping = [] \<or> (\<exists>ps. JSON_parse mapping = Some (JObj ps) \<and> snd ` set ps \<subseteq> range JStr)"
  proof (cases "trim mapping = []")
    case False
    then have "mv_valid (validateModelMappingJson mapping)"
      using onSubmit_Mutate(4) [OF assms] mapping
      by (cases "mapping = []") (auto simp: hasModelMapping_def or_str_def)
    then show ?thesis by (simp add: valid_mapping_iff)
  qed simp
next
  show "d = data \<or> d = data\<lparr>cf_models := formatModelsArray (dedup (parseModelsString (cf_models data) @
       findMissingModelsInMapping (or_str (cf_model_mapping data) []) (parseModelsString (cf_models data))))\<rparr>"
    using onSubmit_Mutate(5) [OF assms] by (rule completeModels_Mutate)
qed

definition demo_context :: SubmitContext where
  "demo_context = \<lparr>sc_user = None, sc_isEditing = True, sc_dirtyFields = [js ''models''], sc_initialModels = [],
     sc_initialModelMapping = [], sc_initialStatusCodeMapping = []\<rparr>"

definition demo_dialogs :: SubmitDialogs where
  "demo_dialogs = \<lparr>sd_confirmStatusCodeRisk = (\<lambda>_. False), sd_confirmMissingModelMappings = (\<lambda>_. ActAdd)\<rparr>"

definition demo_form :: ChannelFormValues where
  "demo_form = \<lparr>cf_key = [], cf_models = js ''b'', cf_model_mapping = Some demo_mapping, cf_status_code_mapping = None\<rparr>"

lemma demo_submit:
  "onSubmit (\<lambda>_. []) demo_context demo_dialogs demo_form = Mutate (demo_form\<lparr>cf_models := js ''b,a''\<rparr>)"
  by code_simp

theorem submit_is_guarded_witness:
  "set SENSITIVE_FORM_FIELDS \<inter> set (sc_dirtyFields demo_context) = {} \<and>
    onSubmit (\<lambda>_. []) demo_context demo_dialogs demo_form = Mutate (demo_form\<lparr>cf_models := js ''b,a''\<rparr>)"
proof -
  have "\<not> hasPermission (sc_user demo_context) (js ''channel'') (js ''sensitive_write'')"
    by (simp add: demo_context_def hasPermission_def)
  with submit_is_guarded [OF demo_submit] demo_submit show ?thesis
    by (simp add: demo_context_def)
qed

text \<open>
  C26. The guards block nothing else: a channel with a key (or an edited one), without changes of
  locked fields, with valid status code entries and no new redirect of a gateway timeout, and with a
  valid model mapping whose models are all listed, is sent as it is, without any dialog.
\<close>

theorem clean_submit_goes_through:
  assumes "sc_isEditing ctx \<or> trim (cf_key data) \<noteq> []"
    and "canEditSensitive (sc_user ctx) \<or> set SENSITIVE_FORM_FIELDS \<inter> set (sc_dirtyFields ctx) = {}"
    and "\<And>mapping. cf_status_code_mapping data = Some mapping \<Longrightarrow>
      list_all (\<lambda>e. \<not> isInvalidEntry e) (statusCodeEntries mapping) \<and>
      collectNewDisallowedStatusCodeRedirects (sc_initialStatusCodeMapping ctx) mapping = []"
    and "\<And>mapping. cf_model_mapping data = Some mapping \<Longrightarrow>
      mv_valid (validateModelMappingJson mapping) \<and>
      findMissingModelsInMapping mapping (parseModelsString (cf_models data)) = []"
  shows "onSubmit num_str ctx dialogs data = Mutate data"
proof -
  have "checkStatusCodeMapping num_str ctx dialogs data = None"
  proof (cases "cf_status_code_mapping data")
    case None
    then show ?thesis by (simp add: checkStatusCodeMapping_def)
  next
    case (Some mapping)
    then show ?thesis using assms(3) by (simp add: checkStatusCodeMapping_None)
  qed
  moreover have "completeModels ctx dialogs data = Mutate data"
    using assms(4) by (cases "cf_model_mapping data") (auto simp: completeModels_def or_str_def hasModelMapping_def Let_def)
  moreover have "mv_valid (validateModelMappingJson (or_str (cf_model_mapping data) []))" if "hasModelMapping data"
    using assms(4) that by (cases "cf_model_mapping data") (auto simp: or_str_def hasModelMapping_def)
  ultimately show ?thesis
    using assms(1,2) by (subst onSubmit_MutateI) (auto simp: sensitiveLocked_def)
qed

theorem clean_submit_goes_through_witness:
  "onSubmit (\<lambda>_. []) demo_context demo_dialogs (demo_form\<lparr>cf_model_mapping := None\<rparr>) =
     Mutate (demo_form\<lparr>cf_model_mapping := None\<rparr>)"
  by (rule clean_submit_goes_through) (simp_all add: demo_context_def demo_form_def SENSITIVE_FORM_FIELDS_def js_def)

end
