(* ===== verification/Upstream_Updates.thy ===== *)
theory Upstream_Updates
  imports Model_Mapping
begin

text \<open>
  \<open>features/channels/hooks/use-channel-upstream-updates.ts\<close>: the dialog that applies the models an
  upstream check found, and the four background tasks (apply, apply all, detect, detect all), each
  guarded by a ref against running twice. A call that waits for the server or for \<open>refresh()\<close> is a
  \<^emph>\<open>flight\<close> that keeps what its closure captured; the events of the system interleave user actions
  with answers in any order.
\<close>

section \<open>State\<close>

datatype UpdateTab = TabAdd | TabRemove

datatype UpstreamTask = TApply | TApplyAll | TDetect | TDetectAll

datatype UpstreamRequest =
    PostApply int "jstring list" "jstring list" "jstring list"
  | PostApplyAll
  | PostDetect int
  | PostDetectAll

datatype Toast =
    InfoToast jstring
  | SuccessToast UpstreamTask "json list"
  | ErrorToast json
  | ExceptionToast js_error

record Flight =
  fl_task :: UpstreamTask
  fl_ignoreModels :: "jstring list"
  fl_refreshing :: bool

record UpstreamState =
  us_showModal :: bool
  us_channel :: "int option"
  us_addModels :: "jstring list"
  us_removeModels :: "jstring list"
  us_preferredTab :: UpdateTab
  us_applyLoading :: bool
  us_detectAllLoading :: bool
  us_applyAllLoading :: bool
  us_applyRef :: bool
  us_detectRef :: bool
  us_detectAllRef :: bool
  us_applyAllRef :: bool
  us_flights :: "Flight list"
  us_requests :: "UpstreamRequest list"
  us_toasts :: "Toast list"

definition initialUpstreamState :: UpstreamState where
  "initialUpstreamState = \<lparr>us_showModal = False, us_channel = None, us_addModels = [], us_removeModels = [],
     us_preferredTab = TabAdd, us_applyLoading = False, us_detectAllLoading = False, us_applyAllLoading = False,
     us_applyRef = False, us_detectRef = False, us_detectAllRef = False, us_applyAllRef = False,
     us_flights = [], us_requests = [], us_toasts = []\<rparr>"

text \<open>What comes back: a body, or an error with the texts the handlers look for.\<close>

datatype ServerAnswer = AnswerBody "json option" | AnswerError "jstring option" "jstring option"

section \<open>Operations\<close>

definition toast :: "Toast \<Rightarrow> UpstreamState \<Rightarrow> UpstreamState" where
  "toast t s = s\<lparr>us_toasts := us_toasts s @ [t]\<rparr>"

definition getManualIgnoredModelCount :: "(jnum \<Rightarrow> jstring) \<Rightarrow> json option \<Rightarrow> js_error + nat" where
  "getManualIgnoredModelCount num_str settings =
     (let parsed = (case settings of
          Some (JObj ps) \<Rightarrow> settings
        | Some (JArr vs) \<Rightarrow> settings
        | Some (JStr s) \<Rightarrow> JSON_parse s
        | _ \<Rightarrow> None) in
      if \<not> truthy_opt parsed then Inr 0
      else map_sum id length (normalizeProperty num_str (opt_prop parsed (js ''upstream_model_update_ignored_models''))))"

text \<open>\<open>normalizeModelList\<close> on a list of strings.\<close>

definition normalizeModelNames :: "jstring list \<Rightarrow> jstring list" where
  "normalizeModelNames models = dedup (filter (\<lambda>m. m \<noteq> []) (map trim models))"

definition closeModal :: "UpstreamState \<Rightarrow> UpstreamState" where
  "closeModal s = s\<lparr>us_showModal := False, us_channel := None, us_addModels := [], us_removeModels := [],
     us_preferredTab := TabAdd\<rparr>"

definition openModal :: "int option \<Rightarrow> jstring list \<Rightarrow> jstring list \<Rightarrow> UpdateTab \<Rightarrow> UpstreamState \<Rightarrow> UpstreamState" where
  "openModal channel_id pendingAdd pendingRemove tab s =
     (let normAdd = normalizeModelNames pendingAdd; normRemove = normalizeModelNames pendingRemove in
      if nullish channel_id 0 = 0 \<or> (length normAdd = 0 \<and> length normRemove = 0)
      then toast (InfoToast (js ''No processable upstream model updates for this channel'')) s
      else s\<lparr>us_channel := channel_id, us_addModels := normAdd, us_removeModels := normRemove,
        us_preferredTab := tab, us_showModal := True\<rparr>)"

definition launch :: "UpstreamTask \<Rightarrow> jstring list \<Rightarrow> UpstreamRequest \<Rightarrow> UpstreamState \<Rightarrow> UpstreamState" where
  "launch task ignored req s =
     s\<lparr>us_flights := us_flights s @ [\<lparr>fl_task = task, fl_ignoreModels = ignored, fl_refreshing = False\<rparr>],
       us_requests := us_requests s @ [req]\<rparr>"

definition applyUpdates :: "jstring list \<Rightarrow> jstring list \<Rightarrow> UpstreamState \<Rightarrow> UpstreamState" where
  "applyUpdates selectedAdd selectedRemove s =
     (if us_applyRef s then s
      else if nullish (us_channel s) 0 = 0 then closeModal s
      else (let normSelectedAdd = normalizeModelNames selectedAdd;
                ignoreModels = filter (\<lambda>m. m \<notin> set normSelectedAdd) (us_addModels s) in
        launch TApply ignoreModels
          (PostApply (the (us_channel s)) normSelectedAdd ignoreModels (normalizeModelNames selectedRemove))
          (s\<lparr>us_applyRef := True, us_applyLoading := True\<rparr>)))"

definition applyAllUpdates :: "UpstreamState \<Rightarrow> UpstreamState" where
  "applyAllUpdates s =
     (if us_applyAllRef s then s
      else launch TApplyAll [] PostApplyAll (s\<lparr>us_applyAllRef := True, us_applyAllLoading := True\<rparr>))"

definition detectChannelUpdates :: "int option \<Rightarrow> UpstreamState \<Rightarrow> UpstreamState" where
  "detectChannelUpdates ch s =
     (if us_detectRef s \<or> nullish ch 0 = 0 then s
      else launch TDetect [] (PostDetect (the ch)) (s\<lparr>us_detectRef := True\<rparr>))"

definition detectAllUpdates :: "UpstreamState \<Rightarrow> UpstreamState" where
  "detectAllUpdates s =
     (if us_detectAllRef s then s
      else launch TDetectAll [] PostDetectAll (s\<lparr>us_detectAllRef := True, us_detectAllLoading := True\<rparr>))"

text \<open>The \<open>finally\<close> block of each task.\<close>

definition finallyTask :: "UpstreamTask \<Rightarrow> UpstreamState \<Rightarrow> UpstreamState" where
  "finallyTask task s = (case task of
     TApply \<Rightarrow> s\<lparr>us_applyRef := False, us_applyLoading := False\<rparr>
   | TApplyAll \<Rightarrow> s\<lparr>us_applyAllRef := False, us_applyAllLoading := False\<rparr>
   | TDetect \<Rightarrow> s\<lparr>us_detectRef := False\<rparr>
   | TDetectAll \<Rightarrow> s\<lparr>us_detectAllRef := False, us_detectAllLoading := False\<rparr>)"

definition settleFlight :: "Flight \<Rightarrow> UpstreamState \<Rightarrow> UpstreamState" where
  "settleFlight f s = finallyTask (fl_task f) (s\<lparr>us_flights := remove1 f (us_flights s)\<rparr>)"

definition awaitRefresh :: "Flight \<Rightarrow> UpstreamState \<Rightarrow> UpstreamState" where
  "awaitRefresh f s = s\<lparr>us_flights := remove1 f (us_flights s) @ [f\<lparr>fl_refreshing := True\<rparr>]\<rparr>"

definition failureText :: "UpstreamTask \<Rightarrow> jstring" where
  "failureText task = (case task of
     TApply \<Rightarrow> js ''Operation failed''
   | TApplyAll \<Rightarrow> js ''Batch processing failed''
   | TDetect \<Rightarrow> js ''Detection failed''
   | TDetectAll \<Rightarrow> js ''Batch detection failed'')"

abbreviation prop_length :: "json option \<Rightarrow> string \<Rightarrow> json" where
  "prop_length data k \<equiv> or_json (opt_prop (opt_prop data (js k)) (js ''length'')) (JNum 0)"

text \<open>
  What a successful answer does before \<open>refresh()\<close>, from its \<open>data\<close>. The message is the task with
  the numbers it shows; \<open>(failed_channel_ids || []).length\<close> of a value without a \<open>length\<close> is
  \<open>undefined\<close>, here \<open>JNull\<close>. Only the first can throw.
\<close>

definition applySuccess :: "(jnum \<Rightarrow> jstring) \<Rightarrow> jstring list \<Rightarrow> json option \<Rightarrow> UpstreamState \<Rightarrow> js_error + UpstreamState" where
  "applySuccess num_str ignoreModels data s =
     map_sum id
       (\<lambda>totalIgnored. closeModal (toast (SuccessToast TApply
          [prop_length data ''added_models'', prop_length data ''removed_models'',
           JNum (of_nat (length (normalizeModelNames ignoreModels))), JNum (of_nat totalIgnored)]) s))
       (getManualIgnoredModelCount num_str (opt_prop data (js ''settings'')))"

definition applyAllSuccess :: "json option \<Rightarrow> UpstreamState \<Rightarrow> UpstreamState" where
  "applyAllSuccess data s = toast (SuccessToast TApplyAll
     [or_json (opt_prop data (js ''processed_channels'')) (JNum 0), or_json (opt_prop data (js ''added_models'')) (JNum 0),
      or_json (opt_prop data (js ''removed_models'')) (JNum 0),
      nullish (js_prop (or_json (opt_prop data (js ''failed_channel_ids'')) (JArr [])) (js ''length'')) JNull]) s"

definition detectSuccess :: "json option \<Rightarrow> UpstreamState \<Rightarrow> UpstreamState" where
  "detectSuccess data s =
     toast (SuccessToast TDetect [prop_length data ''add_models'', prop_length data ''remove_models'']) s"

definition detectAllSuccess :: "UpstreamState \<Rightarrow> UpstreamState" where
  "detectAllSuccess s = toast (SuccessToast TDetectAll []) s"

definition taskSuccess :: "(jnum \<Rightarrow> jstring) \<Rightarrow> Flight \<Rightarrow> json option \<Rightarrow> UpstreamState \<Rightarrow> js_error + UpstreamState" where
  "taskSuccess num_str f data s = (case fl_task f of
     TApply \<Rightarrow> applySuccess num_str (fl_ignoreModels f) data s
   | TApplyAll \<Rightarrow> Inr (applyAllSuccess data s)
   | TDetect \<Rightarrow> Inr (detectSuccess data s)
   | TDetectAll \<Rightarrow> Inr (detectAllSuccess s))"

text \<open>The rest of each task after \<open>await api.post(...)\<close>.\<close>

definition answered :: "(jnum \<Rightarrow> jstring) \<Rightarrow> Flight \<Rightarrow> ServerAnswer \<Rightarrow> UpstreamState \<Rightarrow> UpstreamState" where
  "answered num_str f answer s = (case answer of
     AnswerError response_message message \<Rightarrow>
       settleFlight f (toast (ErrorToast (JStr (or_str response_message (or_str message (failureText (fl_task f)))))) s)
   | AnswerBody body \<Rightarrow>
       (let body' = (if truthy_opt body then body else Some (JObj [])) in
        if \<not> truthy_opt (opt_prop body' (js ''success''))
        then settleFlight f (toast (ErrorToast (or_json (opt_prop body' (js ''message'')) (JStr (failureText (fl_task f))))) s)
        else (case taskSuccess num_str f (opt_prop body' (js ''data'')) s of
           Inl e \<Rightarrow> settleFlight f (toast (ExceptionToast e) s)
         | Inr s' \<Rightarrow> awaitRefresh f s')))"

text \<open>\<open>refresh()\<close> returns, or throws: both end in the \<open>finally\<close> block.\<close>

definition refreshed :: "Flight \<Rightarrow> (jstring option \<times> jstring option) option \<Rightarrow> UpstreamState \<Rightarrow> UpstreamState" where
  "refreshed f failure s = (case failure of
     None \<Rightarrow> settleFlight f s
   | Some (response_message, message) \<Rightarrow>
       settleFlight f (toast (ErrorToast (JStr (or_str response_message (or_str message (failureText (fl_task f)))))) s))"

section \<open>Events\<close>

datatype UpstreamEvent =
    EOpen "int option" "jstring list" "jstring list" UpdateTab
  | EClose
  | EApply "jstring list" "jstring list"
  | EApplyAll
  | EDetect "int option"
  | EDetectAll
  | EAnswer Flight ServerAnswer
  | ERefreshed Flight "(jstring option \<times> jstring option) option"

inductive upstream_step :: "(jnum \<Rightarrow> jstring) \<Rightarrow> UpstreamState \<Rightarrow> UpstreamEvent \<Rightarrow> UpstreamState \<Rightarrow> bool"
  for num_str :: "jnum \<Rightarrow> jstring" where
  up_open: "upstream_step num_str s (EOpen c a r t) (openModal c a r t s)"
| up_close: "upstream_step num_str s EClose (closeModal s)"
| up_apply: "upstream_step num_str s (EApply a r) (applyUpdates a r s)"
| up_apply_all: "upstream_step num_str s EApplyAll (applyAllUpdates s)"
| up_detect: "upstream_step num_str s (EDetect c) (detectChannelUpdates c s)"
| up_detect_all: "upstream_step num_str s EDetectAll (detectAllUpdates s)"
| up_answer: "f \<in> set (us_flights s) \<Longrightarrow> \<not> fl_refreshing f \<Longrightarrow>
    upstream_step num_str s (EAnswer f answer) (answered num_str f answer s)"
| up_refreshed: "f \<in> set (us_flights s) \<Longrightarrow> fl_refreshing f \<Longrightarrow>
    upstream_step num_str s (ERefreshed f failure) (refreshed f failure s)"

inductive_cases upstream_stepE: "upstream_step num_str s e s'"

abbreviation upstream_reachable :: "(jnum \<Rightarrow> jstring) \<Rightarrow> UpstreamState \<Rightarrow> bool" where
  "upstream_reachable num_str \<equiv> reachable (\<lambda>s. s = initialUpstreamState) (upstream_step num_str)"

section \<open>The invariant\<close>

definition busy :: "UpstreamTask \<Rightarrow> UpstreamState \<Rightarrow> bool" where
  "busy task s = (case task of TApply \<Rightarrow> us_applyRef s | TApplyAll \<Rightarrow> us_applyAllRef s | TDetect \<Rightarrow> us_detectRef s
     | TDetectAll \<Rightarrow> us_detectAllRef s)"

definition flights_ok :: "UpstreamState \<Rightarrow> bool" where
  "flights_ok s \<longleftrightarrow> distinct (map fl_task (us_flights s)) \<and> (\<forall>task. busy task s \<longleftrightarrow> task \<in> fl_task ` set (us_flights s))"

definition loading_ok :: "UpstreamState \<Rightarrow> bool" where
  "loading_ok s \<longleftrightarrow> us_applyLoading s = us_applyRef s \<and> us_applyAllLoading s = us_applyAllRef s \<and>
     us_detectAllLoading s = us_detectAllRef s"

definition namesOk :: "jstring list \<Rightarrow> bool" where
  "namesOk ms \<longleftrightarrow> distinct ms \<and> list_all (\<lambda>m. m \<noteq> [] \<and> trim m = m) ms"

definition modal_ok :: "UpstreamState \<Rightarrow> bool" where
  "modal_ok s \<longleftrightarrow> (us_showModal s \<longleftrightarrow> us_channel s \<noteq> None) \<and> us_channel s \<noteq> Some 0 \<and>
     namesOk (us_addModels s) \<and> namesOk (us_removeModels s) \<and>
     (us_showModal s \<longleftrightarrow> us_addModels s \<noteq> [] \<or> us_removeModels s \<noteq> [])"

definition upstream_inv :: "UpstreamState \<Rightarrow> bool" where
  "upstream_inv s \<longleftrightarrow> flights_ok s \<and> loading_ok s \<and> modal_ok s"

lemma normalizeModelNames_ok [simp]: "namesOk (normalizeModelNames ms)"
  by (auto simp: namesOk_def normalizeModelNames_def list_all_iff)

lemma normalizeModelList_strings: "normalizeModelList num_str (map JStr ms) = Inr (normalizeModelNames ms)"
proof -
  have "modelTexts num_str (map JStr ms) = Inr (map trim ms)"
    by (induction ms) (auto simp: modelText_def)
  then show ?thesis by (simp add: normalizeModelList_def normalizeModelNames_def)
qed

lemma launch_frame [simp, frame]:
  "busy t (launch task ign req s) = busy t s" "loading_ok (launch task ign req s) = loading_ok s"
  "modal_ok (launch task ign req s) = modal_ok s"
  "us_flights (launch task ign req s) = us_flights s @ [\<lparr>fl_task = task, fl_ignoreModels = ign, fl_refreshing = False\<rparr>]"
  by (simp_all add: launch_def busy_def loading_ok_def modal_ok_def cong: UpstreamTask.case_cong)

lemma launch_inv:
  assumes "upstream_inv s" "\<not> busy task s"
    and "us_flights s0 = us_flights s" "\<And>t. busy t s0 \<longleftrightarrow> busy t s \<or> t = task" "loading_ok s0" "modal_ok s0"
  shows "upstream_inv (launch task ign req s0)"
proof -
  have "flights_ok (launch task ign req s0)"
    using assms(1,2) unfolding upstream_inv_def flights_ok_def
    by (simp add: assms(3,4)) blast
  with assms(5,6) show ?thesis by (simp add: upstream_inv_def)
qed

lemma settle_inv:
  assumes "upstream_inv s" "f \<in> set (us_flights s)"
  shows "upstream_inv (settleFlight f s)"
proof -
  have d: "distinct (map fl_task (us_flights s))"
    using assms(1) by (simp add: upstream_inv_def flights_ok_def)
  have "fl_task ` set (remove1 f (us_flights s)) = fl_task ` set (us_flights s) - {fl_task f}"
    using d assms(2) by (auto simp: distinct_map inj_on_def set_remove1_eq)
  moreover have "distinct (map fl_task (remove1 f (us_flights s)))"
    using d by (auto simp: distinct_map inj_on_def dest: notin_set_remove1)
  moreover have "busy t (settleFlight f s) \<longleftrightarrow> busy t s \<and> t \<noteq> fl_task f" for t
    by (cases t; cases "fl_task f") (simp_all add: settleFlight_def finallyTask_def busy_def)
  moreover have "us_flights (settleFlight f s) = remove1 f (us_flights s)"
    by (simp add: settleFlight_def finallyTask_def split: UpstreamTask.split)
  moreover have "loading_ok (settleFlight f s)" "modal_ok (settleFlight f s)"
    using assms(1) by (auto simp: upstream_inv_def loading_ok_def modal_ok_def settleFlight_def finallyTask_def
        split: UpstreamTask.split)
  ultimately show ?thesis
    using assms(1) by (auto simp: upstream_inv_def flights_ok_def)
qed

lemma awaitRefresh_inv:
  assumes "upstream_inv s" "f \<in> set (us_flights s)"
  shows "upstream_inv (awaitRefresh f s)"
proof -
  have d: "distinct (map fl_task (us_flights s))"
    using assms(1) by (simp add: upstream_inv_def flights_ok_def)
  have set: "fl_task ` set (us_flights (awaitRefresh f s)) = fl_task ` set (us_flights s)"
    using d assms(2) by (auto simp: awaitRefresh_def distinct_map inj_on_def set_remove1_eq)
  have "distinct (map fl_task (us_flights (awaitRefresh f s)))"
    using d assms(2) by (auto simp: awaitRefresh_def distinct_map inj_on_def set_remove1_eq)
  with set show ?thesis
    using assms(1) by (auto simp: upstream_inv_def flights_ok_def loading_ok_def modal_ok_def awaitRefresh_def busy_def
        split: UpstreamTask.splits)
qed

lemma toast_inv [simp]: "upstream_inv (toast t s) = upstream_inv s"
  by (simp add: upstream_inv_def flights_ok_def loading_ok_def modal_ok_def busy_def toast_def cong: UpstreamTask.case_cong)

lemma closeModal_inv: "upstream_inv s \<Longrightarrow> upstream_inv (closeModal s)"
  by (simp add: upstream_inv_def flights_ok_def loading_ok_def modal_ok_def busy_def closeModal_def namesOk_def
      cong: UpstreamTask.case_cong)

lemma flights_frame [simp, frame]:
  "us_flights (toast t s) = us_flights s" "us_flights (closeModal s) = us_flights s"
  by (simp_all add: toast_def closeModal_def)

lemma taskSuccess_frame:
  "taskSuccess num_str f data s = Inr s' \<Longrightarrow> upstream_inv s \<Longrightarrow> upstream_inv s' \<and> us_flights s' = us_flights s"
  by (cases "fl_task f"; cases "getManualIgnoredModelCount num_str (opt_prop data (js ''settings''))")
    (auto simp: taskSuccess_def applySuccess_def applyAllSuccess_def detectSuccess_def detectAllSuccess_def closeModal_inv)

lemma answered_inv:
  assumes "upstream_inv s" "f \<in> set (us_flights s)"
  shows "upstream_inv (answered num_str f answer s)"
  using assms
  by (auto simp: answered_def Let_def settle_inv awaitRefresh_inv dest: taskSuccess_frame split: ServerAnswer.split sum.split)

lemma openModal_inv:
  assumes "upstream_inv s"
  shows "upstream_inv (openModal c a r t s)"
proof (cases "nullish c 0 = 0 \<or> (normalizeModelNames a = [] \<and> normalizeModelNames r = [])")
  case True
  with assms show ?thesis by (simp add: openModal_def)
next
  case False
  let ?s = "s\<lparr>us_channel := c, us_addModels := normalizeModelNames a, us_removeModels := normalizeModelNames r,
    us_preferredTab := t, us_showModal := True\<rparr>"
  have "flights_ok ?s" "loading_ok ?s"
    using assms by (simp_all add: upstream_inv_def flights_ok_def loading_ok_def busy_def cong: UpstreamTask.case_cong)
  moreover have "modal_ok ?s"
    using False by (cases c) (auto simp: modal_ok_def)
  moreover have "openModal c a r t s = ?s"
    using False by (auto simp: openModal_def)
  ultimately show ?thesis
    by (simp add: upstream_inv_def)
qed

lemma inv_parts:
  "upstream_inv s \<Longrightarrow> us_applyLoading s = us_applyRef s \<and> us_applyAllLoading s = us_applyAllRef s \<and>
     us_detectAllLoading s = us_detectAllRef s \<and> modal_ok s"
  by (simp add: upstream_inv_def loading_ok_def)

lemma launch_task_inv:
  assumes "upstream_inv s"
  shows "\<not> us_applyRef s \<Longrightarrow> upstream_inv (launch TApply i q (s\<lparr>us_applyRef := True, us_applyLoading := True\<rparr>))"
    "\<not> us_applyAllRef s \<Longrightarrow> upstream_inv (launch TApplyAll i q (s\<lparr>us_applyAllRef := True, us_applyAllLoading := True\<rparr>))"
    "\<not> us_detectRef s \<Longrightarrow> upstream_inv (launch TDetect i q (s\<lparr>us_detectRef := True\<rparr>))"
    "\<not> us_detectAllRef s \<Longrightarrow> upstream_inv (launch TDetectAll i q (s\<lparr>us_detectAllRef := True, us_detectAllLoading := True\<rparr>))"
  by (rule launch_inv [OF assms]; use assms in
      \<open>auto simp: busy_def loading_ok_def modal_ok_def dest!: inv_parts split: UpstreamTask.splits\<close>)+

lemma upstream_step_inv:
  assumes "upstream_step num_str s e s'" "upstream_inv s"
  shows "upstream_inv s'"
  using assms
proof cases
  case (up_apply a r)
  then show ?thesis
    using assms(2) by (auto simp: applyUpdates_def Let_def closeModal_inv launch_task_inv)
next
  case up_apply_all
  then show ?thesis
    using assms(2) by (auto simp: applyAllUpdates_def launch_task_inv)
next
  case (up_detect c)
  then show ?thesis
    using assms(2) by (auto simp: detectChannelUpdates_def launch_task_inv)
next
  case up_detect_all
  then show ?thesis
    using assms(2) by (auto simp: detectAllUpdates_def launch_task_inv)
qed (auto simp: openModal_inv closeModal_inv answered_inv refreshed_def settle_inv split: option.splits)

interpretation upstream: invariant_system "\<lambda>s. s = initialUpstreamState" "upstream_step num_str" upstream_inv for num_str
proof
  show "s = initialUpstreamState \<Longrightarrow> upstream_inv s" for s
    by (simp add: upstream_inv_def flights_ok_def loading_ok_def modal_ok_def busy_def initialUpstreamState_def namesOk_def
        split: UpstreamTask.split)
qed (rule upstream_step_inv)

lemma settle_not_busy: "\<not> busy (fl_task f) (settleFlight f s)"
  by (cases "fl_task f") (simp_all add: settleFlight_def finallyTask_def busy_def)

lemma answered_cases:
  "(\<exists>s1. answered num_str f answer s = settleFlight f s1) \<or>
   f\<lparr>fl_refreshing := True\<rparr> \<in> set (us_flights (answered num_str f answer s))"
  by (auto simp: answered_def Let_def awaitRefresh_def split: ServerAnswer.split sum.split)

lemma remove1_not_member: "distinct xs \<Longrightarrow> x \<notin> set (remove1 x xs)"
  by (induction xs) auto

definition demo_open :: UpstreamState where
  "demo_open = openModal (Some 7) [js ''a'', js ''b'', js '' a''] [] TabAdd initialUpstreamState"

definition demo_applied :: UpstreamState where
  "demo_applied = applyUpdates [js ''b''] [] demo_open"

definition demo_flight :: Flight where
  "demo_flight = \<lparr>fl_task = TApply, fl_ignoreModels = [js ''a''], fl_refreshing = False\<rparr>"

lemma demo_open_eval:
  "us_showModal demo_open" "us_channel demo_open = Some 7" "us_addModels demo_open = [js ''a'', js ''b'']"
  "\<not> us_applyRef demo_open" "us_requests demo_open = []" "us_flights demo_open = []"
  by code_simp+

lemma demo_applied_eval:
  "us_flights demo_applied = [demo_flight]"
  "us_requests demo_applied = [PostApply 7 [js ''b''] [js ''a''] []]"
  by code_simp+

lemma demo_upstream_reachable:
  "upstream_reachable num_str demo_open" "upstream_reachable num_str demo_applied"
proof -
  have start: "upstream_reachable num_str initialUpstreamState"
    by (rule reach_start) simp
  show opened: "upstream_reachable num_str demo_open"
    unfolding demo_open_def by (rule reach_step [OF start up_open])
  show "upstream_reachable num_str demo_applied"
    unfolding demo_applied_def by (rule reach_step [OF opened up_apply])
qed

section \<open>Properties\<close>

text \<open>
  C6. No task runs twice and no spinner stays: in every reachable state at most one call of each of
  the four tasks waits for the server, its ref is set exactly while it does, and the three loading
  flags are on exactly while their task runs.
\<close>

theorem upstream_tasks_exclusive:
  assumes "upstream_reachable num_str s"
  shows "distinct (map fl_task (us_flights s)) \<and>
    (us_applyRef s \<longleftrightarrow> TApply \<in> fl_task ` set (us_flights s)) \<and>
    (us_applyAllRef s \<longleftrightarrow> TApplyAll \<in> fl_task ` set (us_flights s)) \<and>
    (us_detectRef s \<longleftrightarrow> TDetect \<in> fl_task ` set (us_flights s)) \<and>
    (us_detectAllRef s \<longleftrightarrow> TDetectAll \<in> fl_task ` set (us_flights s)) \<and>
    us_applyLoading s = us_applyRef s \<and> us_applyAllLoading s = us_applyAllRef s \<and>
    us_detectAllLoading s = us_detectAllRef s"
proof -
  have inv: "upstream_inv s" by (rule upstream.reachable_inv [OF assms])
  then have "distinct (map fl_task (us_flights s))" and b: "busy t s \<longleftrightarrow> t \<in> fl_task ` set (us_flights s)" for t
    by (simp_all add: upstream_inv_def flights_ok_def)
  with inv_parts [OF inv] b [of TApply] b [of TApplyAll] b [of TDetect] b [of TDetectAll] show ?thesis
    by (simp add: busy_def)
qed

theorem upstream_tasks_exclusive_witness: "us_applyRef demo_applied \<and> us_applyLoading demo_applied"
  using upstream_tasks_exclusive [OF demo_upstream_reachable(2)] by (simp add: demo_applied_eval demo_flight_def)

text \<open>
  C21. Every background task ends: whatever the server answers (a body, a refusal, an error) and
  whether or not the refresh that may follow fails, after the answer and the refresh the task is
  no longer marked as running and its call is gone, so that it can be started again.
\<close>

theorem upstream_tasks_end:
  assumes "upstream_reachable num_str s" "f \<in> set (us_flights s)" "\<not> fl_refreshing f"
    and "s1 = answered num_str f answer s"
    and "s2 = (if f\<lparr>fl_refreshing := True\<rparr> \<in> set (us_flights s1) then refreshed (f\<lparr>fl_refreshing := True\<rparr>) failure s1 else s1)"
  shows "upstream_reachable num_str s2 \<and> \<not> busy (fl_task f) s2 \<and> fl_task f \<notin> fl_task ` set (us_flights s2)"
proof -
  have r1: "upstream_reachable num_str s1"
    unfolding assms(4) by (rule reach_step [OF assms(1) up_answer [OF assms(2,3)]])
  have "upstream_reachable num_str s2 \<and> \<not> busy (fl_task f) s2"
  proof (cases "f\<lparr>fl_refreshing := True\<rparr> \<in> set (us_flights s1)")
    case True
    then have s2: "s2 = refreshed (f\<lparr>fl_refreshing := True\<rparr>) failure s1"
      by (simp add: assms(5))
    have "upstream_reachable num_str s2"
      unfolding s2 by (rule reach_step [OF r1 up_refreshed [OF True]]) simp
    moreover have "\<not> busy (fl_task f) s2"
      using settle_not_busy [of "f\<lparr>fl_refreshing := True\<rparr>"] by (auto simp: s2 refreshed_def split: option.split)
    ultimately show ?thesis ..
  next
    case False
    then obtain s0 where "s1 = settleFlight f s0" "s2 = s1"
      using answered_cases [of num_str f answer s] by (auto simp: assms(4,5))
    with r1 show ?thesis by (simp add: settle_not_busy)
  qed
  moreover from this have "upstream_inv s2"
    using upstream.reachable_inv by blast
  ultimately show ?thesis
    by (simp add: upstream_inv_def flights_ok_def)
qed

theorem upstream_tasks_end_witness:
  "\<not> busy TApply (answered (\<lambda>_. []) demo_flight (AnswerError None (Some (js ''down''))) demo_applied)"
proof -
  let ?s1 = "answered (\<lambda>_. []) demo_flight (AnswerError None (Some (js ''down''))) demo_applied"
  have "us_flights ?s1 = []"
    by (simp add: answered_def settleFlight_def finallyTask_def demo_applied_eval demo_flight_def)
  then show ?thesis
    using upstream_tasks_end [OF demo_upstream_reachable(2), of demo_flight ?s1 "\<lambda>_. []" "AnswerError None (Some (js ''down''))" ?s1]
    by (simp add: demo_applied_eval demo_flight_def)
qed

text \<open>
  What applying sends: with the dialog open and no apply running, one request goes out for the
  dialog's channel; the models to add and those to ignore are normalized and disjoint, and when only
  offered models are selected they are together exactly the offered ones.
\<close>

theorem apply_request_partitions:
  assumes "upstream_reachable num_str s" "us_showModal s" "\<not> us_applyRef s"
    and "set (normalizeModelNames selected) \<subseteq> set (us_addModels s)"
  shows "\<exists>c add ignore. us_channel s = Some c \<and>
    us_requests (applyUpdates selected removed s) = us_requests s @ [PostApply c add ignore (normalizeModelNames removed)] \<and>
    add = normalizeModelNames selected \<and> distinct (add @ ignore) \<and> set (add @ ignore) = set (us_addModels s)"
proof -
  have "modal_ok s"
    using upstream.reachable_inv [OF assms(1)] by (simp add: upstream_inv_def)
  with assms(2) obtain c where c: "us_channel s = Some c" "c \<noteq> 0" and names: "namesOk (us_addModels s)"
    by (auto simp: modal_ok_def)
  have "distinct (normalizeModelNames selected)"
    using normalizeModelNames_ok [of selected] by (simp add: namesOk_def)
  with names c assms(3,4) show ?thesis
    by (auto simp: applyUpdates_def launch_def Let_def namesOk_def)
qed

theorem apply_request_partitions_witness:
  "\<exists>c add ignore. us_channel demo_open = Some c \<and>
    us_requests (applyUpdates [js ''b''] [] demo_open) = [PostApply c add ignore []] \<and>
    set (add @ ignore) = {js ''a'', js ''b''}"
proof -
  have "set (normalizeModelNames [js ''b'']) \<subseteq> set (us_addModels demo_open)" "normalizeModelNames [] = []"
    by code_simp+
  with apply_request_partitions [OF demo_upstream_reachable(1) demo_open_eval(1,4), of "[js ''b'']" "[]"] show ?thesis
    by (auto simp: demo_open_eval)
qed

text \<open>
  A late success of one channel closes the dialog that was opened for another one meanwhile: the
  handler calls \<open>closeModal()\<close> without looking at the channel the dialog shows.
\<close>

theorem late_apply_closes_other_modal:
  assumes "us_flights s = [f]" "fl_task f = TApply" "s1 = openModal (Some other) adds removes tab (closeModal s)"
    and "us_showModal s1"
    and "opt_prop body (js ''success'') = Some (JBool True)" "opt_prop body (js ''data'') = None"
  shows "us_channel s1 = Some other \<and> \<not> us_showModal (answered num_str f (AnswerBody body) s1)"
proof -
  have "us_channel s1 = Some other"
    using assms(3,4) by (auto simp: openModal_def closeModal_def toast_def Let_def split: if_splits)
  moreover have "truthy_opt body"
    using assms(5) by (cases body; cases "the body") (auto simp: opt_prop_def truthy_opt_def index_key_def split: if_splits)
  moreover have "getManualIgnoredModelCount num_str (opt_prop None k) = Inr 0" for k
    by (simp add: getManualIgnoredModelCount_def opt_prop_def truthy_opt_def)
  ultimately show ?thesis
    using assms(2,5,6)
    by (simp add: answered_def taskSuccess_def applySuccess_def truthy_opt_def [of "Some (JBool True)"] awaitRefresh_def closeModal_def toast_def)
qed

end
