(* ===== verification/Nav_Modules.thy ===== *)
theory Nav_Modules
  imports JS_Collections
begin

text \<open>
  \<open>lib/nav-modules.ts\<close>: which modules of the site are switched on and which need a login, read from
  the status object of the server, fresh or from the copy in local storage. The stored item
  \<open>status\<close> is passed and returned; \<open>JSON.stringify\<close> and the decimal notation of numbers are parameters.
\<close>

section \<open>The code\<close>

record ModuleAccess =
  ma_enabled :: bool
  ma_requireAuth :: bool

datatype HeaderNavModule = ModRankings | ModPricing

datatype NavEntry = NBool bool | NAccess ModuleAccess

type_synonym HeaderNavModules = "(jstring \<times> NavEntry) list"

abbreviation pricing_key :: jstring where "pricing_key \<equiv> js ''pricing''"
abbreviation rankings_key :: jstring where "rankings_key \<equiv> js ''rankings''"

definition DEFAULT_MODULE_ACCESS :: ModuleAccess where
  "DEFAULT_MODULE_ACCESS = \<lparr>ma_enabled = True, ma_requireAuth = False\<rparr>"

definition DEFAULT_HEADER_NAV_MODULES :: HeaderNavModules where
  "DEFAULT_HEADER_NAV_MODULES = [(js ''home'', NBool True), (js ''console'', NBool True),
     (pricing_key, NAccess DEFAULT_MODULE_ACCESS), (rankings_key, NAccess DEFAULT_MODULE_ACCESS),
     (js ''docs'', NBool True), (js ''about'', NBool True)]"

definition NAV_DEFAULTS :: "HeaderNavModule \<Rightarrow> ModuleAccess" where
  "NAV_DEFAULTS navModule = DEFAULT_MODULE_ACCESS"

definition parseHeaderNavBoolean :: "json option \<Rightarrow> bool \<Rightarrow> bool" where
  "parseHeaderNavBoolean raw fallback = (case raw of
     Some (JBool b) \<Rightarrow> b
   | Some (JNum n) \<Rightarrow> if n = 1 then True else if n = 0 then False else fallback
   | Some (JStr s) \<Rightarrow>
       (let normalized = ascii_lower (trim s) in
        if normalized = js ''true'' \<or> normalized = js ''1'' then True
        else if normalized = js ''false'' \<or> normalized = js ''0'' then False else fallback)
   | _ \<Rightarrow> fallback)"

definition parseAccess :: "json \<Rightarrow> ModuleAccess \<Rightarrow> ModuleAccess" where
  "parseAccess raw fallback = (case raw of
     JNull \<Rightarrow> fallback
   | JObj _ \<Rightarrow> \<lparr>ma_enabled = parseHeaderNavBoolean (js_prop raw (js ''enabled'')) (ma_enabled fallback),
       ma_requireAuth = parseHeaderNavBoolean (js_prop raw (js ''requireAuth'')) (ma_requireAuth fallback)\<rparr>
   | JArr _ \<Rightarrow> \<lparr>ma_enabled = parseHeaderNavBoolean (js_prop raw (js ''enabled'')) (ma_enabled fallback),
       ma_requireAuth = parseHeaderNavBoolean (js_prop raw (js ''requireAuth'')) (ma_requireAuth fallback)\<rparr>
   | _ \<Rightarrow> \<lparr>ma_enabled = parseHeaderNavBoolean (Some raw) (ma_enabled fallback), ma_requireAuth = ma_requireAuth fallback\<rparr>)"

definition object_or_array :: "json \<Rightarrow> bool" where
  "object_or_array v = (case v of JObj _ \<Rightarrow> True | JArr _ \<Rightarrow> True | _ \<Rightarrow> False)"

definition parseHeaderNavRecord :: "(jnum \<Rightarrow> jstring) \<Rightarrow> json option \<Rightarrow> js_error + json option" where
  "parseHeaderNavRecord num_str raw =
     (if \<not> truthy_opt raw then Inr None
      else case to_string num_str (the raw) of
        Inl e \<Rightarrow> Inl e
      | Inr text \<Rightarrow>
          if trim text = [] then Inr None
          else if object_or_array (the raw) then Inr raw
          else Inr (JSON_parse text))"

text \<open>\<open>Object.entries\<close> of any value but \<open>null\<close>.\<close>

definition js_entries :: "json \<Rightarrow> (jstring \<times> json) list" where
  "js_entries v = (case v of
     JObj ps \<Rightarrow> ps
   | JArr vs \<Rightarrow> zip (map nat_str [0..<length vs]) vs
   | JStr s \<Rightarrow> zip (map nat_str [0..<length s]) (map (\<lambda>c. JStr [c]) s)
   | _ \<Rightarrow> [])"

definition accessOf :: "HeaderNavModules \<Rightarrow> jstring \<Rightarrow> ModuleAccess" where
  "accessOf result key = (case map_of result key of Some (NAccess a) \<Rightarrow> a | _ \<Rightarrow> DEFAULT_MODULE_ACCESS)"

definition is_primitive :: "json \<Rightarrow> bool" where
  "is_primitive v = (case v of JBool _ \<Rightarrow> True | JNum _ \<Rightarrow> True | JStr _ \<Rightarrow> True | _ \<Rightarrow> False)"

text \<open>Assigning a boolean to \<open>result['__proto__']\<close> has no effect.\<close>

definition navStep :: "HeaderNavModules \<Rightarrow> jstring \<times> json \<Rightarrow> HeaderNavModules" where
  "navStep result e = (let key = fst e; v = snd e in
     if key = pricing_key then obj_put pricing_key (NAccess (parseAccess v (accessOf result pricing_key))) result
     else if key = rankings_key then obj_put rankings_key (NAccess (parseAccess v (accessOf result rankings_key))) result
     else (case map_of result key of
        Some (NBool fallback) \<Rightarrow> obj_put key (NBool (parseHeaderNavBoolean (Some v) fallback)) result
      | _ \<Rightarrow>
          if is_primitive v \<and> key \<noteq> js ''__proto__''
          then obj_put key (NBool (parseHeaderNavBoolean (Some v) True)) result else result))"

definition parseHeaderNavModules :: "(jnum \<Rightarrow> jstring) \<Rightarrow> json option \<Rightarrow> js_error + HeaderNavModules" where
  "parseHeaderNavModules num_str raw = (case parseHeaderNavRecord num_str raw of
     Inl e \<Rightarrow> Inl e
   | Inr parsed \<Rightarrow>
       if \<not> truthy_opt parsed then Inr DEFAULT_HEADER_NAV_MODULES
       else Inr (foldl navStep DEFAULT_HEADER_NAV_MODULES (js_entries (the parsed))))"

definition parseHeaderNavModulesFromStatus :: "(jnum \<Rightarrow> jstring) \<Rightarrow> json option \<Rightarrow> js_error + HeaderNavModules" where
  "parseHeaderNavModulesFromStatus num_str status =
     parseHeaderNavModules num_str (opt_prop status (js ''HeaderNavModules''))"

definition getCachedStatus :: "jstring option \<Rightarrow> json option" where
  "getCachedStatus item = (case item of
     None \<Rightarrow> None
   | Some raw \<Rightarrow> if raw = [] then None else JSON_parse raw)"

text \<open>\<open>setItem\<close> may throw (a full or forbidden storage), which is ignored.\<close>

definition cacheStatus :: "(json \<Rightarrow> jstring) \<Rightarrow> bool \<Rightarrow> json option \<Rightarrow> jstring option \<Rightarrow> jstring option" where
  "cacheStatus stringify writable status item =
     (if truthy_opt status \<and> writable then Some (stringify (the status)) else item)"

definition moduleKey :: "HeaderNavModule \<Rightarrow> jstring" where
  "moduleKey navModule = (case navModule of ModRankings \<Rightarrow> rankings_key | ModPricing \<Rightarrow> pricing_key)"

definition getModuleAccessFromStatus :: "(jnum \<Rightarrow> jstring) \<Rightarrow> json option \<Rightarrow> HeaderNavModule \<Rightarrow> js_error + ModuleAccess" where
  "getModuleAccessFromStatus num_str status navModule =
     map_sum id (\<lambda>modules. case map_of modules (moduleKey navModule) of
         Some (NAccess a) \<Rightarrow> a
       | _ \<Rightarrow> NAV_DEFAULTS navModule) (parseHeaderNavModulesFromStatus num_str status)"

definition getModuleAccess :: "(jnum \<Rightarrow> jstring) \<Rightarrow> jstring option \<Rightarrow> HeaderNavModule \<Rightarrow> js_error + ModuleAccess" where
  "getModuleAccess num_str item navModule = getModuleAccessFromStatus num_str (getCachedStatus item) navModule"

text \<open>The answer of \<open>getStatus()\<close> is \<open>None\<close> when the request fails.\<close>

definition getFreshModuleAccess ::
  "(jnum \<Rightarrow> jstring) \<Rightarrow> (json \<Rightarrow> jstring) \<Rightarrow> bool \<Rightarrow> json option option \<Rightarrow> HeaderNavModule \<Rightarrow> jstring option
    \<Rightarrow> ModuleAccess \<times> jstring option" where
  "getFreshModuleAccess num_str stringify writable answer navModule item =
     (let closed = \<lparr>ma_enabled = False, ma_requireAuth = True\<rparr> in
      case answer of
        None \<Rightarrow> (closed, item)
      | Some status \<Rightarrow>
          (case_sum (\<lambda>_. closed) id (getModuleAccessFromStatus num_str status navModule),
           cacheStatus stringify writable status item))"

definition isSidebarModuleEnabled :: "(jnum \<Rightarrow> jstring) \<Rightarrow> jstring option \<Rightarrow> jstring \<Rightarrow> jstring \<Rightarrow> js_error + bool" where
  "isSidebarModuleEnabled num_str item section_name navModule =
     (let status = getCachedStatus item in
      if \<not> truthy_opt status then Inr True
      else (let raw = opt_prop status (js ''SidebarModulesAdmin'') in
        if \<not> truthy_opt raw then Inr True
        else case to_string num_str (the raw) of
          Inl e \<Rightarrow> Inl e
        | Inr text \<Rightarrow> Inr
            (if trim text = [] then True
             else case JSON_parse text of
               None \<Rightarrow> True
             | Some parsed \<Rightarrow>
                 (let sectionConfig = opt_prop (Some parsed) section_name in
                  if parsed = JNull \<or> \<not> truthy_opt sectionConfig then True
                  else if opt_prop sectionConfig (js ''enabled'') = Some (JBool False) then False
                  else if opt_prop sectionConfig navModule = Some (JBool False) then False
                  else True))))"

section \<open>Lemmas\<close>

text \<open>The type of the table: exactly \<open>pricing\<close> and \<open>rankings\<close> are access records.\<close>

definition wellTyped :: "HeaderNavModules \<Rightarrow> bool" where
  "wellTyped modules \<longleftrightarrow> distinct (map fst modules) \<and>
     (\<forall>key. (\<exists>a. map_of modules key = Some (NAccess a)) \<longleftrightarrow> key \<in> {pricing_key, rankings_key}) \<and>
     set (map js [''home'', ''console'', ''docs'', ''about'']) \<subseteq> fst ` set modules"

lemma keys_obj_put: "fst ` set (obj_put k v ps) = insert k (fst ` set ps)"
proof (cases "map_of ps k = None")
  case True
  then show ?thesis
    using set_keys_insert_key [of k v ps] by (simp add: obj_put_def)
next
  case False
  then have "k \<in> fst ` set ps" by (simp add: map_of_eq_None_iff)
  moreover have "fst ` set (replace_key k v ps) = fst ` set ps"
    using keys_replace_key [of k v ps] by (metis set_map)
  ultimately show ?thesis using False by (auto simp: obj_put_def)
qed

lemma wellTyped_defaults: "wellTyped DEFAULT_HEADER_NAV_MODULES"
  by (auto simp: wellTyped_def DEFAULT_HEADER_NAV_MODULES_def js_def split: if_splits)

lemma wellTyped_put:
  assumes "wellTyped m" "(\<exists>a. v = NAccess a) \<longleftrightarrow> k \<in> {pricing_key, rankings_key}"
  shows "wellTyped (obj_put k v m)"
  using assms unfolding wellTyped_def by (auto simp: distinct_obj_put keys_obj_put)

lemma wellTyped_navStep: "wellTyped m \<Longrightarrow> wellTyped (navStep m e)"
  unfolding navStep_def Let_def
  by (auto intro!: wellTyped_put split: option.splits NavEntry.splits)

lemma wellTyped_foldl: "wellTyped m \<Longrightarrow> wellTyped (foldl navStep m es)"
  by (induction es arbitrary: m) (simp_all add: wellTyped_navStep)

text \<open>What the entries before and after do not touch.\<close>

lemma navStep_other: "fst e \<noteq> k \<Longrightarrow> map_of (navStep m e) k = map_of m k"
  by (auto simp: navStep_def Let_def split: option.splits NavEntry.splits)

lemma foldl_navStep_other: "k \<notin> fst ` set es \<Longrightarrow> map_of (foldl navStep m es) k = map_of m k"
  by (induction es arbitrary: m) (auto simp: navStep_other)

lemma navStep_module:
  "map_of (navStep m (moduleKey navModule, v)) (moduleKey navModule) = Some (NAccess (parseAccess v (accessOf m (moduleKey navModule))))"
  by (cases navModule) (auto simp: navStep_def Let_def moduleKey_def js_def)

lemma foldl_navStep_module:
  assumes "distinct (map fst es)" "map_of m (moduleKey navModule) = Some (NAccess a)"
  shows "map_of (foldl navStep m es) (moduleKey navModule) =
    Some (NAccess (case map_of es (moduleKey navModule) of None \<Rightarrow> a | Some v \<Rightarrow> parseAccess v a))"
  using assms
proof (induction es arbitrary: m)
  case (Cons e es)
  show ?case
  proof (cases "fst e = moduleKey navModule")
    case True
    then obtain v where e: "e = (moduleKey navModule, v)" by (cases e) simp
    with Cons.prems have "moduleKey navModule \<notin> fst ` set es" by simp
    then show ?thesis
      using Cons.prems(2) by (simp add: e foldl_navStep_other navStep_module accessOf_def)
  next
    case False
    then show ?thesis
      using Cons by (cases e) (auto simp: navStep_other)
  qed
qed simp

lemma default_module: "map_of DEFAULT_HEADER_NAV_MODULES (moduleKey navModule) = Some (NAccess (NAV_DEFAULTS navModule))"
  by (cases navModule) (simp_all add: DEFAULT_HEADER_NAV_MODULES_def moduleKey_def NAV_DEFAULTS_def js_def)

section \<open>Properties\<close>

text \<open>
  C27. Whatever the server sends, a table of modules that is returned has its declared type: every
  key once, the fixed modules all present, \<open>pricing\<close> and \<open>rankings\<close> (and only these) an access
  record, every other entry a boolean; the only failure is the \<open>TypeError\<close> of an unprintable value.
\<close>

theorem nav_modules_well_typed:
  "case parseHeaderNavModules num_str raw of
     Inl e \<Rightarrow> (\<exists>v. raw = Some v \<and> to_string num_str v = Inl e)
   | Inr modules \<Rightarrow> wellTyped modules"
proof (cases "parseHeaderNavRecord num_str raw")
  case (Inl e)
  then show ?thesis
    by (cases raw) (auto simp: parseHeaderNavModules_def parseHeaderNavRecord_def truthy_opt_def split: if_splits sum.splits)
next
  case (Inr parsed)
  then show ?thesis
    by (simp add: parseHeaderNavModules_def wellTyped_defaults wellTyped_foldl)
qed

text \<open>
  The access of a module is the server's entry for it read over the defaults: when the status
  carries the table as an object (with each key once), the access is \<open>parseAccess\<close> of that module's
  entry, and the default without one; other entries have no influence.
\<close>

theorem module_access_exact:
  assumes "opt_prop status (js ''HeaderNavModules'') = Some (JObj ps)" "distinct (map fst ps)"
    and "map_of ps (js ''toString'') = None"
  shows "getModuleAccessFromStatus num_str status navModule =
    Inr (case map_of ps (moduleKey navModule) of
      None \<Rightarrow> NAV_DEFAULTS navModule
    | Some v \<Rightarrow> parseAccess v (NAV_DEFAULTS navModule))"
proof -
  have "trim (js ''[object Object]'') \<noteq> []"
    by code_simp
  then have "parseHeaderNavModulesFromStatus num_str status = Inr (foldl navStep DEFAULT_HEADER_NAV_MODULES ps)"
    using assms by (simp add: parseHeaderNavModulesFromStatus_def parseHeaderNavModules_def parseHeaderNavRecord_def
        truthy_opt_def object_or_array_def js_entries_def)
  then show ?thesis
    using foldl_navStep_module [OF assms(2) default_module, of navModule]
    by (simp add: getModuleAccessFromStatus_def)
qed

definition demo_status :: json where
  "demo_status = JObj [(js ''HeaderNavModules'', JObj [(js ''pricing'', JObj [(js ''enabled'', JStr (js '' FALSE ''))])])]"

theorem module_access_exact_witness:
  "getModuleAccessFromStatus (\<lambda>_. []) (Some demo_status) ModPricing = Inr \<lparr>ma_enabled = False, ma_requireAuth = False\<rparr>"
proof -
  let ?ps = "[(js ''pricing'', JObj [(js ''enabled'', JStr (js '' FALSE ''))])]"
  have table: "opt_prop (Some demo_status) (js ''HeaderNavModules'') = Some (JObj ?ps)" "map_of ?ps (js ''toString'') = None"
    by (simp_all add: demo_status_def opt_prop_def js_def)
  have entry: "map_of ?ps (moduleKey ModPricing) = Some (JObj [(js ''enabled'', JStr (js '' FALSE ''))])"
    by (simp add: moduleKey_def)
  have "parseAccess (JObj [(js ''enabled'', JStr (js '' FALSE ''))]) (NAV_DEFAULTS ModPricing) =
      \<lparr>ma_enabled = False, ma_requireAuth = False\<rparr>"
    by code_simp
  then show ?thesis
    using module_access_exact [OF table(1) _ table(2), of "\<lambda>_. []" ModPricing] entry by simp
qed

text \<open>
  Route guards fail closed and the cache agrees with what was shown: when the request for the
  status fails the module is off and needs a login, and the cache is kept; when a status arrives
  and the storage accepts it, reading the cached copy afterwards gives the access that was
  returned, or fails where the fresh access was closed because the table cannot be read. This needs
  that \<open>JSON.parse\<close> inverts \<open>JSON.stringify\<close> on the status.
\<close>

theorem fresh_access_agrees_with_cache:
  assumes "\<And>v. answer = Some (Some v) \<Longrightarrow> JSON_parse (stringify v) = Some v"
    and "(access, item') = getFreshModuleAccess num_str stringify True answer navModule item"
  shows "case answer of
     None \<Rightarrow> access = \<lparr>ma_enabled = False, ma_requireAuth = True\<rparr> \<and> item' = item
   | Some None \<Rightarrow> access = NAV_DEFAULTS navModule \<and> item' = item
   | Some (Some v) \<Rightarrow> truthy v \<longrightarrow> getCachedStatus item' = Some v \<and>
       (case getModuleAccess num_str item' navModule of
          Inl _ \<Rightarrow> access = \<lparr>ma_enabled = False, ma_requireAuth = True\<rparr>
        | Inr a \<Rightarrow> access = a)"
proof (cases answer)
  case None
  with assms(2) show ?thesis by (simp add: getFreshModuleAccess_def)
next
  case (Some status)
  show ?thesis
  proof (cases status)
    case None
    with Some assms(2) show ?thesis
      using default_module [of navModule]
      by (simp add: getFreshModuleAccess_def getModuleAccessFromStatus_def parseHeaderNavModulesFromStatus_def
          parseHeaderNavModules_def parseHeaderNavRecord_def opt_prop_def truthy_opt_def cacheStatus_def)
  next
    case v: (Some v)
    have "JSON_parse [] = None"
      by (simp add: JSON_parse_def p_value.simps skip_ws_def)
    then have "stringify v \<noteq> []"
      using assms(1) Some v by fastforce
    with Some v assms show ?thesis
      by (auto simp: getFreshModuleAccess_def cacheStatus_def getModuleAccess_def getCachedStatus_def truthy_opt_def
          split: sum.splits)
  qed
qed

definition demo_status_text :: jstring where
  "demo_status_text = [123] @ [34, 97, 34, 58, 49] @ [125]"

theorem fresh_access_agrees_with_cache_witness:
  "getCachedStatus (snd (getFreshModuleAccess (\<lambda>_. []) (\<lambda>_. demo_status_text) True
      (Some (Some (JObj [(js ''a'', JNum 1)]))) ModRankings None)) = Some (JObj [(js ''a'', JNum 1)])"
proof -
  let ?answer = "Some (Some (JObj [(js ''a'', JNum 1)]))"
  have "JSON_parse demo_status_text = Some (JObj [(js ''a'', JNum 1)])"
    by code_simp
  then show ?thesis
    using fresh_access_agrees_with_cache [of ?answer "\<lambda>_. demo_status_text", OF _ prod.collapse] by simp
qed

end
