(* ===== verification/JS_Stringify.thy ===== *)
theory JS_Stringify
  imports JS_Json
begin

text \<open>
  \<open>JSON.stringify\<close> of parsed values, with and without indentation, and its relation to \<open>JSON.parse\<close>:
  printing a value and parsing the text gives the value back (\<open>JSON_parse_stringify\<close>). An object is
  the list of its properties in enumeration order; \<open>json_ok\<close> says that this list is one an object can
  have, which holds for every parsed value (\<open>JSON_parse_ok\<close>). The decimal notation of a number is the
  parameter \<open>num_str\<close>; what the round trip needs of it is that the text of a number reads as that number.
\<close>

section \<open>Strings\<close>

text \<open>Surrogate pairs are kept, lone surrogates are escaped.\<close>

definition hexDigit :: "nat \<Rightarrow> jchar" where
  "hexDigit n = (if n < 10 then of_nat (48 + n) else of_nat (87 + n))"

definition unicodeEscape :: "jchar \<Rightarrow> jstring" where
  "unicodeEscape c = (let n = unat c in
     [92, 117, hexDigit (n div 4096), hexDigit (n div 256 mod 16), hexDigit (n div 16 mod 16), hexDigit (n mod 16)])"

definition escapeChar :: "jchar \<Rightarrow> jstring" where
  "escapeChar c = (if c = 34 then [92, 34] else if c = 92 then [92, 92] else if c = 8 then [92, 98]
     else if c = 9 then [92, 116] else if c = 10 then [92, 110] else if c = 12 then [92, 102]
     else if c = 13 then [92, 114] else if c < 32 then unicodeEscape c else [c])"

definition highSurrogate :: "jchar \<Rightarrow> bool" where
  "highSurrogate c \<longleftrightarrow> 55296 \<le> c \<and> c \<le> 56319"

definition lowSurrogate :: "jchar \<Rightarrow> bool" where
  "lowSurrogate c \<longleftrightarrow> 56320 \<le> c \<and> c \<le> 57343"

fun escapeString :: "jstring \<Rightarrow> jstring" where
  "escapeString [] = []"
| "escapeString [c] = (if highSurrogate c \<or> lowSurrogate c then unicodeEscape c else escapeChar c)"
| "escapeString (c # d # s) =
     (if highSurrogate c \<and> lowSurrogate d then c # d # escapeString s
      else (if highSurrogate c \<or> lowSurrogate c then unicodeEscape c else escapeChar c) @ escapeString (d # s))"

definition stringifyString :: "jstring \<Rightarrow> jstring" where
  "stringifyString s = [34] @ escapeString s @ [34]"

lemma hex_val_hexDigit:
  assumes "n < 16"
  shows "hex_val (hexDigit n) = Some n"
proof (cases "n < 10")
  case True
  then have "hexDigit n = of_nat (48 + n)"
    by (simp only: hexDigit_def if_True)
  then have "unat (hexDigit n) = 48 + n"
    using True by (simp only: unat_of_nat) simp
  with True show ?thesis by (simp add: hex_val_def is_digit_iff)
next
  case False
  then have "hexDigit n = of_nat (87 + n)"
    by (simp only: hexDigit_def if_False)
  then have "unat (hexDigit n) = 87 + n"
    using assms by (simp only: unat_of_nat) simp
  with False assms show ?thesis by (simp add: hex_val_def is_digit_iff word_le_nat_alt)
qed

lemma hex_digits_sum:
  fixes n :: nat
  assumes "n < 65536"
  shows "4096 * (n div 4096) + 256 * (n div 256 mod 16) + 16 * (n div 16 mod 16) + n mod 16 = n"
proof -
  have "n div 16 = 16 * (n div 16 div 16) + n div 16 mod 16" "n div 256 = 16 * (n div 256 div 16) + n div 256 mod 16"
    "n = 16 * (n div 16) + n mod 16"
    by simp_all
  moreover have "n div 16 div 16 = n div 256" "n div 256 div 16 = n div 4096"
    by (simp_all add: div_mult2_eq [symmetric])
  ultimately show ?thesis by linarith
qed

lemma unicodeEscape_parsed:
  "p_str (unicodeEscape c @ s) = map_option (\<lambda>(t, r). (c # t, r)) (p_str s)"
proof -
  have "unat c < 65536"
    using unsigned_less [of c] by simp
  moreover from this have "unat c div 4096 < 16" by simp
  ultimately have "hex4 (hexDigit (unat c div 4096)) (hexDigit (unat c div 256 mod 16))
      (hexDigit (unat c div 16 mod 16)) (hexDigit (unat c mod 16)) = Some c"
    by (simp add: hex4_def hex_val_hexDigit hex_digits_sum)
  then show ?thesis by (simp add: unicodeEscape_def Let_def)
qed

lemma escapeChar_parsed:
  "p_str (escapeChar c @ s) = map_option (\<lambda>(t, r). (c # t, r)) (p_str s)"
  by (simp add: escapeChar_def unicodeEscape_parsed simple_escape_def)

lemma surrogate_parsed:
  "highSurrogate c \<or> lowSurrogate c \<Longrightarrow> p_str (c # s) = map_option (\<lambda>(t, r). (c # t, r)) (p_str s)"
  by (auto simp: highSurrogate_def lowSurrogate_def word_le_nat_alt word_less_nat_alt)

lemma p_str_escapeString: "p_str (escapeString s @ 34 # r) = Some (s, r)"
proof (induction s rule: escapeString.induct)
  case (3 c d s)
  then show ?case
    by (auto simp: unicodeEscape_parsed escapeChar_parsed surrogate_parsed simp del: p_str.simps)
qed (simp_all add: unicodeEscape_parsed escapeChar_parsed del: p_str.simps(2), simp_all)

section \<open>Values\<close>

text \<open>
  The items between two brackets: on one line for an empty gap, else one per line, indented by the gap
  once more than the brackets.
\<close>

definition bracketed :: "jstring \<Rightarrow> jstring \<Rightarrow> jchar \<Rightarrow> jchar \<Rightarrow> jstring list \<Rightarrow> jstring" where
  "bracketed gap ind lb rb items =
     (if items = [] then [lb, rb]
      else if gap = [] then [lb] @ join [44] items @ [rb]
      else [lb, 10] @ ind @ gap @ join ([44, 10] @ ind @ gap) items @ [10] @ ind @ [rb])"

fun stringify :: "(jnum \<Rightarrow> jstring) \<Rightarrow> jstring \<Rightarrow> jstring \<Rightarrow> json \<Rightarrow> jstring" where
  "stringify num_str gap ind JNull = js ''null''"
| "stringify num_str gap ind (JBool b) = (if b then js ''true'' else js ''false'')"
| "stringify num_str gap ind (JNum n) = num_str n"
| "stringify num_str gap ind (JStr s) = stringifyString s"
| "stringify num_str gap ind (JArr vs) =
     bracketed gap ind 91 93 (map (stringify num_str gap (ind @ gap)) vs)"
| "stringify num_str gap ind (JObj ps) =
     bracketed gap ind 123 125
       (map (\<lambda>(k, v). stringifyString k @ (if gap = [] then [58] else [58, 32]) @ stringify num_str gap (ind @ gap) v) ps)"

text \<open>\<open>JSON.stringify(v)\<close> and \<open>JSON.stringify(v, null, 2)\<close>\<close>

definition JSON_stringify :: "(jnum \<Rightarrow> jstring) \<Rightarrow> json \<Rightarrow> jstring" where
  "JSON_stringify num_str v = stringify num_str [] [] v"

definition JSON_pretty :: "(jnum \<Rightarrow> jstring) \<Rightarrow> json \<Rightarrow> jstring" where
  "JSON_pretty num_str v = stringify num_str [32, 32] [] v"


section \<open>Property lists of objects\<close>

definition key_before :: "jstring \<Rightarrow> jstring \<Rightarrow> bool" where
  "key_before k k' = (case (index_key k, index_key k') of
     (None, Some _) \<Rightarrow> False
   | (Some i, Some j) \<Rightarrow> i < j
   | (_, None) \<Rightarrow> True)"

definition ordered_keys :: "jstring list \<Rightarrow> bool" where
  "ordered_keys ks \<longleftrightarrow> distinct ks \<and> sorted_wrt key_before ks"

lemma index_key_inj: "index_key k = Some i \<Longrightarrow> index_key k' = Some i \<Longrightarrow> k = k'"
  by (auto simp: index_key_def split: if_splits)

lemma key_before_trans: "key_before a b \<Longrightarrow> key_before b c \<Longrightarrow> key_before a c"
  by (auto simp: key_before_def split: option.splits)

lemma insert_key_last:
  "\<forall>k' \<in> set (map fst ps). key_before k' k \<Longrightarrow> insert_key k v ps = ps @ [(k, v)]"
  by (induction k v ps rule: insert_key.induct) (auto simp: key_before_def split: option.splits)

lemma obj_put_last:
  "k \<notin> set (map fst ps) \<Longrightarrow> \<forall>k' \<in> set (map fst ps). key_before k' k \<Longrightarrow> obj_put k v ps = ps @ [(k, v)]"
  unfolding obj_put_def by (simp only: map_of_eq_None_iff set_map not_False_eq_True if_True insert_key_last)

lemma enumerate_ordered:
  "ordered_keys (map fst ps) \<Longrightarrow> foldl (\<lambda>ps (k, v). obj_put k v ps) [] ps = ps"
proof (induction ps rule: rev_induct)
  case (snoc p ps)
  obtain k v where p: "p = (k, v)" by (cases p)
  have "ordered_keys (map fst ps)" "k \<notin> set (map fst ps)" "\<forall>k' \<in> set (map fst ps). key_before k' k"
    using snoc.prems by (auto simp: ordered_keys_def sorted_wrt_append p)
  then show ?case using snoc.IH by (simp add: p obj_put_last)
qed simp

lemma ordered_insert_key:
  assumes "k \<notin> set (map fst ps)" "ordered_keys (map fst ps)"
  shows "ordered_keys (map fst (insert_key k v ps))"
  using assms
proof (induction ps)
  case Nil
  then show ?case by (simp add: ordered_keys_def)
next
  case (Cons p ps)
  obtain k' v' where p: "p = (k', v')" by (cases p)
  have tail: "ordered_keys (map fst ps)" "k' \<notin> set (map fst ps)" "\<forall>x \<in> set (map fst ps). key_before k' x" "k \<noteq> k'"
    using Cons.prems by (auto simp: ordered_keys_def p)
  show ?case
  proof (cases "index_key k \<noteq> None \<and> (\<forall>j. index_key k' = Some j \<longrightarrow> the (index_key k) < j)")
    case True
    then obtain i where i: "index_key k = Some i" by auto
    with True have "key_before k k'"
      by (auto simp: key_before_def split: option.splits)
    then have "\<forall>x \<in> set (map fst ((k', v') # ps)). key_before k x"
      using tail(3) key_before_trans by auto
    moreover have "insert_key k v ((k', v') # ps) = (k, v) # (k', v') # ps"
      using True i by (auto split: option.splits)
    ultimately show ?thesis using Cons.prems by (auto simp: ordered_keys_def p)
  next
    case False
    then have "insert_key k v ((k', v') # ps) = (k', v') # insert_key k v ps"
      by (auto split: option.splits)
    moreover have "ordered_keys (map fst (insert_key k v ps))"
      using Cons.IH Cons.prems(1) tail(1) by simp
    moreover have "key_before k' k"
    proof (cases "index_key k")
      case None
      then show ?thesis by (simp add: key_before_def split: option.splits)
    next
      case (Some i)
      with False obtain j where j: "index_key k' = Some j" "\<not> i < j" by auto
      moreover have "i \<noteq> j" using index_key_inj [of k i k'] Some j(1) tail(4) by auto
      ultimately show ?thesis using Some by (simp add: key_before_def)
    qed
    ultimately show ?thesis
      using tail set_keys_insert_key [of k v ps] by (auto simp: ordered_keys_def p simp del: set_map)
  qed
qed

lemma ordered_obj_put: "ordered_keys (map fst ps) \<Longrightarrow> ordered_keys (map fst (obj_put k v ps))"
  by (simp add: obj_put_def keys_replace_key ordered_insert_key map_of_eq_None_iff)

text \<open>
  Values that a JSON text can denote: every object lists its keys in enumeration order, and a number is
  a decimal fraction.
\<close>

definition decimal :: "jnum \<Rightarrow> bool" where
  "decimal q \<longleftrightarrow> (\<exists>m k. q = of_int m / 10 ^ k)"

fun json_ok :: "json \<Rightarrow> bool" where
  "json_ok (JNum n) = decimal n"
| "json_ok (JArr vs) = list_all json_ok vs"
| "json_ok (JObj ps) = (ordered_keys (map fst ps) \<and> list_all (\<lambda>(k, v). json_ok v) ps)"
| "json_ok _ = True"


lemma json_ok_members:
  "ordered_keys (map fst acc) \<and> list_all (\<lambda>(k, v). json_ok v) acc \<Longrightarrow> list_all (\<lambda>(k, v). json_ok v) ms \<Longrightarrow>
    json_ok (JObj (foldl (\<lambda>ps (k, v). obj_put k v ps) acc ms))"
proof (induction ms arbitrary: acc)
  case (Cons m ms)
  obtain k v where m: "m = (k, v)" by (cases m)
  have "list_all (\<lambda>(k, v). json_ok v) (replace_key k v ps)" "list_all (\<lambda>(k, v). json_ok v) (insert_key k v ps)"
    if "list_all (\<lambda>(k, v). json_ok v) ps" for ps
    using that Cons.prems(2) m
    by (induction ps) (auto split: option.splits)
  then have "list_all (\<lambda>(k, v). json_ok v) (obj_put k v acc)"
    using Cons.prems(1) by (simp add: obj_put_def)
  then have "json_ok (JObj (foldl (\<lambda>ps (k, v). obj_put k v ps) (obj_put k v acc) ms))"
    using Cons.IH [of "obj_put k v acc"] Cons.prems m ordered_obj_put [of acc k v] by simp
  then show ?case by (simp add: m)
qed simp

lemma json_ok_empty: "json_ok (JObj [])"
  by (simp add: ordered_keys_def)

lemma json_ok_parsed:
  "list_all (\<lambda>(k, v). json_ok v) ms \<Longrightarrow> json_ok (JObj (foldl (\<lambda>ps (k, v). obj_put k v ps) [] ms))"
  by (rule json_ok_members) (simp_all add: ordered_keys_def)

lemma decimal_of_nat: "decimal (of_nat n / 10 ^ k)"
  unfolding decimal_def by (metis of_int_of_nat_eq)

lemma decimal_of_int [simp]: "decimal (of_int m)"
  unfolding decimal_def by (rule exI [of _ m], rule exI [of _ 0]) simp

lemma decimal_numeral [simp]: "decimal (numeral n)" "decimal (of_nat k)" "decimal 0" "decimal 1"
  using decimal_of_int [of "numeral n"] decimal_of_int [of "int k"] decimal_of_int [of 0] decimal_of_int [of 1] by simp_all

lemma decimal_add: "decimal a \<Longrightarrow> decimal b \<Longrightarrow> decimal (a + b)"
proof -
  assume "decimal a" "decimal b"
  then obtain m k n l where ab: "a = of_int m / 10 ^ k" "b = of_int n / 10 ^ l"
    by (auto simp: decimal_def)
  have "a + b = of_int (m * 10 ^ l + n * 10 ^ k) / 10 ^ (k + l)"
    by (simp add: ab add_frac_eq power_add)
  then show "decimal (a + b)"
    unfolding decimal_def by blast
qed

lemma decimal_mult: "decimal a \<Longrightarrow> decimal b \<Longrightarrow> decimal (a * b)"
proof -
  assume "decimal a" "decimal b"
  then obtain m k n l where "a = of_int m / 10 ^ k" "b = of_int n / 10 ^ l"
    by (auto simp: decimal_def)
  then have "a * b = of_int (m * n) / 10 ^ (k + l)"
    by (simp add: power_add)
  then show "decimal (a * b)"
    unfolding decimal_def by blast
qed

lemma decimal_minus: "decimal a \<Longrightarrow> decimal (- a)"
  using decimal_mult [of "of_int (- 1)" a] decimal_of_int [of "- 1"] by simp

lemma decimal_diff: "decimal a \<Longrightarrow> decimal b \<Longrightarrow> decimal (a - b)"
  using decimal_add [of a "- b"] decimal_minus [of b] by simp

lemma p_num_decimal:
  assumes "p_num s = Some (n, r)"
  shows "decimal n"
proof -
  have frac: "decimal f" if "p_frac u = Some (f, z)" for u f z
    using that decimal_of_nat by (auto simp: p_frac_def Let_def split: list.splits if_splits)
  have "decimal (10 ^ d)" "decimal (1 / 10 ^ d)" for d
    using decimal_of_int [of "10 ^ d"] decimal_of_nat [of 1 d] by simp_all
  then have "decimal e" if "p_exp u = Some (e, z)" for u e z
    using that by (auto simp: p_exp_def Let_def split: list.splits if_splits)
  with frac assms show ?thesis
    by (auto simp: p_num_def Let_def split: option.splits if_splits
        intro!: decimal_mult decimal_add decimal_diff decimal_minus)
qed

lemma p_value_ok: "p_value s = Some (v, r) \<Longrightarrow> json_ok v"
  and p_elems_ok: "p_elems s = Some (vs, r) \<Longrightarrow> list_all json_ok vs"
  and p_members_ok: "p_members s = Some (ms, r) \<Longrightarrow> list_all (\<lambda>(k, v). json_ok v) ms"
proof (induction s and s and s arbitrary: v r and vs r and ms r rule: p_value_p_elems_p_members.induct)
  case (1 s)
  show ?case
  proof (cases "skip_ws s")
    case Nil
    with "1.prems" show ?thesis by (simp add: p_value.simps [of s])
  next
    case (Cons c u)
    from "1.prems" "1.IH" [OF Cons] Cons show ?thesis
      by (auto simp: p_value.simps [of s] json_ok_parsed json_ok_empty simp del: json_ok.simps(3) split: if_splits list.splits
          dest: p_num_decimal)
  qed
next
  case (2 s)
  from "2.prems" obtain v u c u' where u: "p_value s = Some (v, u)" "skip_ws u = c # u'"
    and rest: "(if c = 44 \<and> length u < length s then map_option (\<lambda>(vs, z). (v # vs, z)) (p_elems u')
      else if c = 93 then Some ([v], u') else None) = Some (vs, r)"
    by (subst (asm) p_elems.simps) (auto split: option.splits list.splits)
  from rest "2.IH"(1) [OF u(1)] "2.IH"(2) [OF u(1) refl u(2)] show ?case
    by (fastforce split: if_splits)
next
  case (3 s)
  from "3.prems" obtain s1 k s2 s3 v u d u' where s1: "skip_ws s = 34 # s1" and s2: "p_str s1 = Some (k, s2)"
    and s3: "skip_ws s2 = 58 # s3" "length s3 < length s" and u: "p_value s3 = Some (v, u)" "skip_ws u = d # u'"
    and rest: "(if d = 44 \<and> length u < length s3 then map_option (\<lambda>(ms, z). ((k, v) # ms, z)) (p_members u')
      else if d = 125 then Some ([(k, v)], u') else None) = Some (ms, r)"
    by (subst (asm) p_members.simps) (auto split: option.splits list.splits if_splits)
  from rest s3(2) "3.IH"(1) [OF s1 _ s2 refl s3(1) _ u(1)] "3.IH"(2) [OF s1 _ s2 refl s3(1) _ u(1) refl u(2)] show ?case
    by (fastforce split: if_splits)
qed

lemma JSON_parse_ok: "JSON_parse s = Some v \<Longrightarrow> json_ok v"
  by (auto simp: JSON_parse_def split: option.splits if_splits dest: p_value_ok)

section \<open>Parsing what was printed\<close>

definition terminator :: "jstring \<Rightarrow> bool" where
  "terminator z \<longleftrightarrow> z = [] \<or> hd z \<in> {10, 44, 93, 125}"

text \<open>The text of a number reads as that number.\<close>

definition reads_back :: "(jnum \<Rightarrow> jstring) \<Rightarrow> jnum \<Rightarrow> bool" where
  "reads_back num_str n \<longleftrightarrow> p_num (num_str n) = Some (n, [])"

fun json_nums :: "json \<Rightarrow> jnum list" where
  "json_nums (JNum n) = [n]"
| "json_nums (JArr vs) = concat (map json_nums vs)"
| "json_nums (JObj ps) = concat (map (\<lambda>(k, v). json_nums v) ps)"
| "json_nums _ = []"

lemma takeWhile_digits_append:
  "terminator z \<Longrightarrow> takeWhile is_digit (s @ z) = takeWhile is_digit s"
  by (induction s) (cases z; auto simp: terminator_def is_digit_def)+

lemma drop_digits_append: "drop (length (takeWhile P s)) (s @ z) = drop (length (takeWhile P s)) s @ z"
  by (simp add: length_takeWhile_le)

lemma p_int_append: "terminator z \<Longrightarrow> p_int (s @ z) = map_option (\<lambda>(i, r). (i, r @ z)) (p_int s)"
  by (cases "s = []")
    (simp_all add: p_int_def Let_def takeWhile_digits_append drop_digits_append takeWhile_digits_append [of z "[]", simplified]
      del: drop_append)

lemma p_frac_append:
  assumes "terminator z"
  shows "p_frac (s @ z) = map_option (\<lambda>(i, r). (i, r @ z)) (p_frac s)"
proof (cases s)
  case Nil
  with assms show ?thesis by (cases z) (auto simp: p_frac_def terminator_def)
next
  case (Cons c r)
  show ?thesis
    unfolding p_frac_def Cons append_Cons list.case Let_def takeWhile_digits_append [OF assms] drop_digits_append by simp
qed

lemma p_exp_append:
  assumes "terminator z"
  shows "p_exp (s @ z) = map_option (\<lambda>(i, r). (i, r @ z)) (p_exp s)"
proof (cases s)
  case Nil
  with assms show ?thesis by (cases z) (auto simp: p_exp_def terminator_def)
next
  case (Cons c r)
  have sign: "(r @ z \<noteq> [] \<and> hd (r @ z) = 45) = (r \<noteq> [] \<and> hd r = 45)"
    "(r @ z \<noteq> [] \<and> (hd (r @ z) = 43 \<or> hd (r @ z) = 45)) = (r \<noteq> [] \<and> (hd r = 43 \<or> hd r = 45))"
    using assms by (cases r; cases z; auto simp: terminator_def)+
  have rest: "(if r @ z \<noteq> [] \<and> (hd (r @ z) = 43 \<or> hd (r @ z) = 45) then tl (r @ z) else r @ z) =
      (if r \<noteq> [] \<and> (hd r = 43 \<or> hd r = 45) then tl r else r) @ z"
    unfolding sign(2) by (cases r) auto
  show ?thesis
    unfolding p_exp_def Cons append_Cons list.case Let_def rest sign(1) takeWhile_digits_append [OF assms] drop_digits_append
    by simp
qed

lemma p_num_append:
  assumes "terminator z" "p_num s = Some (n, [])"
  shows "p_num (s @ z) = Some (n, z)"
proof -
  have "s \<noteq> []"
    using assms(2) by (auto simp: p_num_def p_int_def)
  with assms show ?thesis
    by (auto simp: p_num_def Let_def p_int_append p_frac_append p_exp_append split: option.splits if_splits)
qed


lemma p_num_start: "p_num s = Some r \<Longrightarrow> s \<noteq> [] \<and> (is_digit (hd s) \<or> hd s = 45)"
  by (cases s) (auto simp: p_num_def p_int_def Let_def split: if_splits)

lemma skip_ws_append: "list_all is_json_ws w \<Longrightarrow> skip_ws (w @ s) = skip_ws s"
  by (simp add: skip_ws_def list_all_iff)

lemma skip_ws_fixed: "s \<noteq> [] \<Longrightarrow> \<not> is_json_ws (hd s) \<Longrightarrow> skip_ws s = s"
  by (cases s) (simp_all add: skip_ws_def)

lemma p_value_ws: "list_all is_json_ws w \<Longrightarrow> p_value (w @ s) = p_value s"
  by (simp add: p_value.simps [of "w @ s"] p_value.simps [of s] skip_ws_append)

lemma p_value_number:
  assumes "reads_back num_str n" "terminator z"
  shows "p_value (num_str n @ z) = Some (JNum n, z)"
proof -
  obtain c r where t: "num_str n = c # r"
    using p_num_start assms(1) unfolding reads_back_def by (cases "num_str n") auto
  have c: "is_digit c \<or> c = 45"
    using p_num_start assms(1) t unfolding reads_back_def by fastforce
  then have "\<not> is_json_ws c" "c \<noteq> 123" "c \<noteq> 91" "c \<noteq> 34" "c \<noteq> 116" "c \<noteq> 102" "c \<noteq> 110"
    by (auto simp: is_json_ws_def is_digit_def)
  then show ?thesis
    using p_num_append [OF assms(2), of "num_str n" n] assms(1) t
    by (simp add: p_value.simps skip_ws_fixed reads_back_def js_def)
qed

lemma p_value_string: "p_value (stringifyString s @ z) = Some (JStr s, z)"
  using p_str_escapeString [of s z]
  by (simp add: p_value.simps stringifyString_def skip_ws_fixed is_json_ws_def del: p_str.simps)

lemma p_value_literal:
  "p_value (js ''null'' @ z) = Some (JNull, z)" "p_value (js ''true'' @ z) = Some (JBool True, z)"
  "p_value (js ''false'' @ z) = Some (JBool False, z)"
  by (simp_all add: p_value.simps js_def skip_ws_fixed is_json_ws_def)


lemma json_ws_marks [simp]:
  "\<not> is_json_ws 34" "\<not> is_json_ws 44" "\<not> is_json_ws 58" "\<not> is_json_ws 91" "\<not> is_json_ws 93" "\<not> is_json_ws 123"
  "\<not> is_json_ws 125"
  by (simp_all add: is_json_ws_def)

lemma terminator_Cons [simp]: "c \<in> {10, 44, 93, 125} \<Longrightarrow> terminator (c # z)"
  by (auto simp: terminator_def)

lemma p_elems_items:
  assumes items: "\<And>v z. v \<in> set vs \<Longrightarrow> terminator z \<Longrightarrow> p_value (f v @ z) = Some (v, z)"
    and "vs \<noteq> []" "list_all is_json_ws w" "list_all is_json_ws pre" "list_all is_json_ws post" "terminator (post @ 93 # z)"
  shows "p_elems (pre @ join (44 # w) (map f vs) @ post @ 93 # z) = Some (vs, z)"
  using assms(2,1,4)
proof (induction vs arbitrary: pre rule: list_nonempty_induct)
  case (single v)
  then have "p_value (pre @ f v @ post @ 93 # z) = Some (v, post @ 93 # z)"
    using assms(6) by (simp add: p_value_ws)
  moreover have "skip_ws (post @ 93 # z) = 93 # z"
    using assms(5) by (simp add: skip_ws_append skip_ws_fixed)
  ultimately show ?case by (subst p_elems.simps) simp
next
  case (cons v vs)
  let ?tail = "w @ join (44 # w) (map f vs) @ post @ 93 # z"
  have "join (44 # w) (map f (v # vs)) = f v @ 44 # w @ join (44 # w) (map f vs)"
    using cons.hyps by (cases vs) auto
  moreover have first: "p_value (pre @ f v @ 44 # ?tail) = Some (v, 44 # ?tail)"
    using cons.prems by (simp add: p_value_ws)
  moreover have "skip_ws (44 # ?tail) = 44 # ?tail"
    by (simp add: skip_ws_fixed)
  moreover have "p_elems ?tail = Some (vs, z)"
    using cons.IH [of w] cons.prems assms(3) by simp
  ultimately show ?case
    using p_value_length [OF first] by (subst p_elems.simps) simp
qed

lemma p_members_items:
  assumes items: "\<And>k v z. (k, v) \<in> set ps \<Longrightarrow> terminator z \<Longrightarrow> p_value (f v @ z) = Some (v, z)"
    and "ps \<noteq> []" "list_all is_json_ws w" "list_all is_json_ws pre" "list_all is_json_ws post" "terminator (post @ 125 # z)"
    and colon: "list_all is_json_ws sp"
  shows "p_members (pre @ join (44 # w) (map (\<lambda>(k, v). stringifyString k @ (58 # sp) @ f v) ps) @ post @ 125 # z) = Some (ps, z)"
  using assms(2,1,4)
proof (induction ps arbitrary: pre rule: list_nonempty_induct)
  case (single p)
  obtain k v where p: "p = (k, v)" by (cases p)
  let ?s = "pre @ stringifyString k @ (58 # sp) @ f v @ post @ 125 # z"
  have "p_value (sp @ f v @ post @ 125 # z) = Some (v, post @ 125 # z)"
    using single.prems assms(6) colon p by (simp add: p_value_ws)
  moreover have "skip_ws (post @ 125 # z) = 125 # z"
    using assms(5) by (simp add: skip_ws_append skip_ws_fixed)
  moreover have "skip_ws ?s = 34 # escapeString k @ 34 # 58 # sp @ f v @ post @ 125 # z"
    using single.prems by (simp add: stringifyString_def skip_ws_append skip_ws_fixed)
  ultimately show ?case
    by (subst p_members.simps) (simp add: p p_str_escapeString skip_ws_fixed stringifyString_def del: p_str.simps)
next
  case (cons p ps)
  obtain k v where p: "p = (k, v)" by (cases p)
  let ?g = "\<lambda>(k, v). stringifyString k @ (58 # sp) @ f v"
  let ?tail = "w @ join (44 # w) (map ?g ps) @ post @ 125 # z"
  have split: "join (44 # w) (map ?g (p # ps)) = stringifyString k @ 58 # sp @ f v @ 44 # w @ join (44 # w) (map ?g ps)"
    using cons.hyps by (cases ps) (auto simp: p)
  have first: "p_value (sp @ f v @ 44 # ?tail) = Some (v, 44 # ?tail)"
    using cons.prems(1) [of k v "44 # ?tail"] colon p by (simp add: p_value_ws)
  let ?s = "pre @ stringifyString k @ 58 # sp @ f v @ 44 # ?tail"
  have whole: "pre @ join (44 # w) (map ?g (p # ps)) @ post @ 125 # z = ?s"
    unfolding split by simp
  have "skip_ws ?s = 34 # escapeString k @ 34 # 58 # sp @ f v @ 44 # ?tail"
    using cons.prems by (simp add: stringifyString_def skip_ws_append skip_ws_fixed)
  moreover have "p_members ?tail = Some (ps, z)"
    by (rule cons.IH) (use cons.prems(1) assms(3) in auto)
  moreover have "length (44 # ?tail) < length (sp @ f v @ 44 # ?tail)"
    using p_value_length [OF first] by simp
  ultimately show ?case
    using first unfolding whole
    by (subst p_members.simps) (simp add: p p_str_escapeString skip_ws_fixed del: p_str.simps)
qed

lemma p_elems_start:
  assumes "p_elems s = Some r"
  shows "\<exists>c u. skip_ws s = c # u \<and> c \<noteq> 93"
proof -
  have "p_value s \<noteq> None"
    using assms by (subst (asm) p_elems.simps) (auto split: option.splits)
  then show ?thesis
    by (subst (asm) p_value.simps) (auto simp: js_def p_num_def p_int_def Let_def is_digit_def split: list.splits if_splits)
qed

lemma p_members_start: "p_members s = Some r \<Longrightarrow> \<exists>u. skip_ws s = 34 # u"
  by (subst (asm) p_members.simps) (auto split: list.splits if_splits)

lemma bracketed_items:
  assumes "items \<noteq> []" "list_all is_json_ws gap" "list_all is_json_ws ind"
  obtains w pre post where "list_all is_json_ws w" "list_all is_json_ws pre" "list_all is_json_ws post"
    "post = [] \<or> hd post = 10" "\<And>z. bracketed gap ind lb rb items @ z = lb # pre @ join (44 # w) items @ post @ rb # z"
proof (cases "gap = []")
  case True
  with assms(1) that [of "[]" "[]" "[]"] show ?thesis by (simp add: bracketed_def)
next
  case False
  have "list_all is_json_ws (10 # ind @ gap)" "list_all is_json_ws (10 # ind)"
    using assms by (simp_all add: is_json_ws_def)
  with False assms(1) that [of "10 # ind @ gap" "10 # ind @ gap" "10 # ind"] show ?thesis by (simp add: bracketed_def)
qed

lemma p_value_stringify:
  assumes gap: "list_all is_json_ws gap"
  shows "json_ok v \<Longrightarrow> list_all (reads_back num_str) (json_nums v) \<Longrightarrow> list_all is_json_ws ind \<Longrightarrow> terminator z \<Longrightarrow>
    p_value (stringify num_str gap ind v @ z) = Some (v, z)"
proof (induction v arbitrary: ind z)
  case (JNum n)
  then show ?case by (simp add: p_value_number)
next
  case (JArr vs)
  show ?case
  proof (cases "vs = []")
    case True
    then show ?thesis by (simp add: bracketed_def p_value.simps skip_ws_fixed)
  next
    case False
    let ?f = "stringify num_str gap (ind @ gap)"
    obtain w pre post where ws: "list_all is_json_ws w" "list_all is_json_ws pre" "list_all is_json_ws post"
      and post: "post = [] \<or> hd post = 10"
      and shape: "\<And>z. bracketed gap ind 91 93 (map ?f vs) @ z = 91 # pre @ join (44 # w) (map ?f vs) @ post @ 93 # z"
      by (rule bracketed_items [of "map ?f vs" gap ind 91 93, OF _ gap JArr.prems(3)]) (use False in simp, rule that)
    have "p_value (?f v @ y) = Some (v, y)" if "v \<in> set vs" "terminator y" for v y
      by (rule JArr.IH) (use JArr.prems that gap in \<open>auto simp: list_all_iff\<close>)
    then have elems: "p_elems (pre @ join (44 # w) (map ?f vs) @ post @ 93 # z) = Some (vs, z)"
      by (rule p_elems_items) (use False ws post in \<open>auto simp: terminator_def hd_append\<close>)
    then show ?thesis
      using p_elems_start [OF elems] by (auto simp: shape p_value.simps [of "91 # _"] skip_ws_fixed)
  qed
next
  case (JObj ps)
  show ?case
  proof (cases "ps = []")
    case True
    then show ?thesis by (simp add: bracketed_def p_value.simps skip_ws_fixed)
  next
    case False
    let ?f = "stringify num_str gap (ind @ gap)" and ?sp = "if gap = [] then [] else [32 :: jchar]"
    let ?g = "\<lambda>(k, v). stringifyString k @ (58 # ?sp) @ ?f v"
    obtain w pre post where ws: "list_all is_json_ws w" "list_all is_json_ws pre" "list_all is_json_ws post"
      and post: "post = [] \<or> hd post = 10"
      and shape: "\<And>z. bracketed gap ind 123 125 (map ?g ps) @ z = 123 # pre @ join (44 # w) (map ?g ps) @ post @ 125 # z"
      by (rule bracketed_items [of "map ?g ps" gap ind 123 125, OF _ gap JObj.prems(3)]) (use False in simp, rule that)
    have "p_value (?f v @ y) = Some (v, y)" if "(k, v) \<in> set ps" "terminator y" for k v y
      by (rule JObj.IH [of "(k, v)"]) (use JObj.prems that gap in \<open>auto simp: list_all_iff\<close>)
    then have members: "p_members (pre @ join (44 # w) (map ?g ps) @ post @ 125 # z) = Some (ps, z)"
      by (rule p_members_items) (use False ws post in \<open>auto simp: terminator_def hd_append is_json_ws_def [of 32]\<close>)
    have g: "(\<lambda>(k, v). stringifyString k @ (if gap = [] then [58] else [58, 32]) @ ?f v) = ?g"
      by auto
    show ?thesis
      using members p_members_start [OF members] enumerate_ordered [of ps] JObj.prems(1)
      unfolding stringify.simps g shape by (auto simp: p_value.simps [of "123 # _"] skip_ws_fixed)
  qed
qed (simp_all add: p_value_literal p_value_string)

text \<open>The law of number formatting: the text of every decimal fraction reads as that number.\<close>

definition prints_decimals :: "(jnum \<Rightarrow> jstring) \<Rightarrow> bool" where
  "prints_decimals num_str \<longleftrightarrow> (\<forall>q. decimal q \<longrightarrow> reads_back num_str q)"

locale number_format =
  fixes num_str :: "jnum \<Rightarrow> jstring"
  assumes format_law: "prints_decimals num_str"
begin

lemma json_ok_nums: "json_ok v \<Longrightarrow> list_all (reads_back num_str) (json_nums v)"
  using format_law by (induction v) (fastforce simp: list_all_iff prints_decimals_def)+

lemma parse_stringify:
  assumes "json_ok v"
  shows "JSON_parse (JSON_stringify num_str v) = Some v" "JSON_parse (JSON_pretty num_str v) = Some v"
  using p_value_stringify [of "[]" v num_str "[]" "[]"] p_value_stringify [of "[32, 32]" v num_str "[]" "[]"] assms json_ok_nums [OF assms]
  by (simp_all add: JSON_parse_def JSON_stringify_def JSON_pretty_def terminator_def skip_ws_def is_json_ws_def)

lemma pretty_inj: "json_ok v \<Longrightarrow> json_ok w \<Longrightarrow> JSON_pretty num_str v = JSON_pretty num_str w \<longleftrightarrow> v = w"
  using parse_stringify(2) by (metis option.inject)

end

lemmas JSON_parse_stringify = number_format.parse_stringify [OF number_format.intro]

section \<open>A printer of decimal fractions\<close>

text \<open>
  The exponent form \<open>m\<close>\<open>e-\<close>\<open>k\<close> with the least scale of the denominator: a formatting of numbers that
  satisfies the law.
\<close>

function scale :: "nat \<Rightarrow> nat" where
  "scale d = (if d \<le> 1 \<or> gcd d 10 = 1 then 0 else Suc (scale (d div gcd d 10)))"
  by pat_completeness auto
termination
proof (relation "measure id")
  fix d :: nat assume d: "\<not> (d \<le> 1 \<or> gcd d 10 = 1)"
  then have "1 < gcd d 10"
    by (metis gcd_eq_0_iff less_one linorder_neqE_nat not_less zero_neq_numeral)
  then show "(d div gcd d 10, d) \<in> measure id"
    using d by (auto intro!: div_less_dividend)
qed simp

declare scale.simps [simp del]

lemma scale_dvd: "d dvd 10 ^ j \<Longrightarrow> d dvd 10 ^ scale d"
proof (induction d rule: scale.induct)
  case (1 d)
  show ?case
  proof (cases "d \<le> 1 \<or> gcd d 10 = 1")
    case True
    have "d = 1" if "gcd d 10 = 1"
      using that 1(2) coprime_dvd_mult_right_iff [of d "10 ^ j" 1] by (metis coprime_iff_gcd_eq_1 coprime_power_right_iff coprime_common_divisor_nat dvd_refl)
    moreover have "d \<noteq> 0"
      using 1(2) by (metis dvd_0_left_iff power_not_zero zero_neq_numeral)
    ultimately have "d = 1"
      using True by auto
    then show ?thesis by (simp add: scale.simps [of d])
  next
    case False
    let ?g = "gcd d 10"
    have "d div ?g dvd 10 ^ j"
      using 1(2) by (metis dvd_div_mult_self dvd_trans dvd_triv_left gcd_dvd1)
    then have "d div ?g dvd 10 ^ scale (d div ?g)"
      using 1(1) False by blast
    then have "d div ?g * ?g dvd 10 ^ scale (d div ?g) * 10"
      by (rule mult_dvd_mono) simp
    then show ?thesis
      using False by (simp add: scale.simps [of d] mult.commute)
  qed
qed

definition dec_str :: "jnum \<Rightarrow> jstring" where
  "dec_str q = (let (n, d) = quotient_of q; k = scale (nat d) in
     int_str (n * (10 ^ k div d)) @ js ''e-'' @ nat_str k)"

lemma nat_str_zero: "nat_str 0 = [48]"
  by (simp add: nat_str.simps digit_chr_def)

lemma nat_str_hd: "0 < n \<Longrightarrow> hd (nat_str n) \<noteq> 48"
proof (induction n rule: nat_str.induct)
  case (1 n)
  show ?case
  proof (cases "n < 10")
    case True
    then have "unat (digit_chr n) \<noteq> unat (48 :: jchar)"
      using "1.prems" by (simp add: unat_digit_chr)
    with True show ?thesis by (auto simp: nat_str.simps [of n])
  next
    case False
    then have "hd (nat_str (n div 10)) \<noteq> 48"
      using "1.IH" by simp
    with False show ?thesis by (simp add: nat_str.simps [of n] hd_append)
  qed
qed

lemma takeWhile_nat_str: "takeWhile is_digit (nat_str n @ c # r) = (if is_digit c then nat_str n @ c # takeWhile is_digit r else nat_str n)"
  using nat_str_digits [of n] by (simp add: list_all_iff)

lemma p_int_nat_str: "\<not> is_digit c \<Longrightarrow> p_int (nat_str n @ c # r) = Some (n, c # r)"
  using nat_str_hd [of n] by (cases "n = 0") (simp_all add: p_int_def Let_def takeWhile_nat_str nat_str_zero is_digit_def [of 48])

lemma p_exp_nat_str: "p_exp (101 # 45 # nat_str k) = Some (1 / 10 ^ k, [])"
proof -
  have "takeWhile is_digit (nat_str k) = nat_str k"
    using nat_str_digits [of k] by (simp add: list_all_iff)
  then show ?thesis by (simp add: p_exp_def Let_def del: takeWhile_eq_all_conv)
qed

lemma p_num_exponent: "p_num (int_str m @ 101 # 45 # nat_str k) = Some (of_int m / 10 ^ k, [])"
proof -
  have "hd (nat_str n @ r) \<noteq> 45" for n r
    using nat_str_digits [of n] by (cases "nat_str n") (auto simp: is_digit_def)
  moreover have "p_frac (101 # r) = Some (0, 101 # r)" "\<not> is_digit 101" for r
    by (simp_all add: p_frac_def is_digit_def)
  ultimately show ?thesis
    by (simp add: int_str_def p_num_def Let_def p_int_nat_str p_exp_nat_str)
qed

lemma dec_str_reads:
  assumes "decimal q"
  shows "reads_back dec_str q"
proof -
  obtain m k where q: "q = of_int m / 10 ^ k"
    using assms by (auto simp: decimal_def)
  obtain n d where nd: "quotient_of q = (n, d)" by (cases "quotient_of q")
  have d: "0 < d" "coprime n d" "q = of_int n / of_int d"
    using quotient_of_denom_pos [OF nd] quotient_of_coprime [OF nd] quotient_of_div [OF nd] by simp_all
  then have "rat_of_int n * 10 ^ k = rat_of_int m * of_int d"
    using q by (simp add: frac_eq_eq)
  then have "rat_of_int (n * 10 ^ k) = rat_of_int (m * d)" by simp
  then have "n * 10 ^ k = m * d" by (simp only: of_int_eq_iff)
  then have "d dvd n * 10 ^ k" by simp
  then have "d dvd 10 ^ k"
    using d(2) by (simp add: coprime_dvd_mult_right_iff coprime_commute)
  then have "nat d dvd 10 ^ k"
    using d(1) by (simp add: nat_dvd_iff)
  then have "int (nat d) dvd int (10 ^ scale (nat d))"
    by (simp only: int_dvd_int_iff scale_dvd)
  then have "d dvd 10 ^ scale (nat d)" (is "d dvd ?p")
    using d(1) by simp
  then have "?p div d * d = ?p" by simp
  then have "rat_of_int (?p div d * d) = rat_of_int ?p" by (simp only:)
  then have e: "rat_of_int (?p div d) * rat_of_int d = 10 ^ scale (nat d)" by simp
  then have "rat_of_int (?p div d) \<noteq> 0" by auto
  then have "rat_of_int n * rat_of_int (?p div d) / (rat_of_int (?p div d) * rat_of_int d) = q"
    using d(3) by simp
  then have "rat_of_int (n * (?p div d)) / 10 ^ scale (nat d) = q"
    unfolding e by simp
  then show ?thesis
    using p_num_exponent [of "n * (?p div d)" "scale (nat d)"] by (simp add: reads_back_def dec_str_def nd Let_def js_def)
qed

lemma dec_str_prints: "prints_decimals dec_str"
  by (simp add: prints_decimals_def dec_str_reads)

interpretation exponent_form: number_format dec_str
  by unfold_locales (rule dec_str_prints)

lemma json_ok_prop: "json_ok v \<Longrightarrow> js_prop v k = Some w \<Longrightarrow> json_ok w"
  by (cases v) (auto simp: list_all_iff dest: map_of_SomeD split: option.splits if_splits)

lemma json_ok_or: "json_ok d \<Longrightarrow> (\<And>w. v = Some w \<Longrightarrow> json_ok w) \<Longrightarrow> json_ok (or_json v d)"
  by (auto simp: or_json_def truthy_opt_def split: option.splits)

lemma JSON_pretty_object: "ps \<noteq> [] \<Longrightarrow> trim (JSON_pretty num_str (JObj ps)) \<noteq> []"
  by (simp add: JSON_pretty_def trim_eq_Nil_iff bracketed_def is_ws_def)


lemma JSON_parse_nonblank: "JSON_parse s = Some v \<Longrightarrow> trim s \<noteq> []"
proof
  assume parsed: "JSON_parse s = Some v" and "trim s = []"
  then have ws: "list_all is_ws s" by (simp add: trim_eq_Nil_iff)
  obtain c r where cr: "skip_ws s = c # r"
    using parsed by (cases "skip_ws s") (auto simp: JSON_parse_def p_value.simps [of s])
  then have "is_ws c"
    using ws set_dropWhileD [of c is_json_ws s] by (auto simp: skip_ws_def list_all_iff)
  then have "\<not> is_digit c" "c \<noteq> 123" "c \<noteq> 91" "c \<noteq> 34" "c \<noteq> 116" "c \<noteq> 102" "c \<noteq> 110" "c \<noteq> 45"
    by (auto simp: is_ws_def is_digit_def word_le_nat_alt)
  then have "p_value s = None"
    using p_num_start [of "c # r"] by (cases "p_num (c # r)") (auto simp: p_value.simps [of s] cr js_def)
  with parsed show False by (simp add: JSON_parse_def)
qed

lemma json_ok_put: "json_ok (JObj ps) \<Longrightarrow> json_ok v \<Longrightarrow> json_ok (JObj (obj_put k v ps))"
  using json_ok_members [of ps "[(k, v)]"] by simp

lemma json_ok_filter: "json_ok (JObj ps) \<Longrightarrow> json_ok (JObj (filter P ps))"
  by (auto simp: ordered_keys_def list_all_iff distinct_map_filter sorted_wrt_map sorted_wrt_filter)

text \<open>The text of a value has no white space at its ends.\<close>

definition num_char :: "jchar \<Rightarrow> bool" where
  "num_char c \<longleftrightarrow> is_digit c \<or> c \<in> {43, 45, 46, 69, 101}"

lemma num_char_not_ws: "num_char c \<Longrightarrow> \<not> is_ws c"
  by (auto simp: num_char_def is_digit_def is_ws_def word_le_nat_alt)

lemma digits_chars: "\<exists>u. s = u @ drop (length (takeWhile is_digit s)) s \<and> list_all num_char u"
proof (intro exI conjI)
  show "s = takeWhile is_digit s @ drop (length (takeWhile is_digit s)) s"
    by (simp flip: dropWhile_eq_drop)
  show "list_all num_char (takeWhile is_digit s)"
    using set_takeWhileD [of _ is_digit s] by (auto simp: list_all_iff num_char_def)
qed

lemma p_int_chars: "p_int s = Some (i, r) \<Longrightarrow> \<exists>u. s = u @ r \<and> list_all num_char u"
proof -
  assume p: "p_int s = Some (i, r)"
  show ?thesis
  proof (cases "r = tl s \<and> s \<noteq> [] \<and> is_digit (hd s)")
    case True
    then show ?thesis by (intro exI [of _ "[hd s]"]) (simp add: num_char_def)
  next
    case False
    then have "r = drop (length (takeWhile is_digit s)) s"
      using p by (cases s) (auto simp: p_int_def Let_def split: if_splits)
    then show ?thesis using digits_chars [of s] by blast
  qed
qed

lemma num_chars_Cons: "num_char c \<Longrightarrow> \<exists>u. s = u @ r \<and> list_all num_char u \<Longrightarrow> \<exists>u. c # s = u @ r \<and> list_all num_char u"
proof -
  assume c: "num_char c" and "\<exists>u. s = u @ r \<and> list_all num_char u"
  then obtain u where "s = u @ r" "list_all num_char u" by blast
  with c have "c # s = (c # u) @ r \<and> list_all num_char (c # u)" by simp
  then show ?thesis by blast
qed

lemma p_frac_chars: "p_frac s = Some (i, r) \<Longrightarrow> \<exists>u. s = u @ r \<and> list_all num_char u"
  by (cases s) (auto simp: p_frac_def Let_def split: if_splits intro!: num_chars_Cons digits_chars, simp_all add: num_char_def)

lemma p_exp_chars: "p_exp s = Some (i, r) \<Longrightarrow> \<exists>u. s = u @ r \<and> list_all num_char u"
proof (cases s)
  case (Cons c t)
  assume p: "p_exp s = Some (i, r)"
  show ?thesis
  proof (cases "c = 101 \<or> c = 69")
    case True
    show ?thesis
    proof (cases "t \<noteq> [] \<and> (hd t = 43 \<or> hd t = 45)")
      case sign: True
      then obtain d t' where t: "t = d # t'" by (cases t) auto
      have "r = drop (length (takeWhile is_digit t')) t'"
        using p Cons True sign t by (auto simp: p_exp_def Let_def split: if_splits)
      then show ?thesis
        using digits_chars [of t'] True sign t Cons by (auto intro!: num_chars_Cons simp: num_char_def)
    next
      case False
      then have "r = drop (length (takeWhile is_digit t)) t"
        using p Cons True by (auto simp: p_exp_def Let_def split: if_splits)
      then show ?thesis
        using digits_chars [of t] True Cons by (auto intro!: num_chars_Cons simp: num_char_def)
    qed
  qed (use p Cons in \<open>auto simp: p_exp_def\<close>)
qed (auto simp: p_exp_def)

lemma p_num_chars: "p_num s = Some (n, []) \<Longrightarrow> s \<noteq> [] \<and> list_all num_char s"
proof -
  assume p: "p_num s = Some (n, [])"
  let ?t = "if s \<noteq> [] \<and> hd s = 45 then tl s else s"
  from p obtain i s1 f s2 e where parts: "p_int ?t = Some (i, s1)" "p_frac s1 = Some (f, s2)" "p_exp s2 = Some (e, [])"
    by (auto simp: p_num_def Let_def split: option.splits)
  obtain u1 u2 u3 where "?t = u1 @ s1" "s1 = u2 @ s2" "s2 = u3 @ []" "list_all num_char u1" "list_all num_char u2" "list_all num_char u3"
    using p_int_chars [OF parts(1)] p_frac_chars [OF parts(2)] p_exp_chars [OF parts(3)] by blast
  then have "list_all num_char ?t" by simp
  then have "list_all num_char s"
    by (cases s) (auto simp: num_char_def split: if_splits)
  with p_num_start [OF p] show ?thesis by simp
qed

lemma trim_stringify:
  assumes "prints_decimals num_str" "json_ok v"
  shows "trim (stringify num_str gap [] v) = stringify num_str gap [] v"
proof (cases v)
  case (JNum n)
  then have "p_num (num_str n) = Some (n, [])"
    using assms by (simp add: prints_decimals_def reads_back_def)
  then have "num_str n \<noteq> []" "list_all num_char (num_str n)"
    using p_num_chars by blast+
  then show ?thesis
    using JNum by (auto intro!: trim_fixed num_char_not_ws simp: list_all_iff)
next
  case (JStr s)
  then show ?thesis by (auto intro!: trim_fixed simp: stringifyString_def is_ws_def)
qed (auto intro!: trim_fixed simp: bracketed_def is_ws_def js_def)

lemmas trim_printed = trim_stringify [of _ _ "[]", folded JSON_stringify_def] trim_stringify [of _ _ "[32, 32]", folded JSON_pretty_def]

end
