(* ===== verification/Billing_Rules.thy ===== *)
theory Billing_Rules
  imports JS_Collections JS_Stringify "HOL-Library.Monad_Syntax"
begin

text \<open>
  \<open>features/pricing/lib/billing-expr.ts\<close>, the request rules of a billing expression: factors
  \<open>(condition ? multiplier : 1)\<close> that the editor builds from a form and reads back from the stored
  text. Each regular expression of the source is a small parser on code units; \<open>do\<close> blocks are in the
  option type. \<open>JSON.parse\<close> may throw inside the condition parser, which does not catch it, so that the
  parsers return a sum.
\<close>

section \<open>Conditions\<close>

definition MATCH_EQ :: jstring where "MATCH_EQ = js ''eq''"
definition MATCH_CONTAINS :: jstring where "MATCH_CONTAINS = js ''contains''"
definition MATCH_GT :: jstring where "MATCH_GT = js ''gt''"
definition MATCH_GTE :: jstring where "MATCH_GTE = js ''gte''"
definition MATCH_LT :: jstring where "MATCH_LT = js ''lt''"
definition MATCH_LTE :: jstring where "MATCH_LTE = js ''lte''"
definition MATCH_EXISTS :: jstring where "MATCH_EXISTS = js ''exists''"
definition MATCH_RANGE :: jstring where "MATCH_RANGE = js ''range''"

lemmas match_defs = MATCH_EQ_def MATCH_CONTAINS_def MATCH_GT_def MATCH_GTE_def MATCH_LT_def MATCH_LTE_def
  MATCH_EXISTS_def MATCH_RANGE_def

definition TIME_FUNCS :: "jstring list" where
  "TIME_FUNCS = map js [''hour'', ''minute'', ''weekday'', ''month'', ''day'']"

datatype RuleSource = SourceParam | SourceHeader

record ParamHeaderCondition =
  ph_source :: RuleSource
  ph_path :: jstring
  ph_mode :: jstring
  ph_value :: jstring

record TimeCondition =
  tc_timeFunc :: jstring
  tc_timezone :: jstring
  tc_mode :: jstring
  tc_value :: jstring
  tc_rangeStart :: jstring
  tc_rangeEnd :: jstring

datatype RequestCondition = TimeCond TimeCondition | ParamHeaderCond ParamHeaderCondition

record RequestRuleGroup =
  rg_conditions :: "RequestCondition list"
  rg_multiplier :: jstring

text \<open>\<open>Partial<RequestCondition>\<close>: the object that \<open>normalizeCondition\<close> completes.\<close>

record PartialCondition =
  qc_source :: "jstring option"
  qc_path :: "jstring option"
  qc_mode :: "jstring option"
  qc_value :: "jstring option"
  qc_timeFunc :: "jstring option"
  qc_timezone :: "jstring option"
  qc_rangeStart :: "jstring option"
  qc_rangeEnd :: "jstring option"

definition toPartial :: "RequestCondition \<Rightarrow> PartialCondition" where
  "toPartial cond = (case cond of
     TimeCond t \<Rightarrow> \<lparr>qc_source = Some (js ''time''), qc_path = None, qc_mode = Some (tc_mode t), qc_value = Some (tc_value t),
       qc_timeFunc = Some (tc_timeFunc t), qc_timezone = Some (tc_timezone t), qc_rangeStart = Some (tc_rangeStart t),
       qc_rangeEnd = Some (tc_rangeEnd t)\<rparr>
   | ParamHeaderCond p \<Rightarrow> \<lparr>qc_source = Some (case ph_source p of SourceParam \<Rightarrow> js ''param'' | SourceHeader \<Rightarrow> js ''header''),
       qc_path = Some (ph_path p), qc_mode = Some (ph_mode p), qc_value = Some (ph_value p), qc_timeFunc = None,
       qc_timezone = None, qc_rangeStart = None, qc_rangeEnd = None\<rparr>)"

definition createEmptyCondition :: ParamHeaderCondition where
  "createEmptyCondition = \<lparr>ph_source = SourceParam, ph_path = [], ph_mode = MATCH_EQ, ph_value = []\<rparr>"

definition createEmptyTimeCondition :: TimeCondition where
  "createEmptyTimeCondition = \<lparr>tc_timeFunc = js ''hour'', tc_timezone = js ''Asia/Shanghai'', tc_mode = MATCH_GTE,
     tc_value = [], tc_rangeStart = [], tc_rangeEnd = []\<rparr>"

definition createEmptyRuleGroup :: RequestRuleGroup where
  "createEmptyRuleGroup = \<lparr>rg_conditions = [ParamHeaderCond createEmptyCondition], rg_multiplier = []\<rparr>"

definition createEmptyTimeRuleGroup :: RequestRuleGroup where
  "createEmptyTimeRuleGroup = \<lparr>rg_conditions = [TimeCond createEmptyTimeCondition], rg_multiplier = []\<rparr>"

text \<open>The values of the match options of a source (their labels are for display).\<close>

definition timeMatchModes :: "jstring list" where
  "timeMatchModes = [MATCH_EQ, MATCH_GTE, MATCH_LT, MATCH_RANGE]"

definition getRequestRuleMatchOptions :: "RuleSource \<Rightarrow> jstring list" where
  "getRequestRuleMatchOptions source = [MATCH_EQ, MATCH_CONTAINS, MATCH_EXISTS] @
     (case source of SourceHeader \<Rightarrow> [] | SourceParam \<Rightarrow> [MATCH_GT, MATCH_GTE, MATCH_LT, MATCH_LTE])"

definition normalizeCondition :: "PartialCondition option \<Rightarrow> RequestCondition" where
  "normalizeCondition cond =
     (let field = (\<lambda>f. Option.bind cond f) in
      if field qc_source = Some (js ''time'') then
        TimeCond \<lparr>
          tc_timeFunc = (case field qc_timeFunc of Some f \<Rightarrow> if f \<in> set TIME_FUNCS then f else js ''hour'' | None \<Rightarrow> js ''hour''),
          tc_timezone = or_str (field qc_timezone) (js ''Asia/Shanghai''),
          tc_mode = (case field qc_mode of Some m \<Rightarrow> if m \<in> set timeMatchModes then m else MATCH_GTE | None \<Rightarrow> MATCH_GTE),
          tc_value = nullish (field qc_value) [], tc_rangeStart = nullish (field qc_rangeStart) [],
          tc_rangeEnd = nullish (field qc_rangeEnd) []\<rparr>
      else (let source = (if field qc_source = Some (js ''header'') then SourceHeader else SourceParam) in
        ParamHeaderCond \<lparr>
          ph_source = source, ph_path = or_str (field qc_path) [],
          ph_mode = (case field qc_mode of Some m \<Rightarrow> if m \<in> set (getRequestRuleMatchOptions source) then m else MATCH_EQ
            | None \<Rightarrow> MATCH_EQ),
          ph_value = nullish (field qc_value) []\<rparr>))"

section \<open>Regular expressions\<close>

fun strip :: "jstring \<Rightarrow> jstring \<Rightarrow> jstring option" where
  "strip [] s = Some s"
| "strip (x # p) (y # s) = (if x = y then strip p s else None)"
| "strip (x # p) [] = None"

text \<open>\<open>C+\<close> for a class of characters, followed by something outside the class.\<close>

definition many1 :: "(jchar \<Rightarrow> bool) \<Rightarrow> jstring \<Rightarrow> (jstring \<times> jstring) option" where
  "many1 P s = (if takeWhile P s = [] then None else Some (takeWhile P s, dropWhile P s))"

text \<open>\<open>[\d.eE+-]\<close>\<close>

definition numChar :: "jchar \<Rightarrow> bool" where
  "numChar c \<longleftrightarrow> is_digit c \<or> c = 46 \<or> c = 101 \<or> c = 69 \<or> c = 43 \<or> c = 45"

definition lineTerminator :: "jchar \<Rightarrow> bool" where
  "lineTerminator c \<longleftrightarrow> c = 10 \<or> c = 13 \<or> c = 8232 \<or> c = 8233"

text \<open>\<open>NUMERIC_LITERAL_REGEX\<close>: a sign, digits with an optional fraction, an optional exponent.\<close>

definition numericMantissa :: "jstring \<Rightarrow> jstring option" where
  "numericMantissa t =
     (let ds = takeWhile is_digit t; r = dropWhile is_digit t in
      if ds \<noteq> [] then (case r of c # u \<Rightarrow> if c = 46 then Some (dropWhile is_digit u) else Some r | [] \<Rightarrow> Some r)
      else (case r of
          c # u \<Rightarrow> if c = 46 \<and> takeWhile is_digit u \<noteq> [] then Some (dropWhile is_digit u) else None
        | [] \<Rightarrow> None))"

definition numericExponent :: "jstring \<Rightarrow> bool" where
  "numericExponent r = (case r of
     [] \<Rightarrow> True
   | c # u \<Rightarrow> (c = 101 \<or> c = 69) \<and>
       (let v = (if u \<noteq> [] \<and> (hd u = 43 \<or> hd u = 45) then tl u else u) in v \<noteq> [] \<and> list_all is_digit v))"

definition isNumericLiteral :: "jstring \<Rightarrow> bool" where
  "isNumericLiteral s =
     (case numericMantissa (if s \<noteq> [] \<and> hd s = 45 then tl s else s) of
        None \<Rightarrow> False
      | Some r \<Rightarrow> numericExponent r)"

text \<open>\<open>name("([^"]+)")\<close>\<close>

definition callPattern :: "jstring \<Rightarrow> jstring \<Rightarrow> (jstring \<times> jstring) option" where
  "callPattern name s = do {
     r \<leftarrow> strip (name @ [40, 34]) s;
     (arg, r1) \<leftarrow> many1 (\<lambda>c. c \<noteq> 34) r;
     r2 \<leftarrow> strip [34, 41] r1;
     Some (arg, r2) }"

text \<open>\<open>"(?:[^"\\]|\\.)*"\<close>, the matched text with its quotes and the rest.\<close>

fun quotedTail :: "jstring \<Rightarrow> (jstring \<times> jstring) option" where
  "quotedTail [] = None"
| "quotedTail (c # s) =
     (if c = 34 then Some ([34], s)
      else if c = 92 then
        (case s of
           [] \<Rightarrow> None
         | d # s1 \<Rightarrow> if lineTerminator d then None else map_option (\<lambda>(t, r). (92 # d # t, r)) (quotedTail s1))
      else map_option (\<lambda>(t, r). (c # t, r)) (quotedTail s))"

definition quotedPattern :: "jstring \<Rightarrow> (jstring \<times> jstring) option" where
  "quotedPattern s = do { r \<leftarrow> strip [34] s; (t, r1) \<leftarrow> quotedTail r; Some (34 # t, r1) }"

text \<open>\<open>C+$\<close> for the class of number characters.\<close>

definition numberEnd :: "jstring \<Rightarrow> jstring option" where
  "numberEnd s = (if s \<noteq> [] \<and> list_all numChar s then Some s else None)"

section \<open>The parser\<close>

text \<open>The loops of \<open>splitTopLevelMultiply\<close> and \<open>splitTopLevelAnd\<close>, which differ in the separator.\<close>

definition parenDepth :: "jchar \<Rightarrow> int" where
  "parenDepth c = (if c = 40 then 1 else if c = 41 then - 1 else 0)"

function splitTop :: "jstring \<Rightarrow> int \<Rightarrow> jstring \<Rightarrow> jstring \<Rightarrow> jstring list" where
  "splitTop sep depth cur [] = [trim cur]"
| "splitTop sep depth cur (c # s) =
     (let depth' = depth + parenDepth c in
      if depth' = 0 \<and> prefix sep (c # s) then trim cur # splitTop sep depth' [] (drop (length sep - 1) s)
      else splitTop sep depth' (cur @ [c]) s)"
  by pat_completeness auto
termination
  by (relation "measure (\<lambda>(sep, depth, cur, s). length s)") auto

declare splitTop.simps [simp del]

definition splitTopLevelMultiply :: "jstring \<Rightarrow> jstring list" where
  "splitTopLevelMultiply expr = filter (\<lambda>p. p \<noteq> []) (splitTop (js '' * '') 0 [] expr)"

definition splitTopLevelAnd :: "jstring \<Rightarrow> jstring list" where
  "splitTopLevelAnd expr = filter (\<lambda>p. p \<noteq> []) (splitTop (js '' && '') 0 [] expr)"

definition parseExprLiteral :: "jstring \<Rightarrow> json option" where
  "parseExprLiteral raw =
     (let text = trim raw in
      if text = js ''true'' \<or> text = js ''false'' then Some (JStr text)
      else if isNumericLiteral text then Some (JStr text)
      else (case JSON_parse text of Some JNull \<Rightarrow> None | r \<Rightarrow> r))"

definition timeFuncPattern :: "jstring \<Rightarrow> (jstring \<times> jstring \<times> jstring) option" where
  "timeFuncPattern s =
     (case List.find (\<lambda>f. callPattern f s \<noteq> None) TIME_FUNCS of
        None \<Rightarrow> None
      | Some f \<Rightarrow> map_option (\<lambda>(tz, r). (f, tz, r)) (callPattern f s))"

definition timeRange :: "jstring \<Rightarrow> RequestCondition option" where
  "timeRange s = do {
     (f, tz, r) \<leftarrow> timeFuncPattern s;
     r1 \<leftarrow> strip (js '' >= '') r;
     (a, r2) \<leftarrow> many1 numChar r1;
     r3 \<leftarrow> strip (js '' || '' @ f @ [40, 34] @ tz @ [34, 41] @ js '' < '') r2;
     b \<leftarrow> numberEnd r3;
     Some (TimeCond \<lparr>tc_timeFunc = f, tc_timezone = tz, tc_mode = MATCH_RANGE, tc_value = [],
       tc_rangeStart = a, tc_rangeEnd = b\<rparr>) }"

definition timeCompare :: "jstring \<Rightarrow> RequestCondition option" where
  "timeCompare s = do {
     (f, tz, r) \<leftarrow> timeFuncPattern s;
     (mode, r1) \<leftarrow> (case strip (js '' == '') r of Some r1 \<Rightarrow> Some (MATCH_EQ, r1) | None \<Rightarrow>
       (case strip (js '' >= '') r of Some r1 \<Rightarrow> Some (MATCH_GTE, r1) | None \<Rightarrow>
         (case strip (js '' < '') r of Some r1 \<Rightarrow> Some (MATCH_LT, r1) | None \<Rightarrow> None)));
     v \<leftarrow> numberEnd r1;
     Some (TimeCond \<lparr>tc_timeFunc = f, tc_timezone = tz, tc_mode = mode, tc_value = v, tc_rangeStart = [], tc_rangeEnd = []\<rparr>) }"

definition tryParseTimeCondition :: "jstring \<Rightarrow> RequestCondition option" where
  "tryParseTimeCondition expr =
     (case timeRange expr of
        Some c \<Rightarrow> Some c
      | None \<Rightarrow>
          (case (if expr \<noteq> [] \<and> hd expr = 40 \<and> last expr = 41 \<and> length expr \<ge> 2
                 then timeRange (butlast (tl expr)) else None) of
             Some c \<Rightarrow> Some c
           | None \<Rightarrow> timeCompare expr))"

definition existsPattern :: "RuleSource \<Rightarrow> jstring \<Rightarrow> RequestCondition option" where
  "existsPattern source s = (case source of
     SourceHeader \<Rightarrow> do { (path, r) \<leftarrow> callPattern (js ''header'') s;
       r1 \<leftarrow> strip (js '' != '' @ [34, 34]) r;
       if r1 = [] then Some (ParamHeaderCond \<lparr>ph_source = SourceHeader, ph_path = path, ph_mode = MATCH_EXISTS, ph_value = []\<rparr>)
       else None }
   | SourceParam \<Rightarrow> do { (path, r) \<leftarrow> callPattern (js ''param'') s;
       r1 \<leftarrow> strip (js '' != nil'') r;
       if r1 = [] then Some (ParamHeaderCond \<lparr>ph_source = SourceParam, ph_path = path, ph_mode = MATCH_EXISTS, ph_value = []\<rparr>)
       else None })"

text \<open>The two patterns with \<open>has(...)\<close>: the path and the quoted text.\<close>

definition headerContains :: "jstring \<Rightarrow> (jstring \<times> jstring) option" where
  "headerContains s = do {
     r \<leftarrow> strip (js ''has('') s;
     (path, r1) \<leftarrow> callPattern (js ''header'') r;
     r2 \<leftarrow> strip (js '', '') r1;
     (q, r3) \<leftarrow> quotedPattern r2;
     if r3 = [41] then Some (path, q) else None }"

definition paramContains :: "jstring \<Rightarrow> (jstring \<times> jstring) option" where
  "paramContains s = do {
     (path, r) \<leftarrow> callPattern (js ''param'') s;
     r1 \<leftarrow> strip (js '' != nil && has('') r;
     (path2, r2) \<leftarrow> callPattern (js ''param'') r1;
     r3 \<leftarrow> strip (js '', '') r2;
     (q, r4) \<leftarrow> quotedPattern r3;
     if r4 = [41] \<and> path = path2 then Some (path, q) else None }"

definition paramCompare :: "jstring \<Rightarrow> RequestCondition option" where
  "paramCompare s = do {
     (path, r) \<leftarrow> callPattern (js ''param'') s;
     r1 \<leftarrow> strip (js '' != nil && '') r;
     (path2, r2) \<leftarrow> callPattern (js ''param'') r1;
     (mode, r3) \<leftarrow> (case strip (js '' > '') r2 of Some u \<Rightarrow> Some (MATCH_GT, u) | None \<Rightarrow>
       (case strip (js '' >= '') r2 of Some u \<Rightarrow> Some (MATCH_GTE, u) | None \<Rightarrow>
         (case strip (js '' < '') r2 of Some u \<Rightarrow> Some (MATCH_LT, u) | None \<Rightarrow>
           (case strip (js '' <= '') r2 of Some u \<Rightarrow> Some (MATCH_LTE, u) | None \<Rightarrow> None))));
     v \<leftarrow> numberEnd r3;
     if path = path2 then Some (ParamHeaderCond \<lparr>ph_source = SourceParam, ph_path = path, ph_mode = mode, ph_value = v\<rparr>)
     else None }"

definition equalsPattern :: "jstring \<Rightarrow> (RuleSource \<times> jstring \<times> jstring) option" where
  "equalsPattern s =
     (case callPattern (js ''param'') s of
        Some (path, r) \<Rightarrow> map_option (\<lambda>u. (SourceParam, path, u)) (strip (js '' == '') r)
      | None \<Rightarrow> (case callPattern (js ''header'') s of
          Some (path, r) \<Rightarrow> map_option (\<lambda>u. (SourceHeader, path, u)) (strip (js '' == '') r)
        | None \<Rightarrow> None))"

definition tryParseRequestCondition :: "(jnum \<Rightarrow> jstring) \<Rightarrow> jstring \<Rightarrow> js_error + RequestCondition option" where
  "tryParseRequestCondition num_str expr =
     (let jsonString = (\<lambda>source path q. case JSON_parse q of
          Some (JStr v) \<Rightarrow> Inr (Some (ParamHeaderCond \<lparr>ph_source = source, ph_path = path, ph_mode = MATCH_CONTAINS, ph_value = v\<rparr>))
        | _ \<Rightarrow> Inl SyntaxError) in
      case tryParseTimeCondition expr of Some c \<Rightarrow> Inr (Some c) | None \<Rightarrow>
      (case existsPattern SourceHeader expr of Some c \<Rightarrow> Inr (Some c) | None \<Rightarrow>
      (case existsPattern SourceParam expr of Some c \<Rightarrow> Inr (Some c) | None \<Rightarrow>
      (case headerContains expr of Some (path, q) \<Rightarrow> jsonString SourceHeader path q | None \<Rightarrow>
      (case paramContains expr of Some (path, q) \<Rightarrow> jsonString SourceParam path q | None \<Rightarrow>
      (case paramCompare expr of Some c \<Rightarrow> Inr (Some c) | None \<Rightarrow>
      (case equalsPattern expr of
         None \<Rightarrow> Inr None
       | Some (source, path, text) \<Rightarrow>
           if text = [] \<or> list_ex lineTerminator text then Inr None
           else (case parseExprLiteral text of
              None \<Rightarrow> Inr None
            | Some v \<Rightarrow> map_sum id (\<lambda>t. Some (ParamHeaderCond
                \<lparr>ph_source = source, ph_path = path, ph_mode = MATCH_EQ, ph_value = t\<rparr>)) (to_string num_str v)))))))))"

text \<open>\<open>/^\((.+) \? ([\d.eE+-]+) : 1\)$/s\<close>: the condition and the multiplier, found from the end.\<close>

definition factorPattern :: "jstring \<Rightarrow> (jstring \<times> jstring) option" where
  "factorPattern part = do {
     s \<leftarrow> strip [40] part;
     r \<leftarrow> strip (rev (js '' : 1)'')) (rev s);
     (m, r1) \<leftarrow> many1 numChar r;
     r2 \<leftarrow> strip (rev (js '' ? '')) r1;
     if r2 = [] then None else Some (rev r2, rev m) }"

fun parseConditions :: "(jnum \<Rightarrow> jstring) \<Rightarrow> jstring list \<Rightarrow> js_error + RequestCondition list option" where
  "parseConditions num_str [] = Inr (Some [])"
| "parseConditions num_str (p # ps) = (case tryParseRequestCondition num_str (trim p) of
     Inl e \<Rightarrow> Inl e
   | Inr None \<Rightarrow> Inr None
   | Inr (Some c) \<Rightarrow> map_sum id (map_option ((#) c)) (parseConditions num_str ps))"

definition tryParseRuleGroupFactor :: "(jnum \<Rightarrow> jstring) \<Rightarrow> jstring \<Rightarrow> js_error + RequestRuleGroup option" where
  "tryParseRuleGroupFactor num_str part = (case factorPattern part of
     None \<Rightarrow> Inr None
   | Some (conditionStr, multiplier) \<Rightarrow>
       map_sum id (\<lambda>cs. case cs of
           None \<Rightarrow> None
         | Some conditions \<Rightarrow> if length conditions = 0 then None
             else Some \<lparr>rg_conditions = conditions, rg_multiplier = multiplier\<rparr>)
         (parseConditions num_str (splitTopLevelAnd conditionStr)))"

fun parseGroups :: "(jnum \<Rightarrow> jstring) \<Rightarrow> jstring list \<Rightarrow> js_error + RequestRuleGroup list option" where
  "parseGroups num_str [] = Inr (Some [])"
| "parseGroups num_str (p # ps) = (case tryParseRuleGroupFactor num_str p of
     Inl e \<Rightarrow> Inl e
   | Inr None \<Rightarrow> Inr None
   | Inr (Some g) \<Rightarrow> map_sum id (map_option ((#) g)) (parseGroups num_str ps))"

definition tryParseRequestRuleExpr :: "(jnum \<Rightarrow> jstring) \<Rightarrow> jstring \<Rightarrow> js_error + RequestRuleGroup list option" where
  "tryParseRequestRuleExpr num_str expr =
     (let trimmed = trim expr in
      if trimmed = [] then Inr (Some []) else parseGroups num_str (splitTopLevelMultiply trimmed))"

section \<open>Splitting and combining\<close>

fun outerScan :: "int \<Rightarrow> jstring \<Rightarrow> bool" where
  "outerScan depth [] = (depth = 0)"
| "outerScan depth (c # s) =
     (let depth' = depth + parenDepth c in if depth' = 0 \<and> s \<noteq> [] then False else outerScan depth' s)"

definition hasFullOuterParens :: "jstring \<Rightarrow> bool" where
  "hasFullOuterParens expr \<longleftrightarrow> startsWith expr [40] \<and> endsWith expr [41] \<and> outerScan 0 expr"

lemma trim_length: "length (trim s) \<le> length s"
  unfolding trim_def trim_end_def trim_start_def
  by (metis length_dropWhile_le length_rev order_trans)

function unwrapLoop :: "jstring \<Rightarrow> jstring" where
  "unwrapLoop current =
     (if hasFullOuterParens current then unwrapLoop (trim (butlast (tl current))) else current)"
  by pat_completeness auto
termination
proof (relation "measure length")
  fix s assume "hasFullOuterParens s"
  then have "s \<noteq> []" by (auto simp: hasFullOuterParens_def)
  then have "length (butlast (tl s)) < length s" by (cases s) auto
  then show "(trim (butlast (tl s)), s) \<in> measure length"
    using trim_length [of "butlast (tl s)"] by simp
qed simp

declare unwrapLoop.simps [simp del]

definition unwrapOuterParens :: "jstring \<Rightarrow> jstring" where
  "unwrapOuterParens expr = unwrapLoop (trim expr)"

record SplitBilling =
  sb_billingExpr :: jstring
  sb_requestRuleExpr :: jstring

text \<open>\<open>parsed && parsed.length > 0\<close> for each part, in order, as an exception may end the loop.\<close>

fun classifyParts :: "(jnum \<Rightarrow> jstring) \<Rightarrow> jstring list \<Rightarrow> js_error + (jstring list \<times> jstring list)" where
  "classifyParts num_str [] = Inr ([], [])"
| "classifyParts num_str (p # ps) = (case tryParseRequestRuleExpr num_str p of
     Inl e \<Rightarrow> Inl e
   | Inr parsed \<Rightarrow> map_sum id
       (\<lambda>(rules, bases). if parsed \<noteq> None \<and> parsed \<noteq> Some [] then (p # rules, bases) else (rules, p # bases))
       (classifyParts num_str ps))"

definition splitBillingExprAndRequestRules :: "(jnum \<Rightarrow> jstring) \<Rightarrow> jstring \<Rightarrow> js_error + SplitBilling" where
  "splitBillingExprAndRequestRules num_str expr =
     (let trimmed = trim expr; parts = splitTopLevelMultiply trimmed in
      if trimmed = [] then Inr \<lparr>sb_billingExpr = [], sb_requestRuleExpr = []\<rparr>
      else if length parts \<le> 1 then Inr \<lparr>sb_billingExpr = trimmed, sb_requestRuleExpr = []\<rparr>
      else map_sum id (\<lambda>(ruleParts, baseParts).
          if length ruleParts = 0 \<or> length baseParts \<noteq> 1 then \<lparr>sb_billingExpr = trimmed, sb_requestRuleExpr = []\<rparr>
          else \<lparr>sb_billingExpr = unwrapOuterParens (hd baseParts), sb_requestRuleExpr = join (js '' * '') ruleParts\<rparr>)
        (classifyParts num_str parts))"

definition combineBillingExpr :: "jstring \<Rightarrow> jstring \<Rightarrow> jstring" where
  "combineBillingExpr baseExpr requestRuleExpr =
     (let base = trim baseExpr; rules = trim requestRuleExpr in
      if base = [] then [] else if rules = [] then base
      else [40] @ base @ js '') * '' @ rules)"

section \<open>Building the text\<close>

definition buildExprLiteral :: "jstring \<Rightarrow> jstring \<Rightarrow> jstring" where
  "buildExprLiteral mode v =
     (let text = trim v in
      if mode = MATCH_CONTAINS then stringifyString text
      else if text = js ''true'' \<or> text = js ''false'' then text
      else if isNumericLiteral text then text
      else stringifyString text)"

definition buildTimeConditionExpr :: "TimeCondition \<Rightarrow> jstring" where
  "buildTimeConditionExpr cond = (case normalizeCondition (Some (toPartial (TimeCond cond))) of
     ParamHeaderCond _ \<Rightarrow> []
   | TimeCond n \<Rightarrow>
       (let tz = stringifyString (tc_timezone n); fn = tc_timeFunc n @ [40] @ tz @ [41] in
        if tc_mode n = MATCH_RANGE then
          (let s = trim (tc_rangeStart n); e = trim (tc_rangeEnd n) in
           if \<not> isNumericLiteral s \<or> \<not> isNumericLiteral e then []
           else fn @ js '' >= '' @ s @ js '' || '' @ fn @ js '' < '' @ e)
        else (let v = trim (tc_value n) in
          if \<not> isNumericLiteral v then []
          else fn @ js '' '' @ (if tc_mode n = MATCH_GTE then js ''>='' else if tc_mode n = MATCH_LT then js ''<'' else js ''=='')
            @ js '' '' @ v)))"

definition buildParamHeaderExpr :: "ParamHeaderCondition \<Rightarrow> jstring" where
  "buildParamHeaderExpr n =
     (let path = trim (ph_path n) in
      if path = [] then []
      else (let sourceExpr = (case ph_source n of SourceHeader \<Rightarrow> js ''header'' | SourceParam \<Rightarrow> js ''param'')
              @ [40] @ stringifyString path @ [41];
            literal = buildExprLiteral (ph_mode n) (ph_value n) in
        if ph_mode n = MATCH_EXISTS then
          sourceExpr @ js '' != '' @ (case ph_source n of SourceHeader \<Rightarrow> [34, 34] | SourceParam \<Rightarrow> js ''nil'')
        else if ph_mode n = MATCH_CONTAINS then
          (case ph_source n of
             SourceHeader \<Rightarrow> js ''has('' @ sourceExpr @ js '', '' @ literal @ [41]
           | SourceParam \<Rightarrow> sourceExpr @ js '' != nil && has('' @ sourceExpr @ js '', '' @ literal @ [41])
        else if ph_mode n \<in> {MATCH_GT, MATCH_GTE, MATCH_LT, MATCH_LTE} then
          (let numText = trim (ph_value n);
               opr = (if ph_mode n = MATCH_GT then js ''>'' else if ph_mode n = MATCH_GTE then js ''>=''
                 else if ph_mode n = MATCH_LT then js ''<'' else js ''<='') in
           if \<not> isNumericLiteral numText then []
           else sourceExpr @ js '' != nil && '' @ sourceExpr @ js '' '' @ opr @ js '' '' @ numText)
        else sourceExpr @ js '' == '' @ literal))"

definition buildRequestConditionExpr :: "RequestCondition \<Rightarrow> jstring" where
  "buildRequestConditionExpr cond = (case cond of
     TimeCond t \<Rightarrow> buildTimeConditionExpr t
   | ParamHeaderCond p \<Rightarrow> (case normalizeCondition (Some (toPartial cond)) of
       ParamHeaderCond n \<Rightarrow> buildParamHeaderExpr n
     | TimeCond _ \<Rightarrow> []))"

definition wrapAlternatives :: "jstring \<Rightarrow> jstring" where
  "wrapAlternatives e = (if str_includes e (js '' || '') then [40] @ e @ [41] else e)"

definition buildRuleGroupFactor :: "RequestRuleGroup \<Rightarrow> jstring" where
  "buildRuleGroupFactor ruleGroup =
     (let multiplier = trim (rg_multiplier ruleGroup);
          condExprs = filter (\<lambda>e. e \<noteq> []) (map buildRequestConditionExpr (rg_conditions ruleGroup)) in
      if \<not> isNumericLiteral multiplier then []
      else if length condExprs = 0 then []
      else (let combined = (if length condExprs = 1 then hd condExprs
                 else join (js '' && '') (map wrapAlternatives condExprs)) in
        [40] @ combined @ js '' ? '' @ multiplier @ js '' : 1)''))"

definition buildRequestRuleExpr :: "RequestRuleGroup list \<Rightarrow> jstring" where
  "buildRequestRuleExpr groups =
     join (js '' * '') (filter (\<lambda>f. f \<noteq> []) (map buildRuleGroupFactor groups))"

end
