(* ===== verification/Billing_Conditions.thy ===== *)
theory Billing_Conditions
  imports Billing_Rules
begin

text \<open>
  How the parser of request rules sees the texts that the editor builds: lemmas on the patterns, on
  numbers, on plain text and on the splitting loops, and the conditions that are read back one by one.
\<close>

section \<open>Lemmas on the patterns\<close>

lemma strip_append [simp]: "strip p (p @ s) = Some s"
  by (induction p) auto

lemma strip_self [simp]: "strip p p = Some []"
  by (induction p) auto

lemma strip_prefix: "strip p s = Some r \<longleftrightarrow> s = p @ r"
  by (induction p s rule: strip.induct) auto

lemma many1_append: "list_all P a \<Longrightarrow> a \<noteq> [] \<Longrightarrow> \<not> P c \<Longrightarrow> many1 P (a @ c # r) = Some (a, c # r)"
  by (auto simp: many1_def list_all_iff takeWhile_append2 dropWhile_append2)

lemma many1_all:
  assumes "list_all P a" "a \<noteq> []"
  shows "many1 P a = Some (a, [])"
proof -
  have all: "takeWhile P a = a" "dropWhile P a = []"
    using assms(1) by (simp_all add: takeWhile_eq_all_conv dropWhile_eq_Nil_conv list_all_iff)
  show ?thesis
    unfolding many1_def all using assms(2) by simp
qed

definition callText :: "jstring \<Rightarrow> jstring \<Rightarrow> jstring" where
  "callText name a = name @ [40, 34] @ a @ [34, 41]"

lemma callPattern_callText: "a \<noteq> [] \<Longrightarrow> 34 \<notin> set a \<Longrightarrow> callPattern name (callText name a @ r) = Some (a, r)"
proof -
  assume a: "a \<noteq> []" "34 \<notin> set a"
  have "strip (name @ [40, 34]) (callText name a @ r) = Some (a @ 34 # 41 # r)"
    by (simp add: callText_def strip_prefix)
  moreover have "many1 (\<lambda>c. c \<noteq> 34) (a @ 34 # 41 # r) = Some (a, 34 # 41 # r)"
    using a by (intro many1_append) (auto simp: list_all_iff)
  ultimately show ?thesis
    by (simp add: callPattern_def)
qed

lemma callPattern_other: "\<not> prefix (name @ [40, 34]) s \<Longrightarrow> callPattern name s = None"
  by (cases "strip (name @ [40, 34]) s") (auto simp: callPattern_def strip_prefix)

subsection \<open>Numbers\<close>

lemma numericMantissa_chars:
  assumes "numericMantissa t = Some r"
  shows "\<exists>a. t = a @ r \<and> a \<noteq> [] \<and> list_all numChar a"
proof -
  let ?ds = "takeWhile is_digit t" and ?u = "dropWhile is_digit t"
  have ds: "list_all numChar (takeWhile is_digit u)" for u
    by (auto simp: list_all_iff numChar_def dest: set_takeWhileD)
  show ?thesis
  proof (cases "?ds = []")
    case False
    have t: "t = ?ds @ ?u" by simp
    show ?thesis
    proof (cases "\<exists>v. ?u = 46 # v")
      case True
      then obtain v where v: "?u = 46 # v" by blast
      with assms False have "r = dropWhile is_digit v"
        by (simp add: numericMantissa_def Let_def)
      then have "t = (?ds @ 46 # takeWhile is_digit v) @ r"
        using t v by (metis append_Cons append_assoc takeWhile_dropWhile_id)
      then show ?thesis
        using ds [of t] ds [of v] by (intro exI [of _ "?ds @ 46 # takeWhile is_digit v"]) (simp add: numChar_def)
    next
      case no_point: False
      with assms False have "r = ?u"
        by (auto simp: numericMantissa_def Let_def split: list.splits if_splits)
      then show ?thesis
        using ds [of t] False t by (intro exI [of _ ?ds]) simp
    qed
  next
    case True
    then have "?u = t"
      by (metis append_Nil takeWhile_dropWhile_id)
    with assms True obtain v where v: "t = 46 # v" "r = dropWhile is_digit v"
      by (auto simp: numericMantissa_def Let_def split: list.splits if_splits)
    then have "t = (46 # takeWhile is_digit v) @ r"
      by simp
    then show ?thesis
      using ds [of v] by (intro exI [of _ "46 # takeWhile is_digit v"]) (simp add: numChar_def)
  qed
qed

lemma numericExponent_chars: "numericExponent r \<Longrightarrow> list_all numChar r"
  by (cases r; cases "tl r") (auto simp: numericExponent_def numChar_def list_all_iff Let_def split: if_splits)

lemma numeric_chars:
  assumes "isNumericLiteral s"
  shows "s \<noteq> [] \<and> list_all numChar s"
proof (cases "s \<noteq> [] \<and> hd s = 45")
  case True
  then obtain t where s: "s = 45 # t" by (cases s) auto
  with assms obtain r where "numericMantissa t = Some r" "numericExponent r"
    by (auto simp: isNumericLiteral_def split: option.splits)
  then show ?thesis
    using numericMantissa_chars [of t r] numericExponent_chars [of r] s by (auto simp: numChar_def)
next
  case False
  then have "(if s \<noteq> [] \<and> hd s = 45 then tl s else s) = s" by auto
  with assms obtain r where "numericMantissa s = Some r" "numericExponent r"
    unfolding isNumericLiteral_def by (auto split: option.splits)
  then show ?thesis
    using numericMantissa_chars [of s r] numericExponent_chars [of r] by auto
qed

lemma numChar_plain: "numChar c \<Longrightarrow> c \<noteq> 32 \<and> c \<noteq> 34 \<and> c \<noteq> 38 \<and> c \<noteq> 40 \<and> c \<noteq> 41 \<and> c \<noteq> 42 \<and> c \<noteq> 124 \<and> \<not> is_ws c"
  unfolding numChar_def is_digit_iff is_ws_def by (auto simp: word_le_nat_alt)

subsection \<open>Plain text\<close>

text \<open>Characters that need no escape and that none of the splitting loops looks at.\<close>

definition plainChar :: "jchar \<Rightarrow> bool" where
  "plainChar c \<longleftrightarrow> 32 \<le> c \<and> c \<notin> {34, 38, 40, 41, 42, 92, 124} \<and> \<not> highSurrogate c \<and> \<not> lowSurrogate c \<and> \<not> lineTerminator c"

definition plainText :: "jstring \<Rightarrow> bool" where
  "plainText s \<longleftrightarrow> list_all plainChar s \<and> trim s = s"

lemma escape_plain: "list_all plainChar s \<Longrightarrow> escapeString s = s"
proof (induction s rule: escapeString.induct)
  case (2 c)
  then show ?case by (auto simp: plainChar_def escapeChar_def lineTerminator_def word_le_nat_alt word_less_nat_alt)
next
  case (3 c d s)
  then show ?case by (auto simp: plainChar_def escapeChar_def lineTerminator_def word_le_nat_alt word_less_nat_alt)
qed simp

lemma stringify_plain: "list_all plainChar s \<Longrightarrow> stringifyString s = 34 # s @ [34]"
  by (simp add: stringifyString_def escape_plain)

lemma p_str_plain: "list_all plainChar s \<Longrightarrow> p_str (s @ 34 # r) = Some (s, r)"
  by (induction s) (auto simp: plainChar_def word_le_nat_alt word_less_nat_alt)

lemma JSON_parse_plain: "list_all plainChar s \<Longrightarrow> JSON_parse (34 # s @ [34]) = Some (JStr s)"
  by (simp add: JSON_parse_def p_value.simps skip_ws_def is_json_ws_def p_str_plain)

lemma quotedTail_plain: "list_all plainChar s \<Longrightarrow> quotedTail (s @ 34 # r) = Some (s @ [34], r)"
  by (induction s) (auto simp: plainChar_def)

subsection \<open>Splitting\<close>

definition depthSum :: "jstring \<Rightarrow> int" where
  "depthSum s = sum_list (map parenDepth s)"

lemma depthSum_simps [simp]: "depthSum [] = 0" "depthSum (c # s) = parenDepth c + depthSum s"
  "depthSum (s @ t) = depthSum s + depthSum t"
  by (simp_all add: depthSum_def)

lemma depthSum_none: "40 \<notin> set s \<Longrightarrow> 41 \<notin> set s \<Longrightarrow> depthSum s = 0"
  by (induction s) (auto simp: parenDepth_def)

text \<open>
  A text without the second character of the separator that does not end in a space is passed over;
  a separator outside of parentheses ends a part.
\<close>

lemma splitTop_skip:
  assumes "sep = 32 # x # sep'" "x \<notin> set s" "s \<noteq> [] \<Longrightarrow> last s \<noteq> 32"
  shows "splitTop sep d cur (s @ rest) = splitTop sep (d + depthSum s) (cur @ s) rest"
  using assms(2,3)
proof (induction s arbitrary: d cur)
  case (Cons c s)
  have "\<not> prefix sep (c # s @ rest)"
    using Cons.prems assms(1) by (cases s) auto
  then have "splitTop sep d cur ((c # s) @ rest) = splitTop sep (d + parenDepth c) (cur @ [c]) (s @ rest)"
    by (simp add: splitTop.simps)
  also have "\<dots> = splitTop sep (d + parenDepth c + depthSum s) ((cur @ [c]) @ s) rest"
    using Cons.prems by (intro Cons.IH) (auto split: if_splits)
  finally show ?case by (simp add: add.assoc)
qed simp

lemma splitTop_sep:
  assumes "sep = 32 # x # sep'"
  shows "splitTop sep 0 cur (sep @ rest) = trim cur # splitTop sep 0 [] rest"
  by (simp add: assms splitTop.simps parenDepth_def)

definition partText :: "jstring \<Rightarrow> bool" where
  "partText w \<longleftrightarrow> w \<noteq> [] \<and> \<not> is_ws (hd w) \<and> \<not> is_ws (last w) \<and> depthSum w = 0"

lemma partText_trim: "partText w \<Longrightarrow> trim w = w"
  by (simp add: partText_def trim_fixed)

lemma ws_space: "is_ws 32"
  by (simp add: is_ws_def)

lemma partText_last: "partText w \<Longrightarrow> last w \<noteq> 32 \<and> w \<noteq> [] \<and> depthSum w = 0"
  using ws_space by (auto simp: partText_def)

lemma splitTop_join:
  assumes "sep = 32 # x # sep'" "ws \<noteq> []" "list_all (\<lambda>w. partText w \<and> x \<notin> set w) ws"
  shows "splitTop sep 0 [] (join sep ws) = ws"
  using assms(2,3)
proof (induction ws rule: induct_list012)
  case (2 w)
  then show ?case
    using splitTop_skip [OF assms(1), of w 0 "[]" "[]"]
    by (simp add: partText_last partText_trim splitTop.simps)
next
  case (3 w v vs)
  then show ?case
    using splitTop_skip [OF assms(1), of w 0 "[]" "sep @ join sep (v # vs)"]
      splitTop_sep [OF assms(1), of w "join sep (v # vs)"]
    by (simp add: partText_last partText_trim)
qed simp

section \<open>The conditions that can be read back\<close>

definition nameText :: "jstring \<Rightarrow> bool" where
  "nameText s \<longleftrightarrow> plainText s \<and> s \<noteq> []"

definition supportedTime :: "TimeCondition \<Rightarrow> bool" where
  "supportedTime t \<longleftrightarrow> tc_timeFunc t \<in> set TIME_FUNCS \<and> nameText (tc_timezone t) \<and>
     (tc_mode t = MATCH_RANGE \<and> tc_value t = [] \<and> isNumericLiteral (tc_rangeStart t) \<and> isNumericLiteral (tc_rangeEnd t) \<or>
      tc_mode t \<in> {MATCH_EQ, MATCH_GTE, MATCH_LT} \<and> isNumericLiteral (tc_value t) \<and> tc_rangeStart t = [] \<and> tc_rangeEnd t = [])"

definition supportedParamHeader :: "ParamHeaderCondition \<Rightarrow> bool" where
  "supportedParamHeader p \<longleftrightarrow> nameText (ph_path p) \<and>
     (ph_mode p = MATCH_EXISTS \<and> ph_value p = [] \<or>
      ph_mode p = MATCH_CONTAINS \<and> ph_source p = SourceHeader \<and> plainText (ph_value p) \<or>
      ph_mode p = MATCH_EQ \<and> plainText (ph_value p))"

definition supported :: "RequestCondition \<Rightarrow> bool" where
  "supported c = (case c of TimeCond t \<Rightarrow> supportedTime t | ParamHeaderCond p \<Rightarrow> supportedParamHeader p)"

definition supportedGroup :: "RequestRuleGroup \<Rightarrow> bool" where
  "supportedGroup g \<longleftrightarrow> rg_conditions g \<noteq> [] \<and> list_all supported (rg_conditions g) \<and> isNumericLiteral (rg_multiplier g)"

lemma numeric_trim: "isNumericLiteral s \<Longrightarrow> trim s = s"
proof -
  assume "isNumericLiteral s"
  then have "s \<noteq> []" "list_all numChar s"
    using numeric_chars by auto
  then show ?thesis
    by (intro trim_fixed) (auto simp: list_all_iff numChar_plain)
qed

lemma nameText_facts:
  assumes "nameText s"
  shows "s \<noteq> []" "34 \<notin> set s" "list_all plainChar s" "trim s = s" "stringifyString s = 34 # s @ [34]"
  using assms by (auto simp: nameText_def plainText_def stringify_plain list_all_iff plainChar_def)

lemma mode_distinct:
  "MATCH_RANGE \<noteq> MATCH_EQ" "MATCH_RANGE \<noteq> MATCH_GTE" "MATCH_RANGE \<noteq> MATCH_LT" "MATCH_GTE \<noteq> MATCH_LT" "MATCH_GTE \<noteq> MATCH_EQ"
  "MATCH_LT \<noteq> MATCH_EQ" "MATCH_EXISTS \<noteq> MATCH_CONTAINS" "MATCH_EXISTS \<noteq> MATCH_EQ" "MATCH_CONTAINS \<noteq> MATCH_EQ"
  "MATCH_EQ \<noteq> MATCH_GT" "MATCH_EQ \<noteq> MATCH_LTE"
  by (simp_all add: match_defs js_def)

lemma normalize_time: "supportedTime t \<Longrightarrow> normalizeCondition (Some (toPartial (TimeCond t))) = TimeCond t"
  by (auto simp: normalizeCondition_def toPartial_def supportedTime_def nameText_facts(1) timeMatchModes_def or_str_def Let_def
      intro!: TimeCondition.equality)

lemma normalize_paramHeader:
  "supportedParamHeader p \<Longrightarrow> normalizeCondition (Some (toPartial (ParamHeaderCond p))) = ParamHeaderCond p"
  by (cases "ph_source p") (auto simp: normalizeCondition_def toPartial_def supportedParamHeader_def nameText_facts(1)
      getRequestRuleMatchOptions_def or_str_def Let_def js_def intro!: ParamHeaderCondition.equality)

definition sourceName :: "RuleSource \<Rightarrow> jstring" where
  "sourceName source = (case source of SourceHeader \<Rightarrow> js ''header'' | SourceParam \<Rightarrow> js ''param'')"

text \<open>The texts that are built.\<close>

lemma build_time:
  assumes "supportedTime t"
  shows "buildRequestConditionExpr (TimeCond t) =
    (let call = callText (tc_timeFunc t) (tc_timezone t) in
     if tc_mode t = MATCH_RANGE
     then call @ js '' >= '' @ tc_rangeStart t @ js '' || '' @ call @ js '' < '' @ tc_rangeEnd t
     else call @ js '' '' @ (if tc_mode t = MATCH_GTE then js ''>='' else if tc_mode t = MATCH_LT then js ''<'' else js ''=='')
       @ js '' '' @ tc_value t)"
  using assms normalize_time [OF assms]
  by (auto simp: buildRequestConditionExpr_def buildTimeConditionExpr_def supportedTime_def Let_def nameText_facts(5)
      numeric_trim callText_def mode_distinct)

lemma build_paramHeader:
  assumes "supportedParamHeader p"
  shows "buildRequestConditionExpr (ParamHeaderCond p) =
    (let call = callText (sourceName (ph_source p)) (ph_path p) in
     if ph_mode p = MATCH_EXISTS then
       call @ js '' != '' @ (case ph_source p of SourceHeader \<Rightarrow> [34, 34] | SourceParam \<Rightarrow> js ''nil'')
     else if ph_mode p = MATCH_CONTAINS then js ''has('' @ call @ js '', '' @ 34 # ph_value p @ [34] @ [41]
     else call @ js '' == '' @ buildExprLiteral MATCH_EQ (ph_value p))"
proof -
  have build: "buildRequestConditionExpr (ParamHeaderCond p) = buildParamHeaderExpr p"
    using normalize_paramHeader [OF assms] by (simp add: buildRequestConditionExpr_def)
  have path: "nameText (ph_path p)"
    using assms by (simp add: supportedParamHeader_def)
  note parts = build buildParamHeaderExpr_def Let_def nameText_facts(1,4,5) [OF path] callText_def sourceName_def
  consider (exists) "ph_mode p = MATCH_EXISTS" | (contains) "ph_mode p = MATCH_CONTAINS" "ph_source p = SourceHeader" "plainText (ph_value p)"
    | (eq) "ph_mode p = MATCH_EQ"
    using assms by (auto simp: supportedParamHeader_def)
  then show ?thesis
  proof cases
    case exists
    then show ?thesis by (simp add: parts)
  next
    case contains
    then have "buildExprLiteral MATCH_CONTAINS (ph_value p) = 34 # ph_value p @ [34]"
      by (simp add: buildExprLiteral_def plainText_def stringify_plain)
    with contains show ?thesis
      by (simp add: parts mode_distinct [symmetric])
  next
    case eq
    then show ?thesis
      by (simp add: parts mode_distinct mode_distinct [symmetric])
  qed
qed

section \<open>Reading a condition back\<close>

lemma callPattern_None:
  assumes "40 \<notin> set f" "40 \<notin> set g" "f \<noteq> g"
  shows "callPattern g (f @ 40 # rest) = None"
proof (rule callPattern_other)
  have "f = g" if "f @ 40 # rest = g @ 40 # u" for u
  proof -
    have "takeWhile (\<lambda>c. c \<noteq> 40) (h @ 40 # w) = h" if "40 \<notin> set h" for h w
      using that by (induction h) auto
    from this [OF assms(1), of rest] this [OF assms(2), of u] that show ?thesis by simp
  qed
  with assms(3) show "\<not> prefix (g @ [40, 34]) (f @ 40 # rest)"
    by (auto simp: prefix_def)
qed

lemma names_no_paren:
  "f \<in> set TIME_FUNCS \<Longrightarrow> 40 \<notin> set f \<and> f \<noteq> [] \<and> f \<noteq> js ''header'' \<and> f \<noteq> js ''param'' \<and> f \<noteq> js ''has'' \<and> hd f \<noteq> 40 \<and> \<not> is_ws (hd f)
     \<and> 38 \<notin> set f \<and> 42 \<notin> set f \<and> 41 \<notin> set f \<and> 124 \<notin> set f"
  "40 \<notin> set (js ''header'')" "40 \<notin> set (js ''param'')" "40 \<notin> set (js ''has'')"
  by (auto simp: TIME_FUNCS_def js_def is_ws_def)

lemma find_unique: "x \<in> set xs \<Longrightarrow> P x \<Longrightarrow> (\<And>y. y \<in> set xs \<Longrightarrow> y \<noteq> x \<Longrightarrow> \<not> P y) \<Longrightarrow> List.find P xs = Some x"
  by (induction xs) auto

lemma timeFuncPattern_callText:
  assumes "f \<in> set TIME_FUNCS" "a \<noteq> []" "34 \<notin> set a"
  shows "timeFuncPattern (callText f a @ r) = Some (f, a, r)"
proof -
  have "callPattern g (callText f a @ r) = None" if "g \<in> set TIME_FUNCS" "g \<noteq> f" for g
    using callPattern_None [of f g] names_no_paren(1) assms(1) that by (simp add: callText_def)
  moreover have "callPattern f (callText f a @ r) = Some (a, r)"
    using assms by (simp add: callPattern_callText)
  ultimately have "List.find (\<lambda>g. callPattern g (callText f a @ r) \<noteq> None) TIME_FUNCS = Some f"
    using assms(1) by (intro find_unique) auto
  then show ?thesis
    using assms by (simp add: timeFuncPattern_def callPattern_callText)
qed

lemma timeFuncPattern_None:
  assumes "40 \<notin> set f" "f \<notin> set TIME_FUNCS"
  shows "timeFuncPattern (f @ 40 # rest) = None"
proof -
  have "callPattern g (f @ 40 # rest) = None" if "g \<in> set TIME_FUNCS" for g
    using callPattern_None [of f g rest] names_no_paren(1) [OF that] assms that by auto
  then have "List.find (\<lambda>g. callPattern g (f @ 40 # rest) \<noteq> None) TIME_FUNCS = None"
    by (auto simp: find_None_iff)
  then show ?thesis by (simp add: timeFuncPattern_def)
qed

lemma time_None:
  assumes "40 \<notin> set f" "f \<notin> set TIME_FUNCS" "f \<noteq> []"
  shows "tryParseTimeCondition (f @ 40 # rest) = None"
  using assms timeFuncPattern_None [OF assms(1,2)]
  by (cases f) (auto simp: tryParseTimeCondition_def timeRange_def timeCompare_def)

lemma numberEnd_numeric: "isNumericLiteral v \<Longrightarrow> numberEnd v = Some v"
  using numeric_chars by (simp add: numberEnd_def)

lemma parse_range:
  assumes "supportedTime t" "tc_mode t = MATCH_RANGE"
  shows "timeRange (buildRequestConditionExpr (TimeCond t)) = Some (TimeCond t)"
proof -
  let ?call = "callText (tc_timeFunc t) (tc_timezone t)"
  let ?a = "tc_rangeStart t"
  let ?b = "tc_rangeEnd t"
  have facts: "tc_timeFunc t \<in> set TIME_FUNCS" "nameText (tc_timezone t)" "isNumericLiteral ?a" "isNumericLiteral ?b" "tc_value t = []"
    using assms by (auto simp: supportedTime_def mode_distinct)
  have built: "buildRequestConditionExpr (TimeCond t) = ?call @ js '' >= '' @ ?a @ js '' || '' @ ?call @ js '' < '' @ ?b"
    using build_time [OF assms(1)] assms(2) by (simp add: Let_def)
  have "many1 numChar (?a @ js '' || '' @ ?call @ js '' < '' @ ?b) = Some (?a, js '' || '' @ ?call @ js '' < '' @ ?b)"
    using many1_append [of numChar ?a 32] numeric_chars [OF facts(3)] numChar_plain [of 32] by (auto simp: js_def)
  moreover have "strip (js '' || '' @ tc_timeFunc t @ [40, 34] @ tc_timezone t @ [34, 41] @ js '' < '')
      (js '' || '' @ ?call @ js '' < '' @ ?b) = Some ?b"
    by (simp add: strip_prefix callText_def)
  ultimately show ?thesis
    unfolding built timeRange_def
    using facts timeFuncPattern_callText [OF facts(1) nameText_facts(1,2) [OF facts(2)]] assms(2)
    by (simp add: numberEnd_numeric)
qed

lemma parse_time:
  assumes "supportedTime t"
  shows "tryParseTimeCondition (buildRequestConditionExpr (TimeCond t)) = Some (TimeCond t)"
proof (cases "tc_mode t = MATCH_RANGE")
  case True
  then show ?thesis
    using parse_range [OF assms] by (simp add: tryParseTimeCondition_def)
next
  case False
  let ?call = "callText (tc_timeFunc t) (tc_timezone t)"
  let ?v = "tc_value t"
  have facts: "tc_timeFunc t \<in> set TIME_FUNCS" "nameText (tc_timezone t)" "isNumericLiteral ?v" "tc_rangeStart t = []" "tc_rangeEnd t = []"
    and mode: "tc_mode t \<in> {MATCH_EQ, MATCH_GTE, MATCH_LT}"
    using assms False by (auto simp: supportedTime_def)
  note built = build_time [OF assms] and func = timeFuncPattern_callText [OF facts(1) nameText_facts(1,2) [OF facts(2)]]
  have "many1 numChar ?v = Some (?v, [])"
    using numeric_chars [OF facts(3)] by (simp add: many1_all)
  then have "timeRange (buildRequestConditionExpr (TimeCond t)) = None"
    using False mode by (auto simp: built timeRange_def func js_def mode_distinct)
  moreover have "timeCompare (buildRequestConditionExpr (TimeCond t)) = Some (TimeCond t)"
    using False mode facts(3,4,5)
    by (auto simp: built timeCompare_def func js_def mode_distinct numberEnd_numeric intro!: TimeCondition.equality)
  moreover have "hd (buildRequestConditionExpr (TimeCond t)) \<noteq> 40"
    using names_no_paren(1) [OF facts(1)] False by (simp add: built callText_def Let_def)
  ultimately show ?thesis
    by (simp add: tryParseTimeCondition_def)
qed

lemma parse_wrapped_range:
  assumes "supportedTime t" "tc_mode t = MATCH_RANGE"
  shows "tryParseTimeCondition ([40] @ buildRequestConditionExpr (TimeCond t) @ [41]) = Some (TimeCond t)"
proof -
  have "timeRange ([40] @ buildRequestConditionExpr (TimeCond t) @ [41]) = None"
    using timeFuncPattern_None [of "[]"] by (auto simp: timeRange_def TIME_FUNCS_def js_def)
  then show ?thesis
    using parse_range [OF assms] by (simp add: tryParseTimeCondition_def)
qed

lemma equals_literal:
  assumes "plainText v"
  defines "l \<equiv> buildExprLiteral MATCH_EQ v"
  shows "l \<noteq> []" "\<not> list_ex lineTerminator l" "parseExprLiteral l = Some (JStr v)"
proof -
  have v: "trim v = v" "list_all plainChar v"
    using assms(1) by (simp_all add: plainText_def)
  have plain: "\<not> list_ex lineTerminator v"
    using v(2) by (auto simp: list_all_iff list_ex_iff plainChar_def)
  have l: "l = (if v = js ''true'' \<or> v = js ''false'' \<or> isNumericLiteral v then v else 34 # v @ [34])"
    using v by (auto simp: l_def buildExprLiteral_def stringify_plain mode_distinct [symmetric] Let_def)
  have q: "trim (34 # v @ [34]) = 34 # v @ [34]"
    by (intro trim_fixed) (auto simp: is_ws_def)
  have nn: "\<not> isNumericLiteral (34 # v @ [34])"
    using numeric_chars [of "34 # v @ [34]"] numChar_plain [of 34] by auto
  show "l \<noteq> []"
    using numeric_chars [of v] by (auto simp: l js_def)
  show "\<not> list_ex lineTerminator l"
    using plain by (auto simp: l lineTerminator_def)
  show "parseExprLiteral l = Some (JStr v)"
    using v q nn JSON_parse_plain [OF v(2)] by (auto simp: l parseExprLiteral_def Let_def js_def)
qed

lemma paramHeader_name:
  "sourceName src \<notin> set TIME_FUNCS" "40 \<notin> set (sourceName src)" "sourceName src \<noteq> []"
  by (cases src; simp add: sourceName_def TIME_FUNCS_def js_def)+

lemma paramHeader_not_time: "tryParseTimeCondition (callText (sourceName src) path @ r) = None"
  using time_None [OF paramHeader_name(2,1,3)] by (simp add: callText_def)

lemma paramHeader_not_has: "headerContains (callText (sourceName src) path @ r) = None"
  by (cases src) (simp_all add: headerContains_def sourceName_def callText_def js_def)

lemma paramHeader_other_call:
  "callPattern (js ''header'') (callText (js ''param'') a @ r) = None"
  "callPattern (js ''param'') (callText (js ''header'') a @ r) = None"
  using callPattern_None [OF names_no_paren(3,2)] callPattern_None [OF names_no_paren(2,3)] by (simp_all add: callText_def js_def)

lemma paramHeader_call:
  assumes "supportedParamHeader p"
  shows "callPattern (sourceName (ph_source p)) (callText (sourceName (ph_source p)) (ph_path p) @ r) = Some (ph_path p, r)"
  using assms nameText_facts by (auto simp: supportedParamHeader_def callPattern_callText)

lemma parse_exists:
  assumes "supportedParamHeader p" "ph_mode p = MATCH_EXISTS" "ph_value p = []"
  shows "tryParseRequestCondition num_str (buildRequestConditionExpr (ParamHeaderCond p)) = Inr (Some (ParamHeaderCond p))"
proof (cases "ph_source p")
  let ?e = "buildRequestConditionExpr (ParamHeaderCond p)"
  note built = build_paramHeader [OF assms(1), unfolded Let_def] and call = paramHeader_call [OF assms(1)]
  note noTime = paramHeader_not_time [of "ph_source p" "ph_path p"]
  {
    case SourceHeader
    with assms built have e: "?e = callText (js ''header'') (ph_path p) @ js '' != '' @ [34, 34]"
      by (simp add: sourceName_def)
    have "existsPattern SourceHeader ?e = Some (ParamHeaderCond p)"
      using call SourceHeader assms by (simp add: e existsPattern_def sourceName_def)
    with noTime SourceHeader show ?thesis
      by (simp add: tryParseRequestCondition_def sourceName_def e)
  next
    case SourceParam
    with assms built have e: "?e = callText (js ''param'') (ph_path p) @ js '' != '' @ js ''nil''"
      by (simp add: sourceName_def)
    have "existsPattern SourceParam ?e = Some (ParamHeaderCond p)"
      using call SourceParam assms by (simp add: e existsPattern_def sourceName_def js_def)
    moreover have "existsPattern SourceHeader ?e = None"
      by (simp add: e existsPattern_def paramHeader_other_call)
    ultimately show ?thesis
      using noTime SourceParam by (simp add: tryParseRequestCondition_def sourceName_def e)
  }
qed

lemma parse_contains:
  assumes "supportedParamHeader p" "ph_mode p = MATCH_CONTAINS" "ph_source p = SourceHeader" "plainText (ph_value p)"
  shows "tryParseRequestCondition num_str (buildRequestConditionExpr (ParamHeaderCond p)) = Inr (Some (ParamHeaderCond p))"
proof -
  let ?e = "buildRequestConditionExpr (ParamHeaderCond p)"
  let ?rest = "callText (js ''header'') (ph_path p) @ js '', '' @ 34 # ph_value p @ [34, 41]"
  have plain: "list_all plainChar (ph_value p)"
    using assms(4) by (simp add: plainText_def)
  have e: "?e = js ''has'' @ 40 # ?rest"
    using build_paramHeader [OF assms(1), unfolded Let_def] assms by (simp add: mode_distinct [symmetric] sourceName_def js_def)
  have "tryParseTimeCondition ?e = None"
    unfolding e by (rule time_None) (simp_all add: js_def TIME_FUNCS_def)
  moreover have "callPattern (js ''header'') ?e = None" "callPattern (js ''param'') ?e = None"
    unfolding e by (rule callPattern_None; simp add: js_def)+
  then have "existsPattern SourceHeader ?e = None" "existsPattern SourceParam ?e = None"
    by (simp_all add: existsPattern_def)
  moreover have "headerContains ?e = Some (ph_path p, 34 # ph_value p @ [34])"
  proof -
    have "strip (js ''has('') ?e = Some ?rest"
      by (simp add: e strip_prefix js_def)
    moreover have "callPattern (js ''header'') ?rest = Some (ph_path p, js '', '' @ 34 # ph_value p @ [34, 41])"
      using paramHeader_call [OF assms(1)] assms(3) by (simp add: sourceName_def)
    moreover have "quotedPattern (34 # ph_value p @ [34, 41]) = Some (34 # ph_value p @ [34], [41])"
      using quotedTail_plain [OF plain, of "[41]"] by (simp add: quotedPattern_def)
    ultimately show ?thesis by (simp add: headerContains_def)
  qed
  ultimately show ?thesis
    using assms JSON_parse_plain [OF plain] by (simp add: tryParseRequestCondition_def)
qed

lemma parse_equals:
  assumes "supportedParamHeader p" "ph_mode p = MATCH_EQ" "plainText (ph_value p)"
  shows "tryParseRequestCondition num_str (buildRequestConditionExpr (ParamHeaderCond p)) = Inr (Some (ParamHeaderCond p))"
proof -
  let ?e = "buildRequestConditionExpr (ParamHeaderCond p)"
  let ?l = "buildExprLiteral MATCH_EQ (ph_value p)"
  have e: "?e = callText (sourceName (ph_source p)) (ph_path p) @ js '' == '' @ ?l"
    using build_paramHeader [OF assms(1), unfolded Let_def] assms(2) by (simp add: mode_distinct [symmetric])
  have stripped: "strip (js '' != '' @ x) (js '' == '' @ y) = None" "strip (js '' != nil'') (js '' == '' @ y) = None"
    "strip (js '' != nil && has('') (js '' == '' @ y) = None" "strip (js '' != nil && '') (js '' == '' @ y) = None" for x y
    by (simp_all add: js_def)
  have "existsPattern SourceHeader ?e = None" "existsPattern SourceParam ?e = None" "paramContains ?e = None"
    "paramCompare ?e = None" "equalsPattern ?e = Some (ph_source p, ph_path p, ?l)"
    using paramHeader_call [OF assms(1)] paramHeader_other_call
    by (cases "ph_source p"; simp add: e existsPattern_def paramContains_def paramCompare_def
        equalsPattern_def sourceName_def stripped)+
  then show ?thesis
    using equals_literal [OF assms(3)] assms(2) paramHeader_not_time paramHeader_not_has
    by (simp add: tryParseRequestCondition_def flip: e) (simp add: e)
qed

lemma parse_paramHeader:
  assumes "supportedParamHeader p"
  shows "tryParseRequestCondition num_str (buildRequestConditionExpr (ParamHeaderCond p)) = Inr (Some (ParamHeaderCond p))"
proof -
  consider (exists) "ph_mode p = MATCH_EXISTS" "ph_value p = []"
    | (contains) "ph_mode p = MATCH_CONTAINS" "ph_source p = SourceHeader" "plainText (ph_value p)"
    | (eq) "ph_mode p = MATCH_EQ" "plainText (ph_value p)"
    using assms by (auto simp: supportedParamHeader_def)
  then show ?thesis
    by cases (simp_all add: parse_exists parse_contains parse_equals assms)
qed

lemma parse_condition:
  assumes "supported c"
  shows "tryParseRequestCondition num_str (buildRequestConditionExpr c) = Inr (Some c)"
  using assms parse_time parse_paramHeader by (cases c) (auto simp: supported_def tryParseRequestCondition_def)

end
