(* ===== verification/Billing_Properties.thy ===== *)
theory Billing_Properties
  imports Billing_Conditions
begin

text \<open>
  Whole rule expressions: groups are read back, a base expression and its rules are taken apart the
  way they were combined, and comparisons of parameters are not read back.
\<close>

section \<open>Reading groups back\<close>

definition quiet :: "jstring \<Rightarrow> bool" where
  "quiet s \<longleftrightarrow> set s \<inter> {38, 40, 41, 42, 124} = {}"

lemma quiet_append [simp]: "quiet (s @ t) \<longleftrightarrow> quiet s \<and> quiet t"
  and quiet_Cons [simp]: "quiet (c # s) \<longleftrightarrow> c \<notin> {38, 40, 41, 42, 124} \<and> quiet s"
  and quiet_Nil [simp]: "quiet []"
  by (auto simp: quiet_def)

lemma quiet_depth: "quiet s \<Longrightarrow> depthSum s = 0"
  by (rule depthSum_none) (auto simp: quiet_def)

lemma quiet_parts:
  "isNumericLiteral v \<Longrightarrow> quiet v" "list_all plainChar v \<Longrightarrow> quiet v" "f \<in> set TIME_FUNCS \<Longrightarrow> quiet f"
  "quiet (sourceName src)" "plainText v \<Longrightarrow> quiet (buildExprLiteral MATCH_EQ v)"
proof -
  show num: "isNumericLiteral v \<Longrightarrow> quiet v" for v
    using numeric_chars [of v] numChar_plain by (fastforce simp: quiet_def list_all_iff)
  show plain: "list_all plainChar v \<Longrightarrow> quiet v" for v
    by (auto simp: quiet_def list_all_iff plainChar_def)
  show "f \<in> set TIME_FUNCS \<Longrightarrow> quiet f"
    using names_no_paren(1) by (auto simp: quiet_def)
  show "quiet (sourceName src)"
    by (cases src) (simp_all add: sourceName_def js_def)
  show "plainText v \<Longrightarrow> quiet (buildExprLiteral MATCH_EQ v)"
    using num [of v] plain [of v]
    by (auto simp: plainText_def buildExprLiteral_def mode_distinct [symmetric] Let_def stringify_plain js_def)
qed

text \<open>What the splitting loops need to know of a condition.\<close>

definition condText :: "jstring \<Rightarrow> bool" where
  "condText e \<longleftrightarrow> partText e \<and> 38 \<notin> set e \<and> 42 \<notin> set e"

lemma last_not_ws:
  "isNumericLiteral v \<Longrightarrow> v \<noteq> [] \<and> \<not> is_ws (last v)"
  "plainText v \<Longrightarrow> \<not> is_ws (last (buildExprLiteral MATCH_EQ v)) \<and> buildExprLiteral MATCH_EQ v \<noteq> []"
proof -
  show num: "isNumericLiteral v \<Longrightarrow> v \<noteq> [] \<and> \<not> is_ws (last v)" for v
    using numeric_chars [of v] numChar_plain [of "last v"] by (auto simp: list_all_iff)
  assume v: "plainText v"
  then show "\<not> is_ws (last (buildExprLiteral MATCH_EQ v)) \<and> buildExprLiteral MATCH_EQ v \<noteq> []"
    using num [of v] equals_literal(1) [OF v]
    by (auto simp: plainText_def buildExprLiteral_def mode_distinct [symmetric] Let_def stringify_plain js_def is_ws_def)
qed

lemma time_text:
  assumes "supportedTime t"
  shows "condText (buildRequestConditionExpr (TimeCond t))
    \<and> str_includes (buildRequestConditionExpr (TimeCond t)) (js '' || '') = (tc_mode t = MATCH_RANGE)"
proof -
  let ?f = "tc_timeFunc t"
  have f: "?f \<in> set TIME_FUNCS" and tz: "list_all plainChar (tc_timezone t)"
    using assms nameText_facts(3) by (auto simp: supportedTime_def)
  note q = quiet_parts(3) [OF f] quiet_parts(2) [OF tz]
  have hd: "?f \<noteq> []" "\<not> is_ws (hd ?f)"
    using names_no_paren(1) [OF f] by auto
  show ?thesis
  proof (cases "tc_mode t = MATCH_RANGE")
    case True
    let ?a = "tc_rangeStart t"
    let ?b = "tc_rangeEnd t"
    have num: "isNumericLiteral ?a" "isNumericLiteral ?b"
      using assms True by (auto simp: supportedTime_def mode_distinct)
    let ?u = "callText ?f (tc_timezone t) @ js '' >= '' @ ?a"
    let ?w = "callText ?f (tc_timezone t) @ js '' < '' @ ?b"
    have e: "buildRequestConditionExpr (TimeCond t) = ?u @ js '' || '' @ ?w"
      using build_time [OF assms] True by (simp add: Let_def)
    have "str_includes (?u @ js '' || '' @ ?w) (js '' || '')"
      unfolding str_includes_iff_sublist by (rule sublist_appendI)
    moreover have "condText (?u @ js '' || '' @ ?w)"
      using q quiet_parts(1) [OF num(1)] quiet_parts(1) [OF num(2)] last_not_ws(1) [OF num(2)] hd
      by (auto simp: condText_def partText_def callText_def js_def quiet_depth parenDepth_def) (auto simp: quiet_def)
    ultimately show ?thesis
      using True e by simp
  next
    case False
    let ?v = "tc_value t"
    have num: "isNumericLiteral ?v"
      using assms False by (auto simp: supportedTime_def)
    have e: "buildRequestConditionExpr (TimeCond t) = callText ?f (tc_timezone t) @ js '' '' @
        (if tc_mode t = MATCH_GTE then js ''>='' else if tc_mode t = MATCH_LT then js ''<'' else js ''=='') @ js '' '' @ ?v"
      using build_time [OF assms] False by (simp add: Let_def)
    have "124 \<notin> set (buildRequestConditionExpr (TimeCond t))"
      using q quiet_parts(1) [OF num] by (auto simp: e callText_def quiet_def js_def split: if_splits)
    then have "\<not> str_includes (buildRequestConditionExpr (TimeCond t)) (js '' || '')"
      unfolding str_includes_iff_sublist by (auto simp: js_def dest: set_mono_sublist)
    moreover have "condText (buildRequestConditionExpr (TimeCond t))"
      using q quiet_parts(1) [OF num] last_not_ws(1) [OF num] hd
      by (auto simp: e condText_def partText_def callText_def js_def quiet_depth parenDepth_def) (auto simp: quiet_def)
    ultimately show ?thesis
      using False by simp
  qed
qed

lemma paramHeader_text:
  assumes "supportedParamHeader p"
  shows "condText (buildRequestConditionExpr (ParamHeaderCond p))
    \<and> \<not> str_includes (buildRequestConditionExpr (ParamHeaderCond p)) (js '' || '')"
proof -
  let ?e = "buildRequestConditionExpr (ParamHeaderCond p)"
  have path: "list_all plainChar (ph_path p)"
    using assms nameText_facts(3) by (auto simp: supportedParamHeader_def)
  have name: "sourceName (ph_source p) \<noteq> []" "\<not> is_ws (hd (sourceName (ph_source p)))"
    by (cases "ph_source p"; simp add: sourceName_def js_def is_ws_def)+
  note q = quiet_parts(2) [OF path] quiet_parts(4) [of "ph_source p"]
  note built = build_paramHeader [OF assms, unfolded Let_def]
  consider (exists) "ph_mode p = MATCH_EXISTS"
    | (contains) "ph_mode p = MATCH_CONTAINS" "plainText (ph_value p)" | (eq) "ph_mode p = MATCH_EQ" "plainText (ph_value p)"
    using assms by (auto simp: supportedParamHeader_def)
  then have "condText ?e \<and> 124 \<notin> set ?e"
  proof cases
    case exists
    then show ?thesis
      using q name by (cases "ph_source p")
        (auto simp: built condText_def partText_def callText_def js_def quiet_depth parenDepth_def is_ws_def, auto simp: quiet_def)
  next
    case contains
    then have "quiet (ph_value p)"
      using quiet_parts(2) by (simp add: plainText_def)
    with contains show ?thesis
      using q name
      by (auto simp: built mode_distinct [symmetric] condText_def partText_def callText_def js_def quiet_depth parenDepth_def is_ws_def)
        (auto simp: quiet_def)
  next
    case eq
    then show ?thesis
      using q name quiet_parts(5) [OF eq(2)] last_not_ws(2) [OF eq(2)]
      by (auto simp: built mode_distinct [symmetric] condText_def partText_def callText_def js_def quiet_depth parenDepth_def)
        (auto simp: quiet_def)
  qed
  then show ?thesis
    unfolding str_includes_iff_sublist by (auto simp: js_def dest: set_mono_sublist)
qed

lemma condition_text: "supported c \<Longrightarrow> condText (buildRequestConditionExpr c)"
  using time_text paramHeader_text by (cases c) (auto simp: supported_def)

lemma wrapped_condition:
  assumes "supported c"
  shows "condText (wrapAlternatives (buildRequestConditionExpr c)) \<and>
    tryParseRequestCondition num_str (wrapAlternatives (buildRequestConditionExpr c)) = Inr (Some c)"
proof (cases "str_includes (buildRequestConditionExpr c) (js '' || '')")
  case True
  then obtain t where t: "c = TimeCond t" "supportedTime t" "tc_mode t = MATCH_RANGE"
    using assms time_text paramHeader_text by (cases c) (auto simp: supported_def)
  have "condText ([40] @ buildRequestConditionExpr c @ [41])"
    using condition_text [OF assms] by (auto simp: condText_def partText_def parenDepth_def is_ws_def)
  then show ?thesis
    using True t parse_wrapped_range [OF t(2,3)] by (simp add: wrapAlternatives_def tryParseRequestCondition_def)
next
  case False
  then show ?thesis
    using condition_text [OF assms] parse_condition [OF assms] by (simp add: wrapAlternatives_def)
qed

lemma parseConditions_texts:
  assumes "list_all2 (\<lambda>e c. partText e \<and> tryParseRequestCondition num_str e = Inr (Some c)) es cs"
  shows "parseConditions num_str es = Inr (Some cs)"
  using assms by (induction rule: list_all2_induct) (auto simp: partText_trim)

lemma join_part:
  assumes "ws \<noteq> []" "list_all partText ws" "depthSum sep = 0"
  shows "partText (join sep ws)"
  using assms
proof (induction ws rule: induct_list012)
  case (3 w v vs)
  then show ?case by (auto simp: partText_def)
qed auto

lemma set_join: "set (join sep ws) \<subseteq> set sep \<union> \<Union>(set ` set ws)"
  by (induction sep ws rule: join.induct) auto

lemma factorPattern_text:
  assumes "comb \<noteq> []" "isNumericLiteral m"
  shows "factorPattern ([40] @ comb @ js '' ? '' @ m @ js '' : 1)'') = Some (comb, m)"
proof -
  have "many1 numChar (rev m @ 32 # 63 # 32 # rev comb) = Some (rev m, 32 # 63 # 32 # rev comb)"
    using numeric_chars [OF assms(2)] numChar_plain [of 32] by (intro many1_append) auto
  with assms(1) show ?thesis
    by (simp add: factorPattern_def js_def)
qed

lemma factor_text:
  assumes "list_all condText es" "es \<noteq> []" "isNumericLiteral m"
  defines "comb \<equiv> join (js '' && '') es"
  defines "f \<equiv> [40] @ comb @ js '' ? '' @ m @ js '' : 1)''"
  shows "partText f" "42 \<notin> set f" "factorPattern f = Some (comb, m)" "splitTopLevelAnd comb = es"
proof -
  have comb: "partText comb"
    unfolding comb_def using assms(1,2) by (intro join_part) (auto simp: list_all_iff condText_def js_def parenDepth_def)
  have "splitTop (js '' && '') 0 [] comb = es"
    unfolding comb_def using assms(1,2)
    by (intro splitTop_join [where x = 38]) (auto simp: js_def list_all_iff condText_def)
  then show "splitTopLevelAnd comb = es"
    using assms(1) by (auto simp: splitTopLevelAnd_def filter_id_conv list_all_iff condText_def partText_def)
  show "factorPattern f = Some (comb, m)"
    unfolding f_def using comb assms(3) by (intro factorPattern_text) (simp_all add: partText_def)
  have "42 \<notin> set comb"
    unfolding comb_def using set_join [of "js '' && ''" es] assms(1) by (fastforce simp: js_def list_all_iff condText_def)
  then show "42 \<notin> set f"
    using quiet_parts(1) [OF assms(3)] by (auto simp: f_def quiet_def js_def)
  show "partText f"
    using comb quiet_parts(1) [OF assms(3)]
    by (auto simp: f_def partText_def js_def parenDepth_def quiet_depth is_ws_def)
qed

lemma group_text:
  assumes "supportedGroup g"
  shows "partText (buildRuleGroupFactor g) \<and> 42 \<notin> set (buildRuleGroupFactor g) \<and>
    tryParseRuleGroupFactor num_str (buildRuleGroupFactor g) = Inr (Some g)"
proof -
  let ?cs = "rg_conditions g"
  let ?m = "rg_multiplier g"
  define es where "es = (if length ?cs = 1 then map buildRequestConditionExpr ?cs
    else map (\<lambda>c. wrapAlternatives (buildRequestConditionExpr c)) ?cs)"
  have g: "?cs \<noteq> []" "list_all supported ?cs" "isNumericLiteral ?m"
    using assms by (auto simp: supportedGroup_def)
  have texts: "list_all condText es" "es \<noteq> []"
    using g condition_text wrapped_condition by (auto simp: es_def list_all_iff)
  have parsed: "list_all2 (\<lambda>e c. partText e \<and> tryParseRequestCondition num_str e = Inr (Some c)) es ?cs"
    using g(2) condition_text wrapped_condition parse_condition
    by (auto simp: es_def list_all2_conv_all_nth list_all_length condText_def)
  have nonempty: "filter (\<lambda>e. e \<noteq> []) (map buildRequestConditionExpr ?cs) = map buildRequestConditionExpr ?cs"
    using g(2) condition_text by (force simp: filter_id_conv list_all_iff condText_def partText_def)
  let ?comb = "join (js '' && '') es"
  have built: "buildRuleGroupFactor g = [40] @ ?comb @ js '' ? '' @ ?m @ js '' : 1)''"
    unfolding buildRuleGroupFactor_def nonempty numeric_trim [OF g(3)] Let_def es_def
    using g(1,3) by (auto simp: comp_def length_Suc_conv)
  note f = factor_text [OF texts g(3)]
  have "tryParseRuleGroupFactor num_str (buildRuleGroupFactor g) = Inr (Some g)"
    using f(3,4) g parseConditions_texts [OF parsed] by (simp add: built tryParseRuleGroupFactor_def)
  with f(1,2) show ?thesis
    by (simp add: built)
qed

lemma parseGroups_texts:
  "list_all supportedGroup gs \<Longrightarrow> parseGroups num_str (map buildRuleGroupFactor gs) = Inr (Some gs)"
  using group_text by (induction gs) auto

lemma rule_expr_text:
  assumes "list_all supportedGroup gs" "gs \<noteq> []"
  shows "buildRequestRuleExpr gs = join (js '' * '') (map buildRuleGroupFactor gs)"
    "partText (buildRequestRuleExpr gs)"
    "splitTop (js '' * '') 0 [] (buildRequestRuleExpr gs) = map buildRuleGroupFactor gs"
proof -
  have parts: "list_all (\<lambda>w. partText w \<and> 42 \<notin> set w) (map buildRuleGroupFactor gs)"
    using assms(1) group_text by (auto simp: list_all_iff)
  then have "filter (\<lambda>f. f \<noteq> []) (map buildRuleGroupFactor gs) = map buildRuleGroupFactor gs"
    by (force simp: filter_id_conv list_all_iff partText_def)
  then show eq: "buildRequestRuleExpr gs = join (js '' * '') (map buildRuleGroupFactor gs)"
    by (simp add: buildRequestRuleExpr_def)
  show "partText (buildRequestRuleExpr gs)"
    unfolding eq using parts assms(2) by (intro join_part) (auto simp: list_all_iff js_def parenDepth_def)
  show "splitTop (js '' * '') 0 [] (buildRequestRuleExpr gs) = map buildRuleGroupFactor gs"
    unfolding eq using parts assms(2) by (intro splitTop_join [where x = 42]) (auto simp: js_def)
qed

lemma rule_expr_parse:
  assumes "list_all supportedGroup gs"
  shows "tryParseRequestRuleExpr num_str (buildRequestRuleExpr gs) = Inr (Some gs)"
proof (cases "gs = []")
  case True
  then show ?thesis
    by (simp add: buildRequestRuleExpr_def tryParseRequestRuleExpr_def)
next
  case False
  note t = rule_expr_text [OF assms False]
  have "splitTopLevelMultiply (buildRequestRuleExpr gs) = map buildRuleGroupFactor gs"
    using t(3) assms group_text by (force simp: splitTopLevelMultiply_def filter_id_conv list_all_iff partText_def)
  then show ?thesis
    using t(2) parseGroups_texts [OF assms] by (simp add: tryParseRequestRuleExpr_def partText_trim partText_last)
qed

section \<open>Combining with a base expression\<close>

text \<open>Parentheses are closed: no prefix closes more than it opens, and all are closed at the end.\<close>

definition balanced :: "jstring \<Rightarrow> bool" where
  "balanced s \<longleftrightarrow> list_all (\<lambda>n. 0 \<le> depthSum (take n s)) [0..<length s] \<and> depthSum s = 0"

lemma splitTop_inside:
  assumes "\<And>n. n \<le> length s \<Longrightarrow> 0 < d + depthSum (take n s)"
  shows "splitTop sep d cur (s @ rest) = splitTop sep (d + depthSum s) (cur @ s) rest"
  using assms
proof (induction s arbitrary: d cur)
  case (Cons c s)
  have "0 < d + parenDepth c"
    using Cons.prems [of 1] by simp
  then have "splitTop sep d cur ((c # s) @ rest) = splitTop sep (d + parenDepth c) (cur @ [c]) (s @ rest)"
    by (simp add: splitTop.simps)
  also have "\<dots> = splitTop sep (d + parenDepth c + depthSum s) ((cur @ [c]) @ s) rest"
  proof (rule Cons.IH)
    fix n assume "n \<le> length s"
    then show "0 < d + parenDepth c + depthSum (take n s)"
      using Cons.prems [of "Suc n"] by simp
  qed
  finally show ?case by (simp add: add.assoc)
qed simp

lemma balanced_take: "balanced s \<Longrightarrow> n \<le> length s \<Longrightarrow> 0 \<le> depthSum (take n s)"
  by (cases "n = length s") (auto simp: balanced_def list_all_iff)

lemma splitTop_parens:
  assumes "balanced s" "sep = 32 # sep'"
  shows "splitTop sep 0 cur ([40] @ s @ [41] @ rest) = splitTop sep 0 (cur @ [40] @ s @ [41]) rest"
proof -
  have "splitTop sep 0 cur ([40] @ s @ [41] @ rest) = splitTop sep 1 (cur @ [40]) (s @ 41 # rest)"
    using assms(2) by (simp add: splitTop.simps parenDepth_def)
  also have "\<dots> = splitTop sep (1 + depthSum s) ((cur @ [40]) @ s) (41 # rest)"
    using balanced_take [OF assms(1)] by (intro splitTop_inside) (fastforce simp: add_pos_nonneg)
  also have "\<dots> = splitTop sep 0 (cur @ [40] @ s @ [41]) rest"
    using assms by (simp add: splitTop.simps parenDepth_def balanced_def)
  finally show ?thesis .
qed

lemma outerScan_parens:
  assumes "\<And>n. n \<le> length s \<Longrightarrow> 0 < d + depthSum (take n s)" "d + depthSum s = 1"
  shows "outerScan d (s @ [41])"
  using assms
proof (induction s arbitrary: d)
  case (Cons c s)
  have "0 < d + parenDepth c"
    using Cons.prems(1) [of 1] by simp
  moreover have "outerScan (d + parenDepth c) (s @ [41])"
  proof (rule Cons.IH)
    show "d + parenDepth c + depthSum s = 1"
      using Cons.prems(2) by simp
    fix n assume "n \<le> length s"
    then show "0 < d + parenDepth c + depthSum (take n s)"
      using Cons.prems(1) [of "Suc n"] by simp
  qed
  ultimately show ?case by simp
qed (simp add: parenDepth_def)

lemma full_outer: "balanced s \<Longrightarrow> hasFullOuterParens ([40] @ s @ [41])"
  using balanced_take [of s] outerScan_parens [of s 1]
  by (auto simp: hasFullOuterParens_def parenDepth_def balanced_def suffix_def add_pos_nonneg)

lemma trim_parens: "trim ([40] @ s @ [41]) = [40] @ s @ [41]"
  by (intro trim_fixed) (auto simp: is_ws_def)

lemma unwrap_parens:
  assumes "balanced s" "trim s = s" "\<not> hasFullOuterParens s"
  shows "unwrapOuterParens ([40] @ s @ [41]) = s"
  using full_outer [OF assms(1)] assms(2,3)
  unfolding unwrapOuterParens_def trim_parens
  by (simp add: unwrapLoop.simps [of "40 # s @ [41]"] unwrapLoop.simps [of s] butlast_append)

text \<open>A parenthesised text that does not end like a factor is no rule.\<close>

lemma no_rule:
  assumes "balanced s" "\<not> suffix (js '' : 1'') s"
  shows "tryParseRequestRuleExpr num_str ([40] @ s @ [41]) = Inr None"
proof -
  have "splitTop (js '' * '') 0 [] ([40] @ s @ [41] @ []) = [[40] @ s @ [41]]"
    by (subst splitTop_parens [OF assms(1)]) (simp_all add: js_def splitTop.simps trim_parens [simplified])
  then have parts: "splitTopLevelMultiply ([40] @ s @ [41]) = [[40] @ s @ [41]]"
    by (simp add: splitTopLevelMultiply_def)
  have "strip (rev (js '' : 1)'')) (rev (s @ [41])) = None"
  proof (rule ccontr)
    assume "strip (rev (js '' : 1)'')) (rev (s @ [41])) \<noteq> None"
    then obtain r where "rev (s @ [41]) = rev (js '' : 1)'') @ r"
      by (auto simp: strip_prefix)
    then have "rev s = rev (js '' : 1'') @ r"
      by (simp add: js_def)
    then have "s = rev r @ js '' : 1''"
      by (metis rev_append rev_rev_ident)
    with assms(2) show False by (simp add: suffix_def)
  qed
  then have "factorPattern ([40] @ s @ [41]) = None"
    by (simp add: factorPattern_def)
  then show ?thesis
    using parts by (simp add: tryParseRequestRuleExpr_def trim_parens [simplified] tryParseRuleGroupFactor_def)
qed

lemma classify_factors:
  assumes "list_all supportedGroup gs"
  shows "classifyParts num_str (map buildRuleGroupFactor gs) = Inr (map buildRuleGroupFactor gs, [])"
  using assms
proof (induction gs)
  case (Cons g gs)
  have "tryParseRequestRuleExpr num_str (buildRuleGroupFactor g) = Inr (Some [g])"
    using rule_expr_parse [of "[g]"] rule_expr_text(1) [of "[g]"] Cons.prems by simp
  with Cons show ?case by simp
qed simp

lemma split_combined:
  assumes base: "base \<noteq> []" "trim base = base" "balanced base" "\<not> hasFullOuterParens base" "\<not> suffix (js '' : 1'') base"
    and gs: "list_all supportedGroup gs" "gs \<noteq> []"
  shows "splitBillingExprAndRequestRules num_str (combineBillingExpr base (buildRequestRuleExpr gs)) =
    Inr \<lparr>sb_billingExpr = base, sb_requestRuleExpr = buildRequestRuleExpr gs\<rparr>"
proof -
  let ?rules = "buildRequestRuleExpr gs"
  let ?base = "[40] @ base @ [41]"
  note rules = rule_expr_text [OF gs]
  have combined: "combineBillingExpr base ?rules = ?base @ js '' * '' @ ?rules"
    using base(1,2) rules(2) by (simp add: combineBillingExpr_def partText_trim partText_last js_def)
  have trimmed: "trim (?base @ js '' * '' @ ?rules) = ?base @ js '' * '' @ ?rules"
    using rules(2) by (intro trim_fixed) (auto simp: is_ws_def partText_def js_def)
  have "splitTop (js '' * '') 0 [] (?base @ js '' * '' @ ?rules) = ?base # map buildRuleGroupFactor gs"
  proof -
    have "splitTop (js '' * '') 0 [] ([40] @ base @ [41] @ js '' * '' @ ?rules) = splitTop (js '' * '') 0 ?base (js '' * '' @ ?rules)"
      using splitTop_parens [OF base(3), of "js '' * ''" "[42, 32]" "[]" "js '' * '' @ ?rules"] by (simp add: js_def)
    also have "\<dots> = trim ?base # splitTop (js '' * '') 0 [] ?rules"
      by (rule splitTop_sep [where x = 42 and sep' = "[32]"]) (simp add: js_def)
    finally show ?thesis
      using rules(3) trim_parens [of base] by simp
  qed
  then have parts: "splitTopLevelMultiply (?base @ js '' * '' @ ?rules) = ?base # map buildRuleGroupFactor gs"
    using gs(1) group_text by (force simp: splitTopLevelMultiply_def filter_id_conv list_all_iff partText_def)
  have classified: "classifyParts num_str (?base # map buildRuleGroupFactor gs) = Inr (map buildRuleGroupFactor gs, [?base])"
    using no_rule [OF base(3,5), of num_str] classify_factors [OF gs(1), of num_str] by simp
  show ?thesis
    unfolding splitBillingExprAndRequestRules_def combined Let_def trimmed parts classified
    using gs(2) unwrap_parens [OF base(3,2,4)] by (simp flip: rules(1))
qed

section \<open>Comparisons of parameters\<close>

text \<open>The two halves of a built comparison: the guard, and a text that matches no pattern.\<close>

definition guardText :: "jstring \<Rightarrow> jstring" where
  "guardText path = callText (js ''param'') path @ js '' != nil''"

lemma guard_parsed:
  assumes "nameText path"
  shows "condText (guardText path) \<and> (\<exists>c. tryParseRequestCondition num_str (guardText path) = Inr (Some c))"
proof -
  let ?p = "\<lparr>ph_source = SourceParam, ph_path = path, ph_mode = MATCH_EXISTS, ph_value = []\<rparr>"
  have p: "supportedParamHeader ?p"
    using assms by (simp add: supportedParamHeader_def)
  have "buildRequestConditionExpr (ParamHeaderCond ?p) = guardText path"
    using build_paramHeader [OF p] by (simp add: guardText_def sourceName_def js_def)
  then show ?thesis
    using paramHeader_text [OF p] parse_paramHeader [OF p] by auto
qed

lemma compare_half:
  assumes "nameText path" "isNumericLiteral v" "opr \<in> {js ''>'', js ''>='', js ''<'', js ''<=''}"
  shows "condText (callText (js ''param'') path @ js '' '' @ opr @ js '' '' @ v) \<and>
    tryParseRequestCondition num_str (callText (js ''param'') path @ js '' '' @ opr @ js '' '' @ v) = Inr None"
proof -
  let ?r = "js '' '' @ opr @ js '' '' @ v"
  let ?e = "callText (js ''param'') path @ ?r"
  note path = nameText_facts [OF assms(1)]
  have call: "callPattern (js ''param'') ?e = Some (path, ?r)" "callPattern (js ''header'') ?e = None"
  proof -
    show "callPattern (js ''param'') ?e = Some (path, ?r)"
      by (rule callPattern_callText [OF path(1,2)])
    show "callPattern (js ''header'') ?e = None"
      using callPattern_None [OF names_no_paren(3,2), of "[34] @ path @ [34, 41] @ ?r"] by (simp add: callText_def js_def)
  qed
  have "tryParseTimeCondition ?e = None"
    using time_None [OF names_no_paren(3), of "[34] @ path @ [34, 41] @ ?r"] by (simp add: callText_def TIME_FUNCS_def js_def)
  moreover have "headerContains ?e = None"
    by (simp add: headerContains_def callText_def js_def)
  moreover have "strip (js '' != nil'') ?r = None" "strip (js '' != nil && has('') ?r = None" "strip (js '' != nil && '') ?r = None"
    "strip (js '' == '') ?r = None"
    using assms(3) by (auto simp: js_def)
  then have "existsPattern SourceHeader ?e = None" "existsPattern SourceParam ?e = None" "paramContains ?e = None" "paramCompare ?e = None"
    "equalsPattern ?e = None"
    using call by (simp_all add: existsPattern_def paramContains_def paramCompare_def equalsPattern_def)
  moreover have "condText ?e"
    using assms(3) quiet_parts(1) [OF assms(2)] quiet_parts(2) [OF path(3)] last_not_ws(1) [OF assms(2)]
    by (auto simp: condText_def partText_def callText_def js_def quiet_depth parenDepth_def is_ws_def) (auto simp: quiet_def)
  ultimately show ?thesis
    by (simp add: tryParseRequestCondition_def)
qed

lemma contains_half:
  assumes "nameText path" "plainText v"
  shows "condText (js ''has('' @ callText (js ''param'') path @ js '', '' @ 34 # v @ [34, 41]) \<and>
    tryParseRequestCondition num_str (js ''has('' @ callText (js ''param'') path @ js '', '' @ 34 # v @ [34, 41]) = Inr None"
proof -
  let ?rest = "callText (js ''param'') path @ js '', '' @ 34 # v @ [34, 41]"
  let ?e = "js ''has('' @ ?rest"
  note path = nameText_facts [OF assms(1)]
  have e: "?e = js ''has'' @ 40 # ?rest"
    by (simp add: js_def)
  have "tryParseTimeCondition ?e = None"
    unfolding e by (rule time_None) (simp_all add: js_def TIME_FUNCS_def)
  moreover have "callPattern (js ''header'') ?e = None" "callPattern (js ''param'') ?e = None"
    unfolding e by (rule callPattern_None; simp add: js_def)+
  then have "existsPattern SourceHeader ?e = None" "existsPattern SourceParam ?e = None" "paramContains ?e = None" "paramCompare ?e = None"
    "equalsPattern ?e = None"
    by (simp_all add: existsPattern_def paramContains_def paramCompare_def equalsPattern_def)
  moreover have "callPattern (js ''header'') ?rest = None"
    using callPattern_None [OF names_no_paren(3,2), of "[34] @ path @ [34, 41] @ js '', '' @ 34 # v @ [34, 41]"]
    by (simp add: callText_def js_def)
  then have "headerContains ?e = None"
    by (simp add: headerContains_def)
  moreover have "condText ?e"
    using quiet_parts(2) [OF path(3)] quiet_parts(2) [of v] assms(2)
    by (auto simp: plainText_def condText_def partText_def callText_def js_def quiet_depth parenDepth_def is_ws_def)
      (auto simp: quiet_def)
  ultimately show ?thesis
    by (simp add: tryParseRequestCondition_def)
qed

lemma guarded_group:
  assumes "nameText path" "isNumericLiteral m" "condText half" "tryParseRequestCondition num_str half = Inr None"
    and "buildRequestConditionExpr c = guardText path @ js '' && '' @ half" "rg_conditions rule = [c]" "rg_multiplier rule = m"
  shows "buildRequestRuleExpr [rule] \<noteq> [] \<and> tryParseRequestRuleExpr num_str (buildRequestRuleExpr [rule]) = Inr None"
proof -
  have es: "list_all condText [guardText path, half]" "[guardText path, half] \<noteq> []"
    using guard_parsed [OF assms(1)] assms(3) by auto
  note f = factor_text [OF es assms(2)]
  let ?f = "[40] @ join (js '' && '') [guardText path, half] @ js '' ? '' @ m @ js '' : 1)''"
  have nonempty: "buildRequestConditionExpr c \<noteq> []"
    by (simp add: assms(5) js_def)
  have built: "buildRequestRuleExpr [rule] = ?f"
    using assms(2,5,6,7) nonempty
    by (simp add: buildRequestRuleExpr_def buildRuleGroupFactor_def numeric_trim Let_def)
  obtain g where "tryParseRequestCondition num_str (guardText path) = Inr (Some g)"
    using guard_parsed [OF assms(1)] by blast
  then have "parseConditions num_str [guardText path, half] = Inr None"
    using es(1) assms(4) by (simp add: condText_def partText_trim)
  then have "tryParseRuleGroupFactor num_str ?f = Inr None"
    using f(3,4) by (simp add: tryParseRuleGroupFactor_def)
  moreover have "splitTopLevelMultiply ?f = [?f]"
  proof -
    have "splitTop (js '' * '') 0 [] (join (js '' * '') [?f]) = [?f]"
      using f(1,2) by (intro splitTop_join [where x = 42]) (auto simp: js_def)
    then show ?thesis by (simp add: splitTopLevelMultiply_def)
  qed
  ultimately show ?thesis
    using f(1) unfolding built by (simp add: tryParseRequestRuleExpr_def partText_trim)
qed

text \<open>
  A quoted text with an escape that JSON does not know matches the pattern of a header condition, and
  \<open>JSON.parse\<close> throws there.
\<close>

lemma bad_escape_throws:
  "tryParseRequestRuleExpr num_str (js ''(has(header('' @ [34, 120, 34] @ js ''), '' @ [34, 92, 113, 34] @ js '') ? 2 : 1)'') =
    Inl SyntaxError"
  by code_simp

section \<open>Properties\<close>

text \<open>
  C14. The rule editor reads back what it writes: for groups with a numeric multiplier and conditions
  on the time, on the presence or the value of a parameter or header, or on the contents of a
  header, with plain names and values, parsing the built expression gives exactly the groups.
\<close>

theorem rule_expr_roundtrip:
  assumes "list_all supportedGroup gs"
  shows "tryParseRequestRuleExpr num_str (buildRequestRuleExpr gs) = Inr (Some gs)"
  by (rule rule_expr_parse [OF assms])

definition demo_group :: RequestRuleGroup where
  "demo_group = \<lparr>rg_conditions =
     [ParamHeaderCond \<lparr>ph_source = SourceHeader, ph_path = js ''beta'', ph_mode = MATCH_CONTAINS, ph_value = js ''x y''\<rparr>,
      TimeCond \<lparr>tc_timeFunc = js ''hour'', tc_timezone = js ''UTC'', tc_mode = MATCH_RANGE, tc_value = [],
        tc_rangeStart = js ''22'', tc_rangeEnd = js ''6''\<rparr>], rg_multiplier = js ''0.5''\<rparr>"

lemma demo_group_supported: "supportedGroup demo_group"
  by code_simp

theorem rule_expr_roundtrip_witness:
  "tryParseRequestRuleExpr (\<lambda>_. []) (buildRequestRuleExpr [demo_group]) = Inr (Some [demo_group])"
  by (rule rule_expr_roundtrip) (simp add: demo_group_supported)

text \<open>
  C15. A stored expression is taken apart the way it was put together: combining a base expression
  with built rules and splitting the result gives the base and the rules, for a trimmed base with
  closed parentheses that is not itself wrapped in parentheses and does not end like a rule.
\<close>

theorem billing_split_combine:
  assumes "base \<noteq> []" "trim base = base" "balanced base" "\<not> hasFullOuterParens base" "\<not> suffix (js '' : 1'') base"
    and "list_all supportedGroup gs" "gs \<noteq> []"
  shows "splitBillingExprAndRequestRules num_str (combineBillingExpr base (buildRequestRuleExpr gs)) =
    Inr \<lparr>sb_billingExpr = base, sb_requestRuleExpr = buildRequestRuleExpr gs\<rparr>"
  using assms by (rule split_combined)

theorem billing_split_combine_witness:
  "splitBillingExprAndRequestRules (\<lambda>_. []) (combineBillingExpr (js ''tier(1, p * 2)'') (buildRequestRuleExpr [demo_group])) =
    Inr \<lparr>sb_billingExpr = js ''tier(1, p * 2)'', sb_requestRuleExpr = buildRequestRuleExpr [demo_group]\<rparr>"
proof (rule billing_split_combine)
  show "js ''tier(1, p * 2)'' \<noteq> []" by simp
  show "trim (js ''tier(1, p * 2)'') = js ''tier(1, p * 2)''" by code_simp
  show "balanced (js ''tier(1, p * 2)'')" by code_simp
  show "\<not> hasFullOuterParens (js ''tier(1, p * 2)'')" by code_simp
  show "\<not> suffix (js '' : 1'') (js ''tier(1, p * 2)'')" by code_simp
  show "list_all supportedGroup [demo_group]" by (simp add: demo_group_supported)
qed simp

text \<open>
  C39. What the editor cannot read back: a rule that compares a parameter with a number, or looks
  for a text in a parameter, is built with a guard \<open>param(...) != nil &&\<close>; the parser splits there
  first, and the second half alone matches no pattern, so that the whole expression is rejected.
\<close>

theorem param_comparison_not_read_back:
  assumes "nameText path" "isNumericLiteral m"
    and "mode \<in> {MATCH_GT, MATCH_GTE, MATCH_LT, MATCH_LTE} \<and> isNumericLiteral v \<or> mode = MATCH_CONTAINS \<and> plainText v"
    and "rule = \<lparr>rg_conditions = [ParamHeaderCond \<lparr>ph_source = SourceParam, ph_path = path, ph_mode = mode, ph_value = v\<rparr>],
      rg_multiplier = m\<rparr>"
  shows "buildRequestRuleExpr [rule] \<noteq> [] \<and> tryParseRequestRuleExpr num_str (buildRequestRuleExpr [rule]) = Inr None"
proof -
  let ?p = "\<lparr>ph_source = SourceParam, ph_path = path, ph_mode = mode, ph_value = v\<rparr>"
  note path = nameText_facts [OF assms(1)]
  have "normalizeCondition (Some (toPartial (ParamHeaderCond ?p))) = ParamHeaderCond ?p"
    using assms(3) path(1) by (auto simp: normalizeCondition_def toPartial_def getRequestRuleMatchOptions_def or_str_def Let_def js_def)
  then have built: "buildRequestConditionExpr (ParamHeaderCond ?p) = buildParamHeaderExpr ?p"
    by (simp add: buildRequestConditionExpr_def)
  from assms(3) show ?thesis
  proof
    assume cmp: "mode \<in> {MATCH_GT, MATCH_GTE, MATCH_LT, MATCH_LTE} \<and> isNumericLiteral v"
    define opr where "opr = (if mode = MATCH_GT then js ''>'' else if mode = MATCH_GTE then js ''>=''
      else if mode = MATCH_LT then js ''<'' else js ''<='')"
    have "buildParamHeaderExpr ?p = guardText path @ js '' && '' @ callText (js ''param'') path @ js '' '' @ opr @ js '' '' @ v"
      using cmp path by (auto simp: buildParamHeaderExpr_def Let_def numeric_trim guardText_def callText_def opr_def match_defs js_def)
    moreover have "opr \<in> {js ''>'', js ''>='', js ''<'', js ''<=''}"
      by (simp add: opr_def)
    ultimately show ?thesis
      using compare_half [OF assms(1), of v opr num_str] cmp built assms(4)
      by (intro guarded_group [OF assms(1,2), where c = "ParamHeaderCond ?p"
            and half = "callText (js ''param'') path @ js '' '' @ opr @ js '' '' @ v"]) simp_all
  next
    assume has: "mode = MATCH_CONTAINS \<and> plainText v"
    then have "buildParamHeaderExpr ?p = guardText path @ js '' && '' @ js ''has('' @ callText (js ''param'') path @ js '', '' @ 34 # v @ [34, 41]"
      using path by (auto simp: buildParamHeaderExpr_def Let_def plainText_def buildExprLiteral_def stringify_plain guardText_def
          callText_def match_defs js_def)
    then show ?thesis
      using contains_half [OF assms(1), of v num_str] has built assms(4)
      by (intro guarded_group [OF assms(1,2), where c = "ParamHeaderCond ?p"
            and half = "js ''has('' @ callText (js ''param'') path @ js '', '' @ 34 # v @ [34, 41]"]) simp_all
  qed
qed

theorem param_comparison_not_read_back_witness:
  "tryParseRequestRuleExpr (\<lambda>_. []) (buildRequestRuleExpr [\<lparr>rg_conditions = [ParamHeaderCond
     \<lparr>ph_source = SourceParam, ph_path = js ''n'', ph_mode = MATCH_GT, ph_value = js ''5''\<rparr>], rg_multiplier = js ''2''\<rparr>]) = Inr None"
proof -
  have "nameText (js ''n'')" "isNumericLiteral (js ''2'')" "isNumericLiteral (js ''5'')"
    by code_simp+
  with param_comparison_not_read_back [of "js ''n''" "js ''2''" MATCH_GT "js ''5''", OF _ _ _ refl, of "\<lambda>_. []"] show ?thesis
    by simp
qed

end
