(* ===== verification/Advanced_Custom.thy ===== *)
theory Advanced_Custom
  imports JS_Stringify
begin

text \<open>
  \<open>features/channels/lib/advanced-custom.ts\<close>: the routes of an advanced custom channel. A
  configuration is stored as text and cast to its type after parsing, so that every field may hold any
  value: a configuration is a \<open>json\<close>, and operations that throw return a sum. The URL parser of the
  platform is the parameter \<open>URL\<close>, which gives the protocol and the host of a valid URL.
\<close>

section \<open>Converters and paths\<close>

definition CHANNEL_TYPE_ADVANCED_CUSTOM :: int where
  "CHANNEL_TYPE_ADVANCED_CUSTOM = 58"

definition ADVANCED_CUSTOM_CONVERTER_OPTIONS :: "(jstring \<times> jstring) list" where
  "ADVANCED_CUSTOM_CONVERTER_OPTIONS = map (map_prod js js)
     [(''none'', ''Native forwarding''),
      (''anthropic_messages_to_openai_chat_completions'', ''Anthropic Messages to OpenAI Chat''),
      (''openai_chat_completions_to_anthropic_messages'', ''OpenAI Chat to Anthropic Messages''),
      (''openai_chat_completions_to_openai_responses'', ''OpenAI Chat to OpenAI Responses''),
      (''openai_responses_to_openai_chat_completions'', ''OpenAI Responses to OpenAI Chat''),
      (''gemini_generate_content_to_openai_chat_completions'', ''Gemini Generate Content to OpenAI Chat''),
      (''openai_chat_completions_to_gemini_generate_content'', ''OpenAI Chat to Gemini Generate Content'')]"

definition ADVANCED_CUSTOM_AUTH_MODE_OPTIONS :: "(jstring \<times> jstring) list" where
  "ADVANCED_CUSTOM_AUTH_MODE_OPTIONS = map (map_prod js js)
     [(''default'', ''Default Bearer''), (''none'', ''No Auth''), (''header'', ''Header''), (''query'', ''Query'')]"

definition ADVANCED_CUSTOM_INCOMING_PATH_OPTIONS :: "(jstring \<times> jstring) list" where
  "ADVANCED_CUSTOM_INCOMING_PATH_OPTIONS = map (map_prod js js)
     [(''/v1/chat/completions'', ''OpenAI Chat''),
      (''/v1/responses'', ''OpenAI Responses''),
      (''/v1/responses/compact'', ''OpenAI Responses Compact''),
      (''/v1/embeddings'', ''OpenAI Embeddings''),
      (''/v1/images/generations'', ''OpenAI Image Generations''),
      (''/v1/images/edits'', ''OpenAI Image Edits''),
      (''/v1/completions'', ''OpenAI Completions''),
      (''/v1/audio/speech'', ''OpenAI Audio Speech''),
      (''/v1/audio/transcriptions'', ''OpenAI Audio Transcriptions''),
      (''/v1/audio/translations'', ''OpenAI Audio Translations''),
      (''/v1/rerank'', ''OpenAI Rerank''),
      (''/v1/realtime'', ''OpenAI Realtime''),
      (''/v1/messages'', ''Claude Messages''),
      (''/v1beta/models/{model}:generateContent'', ''Gemini Generate Content''),
      (''/v1beta/models/{model}:embedContent'', ''Gemini Embed Content''),
      (''/v1beta/models/{model}:batchEmbedContents'', ''Gemini Batch Embed Contents'')]"

definition ADVANCED_CUSTOM_ROUTE_SUMMARY_LABELS :: "(jstring \<times> jstring) list" where
  "ADVANCED_CUSTOM_ROUTE_SUMMARY_LABELS = [(js ''/v1/chat/completions'', js ''OpenAI Chat'')]"

record AdvancedCustomValidationError =
  av_message :: jstring
  av_routeIndex :: "nat option"

definition isAdvancedCustomConverter :: "json \<Rightarrow> bool" where
  "isAdvancedCustomConverter v \<longleftrightarrow> list_ex (\<lambda>(option, label). v = JStr option) ADVANCED_CUSTOM_CONVERTER_OPTIONS"

definition isConverterPathAllowed :: "jstring \<Rightarrow> json \<Rightarrow> bool" where
  "isConverterPathAllowed incomingPath converter =
     (if converter = JStr (js ''none'') then True
      else if converter = JStr (js ''anthropic_messages_to_openai_chat_completions'') then incomingPath = js ''/v1/messages''
      else if converter = JStr (js ''openai_chat_completions_to_anthropic_messages'')
        \<or> converter = JStr (js ''openai_chat_completions_to_openai_responses'')
        \<or> converter = JStr (js ''openai_chat_completions_to_gemini_generate_content'')
      then incomingPath = js ''/v1/chat/completions''
      else if converter = JStr (js ''openai_responses_to_openai_chat_completions'') then incomingPath = js ''/v1/responses''
      else str_includes incomingPath (js '':generateContent'') \<or> str_includes incomingPath (js '':streamGenerateContent''))"

definition getAdvancedCustomUpstreamPathPlaceholder :: "jstring \<Rightarrow> jstring" where
  "getAdvancedCustomUpstreamPathPlaceholder converter =
     (if converter = js ''openai_chat_completions_to_gemini_generate_content'' then js ''/v1beta/models/{model}:generateContent''
      else if converter = js ''openai_chat_completions_to_anthropic_messages'' then js ''/v1/messages''
      else if converter = js ''openai_responses_to_openai_chat_completions'' then js ''/v1/chat/completions''
      else js ''/v1/chat/completions'')"

definition getAdvancedCustomIncomingPathOptions :: "jstring \<Rightarrow> (jstring \<times> jstring) list" where
  "getAdvancedCustomIncomingPathOptions converter =
     filter (\<lambda>(path, label). isConverterPathAllowed path (JStr converter)) ADVANCED_CUSTOM_INCOMING_PATH_OPTIONS"

definition getDefaultAdvancedCustomIncomingPath :: "jstring \<Rightarrow> jstring" where
  "getDefaultAdvancedCustomIncomingPath converter = (case getAdvancedCustomIncomingPathOptions converter of
     [] \<Rightarrow> js ''/v1/chat/completions''
   | (path, label) # _ \<Rightarrow> or_str (Some path) (js ''/v1/chat/completions''))"

definition isAdvancedCustomIncomingPathAllowed :: "jstring \<Rightarrow> jstring \<Rightarrow> bool" where
  "isAdvancedCustomIncomingPathAllowed incomingPath converter = isConverterPathAllowed incomingPath (JStr converter)"

definition getAdvancedCustomConverterOptions :: "jstring \<Rightarrow> (jstring \<times> jstring) list" where
  "getAdvancedCustomConverterOptions incomingPath =
     filter (\<lambda>(option, label). option = js ''none'' \<or> isConverterPathAllowed (trim incomingPath) (JStr option))
       ADVANCED_CUSTOM_CONVERTER_OPTIONS"

definition getAdvancedCustomIncomingPathLabel :: "jstring \<Rightarrow> jstring" where
  "getAdvancedCustomIncomingPathLabel path = or_str (map_of ADVANCED_CUSTOM_INCOMING_PATH_OPTIONS path) path"

section \<open>Routes\<close>

abbreviation routeText :: "string \<Rightarrow> string \<Rightarrow> string \<Rightarrow> (jstring \<times> json) list" where
  "routeText incoming upstream converter \<equiv> [(js ''incoming_path'', JStr (js incoming)),
     (js ''upstream_path'', JStr (js upstream)), (js ''converter'', JStr (js converter))]"

definition bearerHeaderAuth :: json where
  "bearerHeaderAuth = JObj [(js ''type'', JStr (js ''header'')), (js ''name'', JStr (js ''Authorization'')),
     (js ''value'', JStr (js ''Bearer {api_key}''))]"

definition apiKeyHeaderAuth :: json where
  "apiKeyHeaderAuth = JObj [(js ''type'', JStr (js ''header'')), (js ''name'', JStr (js ''x-api-key'')),
     (js ''value'', JStr (js ''{api_key}''))]"

definition geminiQueryAuth :: json where
  "geminiQueryAuth = JObj [(js ''type'', JStr (js ''query'')), (js ''name'', JStr (js ''key'')),
     (js ''value'', JStr (js ''{api_key}''))]"

definition templateRoute :: "string \<Rightarrow> string \<Rightarrow> string \<Rightarrow> json \<Rightarrow> json" where
  "templateRoute incoming upstream converter auth = JObj (routeText incoming upstream converter @ [(js ''auth'', auth)])"

definition ADVANCED_CUSTOM_TEMPLATE_OPTIONS :: "(jstring \<times> json) list" where
  "ADVANCED_CUSTOM_TEMPLATE_OPTIONS = map (\<lambda>(key, routes). (js key, JObj [(js ''advanced_routes'', JArr routes)]))
     [(''official_openai_chat'', [templateRoute ''/v1/chat/completions'' ''/v1/chat/completions'' ''none'' bearerHeaderAuth]),
      (''official_openai_responses'', [templateRoute ''/v1/responses'' ''/v1/responses'' ''none'' bearerHeaderAuth]),
      (''official_openai_embeddings'', [templateRoute ''/v1/embeddings'' ''/v1/embeddings'' ''none'' bearerHeaderAuth]),
      (''official_openai_images'',
        [templateRoute ''/v1/images/generations'' ''/v1/images/generations'' ''none'' bearerHeaderAuth,
         templateRoute ''/v1/images/edits'' ''/v1/images/edits'' ''none'' bearerHeaderAuth]),
      (''official_claude_messages'', [templateRoute ''/v1/messages'' ''/v1/messages'' ''none'' apiKeyHeaderAuth]),
      (''official_gemini_native'',
        [templateRoute ''/v1beta/models/{model}:generateContent'' ''/v1beta/models/{model}:generateContent'' ''none'' geminiQueryAuth,
         templateRoute ''/v1beta/models/{model}:embedContent'' ''/v1beta/models/{model}:embedContent'' ''none'' geminiQueryAuth,
         templateRoute ''/v1beta/models/{model}:batchEmbedContents'' ''/v1beta/models/{model}:batchEmbedContents'' ''none'' geminiQueryAuth]),
      (''official_gemini_from_openai_chat'',
        [templateRoute ''/v1/chat/completions'' ''/v1beta/models/{model}:generateContent''
           ''openai_chat_completions_to_gemini_generate_content'' geminiQueryAuth])]"

text \<open>A clone by \<open>JSON.parse(JSON.stringify(config))\<close>; it throws only if the text cannot be parsed.\<close>

definition cloneAdvancedCustomConfig :: "(jnum \<Rightarrow> jstring) \<Rightarrow> json \<Rightarrow> js_error + json" where
  "cloneAdvancedCustomConfig num_str config = (case JSON_parse (JSON_stringify num_str config) of
     None \<Rightarrow> Inl SyntaxError | Some v \<Rightarrow> Inr v)"

definition getAdvancedCustomTemplateConfig :: "(jnum \<Rightarrow> jstring) \<Rightarrow> jstring \<Rightarrow> js_error + json" where
  "getAdvancedCustomTemplateConfig num_str templateKey =
     cloneAdvancedCustomConfig num_str
       (nullish (map_of ADVANCED_CUSTOM_TEMPLATE_OPTIONS templateKey) (snd (hd ADVANCED_CUSTOM_TEMPLATE_OPTIONS)))"

definition createAdvancedCustomRoute :: json where
  "createAdvancedCustomRoute = JObj (routeText ''/v1/chat/completions'' ''/v1/chat/completions'' ''none'')"

definition createAdvancedCustomConfig :: json where
  "createAdvancedCustomConfig = JObj [(js ''advanced_routes'', JArr [createAdvancedCustomRoute])]"

definition getAdvancedCustomRouteUpstreamPath :: "json \<Rightarrow> js_error + jstring" where
  "getAdvancedCustomRouteUpstreamPath route =
     bind_result (get_prop route (js ''upstream_path'')) (\<lambda>v. trim_json (or_json v (JStr [])))"

text \<open>A property with the value \<open>undefined\<close> is left out.\<close>

definition normalizedAuth :: "json \<Rightarrow> json" where
  "normalizedAuth auth = JObj
     ((case js_prop auth (js ''type'') of None \<Rightarrow> [] | Some t \<Rightarrow> [(js ''type'', t)]) @
      [(js ''name'', or_json (js_prop auth (js ''name'')) (JStr [])), (js ''value'', or_json (js_prop auth (js ''value'')) (JStr []))])"

definition normalizeAdvancedCustomRoute :: "json \<Rightarrow> js_error + json" where
  "normalizeAdvancedCustomRoute route =
     bind_result (getAdvancedCustomRouteUpstreamPath route) (\<lambda>upstream. Inr (JObj
       ([(js ''incoming_path'', or_json (js_prop route (js ''incoming_path'')) (JStr [])),
         (js ''upstream_path'', JStr upstream),
         (js ''converter'', or_json (js_prop route (js ''converter'')) (JStr (js ''none'')))] @
        (case js_prop route (js ''auth'') of
           None \<Rightarrow> [] | Some auth \<Rightarrow> if truthy auth then [(js ''auth'', normalizedAuth auth)] else []))))"

definition advancedRoutes :: "json \<Rightarrow> json list" where
  "advancedRoutes config = (case js_prop config (js ''advanced_routes'') of Some (JArr routes) \<Rightarrow> routes | _ \<Rightarrow> [])"

definition normalizeAdvancedCustomConfig :: "json \<Rightarrow> js_error + json" where
  "normalizeAdvancedCustomConfig config =
     map_sum id (\<lambda>routes. JObj [(js ''advanced_routes'', JArr routes)])
       (map_result normalizeAdvancedCustomRoute (advancedRoutes config))"

definition parseAdvancedCustomConfig :: "jstring option \<Rightarrow> json option" where
  "parseAdvancedCustomConfig v =
     (if trim (nullish v []) = [] then None
      else (case JSON_parse (nullish v []) of
          None \<Rightarrow> None
        | Some parsed \<Rightarrow> if plain_object parsed = None then None
            else (case normalizeAdvancedCustomConfig parsed of Inl _ \<Rightarrow> None | Inr config \<Rightarrow> Some config)))"

definition stringifyAdvancedCustomConfig :: "(jnum \<Rightarrow> jstring) \<Rightarrow> json \<Rightarrow> js_error + jstring" where
  "stringifyAdvancedCustomConfig num_str config = map_sum id (JSON_pretty num_str) (normalizeAdvancedCustomConfig config)"

section \<open>Validation\<close>

definition isFullHttpURLOrAbsolutePath :: "(jstring \<Rightarrow> (jstring \<times> jstring) option) \<Rightarrow> jstring \<Rightarrow> bool" where
  "isFullHttpURLOrAbsolutePath URL v =
     (if startsWith v (js ''/'') then \<not> startsWith v (js ''//'')
      else (case URL v of
          None \<Rightarrow> False
        | Some (protocol, host) \<Rightarrow> host \<noteq> [] \<and> (protocol = js ''http:'' \<or> protocol = js ''https:'')))"

text \<open>\<open>auth.name?.trim()\<close> on a value that may be missing: \<open>None\<close> is \<open>undefined\<close>.\<close>

definition optTrim :: "json option \<Rightarrow> js_error + jstring option" where
  "optTrim v = (case v of None \<Rightarrow> Inr None | Some JNull \<Rightarrow> Inr None | Some w \<Rightarrow> map_sum id Some (trim_json w))"

definition validateRouteAuth :: "json option \<Rightarrow> js_error + jstring option" where
  "validateRouteAuth auth =
     (if \<not> truthy_opt auth then Inr None
      else (let ty = js_prop (the auth) (js ''type'') in
        if ty = Some (JStr (js ''none'')) then Inr None
        else if ty \<noteq> Some (JStr (js ''header'')) \<and> ty \<noteq> Some (JStr (js ''query'')) then Inr (Some (js ''Auth type is invalid''))
        else bind_result (optTrim (js_prop (the auth) (js ''name''))) (\<lambda>name.
          if nullish name [] = [] then Inr (Some (js ''Auth name is required''))
          else bind_result (optTrim (js_prop (the auth) (js ''value''))) (\<lambda>v.
            if nullish v [] = [] then Inr (Some (js ''Auth value is required'')) else Inr None))))"

text \<open>The body of the loop for one route: the message of the first check that fails.\<close>

definition checkRoute ::
    "(jstring \<Rightarrow> (jstring \<times> jstring) option) \<Rightarrow> jstring list \<Rightarrow> jstring \<Rightarrow> jstring \<Rightarrow> json \<Rightarrow> js_error + jstring option" where
  "checkRoute URL seenPaths incomingPath upstreamPath route =
     (let converter = or_json (js_prop route (js ''converter'')) (JStr (js ''none'')) in
      if incomingPath = [] then Inr (Some (js ''Incoming path is required''))
      else if \<not> startsWith incomingPath (js ''/'') then Inr (Some (js ''Incoming path must start with /''))
      else if str_includes incomingPath (js ''?'') then Inr (Some (js ''Incoming path must not include query''))
      else if incomingPath \<in> set seenPaths then Inr (Some (js ''Incoming path must be unique''))
      else if upstreamPath = [] then Inr (Some (js ''Upstream path is required''))
      else if \<not> isFullHttpURLOrAbsolutePath URL upstreamPath
      then Inr (Some (js ''Upstream path must be a full URL or a path starting with /''))
      else if \<not> isAdvancedCustomConverter converter then Inr (Some (js ''Converter is not registered''))
      else if \<not> isConverterPathAllowed incomingPath converter then Inr (Some (js ''Converter does not match incoming path''))
      else validateRouteAuth (js_prop route (js ''auth'')))"

fun validateRoutes :: "(jstring \<Rightarrow> (jstring \<times> jstring) option) \<Rightarrow> nat \<Rightarrow> jstring list \<Rightarrow> json list \<Rightarrow>
    js_error + AdvancedCustomValidationError option" where
  "validateRoutes URL index seenPaths [] = Inr None"
| "validateRoutes URL index seenPaths (route # routes) =
     bind_result (optTrim (js_prop route (js ''incoming_path''))) (\<lambda>incoming.
     bind_result (getAdvancedCustomRouteUpstreamPath route) (\<lambda>upstreamPath.
     let incomingPath = nullish incoming [] in
     bind_result (checkRoute URL seenPaths incomingPath upstreamPath route) (\<lambda>message.
       case message of
         Some m \<Rightarrow> Inr (Some \<lparr>av_message = m, av_routeIndex = Some index\<rparr>)
       | None \<Rightarrow> validateRoutes URL (Suc index) (incomingPath # seenPaths) routes)))"

definition validateAdvancedCustomConfig ::
    "(jstring \<Rightarrow> (jstring \<times> jstring) option) \<Rightarrow> json option \<Rightarrow> js_error + AdvancedCustomValidationError option" where
  "validateAdvancedCustomConfig URL config = (case config of
     None \<Rightarrow> Inr (Some \<lparr>av_message = js ''Advanced custom configuration is required'', av_routeIndex = None\<rparr>)
   | Some c \<Rightarrow> bind_result (normalizeAdvancedCustomConfig c) (\<lambda>normalized.
       let routes = advancedRoutes normalized in
       if length routes = 0
       then Inr (Some \<lparr>av_message = js ''Advanced custom configuration requires at least one route'', av_routeIndex = None\<rparr>)
       else validateRoutes URL 0 [] routes))"

definition advancedCustomConfigUsesRelativeUpstreamPath :: "json option \<Rightarrow> js_error + bool" where
  "advancedCustomConfigUsesRelativeUpstreamPath config = (case config of
     None \<Rightarrow> Inr False
   | Some c \<Rightarrow> bind_result (normalizeAdvancedCustomConfig c) (\<lambda>normalized.
       map_sum id (list_ex (\<lambda>path. startsWith path (js ''/''))) (map_result getAdvancedCustomRouteUpstreamPath (advancedRoutes normalized))))"

record AdvancedCustomStats =
  as_routeCount :: nat
  as_valid :: bool
  as_routeTypeLabels :: "jstring list"

definition getAdvancedCustomRouteSummaryLabel :: "json \<Rightarrow> js_error + jstring option" where
  "getAdvancedCustomRouteSummaryLabel route =
     map_sum id (\<lambda>incoming. let incomingPath = nullish incoming [] in
         if incomingPath = [] then None
         else Some (or_str (map_of ADVANCED_CUSTOM_ROUTE_SUMMARY_LABELS incomingPath) (getAdvancedCustomIncomingPathLabel incomingPath)))
       (optTrim (js_prop route (js ''incoming_path'')))"

definition getAdvancedCustomStats ::
    "(jstring \<Rightarrow> (jstring \<times> jstring) option) \<Rightarrow> jstring option \<Rightarrow> js_error + AdvancedCustomStats" where
  "getAdvancedCustomStats URL v = (case parseAdvancedCustomConfig v of
     None \<Rightarrow> Inr \<lparr>as_routeCount = 0, as_valid = False, as_routeTypeLabels = []\<rparr>
   | Some config \<Rightarrow> bind_result (normalizeAdvancedCustomConfig config) (\<lambda>normalized.
       bind_result (map_result getAdvancedCustomRouteSummaryLabel (advancedRoutes normalized)) (\<lambda>labels.
       map_sum id (\<lambda>problem. \<lparr>as_routeCount = length (advancedRoutes normalized), as_valid = (problem = None),
           as_routeTypeLabels = dedup (filter (\<lambda>l. l \<noteq> []) (List.map_filter id labels))\<rparr>)
         (validateAdvancedCustomConfig URL (Some normalized)))))"

definition getAdvancedCustomAuthMode :: "json \<Rightarrow> json" where
  "getAdvancedCustomAuthMode route =
     or_json (opt_prop (js_prop route (js ''auth'')) (js ''type'')) (JStr (js ''default''))"

definition buildAdvancedCustomAuth :: "jstring \<Rightarrow> json option \<Rightarrow> json option" where
  "buildAdvancedCustomAuth mode previousAuth =
     (let previous = (\<lambda>key d. or_json (opt_prop previousAuth (js key)) (JStr (js d))) in
      if mode = js ''default'' then None
      else if mode = js ''none'' then Some (JObj [(js ''type'', JStr (js ''none''))])
      else if mode = js ''header'' then Some (JObj [(js ''type'', JStr (js ''header'')),
        (js ''name'', previous ''name'' ''Authorization''), (js ''value'', previous ''value'' ''Bearer {api_key}'')])
      else Some (JObj [(js ''type'', JStr (js ''query'')),
        (js ''name'', previous ''name'' ''api_key''), (js ''value'', previous ''value'' ''{api_key}'')]))"


section \<open>Normal forms\<close>

lemma js_neq_iff: "js s = js t \<longleftrightarrow> map (of_char :: char \<Rightarrow> jchar) s = map of_char t"
  by (simp add: js_def)

lemma route_keys [simp]:
  "js ''incoming_path'' \<noteq> js ''upstream_path''" "js ''incoming_path'' \<noteq> js ''converter''" "js ''incoming_path'' \<noteq> js ''auth''"
  "js ''upstream_path'' \<noteq> js ''incoming_path''" "js ''upstream_path'' \<noteq> js ''converter''" "js ''upstream_path'' \<noteq> js ''auth''"
  "js ''converter'' \<noteq> js ''incoming_path''" "js ''converter'' \<noteq> js ''upstream_path''" "js ''converter'' \<noteq> js ''auth''"
  "js ''auth'' \<noteq> js ''incoming_path''" "js ''auth'' \<noteq> js ''upstream_path''" "js ''auth'' \<noteq> js ''converter''"
  "js ''type'' \<noteq> js ''name''" "js ''type'' \<noteq> js ''value''" "js ''name'' \<noteq> js ''type''" "js ''name'' \<noteq> js ''value''"
  "js ''value'' \<noteq> js ''type''" "js ''value'' \<noteq> js ''name''"
  by (simp_all add: js_def)

text \<open>A route as \<open>normalizeAdvancedCustomRoute\<close> returns it.\<close>

definition routeOf :: "json \<Rightarrow> jstring \<Rightarrow> json \<Rightarrow> json option \<Rightarrow> json" where
  "routeOf incoming upstream converter auth = JObj
     ([(js ''incoming_path'', incoming), (js ''upstream_path'', JStr upstream), (js ''converter'', converter)] @
      (case auth of None \<Rightarrow> [] | Some a \<Rightarrow> [(js ''auth'', a)]))"

lemma routeOf_props [simp]:
  "js_prop (routeOf i u c a) (js ''incoming_path'') = Some i" "js_prop (routeOf i u c a) (js ''upstream_path'') = Some (JStr u)"
  "js_prop (routeOf i u c a) (js ''converter'') = Some c" "js_prop (routeOf i u c a) (js ''auth'') = a"
  by (simp_all add: routeOf_def split: option.splits)

lemma upstream_routeOf [simp]: "getAdvancedCustomRouteUpstreamPath (routeOf i u c a) = Inr (trim u)"
  by (simp add: getAdvancedCustomRouteUpstreamPath_def get_prop_def or_json_def truthy_opt_def) (simp add: routeOf_def)

lemma normalizedAuth_idem [simp]: "normalizedAuth (normalizedAuth a) = normalizedAuth a"
  by (cases "js_prop a (js ''type'')") (simp_all add: normalizedAuth_def)

lemma normalizedAuth_truthy [simp]: "truthy (normalizedAuth a)"
  by (simp add: normalizedAuth_def)

lemma normalize_route:
  "normalizeAdvancedCustomRoute route = map_sum id (\<lambda>u. routeOf (or_json (js_prop route (js ''incoming_path'')) (JStr [])) u
     (or_json (js_prop route (js ''converter'')) (JStr (js ''none'')))
     (if truthy_opt (js_prop route (js ''auth'')) then Some (normalizedAuth (the (js_prop route (js ''auth'')))) else None))
   (getAdvancedCustomRouteUpstreamPath route)"
  by (cases "getAdvancedCustomRouteUpstreamPath route")
    (auto simp: normalizeAdvancedCustomRoute_def routeOf_def truthy_opt_def split: option.splits)

text \<open>What normalizing a route can give.\<close>

definition normalRoute :: "json \<Rightarrow> bool" where
  "normalRoute r \<longleftrightarrow> normalizeAdvancedCustomRoute r = Inr r"

lemma upstream_trimmed: "getAdvancedCustomRouteUpstreamPath route = Inr u \<Longrightarrow> trim u = u"
proof -
  have "trim_json v = Inr u \<Longrightarrow> trim u = u" for v
    by (cases v) auto
  then show "getAdvancedCustomRouteUpstreamPath route = Inr u \<Longrightarrow> trim u = u"
    by (auto simp: getAdvancedCustomRouteUpstreamPath_def bind_result_Inr_iff)
qed

lemma normalized_route_normal: "normalizeAdvancedCustomRoute route = Inr r \<Longrightarrow> normalRoute r"
  by (auto simp: normalRoute_def normalize_route map_sum_Inr_iff upstream_trimmed truthy_opt_def)

lemma normalRoute_shape:
  assumes "normalRoute r"
  shows "\<exists>i u c a. r = routeOf i u c a \<and> truthy c"
proof -
  obtain u where "r = routeOf (or_json (js_prop r (js ''incoming_path'')) (JStr [])) u
      (or_json (js_prop r (js ''converter'')) (JStr (js ''none'')))
      (if truthy_opt (js_prop r (js ''auth'')) then Some (normalizedAuth (the (js_prop r (js ''auth'')))) else None)"
    using assms by (auto simp: normalRoute_def normalize_route map_sum_Inr_iff)
  moreover have "truthy (or_json (js_prop r (js ''converter'')) (JStr (js ''none'')))"
    by (rule or_json_truthy) simp
  ultimately show ?thesis by blast
qed

definition configOf :: "json list \<Rightarrow> json" where
  "configOf routes = JObj [(js ''advanced_routes'', JArr routes)]"

lemma advancedRoutes_configOf [simp]: "advancedRoutes (configOf routes) = routes"
  by (simp add: advancedRoutes_def configOf_def)

lemma configOf_inject [simp]: "configOf a = configOf b \<longleftrightarrow> a = b"
  by (simp add: configOf_def)

lemma normalize_config:
  "normalizeAdvancedCustomConfig config = Inr c \<longleftrightarrow>
     (\<exists>routes. c = configOf routes \<and> map_result normalizeAdvancedCustomRoute (advancedRoutes config) = Inr routes)"
  by (auto simp: normalizeAdvancedCustomConfig_def map_sum_Inr_iff configOf_def)

lemma normalized_config:
  assumes "normalizeAdvancedCustomConfig config = Inr c"
  shows "\<exists>routes. c = configOf routes \<and> list_all normalRoute routes"
proof -
  obtain routes where routes: "c = configOf routes"
    "list_all2 (\<lambda>x y. normalizeAdvancedCustomRoute x = Inr y) (advancedRoutes config) routes"
    using assms by (auto simp: normalize_config map_result_Inr_iff)
  then have "list_all normalRoute routes"
    by (auto simp: list_all_length list_all2_conv_all_nth intro: normalized_route_normal)
  with routes show ?thesis by blast
qed

lemma normalize_normal: "list_all normalRoute routes \<Longrightarrow> normalizeAdvancedCustomConfig (configOf routes) = Inr (configOf routes)"
  by (auto simp: normalize_config normalRoute_def list_all_iff intro: map_result_fixed)

lemma normalize_config_idem:
  "normalizeAdvancedCustomConfig config = Inr c \<Longrightarrow> normalizeAdvancedCustomConfig c = Inr c"
  by (auto dest!: normalized_config simp: normalize_normal)


lemma ordered_route_keys [simp]:
  "ordered_keys [js ''incoming_path'', js ''upstream_path'', js ''converter'']"
  "ordered_keys [js ''incoming_path'', js ''upstream_path'', js ''converter'', js ''auth'']"
  "ordered_keys [js ''name'', js ''value'']" "ordered_keys [js ''type'', js ''name'', js ''value'']" "ordered_keys [js ''advanced_routes'']"
  by code_simp+

lemma json_ok_normalizedAuth: "json_ok a \<Longrightarrow> json_ok (normalizedAuth a)"
  by (auto simp: normalizedAuth_def split: option.splits intro!: json_ok_or dest: json_ok_prop)

lemma json_ok_normalized_route:
  assumes "json_ok route" "normalizeAdvancedCustomRoute route = Inr r"
  shows "json_ok r"
proof -
  have "json_ok (or_json (js_prop route k) (JStr d))" for k d
    using assms(1) by (auto intro: json_ok_or json_ok_prop)
  then show ?thesis
    using assms by (auto simp: normalize_route map_sum_Inr_iff routeOf_def truthy_opt_def split: option.splits if_splits
        intro!: json_ok_normalizedAuth intro: json_ok_prop)
qed

lemma json_ok_configOf: "json_ok (configOf routes) \<longleftrightarrow> list_all json_ok routes"
  by (simp add: configOf_def)

lemma json_ok_normalized:
  assumes "json_ok config" "normalizeAdvancedCustomConfig config = Inr c"
  shows "json_ok c"
proof -
  obtain routes where c: "c = configOf routes"
    and routes: "list_all2 (\<lambda>x y. normalizeAdvancedCustomRoute x = Inr y) (advancedRoutes config) routes"
    using assms(2) by (auto simp: normalize_config map_result_Inr_iff)
  have "list_all json_ok (advancedRoutes config)"
    using json_ok_prop [OF assms(1), of "js ''advanced_routes''"] by (auto simp: advancedRoutes_def split: option.splits json.splits)
  with routes have "list_all json_ok routes"
    by (auto simp: list_all_length list_all2_conv_all_nth intro: json_ok_normalized_route)
  then show ?thesis by (simp add: c json_ok_configOf)
qed

lemma parse_config:
  assumes "parseAdvancedCustomConfig v = Some c"
  shows "normalizeAdvancedCustomConfig c = Inr c" "json_ok c" "\<exists>routes. c = configOf routes \<and> list_all normalRoute routes"
  using assms
  by (auto simp: parseAdvancedCustomConfig_def split: if_splits option.splits sum.splits
      dest: normalize_config_idem normalized_config JSON_parse_ok json_ok_normalized)

lemma parse_printed_config:
  assumes "json_ok c" "normalizeAdvancedCustomConfig c = Inr c" "prints_decimals num_str"
  shows "parseAdvancedCustomConfig (Some (JSON_pretty num_str c)) = Some c"
proof -
  obtain routes where c: "c = configOf routes"
    using normalized_config [OF assms(2)] by blast
  have "trim (JSON_pretty num_str c) \<noteq> []"
    unfolding c configOf_def by (rule JSON_pretty_object) simp
  moreover have "plain_object c \<noteq> None"
    by (simp add: c configOf_def)
  ultimately show ?thesis
    using JSON_parse_stringify(2) [OF assms(3,1)] assms(2) by (simp add: parseAdvancedCustomConfig_def)
qed

section \<open>What validation accepts\<close>

text \<open>The string that a property holds, trimmed; the empty string if it holds something else.\<close>

definition textOf :: "json option \<Rightarrow> jstring" where
  "textOf v = (case v of Some (JStr s) \<Rightarrow> trim s | _ \<Rightarrow> [])"

definition validAuth :: "json option \<Rightarrow> bool" where
  "validAuth auth = (case auth of
     None \<Rightarrow> True
   | Some a \<Rightarrow> \<not> truthy a \<or> js_prop a (js ''type'') = Some (JStr (js ''none''))
       \<or> js_prop a (js ''type'') \<in> {Some (JStr (js ''header'')), Some (JStr (js ''query''))}
         \<and> textOf (js_prop a (js ''name'')) \<noteq> [] \<and> textOf (js_prop a (js ''value'')) \<noteq> [])"

definition routePath :: "json \<Rightarrow> jstring" where
  "routePath route = textOf (js_prop route (js ''incoming_path''))"

definition validRoute :: "(jstring \<Rightarrow> (jstring \<times> jstring) option) \<Rightarrow> json \<Rightarrow> bool" where
  "validRoute URL route \<longleftrightarrow>
     (let path = routePath route; converter = js_prop route (js ''converter'') in
      startsWith path (js ''/'') \<and> \<not> str_includes path (js ''?'')
      \<and> isFullHttpURLOrAbsolutePath URL (textOf (js_prop route (js ''upstream_path'')))
      \<and> textOf (js_prop route (js ''upstream_path'')) \<noteq> []
      \<and> (\<exists>c. converter = Some c \<and> isAdvancedCustomConverter c \<and> isConverterPathAllowed path c)
      \<and> validAuth (js_prop route (js ''auth'')))"

lemma optTrim_textOf: "optTrim v = Inr t \<Longrightarrow> nullish t [] = textOf v"
proof -
  have "map_sum id Some (trim_json w) = Inr t \<Longrightarrow> nullish t [] = textOf (Some w)" for w
    by (cases w) (auto simp: textOf_def)
  then show "optTrim v = Inr t \<Longrightarrow> nullish t [] = textOf v"
    by (auto simp: optTrim_def textOf_def split: option.splits json.splits)
qed

lemma optTrim_text: "textOf v \<noteq> [] \<Longrightarrow> \<exists>t. optTrim v = Inr t"
  by (auto simp: optTrim_def textOf_def split: option.splits json.splits)

lemma auth_accepted: "validateRouteAuth auth = Inr None \<longleftrightarrow> validAuth auth"
proof (cases auth)
  case None
  then show ?thesis by (simp add: validateRouteAuth_def validAuth_def truthy_opt_def)
next
  case (Some a)
  have "bind_result (optTrim v) f = Inr None \<longleftrightarrow> textOf v \<noteq> [] \<and> (\<forall>t. optTrim v = Inr t \<longrightarrow> f t = Inr None)"
    if "\<And>t. nullish t [] = [] \<Longrightarrow> f t \<noteq> Inr None" for v and f :: "jstring option \<Rightarrow> js_error + jstring option"
    using that optTrim_textOf [of v] optTrim_text [of v] by (cases "optTrim v") fastforce+
  then show ?thesis
    using Some optTrim_textOf by (auto simp: validateRouteAuth_def validAuth_def truthy_opt_def Let_def bind_result_Inr_iff
        dest: optTrim_text)
qed


lemma upstream_textOf: "getAdvancedCustomRouteUpstreamPath route = Inr u \<Longrightarrow> u = textOf (js_prop route (js ''upstream_path''))"
proof -
  have "trim_json (or_json v (JStr [])) = Inr u \<Longrightarrow> u = textOf v" for v
  proof (cases v)
    case (Some w)
    then show "trim_json (or_json v (JStr [])) = Inr u \<Longrightarrow> u = textOf v"
      by (cases w) (auto simp: or_json_def truthy_opt_def textOf_def split: if_splits)
  qed (simp add: or_json_def truthy_opt_def textOf_def)
  then show "getAdvancedCustomRouteUpstreamPath route = Inr u \<Longrightarrow> u = textOf (js_prop route (js ''upstream_path''))"
    by (auto simp: getAdvancedCustomRouteUpstreamPath_def bind_result_Inr_iff get_prop_def split: if_splits)
qed

lemma upstream_text: "textOf (js_prop route (js ''upstream_path'')) \<noteq> [] \<Longrightarrow> \<exists>u. getAdvancedCustomRouteUpstreamPath route = Inr u"
proof -
  assume nonblank: "textOf (js_prop route (js ''upstream_path'')) \<noteq> []"
  then obtain s where s: "js_prop route (js ''upstream_path'') = Some (JStr s)" "s \<noteq> []"
    by (auto simp: textOf_def split: option.splits json.splits) (metis trim_Nil)
  then have "route \<noteq> JNull" by auto
  with s show ?thesis
    by (simp add: getAdvancedCustomRouteUpstreamPath_def get_prop_def or_json_def truthy_opt_def)
qed

lemma route_accepted:
  assumes "js_prop route (js ''converter'') = Some c" "truthy c"
  shows "checkRoute URL seen path up route = Inr None \<longleftrightarrow>
    path \<notin> set seen \<and> startsWith path (js ''/'') \<and> \<not> str_includes path (js ''?'') \<and> up \<noteq> [] \<and> isFullHttpURLOrAbsolutePath URL up
    \<and> isAdvancedCustomConverter c \<and> isConverterPathAllowed path c \<and> validAuth (js_prop route (js ''auth''))"
  using assms by (auto simp: checkRoute_def Let_def or_json_def truthy_opt_def auth_accepted js_def)

text \<open>The loop accepts exactly the lists of valid routes with new and different paths.\<close>

lemma routes_accepted:
  "list_all normalRoute routes \<Longrightarrow> validateRoutes URL i seen routes = Inr None \<longleftrightarrow>
    list_all (validRoute URL) routes \<and> distinct (map routePath routes) \<and> set (map routePath routes) \<inter> set seen = {}"
proof (induction routes arbitrary: i seen)
  case (Cons route routes)
  obtain c where c: "js_prop route (js ''converter'') = Some c" "truthy c"
    using Cons.prems normalRoute_shape [of route] by auto
  show ?case
  proof (cases "validRoute URL route \<and> routePath route \<notin> set seen")
    case True
    then have "textOf (js_prop route (js ''incoming_path'')) \<noteq> []" "textOf (js_prop route (js ''upstream_path'')) \<noteq> []"
      by (auto simp: validRoute_def routePath_def Let_def js_def)
    then obtain t u where tu: "optTrim (js_prop route (js ''incoming_path'')) = Inr t" "getAdvancedCustomRouteUpstreamPath route = Inr u"
      using optTrim_text upstream_text by blast
    then have "checkRoute URL seen (nullish t []) u route = Inr None"
      using True c optTrim_textOf [OF tu(1)] upstream_textOf [OF tu(2)]
      by (auto simp: route_accepted [OF c] validRoute_def routePath_def Let_def)
    then show ?thesis
      using Cons.IH Cons.prems True tu optTrim_textOf [OF tu(1)] by (auto simp: Let_def routePath_def)
  next
    case False
    have "checkRoute URL seen (routePath route) (textOf (js_prop route (js ''upstream_path''))) route \<noteq> Inr None"
      using False c by (auto simp: route_accepted [OF c] validRoute_def Let_def)
    then have "validateRoutes URL i seen (route # routes) \<noteq> Inr None"
      by (auto simp: bind_result_Inr_iff Let_def routePath_def dest!: optTrim_textOf upstream_textOf split: option.splits)
    then show ?thesis using False by auto
  qed
qed simp

lemma config_accepted:
  "validateAdvancedCustomConfig URL (Some config) = Inr None \<longleftrightarrow>
     (\<exists>routes. normalizeAdvancedCustomConfig config = Inr (configOf routes) \<and> routes \<noteq> []
        \<and> list_all (validRoute URL) routes \<and> distinct (map routePath routes))"
proof (cases "normalizeAdvancedCustomConfig config")
  case (Inr c)
  then obtain routes where "c = configOf routes" "list_all normalRoute routes"
    using normalized_config by blast
  with Inr show ?thesis
    by (auto simp: validateAdvancedCustomConfig_def Let_def routes_accepted)
qed (simp add: validateAdvancedCustomConfig_def)

text \<open>A rejection names a route that breaks a rule, and every route before it is fine.\<close>

lemma routes_rejected:
  "list_all normalRoute routes \<Longrightarrow> validateRoutes URL i seen routes = Inr (Some problem) \<Longrightarrow>
    \<exists>j < length routes. av_routeIndex problem = Some (i + j) \<and> validateRoutes URL i seen (take j routes) = Inr None
      \<and> validateRoutes URL i seen (take (Suc j) routes) \<noteq> Inr None"
proof (induction routes arbitrary: i seen)
  case (Cons route routes)
  obtain t u where tu: "optTrim (js_prop route (js ''incoming_path'')) = Inr t" "getAdvancedCustomRouteUpstreamPath route = Inr u"
    using Cons.prems(2) by (auto simp: bind_result_Inr_iff)
  show ?case
  proof (cases "checkRoute URL seen (nullish t []) u route = Inr None")
    case True
    obtain j where "j < length routes" "av_routeIndex problem = Some (Suc i + j)"
      "validateRoutes URL (Suc i) (nullish t [] # seen) (take j routes) = Inr None"
      "validateRoutes URL (Suc i) (nullish t [] # seen) (take (Suc j) routes) \<noteq> Inr None"
      using Cons.IH [of "Suc i" "nullish t [] # seen"] Cons.prems True tu by (auto simp: Let_def)
    then show ?thesis
      using True tu by (intro exI [of _ "Suc j"]) (simp add: Let_def)
  next
    case False
    then obtain m where "checkRoute URL seen (nullish t []) u route = Inr (Some m)"
      using Cons.prems(2) tu by (auto simp: bind_result_Inr_iff Let_def split: option.splits)
    then show ?thesis
      using Cons.prems(2) tu by (intro exI [of _ 0]) (auto simp: Let_def)
  qed
qed simp

end
