(* ===== verification/Advanced_Custom_Editor.thy ===== *)
theory Advanced_Custom_Editor
  imports Advanced_Custom
begin

text \<open>
  \<open>features/channels/components/dialogs/advanced-custom-editor-dialog.tsx\<close>: the dialog that edits the
  routes of an advanced custom channel, as a form or as JSON text. The state is a record, every
  handler a function on it, and \<open>editor_step\<close> the events. A handler that throws leaves the state as it
  was, since the throwing calls come before the first setter. Messages are kept untranslated.
\<close>

section \<open>State\<close>

datatype AdvancedCustomEditMode = VisualMode | JsonMode

record AdvancedEditor =
  ed_config :: json
  ed_routeKeys :: "jstring list"
  ed_routeKeyCounter :: nat
  ed_editMode :: AdvancedCustomEditMode
  ed_jsonText :: jstring
  ed_jsonError :: jstring
  ed_templateKey :: jstring
  ed_toasts :: "jstring list"
  ed_saved :: "jstring list"
  ed_open :: bool

text \<open>The platform: number formatting and the URL parser.\<close>

record AdvancedEnv =
  en_num_str :: "jnum \<Rightarrow> jstring"
  en_URL :: "jstring \<Rightarrow> (jstring \<times> jstring) option"

definition initialConfig :: "jstring \<Rightarrow> json" where
  "initialConfig v = nullish (parseAdvancedCustomConfig (Some v)) createAdvancedCustomConfig"

definition okOr :: "'a \<Rightarrow> 'e + 'a \<Rightarrow> 'a" where
  "okOr d r = (case r of Inl _ \<Rightarrow> d | Inr x \<Rightarrow> x)"

definition normalizedConfig :: "AdvancedEditor \<Rightarrow> js_error + json" where
  "normalizedConfig s = normalizeAdvancedCustomConfig (ed_config s)"

definition initialEditor :: "AdvancedEnv \<Rightarrow> jstring \<Rightarrow> AdvancedEditor" where
  "initialEditor env v =
     \<lparr>ed_config = initialConfig v,
      ed_routeKeys = map (\<lambda>i. js ''advanced-custom-route-initial-'' @ nat_str i)
        [0..<length (advancedRoutes (okOr createAdvancedCustomConfig (normalizeAdvancedCustomConfig (initialConfig v))))],
      ed_routeKeyCounter = 0, ed_editMode = VisualMode,
      ed_jsonText = okOr [] (stringifyAdvancedCustomConfig (en_num_str env) (initialConfig v)), ed_jsonError = [],
      ed_templateKey = or_str (map_option fst (List.find (\<lambda>_. True) ADVANCED_CUSTOM_TEMPLATE_OPTIONS)) [],
      ed_toasts = [], ed_saved = [], ed_open = True\<rparr>"

definition validationError :: "AdvancedEnv \<Rightarrow> AdvancedEditor \<Rightarrow> js_error + AdvancedCustomValidationError option" where
  "validationError env s = bind_result (normalizedConfig s) (\<lambda>c. validateAdvancedCustomConfig (en_URL env) (Some c))"

section \<open>Handlers\<close>

definition routeKey :: "nat \<Rightarrow> jstring" where
  "routeKey n = js ''advanced-custom-route-'' @ nat_str n"

text \<open>\<open>setRouteKeys(createRouteKeys(count))\<close>\<close>

definition createRouteKeys :: "nat \<Rightarrow> AdvancedEditor \<Rightarrow> AdvancedEditor" where
  "createRouteKeys n s =
     s\<lparr>ed_routeKeyCounter := ed_routeKeyCounter s + n,
       ed_routeKeys := map (\<lambda>i. routeKey (ed_routeKeyCounter s + Suc i)) [0..<n]\<rparr>"

text \<open>A patch assigns values to keys; \<open>None\<close> assigns \<open>undefined\<close>.\<close>

fun applyPatch :: "(jstring \<times> json option) list \<Rightarrow> (jstring \<times> json) list \<Rightarrow> (jstring \<times> json) list" where
  "applyPatch [] ps = ps"
| "applyPatch ((k, Some v) # patch) ps = applyPatch patch (obj_put k v ps)"
| "applyPatch ((k, None) # patch) ps = applyPatch patch (filter (\<lambda>(k', _). k' \<noteq> k) ps)"

definition patchRoute :: "(jstring \<times> json option) list \<Rightarrow> json \<Rightarrow> json" where
  "patchRoute patch route = JObj (applyPatch patch (nullish (plain_object route) []))"

definition updateRoute :: "nat \<Rightarrow> (jstring \<times> json option) list \<Rightarrow> AdvancedEditor \<Rightarrow> AdvancedEditor" where
  "updateRoute index patch s = (case normalizedConfig s of
     Inl _ \<Rightarrow> s
   | Inr next \<Rightarrow> let routes = advancedRoutes next in
       s\<lparr>ed_config := configOf (routes[index := patchRoute patch (routes ! index)])\<rparr>)"

definition addRoute :: "AdvancedEditor \<Rightarrow> AdvancedEditor" where
  "addRoute s = (case normalizedConfig s of
     Inl _ \<Rightarrow> s
   | Inr next \<Rightarrow>
       s\<lparr>ed_config := configOf (advancedRoutes next @ [createAdvancedCustomRoute]),
         ed_routeKeyCounter := Suc (ed_routeKeyCounter s),
         ed_routeKeys := ed_routeKeys s @ [routeKey (Suc (ed_routeKeyCounter s))]\<rparr>)"

text \<open>\<open>xs.filter((_, i) => i !== index)\<close>\<close>

definition removeAt :: "nat \<Rightarrow> 'a list \<Rightarrow> 'a list" where
  "removeAt index xs = take index xs @ drop (Suc index) xs"

definition removeRoute :: "nat \<Rightarrow> AdvancedEditor \<Rightarrow> AdvancedEditor" where
  "removeRoute index s = (case normalizedConfig s of
     Inl _ \<Rightarrow> s
   | Inr next \<Rightarrow>
       s\<lparr>ed_config := configOf (removeAt index (advancedRoutes next)), ed_routeKeys := removeAt index (ed_routeKeys s)\<rparr>)"

text \<open>The parsed configuration, if any, and the state with the error message set; or an exception.\<close>

definition parseJsonEditorConfig :: "AdvancedEnv \<Rightarrow> AdvancedEditor \<Rightarrow> js_error + (json option \<times> AdvancedEditor)" where
  "parseJsonEditorConfig env s = (case parseAdvancedCustomConfig (Some (ed_jsonText s)) of
     None \<Rightarrow> Inr (None, s\<lparr>ed_jsonError := js ''Invalid JSON''\<rparr>)
   | Some parsed \<Rightarrow> map_sum id (\<lambda>problem. case problem of
         Some p \<Rightarrow> (None, s\<lparr>ed_jsonError := av_message p\<rparr>)
       | None \<Rightarrow> (Some parsed, s\<lparr>ed_jsonError := []\<rparr>))
       (validateAdvancedCustomConfig (en_URL env) (Some parsed)))"

definition switchToVisualMode :: "AdvancedEnv \<Rightarrow> AdvancedEditor \<Rightarrow> AdvancedEditor" where
  "switchToVisualMode env s = (case parseJsonEditorConfig env s of
     Inl _ \<Rightarrow> s
   | Inr (None, s1) \<Rightarrow> s1
   | Inr (Some parsed, s1) \<Rightarrow> (case normalizeAdvancedCustomConfig parsed of
       Inl _ \<Rightarrow> s1
     | Inr normalized \<Rightarrow>
         (createRouteKeys (length (advancedRoutes normalized)) (s1\<lparr>ed_config := normalized\<rparr>))\<lparr>ed_editMode := VisualMode\<rparr>))"

definition switchToJsonMode :: "AdvancedEnv \<Rightarrow> AdvancedEditor \<Rightarrow> AdvancedEditor" where
  "switchToJsonMode env s = (case bind_result (normalizedConfig s) (stringifyAdvancedCustomConfig (en_num_str env)) of
     Inl _ \<Rightarrow> s
   | Inr content \<Rightarrow> s\<lparr>ed_jsonText := content, ed_jsonError := [], ed_editMode := JsonMode\<rparr>)"

definition handleJsonChange :: "jstring \<Rightarrow> AdvancedEditor \<Rightarrow> AdvancedEditor" where
  "handleJsonChange nextValue s = s\<lparr>ed_jsonText := nextValue, ed_jsonError := []\<rparr>"

definition formatJson :: "AdvancedEnv \<Rightarrow> AdvancedEditor \<Rightarrow> AdvancedEditor" where
  "formatJson env s = (case parseJsonEditorConfig env s of
     Inl _ \<Rightarrow> s
   | Inr (None, s1) \<Rightarrow> s1
   | Inr (Some parsed, s1) \<Rightarrow> (case stringifyAdvancedCustomConfig (en_num_str env) parsed of
       Inl _ \<Rightarrow> s1
     | Inr content \<Rightarrow> s1\<lparr>ed_jsonText := content\<rparr>))"

text \<open>The end of \<open>applyTemplate\<close>: the next configuration replaces everything.\<close>

definition installConfig :: "AdvancedEnv \<Rightarrow> json \<Rightarrow> AdvancedEditor \<Rightarrow> AdvancedEditor" where
  "installConfig env nextConfig s = (case normalizeAdvancedCustomConfig nextConfig of
     Inl _ \<Rightarrow> s
   | Inr normalized \<Rightarrow> (case stringifyAdvancedCustomConfig (en_num_str env) normalized of
       Inl _ \<Rightarrow> s
     | Inr content \<Rightarrow>
         (createRouteKeys (length (advancedRoutes normalized)) (s\<lparr>ed_config := normalized\<rparr>))\<lparr>ed_jsonText := content, ed_jsonError := []\<rparr>))"

definition applyTemplate :: "AdvancedEnv \<Rightarrow> bool \<Rightarrow> AdvancedEditor \<Rightarrow> AdvancedEditor" where
  "applyTemplate env appending s = (case getAdvancedCustomTemplateConfig (en_num_str env) (ed_templateKey s) of
     Inl _ \<Rightarrow> s
   | Inr templateConfig \<Rightarrow>
       if \<not> appending then installConfig env templateConfig s
       else (case (if ed_editMode s = JsonMode then parseJsonEditorConfig env s
                   else map_sum id (\<lambda>c. (Some c, s)) (normalizedConfig s)) of
           Inl _ \<Rightarrow> s
         | Inr (None, s1) \<Rightarrow> s1
         | Inr (Some baseConfig, s1) \<Rightarrow>
             (case (normalizeAdvancedCustomConfig baseConfig, normalizeAdvancedCustomConfig templateConfig) of
                (Inr base, Inr template) \<Rightarrow> installConfig env (configOf (advancedRoutes base @ advancedRoutes template)) s1
              | _ \<Rightarrow> s1)))"

definition saveConfig :: "AdvancedEnv \<Rightarrow> AdvancedEditor \<Rightarrow> AdvancedEditor" where
  "saveConfig env s =
     (let emit = (\<lambda>c t. case stringifyAdvancedCustomConfig (en_num_str env) c of
          Inl _ \<Rightarrow> t
        | Inr content \<Rightarrow> t\<lparr>ed_saved := content # ed_saved t, ed_open := False\<rparr>) in
      if ed_editMode s = JsonMode then
        (case parseJsonEditorConfig env s of
           Inl _ \<Rightarrow> s
         | Inr (None, s1) \<Rightarrow> s1\<lparr>ed_toasts := js ''Please fix JSON errors before saving'' # ed_toasts s1\<rparr>
         | Inr (Some parsed, s1) \<Rightarrow> emit parsed s1)
      else (case validationError env s of
          Inl _ \<Rightarrow> s
        | Inr (Some p) \<Rightarrow> s\<lparr>ed_toasts := av_message p # ed_toasts s\<rparr>
        | Inr None \<Rightarrow> (case normalizedConfig s of Inl _ \<Rightarrow> s | Inr c \<Rightarrow> emit c s)))"

section \<open>The editor of one route\<close>

text \<open>The patches of \<open>RouteEditor\<close>, for a route of the normalized configuration with string fields.\<close>

definition routeConverter :: "json \<Rightarrow> jstring" where
  "routeConverter route = (case or_json (js_prop route (js ''converter'')) (JStr (js ''none'')) of JStr c \<Rightarrow> c | _ \<Rightarrow> [])"

definition shownIncomingPath :: "json \<Rightarrow> jstring" where
  "shownIncomingPath route =
     (case or_json (js_prop route (js ''incoming_path'')) (JStr (getDefaultAdvancedCustomIncomingPath (routeConverter route))) of
        JStr p \<Rightarrow> p | _ \<Rightarrow> [])"

definition setConverter :: "jstring \<Rightarrow> json \<Rightarrow> (jstring \<times> json option) list" where
  "setConverter nextConverter route =
     [(js ''converter'', Some (JStr nextConverter))] @
     (if isAdvancedCustomIncomingPathAllowed (shownIncomingPath route) nextConverter then []
      else [(js ''incoming_path'', Some (JStr (getDefaultAdvancedCustomIncomingPath nextConverter)))])"

definition setIncomingPath :: "jstring option \<Rightarrow> json \<Rightarrow> (jstring \<times> json option) list" where
  "setIncomingPath nextIncomingPath route =
     (let resolved = or_str nextIncomingPath (getDefaultAdvancedCustomIncomingPath (routeConverter route)) in
      [(js ''incoming_path'', Some (JStr resolved))] @
      (if isAdvancedCustomIncomingPathAllowed resolved (routeConverter route) then []
       else [(js ''converter'', Some (JStr (js ''none'')))]))"

definition setUpstreamPath :: "jstring \<Rightarrow> (jstring \<times> json option) list" where
  "setUpstreamPath v = [(js ''upstream_path'', Some (JStr v))]"

definition setAuthMode :: "jstring \<Rightarrow> json \<Rightarrow> (jstring \<times> json option) list" where
  "setAuthMode mode route = [(js ''auth'', buildAdvancedCustomAuth mode (js_prop route (js ''auth'')))]"

definition updateAuth :: "jstring \<Rightarrow> jstring \<Rightarrow> json \<Rightarrow> (jstring \<times> json option) list option" where
  "updateAuth field v route = (case js_prop route (js ''auth'') of
     None \<Rightarrow> None
   | Some auth \<Rightarrow>
       if \<not> truthy auth \<or> js_prop auth (js ''type'') = Some (JStr (js ''none'')) then None
       else Some [(js ''auth'', Some (JObj (obj_put field (JStr v)
         ((case js_prop auth (js ''type'') of None \<Rightarrow> [] | Some t \<Rightarrow> [(js ''type'', t)]) @
          [(js ''name'', or_json (js_prop auth (js ''name'')) (JStr [])), (js ''value'', or_json (js_prop auth (js ''value'')) (JStr []))]))))])"

section \<open>Events\<close>

definition routesOf :: "AdvancedEditor \<Rightarrow> json list" where
  "routesOf s = (case normalizedConfig s of Inl _ \<Rightarrow> [] | Inr c \<Rightarrow> advancedRoutes c)"

datatype EditorEvent =
    SetConverter nat jstring
  | SetIncomingPath nat "jstring option"
  | SetUpstreamPath nat jstring
  | SetAuthMode nat jstring
  | UpdateAuth nat jstring jstring
  | AddRoute
  | RemoveRoute nat
  | SwitchToVisual
  | SwitchToJson
  | JsonChange jstring
  | FormatJson
  | SelectTemplate jstring
  | ApplyTemplate bool
  | Save

text \<open>
  Rows exist for the routes of the visual mode only; the two auth fields are shown for the modes
  \<open>header\<close> and \<open>query\<close>.
\<close>

inductive editor_step :: "AdvancedEnv \<Rightarrow> AdvancedEditor \<Rightarrow> EditorEvent \<Rightarrow> AdvancedEditor \<Rightarrow> bool" for env where
  step_converter: "\<lbrakk>ed_open s; ed_editMode s = VisualMode; i < length (routesOf s); c \<in> set (map fst ADVANCED_CUSTOM_CONVERTER_OPTIONS)\<rbrakk> \<Longrightarrow>
    editor_step env s (SetConverter i c) (updateRoute i (setConverter c (routesOf s ! i)) s)"
| step_incoming: "\<lbrakk>ed_open s; ed_editMode s = VisualMode; i < length (routesOf s)\<rbrakk> \<Longrightarrow>
    editor_step env s (SetIncomingPath i p) (updateRoute i (setIncomingPath p (routesOf s ! i)) s)"
| step_upstream: "\<lbrakk>ed_open s; ed_editMode s = VisualMode; i < length (routesOf s)\<rbrakk> \<Longrightarrow>
    editor_step env s (SetUpstreamPath i v) (updateRoute i (setUpstreamPath v) s)"
| step_auth_mode: "\<lbrakk>ed_open s; ed_editMode s = VisualMode; i < length (routesOf s)\<rbrakk> \<Longrightarrow>
    editor_step env s (SetAuthMode i m) (updateRoute i (setAuthMode m (routesOf s ! i)) s)"
| step_auth_field: "\<lbrakk>ed_open s; ed_editMode s = VisualMode; i < length (routesOf s); field \<in> {js ''name'', js ''value''};
    updateAuth field v (routesOf s ! i) = Some patch\<rbrakk> \<Longrightarrow> editor_step env s (UpdateAuth i field v) (updateRoute i patch s)"
| step_add: "\<lbrakk>ed_open s; ed_editMode s = VisualMode\<rbrakk> \<Longrightarrow> editor_step env s AddRoute (addRoute s)"
| step_remove: "\<lbrakk>ed_open s; ed_editMode s = VisualMode; i < length (routesOf s)\<rbrakk> \<Longrightarrow> editor_step env s (RemoveRoute i) (removeRoute i s)"
| step_visual: "ed_open s \<Longrightarrow> editor_step env s SwitchToVisual (switchToVisualMode env s)"
| step_json: "ed_open s \<Longrightarrow> editor_step env s SwitchToJson (switchToJsonMode env s)"
| step_change: "\<lbrakk>ed_open s; ed_editMode s = JsonMode\<rbrakk> \<Longrightarrow> editor_step env s (JsonChange v) (handleJsonChange v s)"
| step_format: "\<lbrakk>ed_open s; ed_editMode s = JsonMode\<rbrakk> \<Longrightarrow> editor_step env s FormatJson (formatJson env s)"
| step_select: "ed_open s \<Longrightarrow> editor_step env s (SelectTemplate k)
    (s\<lparr>ed_templateKey := or_str (Some k) (or_str (map_option fst (List.find (\<lambda>_. True) ADVANCED_CUSTOM_TEMPLATE_OPTIONS)) [])\<rparr>)"
| step_template: "ed_open s \<Longrightarrow> editor_step env s (ApplyTemplate appending) (applyTemplate env appending s)"
| step_save: "ed_open s \<Longrightarrow> editor_step env s Save (saveConfig env s)"


inductive_cases editor_stepE: "editor_step env s e s'"

section \<open>Routes keep their shape\<close>

definition routeGood :: "json \<Rightarrow> bool" where
  "routeGood r \<longleftrightarrow> json_ok r \<and> (\<exists>ps. r = JObj ps \<and> (\<forall>v. map_of ps (js ''upstream_path'') = Some v \<longrightarrow> (\<exists>t. v = JStr t)))"

lemma routeGood_normalizes: "routeGood r \<Longrightarrow> \<exists>n. normalizeAdvancedCustomRoute r = Inr n"
  by (auto simp: routeGood_def normalize_route getAdvancedCustomRouteUpstreamPath_def get_prop_def or_json_def truthy_opt_def
      split: option.splits)

lemma normal_routeGood: "normalRoute r \<Longrightarrow> json_ok r \<Longrightarrow> routeGood r"
  using normalRoute_shape [of r] by (auto simp: routeGood_def routeOf_def split: option.splits)

definition patchGood :: "(jstring \<times> json option) list \<Rightarrow> bool" where
  "patchGood patch \<longleftrightarrow> (\<forall>(k, v) \<in> set patch. \<forall>w. v = Some w \<longrightarrow> json_ok w \<and> (k = js ''upstream_path'' \<longrightarrow> (\<exists>t. w = JStr t)))"

lemma applyPatch_good: "routeGood (JObj ps) \<Longrightarrow> patchGood patch \<Longrightarrow> routeGood (JObj (applyPatch patch ps))"
proof (induction patch ps rule: applyPatch.induct)
  case (2 k v patch ps)
  have "routeGood (JObj (obj_put k v ps))"
    using "2.prems" by (auto simp: routeGood_def patchGood_def json_ok_put simp del: json_ok.simps(3))
  with 2 show ?case by (simp add: patchGood_def)
next
  case (3 k patch ps)
  have "map_of (filter (\<lambda>(k', _). k' \<noteq> k) ps) x = (if x = k then None else map_of ps x)" for x
    by (induction ps) auto
  then have "routeGood (JObj (filter (\<lambda>(k', _). k' \<noteq> k) ps))"
    using "3.prems"(1) by (auto simp: routeGood_def json_ok_filter simp del: json_ok.simps(3) split: if_splits)
  with 3 show ?case by (simp add: patchGood_def)
qed simp

lemma patchRoute_good: "routeGood r \<Longrightarrow> patchGood patch \<Longrightarrow> routeGood (patchRoute patch r)"
proof -
  assume r: "routeGood r" and patch: "patchGood patch"
  obtain ps where "r = JObj ps" using r by (auto simp: routeGood_def)
  with applyPatch_good [of ps patch] r patch show ?thesis by (simp add: patchRoute_def)
qed

lemma createRoute_good: "routeGood createAdvancedCustomRoute"
  by (auto simp: routeGood_def createAdvancedCustomRoute_def)

lemma json_ok_auth_field:
  assumes "json_ok route"
  shows "json_ok (or_json (opt_prop (js_prop route k') k) (JStr d))"
proof (cases "js_prop route k'")
  case (Some auth)
  then have "json_ok auth"
    using assms json_ok_prop by blast
  then show ?thesis
    using Some json_ok_prop [of auth k] by (auto intro!: json_ok_or simp: opt_prop_def split: json.splits)
qed (simp add: opt_prop_def or_json_def truthy_opt_def)

lemma patches_good:
  assumes "routeGood route"
  shows "patchGood (setConverter c route)" "patchGood (setIncomingPath p route)" "patchGood (setUpstreamPath v)"
    "patchGood (setAuthMode m route)"
    "field \<in> {js ''name'', js ''value''} \<Longrightarrow> updateAuth field v route = Some patch \<Longrightarrow> patchGood patch"
proof -
  have ok: "json_ok route" using assms by (simp add: routeGood_def)
  show "patchGood (setConverter c route)" "patchGood (setIncomingPath p route)" "patchGood (setUpstreamPath v)"
    by (auto simp: patchGood_def setConverter_def setIncomingPath_def setUpstreamPath_def Let_def)
  have "ordered_keys [js ''type'']" by code_simp
  then show "patchGood (setAuthMode m route)"
    using json_ok_auth_field [OF ok]
    by (auto simp: patchGood_def setAuthMode_def buildAdvancedCustomAuth_def Let_def)
  show "patchGood patch" if field: "field \<in> {js ''name'', js ''value''}" and updated: "updateAuth field v route = Some patch"
  proof -
    obtain auth where auth: "js_prop route (js ''auth'') = Some auth"
      using updated by (auto simp: updateAuth_def split: option.splits)
    let ?ps = "(case js_prop auth (js ''type'') of None \<Rightarrow> [] | Some t \<Rightarrow> [(js ''type'', t)]) @
      [(js ''name'', or_json (js_prop auth (js ''name'')) (JStr [])), (js ''value'', or_json (js_prop auth (js ''value'')) (JStr []))]"
    have "json_ok (normalizedAuth auth)"
      using json_ok_normalizedAuth json_ok_prop [OF ok auth] by blast
    then have "json_ok (JObj (obj_put field (JStr v) ?ps))"
      unfolding normalizedAuth_def by (rule json_ok_put) simp
    then show ?thesis
      using updated auth by (auto simp: updateAuth_def patchGood_def split: if_splits)
  qed
qed


section \<open>The invariant\<close>

definition initialKey :: "nat \<Rightarrow> jstring" where
  "initialKey i = js ''advanced-custom-route-initial-'' @ nat_str i"

definition keysFresh :: "nat \<Rightarrow> jstring list \<Rightarrow> bool" where
  "keysFresh n keys \<longleftrightarrow> distinct keys \<and> set keys \<subseteq> initialKey ` UNIV \<union> routeKey ` {1..n}"

definition savedValid :: "AdvancedEnv \<Rightarrow> jstring \<Rightarrow> bool" where
  "savedValid env content \<longleftrightarrow> (\<exists>c. parseAdvancedCustomConfig (Some content) = Some c
     \<and> validateAdvancedCustomConfig (en_URL env) (Some c) = Inr None)"

definition editor_inv :: "AdvancedEnv \<Rightarrow> AdvancedEditor \<Rightarrow> bool" where
  "editor_inv env s \<longleftrightarrow> (\<exists>routes. ed_config s = configOf routes \<and> list_all routeGood routes \<and> length (ed_routeKeys s) = length routes)
     \<and> keysFresh (ed_routeKeyCounter s) (ed_routeKeys s) \<and> list_all (savedValid env) (ed_saved s)"

lemma routeKey_inj: "routeKey m = routeKey n \<longleftrightarrow> m = n"
  by (simp add: routeKey_def nat_str_inj)

lemma initialKey_inj: "initialKey m = initialKey n \<longleftrightarrow> m = n"
  by (simp add: initialKey_def nat_str_inj)

lemma initialKey_routeKey: "initialKey m \<noteq> routeKey n"
proof
  assume "initialKey m = routeKey n"
  then have "hd (nat_str n) = 105"
    by (cases "nat_str n") (simp_all add: initialKey_def routeKey_def js_def)
  moreover have "is_digit (hd (nat_str n))"
    using nat_str_digits [of n] by (cases "nat_str n") auto
  ultimately show False by (simp add: is_digit_def)
qed

lemma good_normalizes:
  assumes "list_all routeGood routes"
  shows "\<exists>ns. normalizeAdvancedCustomConfig (configOf routes) = Inr (configOf ns) \<and> length ns = length routes
    \<and> list_all normalRoute ns \<and> list_all routeGood ns"
proof -
  obtain ns where ns: "map_result normalizeAdvancedCustomRoute routes = Inr ns"
    using map_result_total [of routes normalizeAdvancedCustomRoute] routeGood_normalizes assms by (auto simp: list_all_iff)
  then have rel: "list_all2 (\<lambda>x y. normalizeAdvancedCustomRoute x = Inr y) routes ns"
    by (simp add: map_result_Inr_iff)
  have norm: "normalizeAdvancedCustomConfig (configOf routes) = Inr (configOf ns)"
    using ns by (simp add: normalize_config)
  have "list_all json_ok routes"
    using assms by (auto simp: list_all_iff routeGood_def)
  then have "json_ok (configOf ns)"
    using json_ok_normalized [OF _ norm] by (simp add: json_ok_configOf)
  moreover have "list_all normalRoute ns"
    using normalized_config [OF norm] by auto
  ultimately have "list_all routeGood ns"
    using normal_routeGood by (auto simp: json_ok_configOf list_all_iff)
  with norm rel \<open>list_all normalRoute ns\<close> show ?thesis
    by (auto dest: list_all2_lengthD)
qed

lemma inv_normalized:
  assumes "editor_inv env s"
  obtains ns where "normalizedConfig s = Inr (configOf ns)" "routesOf s = ns" "length ns = length (ed_routeKeys s)"
    "list_all normalRoute ns" "list_all routeGood ns"
  using assms good_normalizes that by (fastforce simp: editor_inv_def normalizedConfig_def routesOf_def)

lemma saved_valid:
  assumes "prints_decimals (en_num_str env)" "json_ok c" "normalizeAdvancedCustomConfig c = Inr c"
    and "validateAdvancedCustomConfig (en_URL env) (Some c) = Inr None"
  shows "stringifyAdvancedCustomConfig (en_num_str env) c = Inr (JSON_pretty (en_num_str env) c)"
    "savedValid env (JSON_pretty (en_num_str env) c)"
  using parse_printed_config [OF assms(2,3,1)] assms(3,4) by (auto simp: stringifyAdvancedCustomConfig_def savedValid_def)

lemma keysFresh_create: "keysFresh (m + n) (map (\<lambda>i. routeKey (m + Suc i)) [0..<n])"
  by (auto simp: keysFresh_def distinct_map inj_on_def routeKey_inj)

lemma keysFresh_removeAt: "keysFresh m keys \<Longrightarrow> keysFresh m (removeAt i keys)"
  by (auto simp: keysFresh_def removeAt_def set_take_disj_set_drop_if_distinct dest: in_set_takeD in_set_dropD)


lemma inv_config:
  assumes "editor_inv env s" "list_all routeGood routes" "length keys = length routes" "keysFresh n keys"
  shows "editor_inv env (s\<lparr>ed_config := configOf routes, ed_routeKeys := keys, ed_routeKeyCounter := n\<rparr>)"
  using assms by (auto simp: editor_inv_def)

lemma updateRoute_inv:
  assumes "editor_inv env s" "patchGood patch" "i < length (routesOf s)"
  shows "editor_inv env (updateRoute i patch s)"
proof -
  obtain ns where ns: "normalizedConfig s = Inr (configOf ns)" "routesOf s = ns" "length ns = length (ed_routeKeys s)"
    "list_all routeGood ns"
    using inv_normalized [OF assms(1)] by metis
  then have "routeGood (patchRoute patch (ns ! i))"
    using assms(2,3) patchRoute_good by (simp add: list_all_length)
  then have "list_all routeGood (ns[i := patchRoute patch (ns ! i)])"
    using ns(4) set_update_subset_insert [of ns i] by (auto simp: list_all_iff)
  then show ?thesis
    using assms(1) ns by (auto simp: updateRoute_def editor_inv_def Let_def)
qed

lemma addRoute_inv: "editor_inv env s \<Longrightarrow> editor_inv env (addRoute s)"
proof -
  assume inv: "editor_inv env s"
  then obtain ns where ns: "normalizedConfig s = Inr (configOf ns)" "length ns = length (ed_routeKeys s)" "list_all routeGood ns"
    using inv_normalized by metis
  have "keysFresh (Suc (ed_routeKeyCounter s)) (ed_routeKeys s @ [routeKey (Suc (ed_routeKeyCounter s))])"
    using inv by (auto simp: editor_inv_def keysFresh_def initialKey_routeKey [symmetric] routeKey_inj)
  then show ?thesis
    using inv ns createRoute_good by (auto simp: addRoute_def editor_inv_def)
qed

lemma removeRoute_inv: "editor_inv env s \<Longrightarrow> i < length (routesOf s) \<Longrightarrow> editor_inv env (removeRoute i s)"
proof -
  assume inv: "editor_inv env s" and i: "i < length (routesOf s)"
  then obtain ns where ns: "normalizedConfig s = Inr (configOf ns)" "routesOf s = ns" "length ns = length (ed_routeKeys s)"
    "list_all routeGood ns"
    using inv_normalized by metis
  have "list_all routeGood (removeAt i ns)"
    using ns(4) by (auto simp: list_all_iff removeAt_def dest: in_set_takeD in_set_dropD)
  then show ?thesis
    using inv i ns keysFresh_removeAt by (auto simp: removeRoute_def editor_inv_def removeAt_def)
qed

lemma createRouteKeys_inv:
  assumes "editor_inv env s" "c = configOf routes" "list_all routeGood routes"
  shows "editor_inv env (createRouteKeys (length routes) (s\<lparr>ed_config := c\<rparr>))"
  using assms keysFresh_create by (auto simp: editor_inv_def createRouteKeys_def)

lemma parseJson_inv:
  assumes "editor_inv env s" "parseJsonEditorConfig env s = Inr (r, s1)"
  shows "editor_inv env s1"
    and "r = Some c \<Longrightarrow> normalizeAdvancedCustomConfig c = Inr c \<and> json_ok c \<and> validateAdvancedCustomConfig (en_URL env) (Some c) = Inr None
      \<and> (\<exists>routes. c = configOf routes \<and> list_all routeGood routes)"
proof -
  show "editor_inv env s1"
    using assms by (auto simp: parseJsonEditorConfig_def editor_inv_def map_sum_Inr_iff split: option.splits)
  assume "r = Some c"
  then have parsed: "parseAdvancedCustomConfig (Some (ed_jsonText s)) = Some c"
    and valid: "validateAdvancedCustomConfig (en_URL env) (Some c) = Inr None"
    using assms(2) by (auto simp: parseJsonEditorConfig_def map_sum_Inr_iff split: option.splits)
  from parse_config [OF parsed] valid show "normalizeAdvancedCustomConfig c = Inr c \<and> json_ok c \<and>
      validateAdvancedCustomConfig (en_URL env) (Some c) = Inr None \<and> (\<exists>routes. c = configOf routes \<and> list_all routeGood routes)"
    using normal_routeGood by (auto simp: json_ok_configOf list_all_iff)
qed


lemma inv_display:
  "editor_inv env (s\<lparr>ed_editMode := m\<rparr>) = editor_inv env s" "editor_inv env (s\<lparr>ed_jsonText := t\<rparr>) = editor_inv env s"
  "editor_inv env (s\<lparr>ed_jsonError := t\<rparr>) = editor_inv env s" "editor_inv env (s\<lparr>ed_templateKey := t\<rparr>) = editor_inv env s"
  "editor_inv env (s\<lparr>ed_toasts := ts\<rparr>) = editor_inv env s" "editor_inv env (s\<lparr>ed_open := b\<rparr>) = editor_inv env s"
  by (simp_all add: editor_inv_def)

lemma switchToVisualMode_inv: "editor_inv env s \<Longrightarrow> editor_inv env (switchToVisualMode env s)"
proof (cases "parseJsonEditorConfig env s")
  case (Inr p)
  assume inv: "editor_inv env s"
  obtain r s1 where p: "p = (r, s1)" by (cases p)
  show ?thesis
  proof (cases r)
    case (Some c)
    then obtain routes where "normalizeAdvancedCustomConfig c = Inr c" "c = configOf routes" "list_all routeGood routes"
      using parseJson_inv(2) [OF inv, of r s1 c] Inr p by auto
    then show ?thesis
      using parseJson_inv(1) [OF inv, of r s1] Inr p Some createRouteKeys_inv [of env s1 c routes]
      by (simp add: switchToVisualMode_def inv_display)
  qed (use parseJson_inv(1) [OF inv] Inr p in \<open>simp add: switchToVisualMode_def\<close>)
qed (simp add: switchToVisualMode_def)

lemma text_handlers_inv:
  assumes "editor_inv env s"
  shows "editor_inv env (switchToJsonMode env s)" "editor_inv env (handleJsonChange v s)" "editor_inv env (formatJson env s)"
  using assms parseJson_inv(1) [OF assms]
  by (auto simp: switchToJsonMode_def handleJsonChange_def formatJson_def inv_display split: sum.splits option.splits)

lemma installConfig_inv:
  assumes "editor_inv env s" "list_all routeGood routes"
  shows "editor_inv env (installConfig env (configOf routes) s)"
proof -
  obtain ns where "normalizeAdvancedCustomConfig (configOf routes) = Inr (configOf ns)" "list_all routeGood ns"
    using good_normalizes [OF assms(2)] by blast
  then show ?thesis
    using createRouteKeys_inv [OF assms(1) refl] assms(1) by (simp add: installConfig_def inv_display split: sum.splits)
qed

lemma templates_good:
  "list_all (\<lambda>(key, c). json_ok c \<and> (\<exists>routes. c = configOf routes \<and> list_all routeGood routes)) ADVANCED_CUSTOM_TEMPLATE_OPTIONS"
  by (simp add: ADVANCED_CUSTOM_TEMPLATE_OPTIONS_def templateRoute_def bearerHeaderAuth_def apiKeyHeaderAuth_def geminiQueryAuth_def
      configOf_def routeGood_def)

lemma template_config:
  assumes "prints_decimals num_str"
  shows "\<exists>routes. getAdvancedCustomTemplateConfig num_str key = Inr (configOf routes) \<and> list_all routeGood routes"
proof -
  let ?c = "nullish (map_of ADVANCED_CUSTOM_TEMPLATE_OPTIONS key) (snd (hd ADVANCED_CUSTOM_TEMPLATE_OPTIONS))"
  have "ADVANCED_CUSTOM_TEMPLATE_OPTIONS \<noteq> []" by (simp add: ADVANCED_CUSTOM_TEMPLATE_OPTIONS_def)
  then have "\<exists>k. (k, ?c) \<in> set ADVANCED_CUSTOM_TEMPLATE_OPTIONS"
    by (cases "map_of ADVANCED_CUSTOM_TEMPLATE_OPTIONS key") (auto dest: map_of_SomeD, metis list.set_sel(1) prod.collapse)
  then have "json_ok ?c" "\<exists>routes. ?c = configOf routes \<and> list_all routeGood routes"
    using templates_good by (auto simp: list_all_iff)
  then show ?thesis
    using JSON_parse_stringify(1) [OF assms, of ?c]
    by (auto simp: getAdvancedCustomTemplateConfig_def cloneAdvancedCustomConfig_def)
qed

lemma applyTemplate_inv:
  assumes "prints_decimals (en_num_str env)" "editor_inv env s"
  shows "editor_inv env (applyTemplate env appending s)"
proof -
  obtain rs where rs: "getAdvancedCustomTemplateConfig (en_num_str env) (ed_templateKey s) = Inr (configOf rs)" "list_all routeGood rs"
    using template_config [OF assms(1)] by blast
  obtain ts where ts: "normalizeAdvancedCustomConfig (configOf rs) = Inr (configOf ts)" "list_all routeGood ts"
    using good_normalizes [OF rs(2)] by blast
  have step: "editor_inv env (case (normalizeAdvancedCustomConfig c, normalizeAdvancedCustomConfig (configOf rs)) of
      (Inr base, Inr template) \<Rightarrow> installConfig env (configOf (advancedRoutes base @ advancedRoutes template)) s1 | _ \<Rightarrow> s1)"
    if s1: "editor_inv env s1" and c: "c = configOf bs" "list_all routeGood bs" for c s1 bs
    using good_normalizes [OF c(2)] ts installConfig_inv [OF s1] c(1) by auto
  obtain ns where ns: "normalizedConfig s = Inr (configOf ns)" "list_all routeGood ns"
    using inv_normalized [OF assms(2)] by metis
  show ?thesis
  proof (cases "\<not> appending \<or> ed_editMode s = VisualMode")
    case True
    then show ?thesis
      using rs installConfig_inv [OF assms(2)] step [OF assms(2) refl ns(2)] ns(1)
      by (cases appending) (auto simp: applyTemplate_def)
  next
    case False
    then have mode: "appending" "ed_editMode s = JsonMode"
      by (auto intro: AdvancedCustomEditMode.exhaust)
    show ?thesis
    proof (cases "parseJsonEditorConfig env s")
      case (Inr p)
      then obtain r s1 where p: "parseJsonEditorConfig env s = Inr (r, s1)" by (cases p) auto
      show ?thesis
      proof (cases r)
        case None
        then show ?thesis using parseJson_inv(1) [OF assms(2) p] rs(1) mode p by (simp add: applyTemplate_def)
      next
        case (Some c)
        then obtain bs where "c = configOf bs" "list_all routeGood bs"
          using parseJson_inv(2) [OF assms(2) p] by blast
        from step [OF parseJson_inv(1) [OF assms(2) p] this] show ?thesis
          using rs(1) mode p Some by (simp add: applyTemplate_def)
      qed
    qed (use assms(2) rs(1) mode in \<open>simp add: applyTemplate_def\<close>)
  qed
qed

lemma saveConfig_inv:
  assumes "prints_decimals (en_num_str env)" "editor_inv env s"
  shows "editor_inv env (saveConfig env s)"
proof -
  have emit: "editor_inv env (case stringifyAdvancedCustomConfig (en_num_str env) c of
      Inl _ \<Rightarrow> t | Inr content \<Rightarrow> t\<lparr>ed_saved := content # ed_saved t, ed_open := False\<rparr>)"
    if "editor_inv env t" "json_ok c" "normalizeAdvancedCustomConfig c = Inr c"
      "validateAdvancedCustomConfig (en_URL env) (Some c) = Inr None" for c t
    using that saved_valid [OF assms(1) that(2,3,4)] by (simp add: editor_inv_def)
  obtain ns where ns: "normalizedConfig s = Inr (configOf ns)" "list_all normalRoute ns" "list_all routeGood ns"
    using inv_normalized [OF assms(2)] by metis
  have ok: "json_ok (configOf ns)" "normalizeAdvancedCustomConfig (configOf ns) = Inr (configOf ns)"
    using ns(2,3) by (auto simp: json_ok_configOf normalize_normal list_all_iff routeGood_def)
  show ?thesis
  proof (cases "ed_editMode s")
    case VisualMode
    then show ?thesis
      using emit [OF assms(2) ok] assms(2) ns(1)
      by (auto simp: saveConfig_def Let_def validationError_def inv_display split: sum.splits option.splits)
  next
    case JsonMode
    show ?thesis
    proof (cases "parseJsonEditorConfig env s")
      case (Inr p)
      then obtain r s1 where p: "parseJsonEditorConfig env s = Inr (r, s1)" by (cases p) auto
      show ?thesis
        using parseJson_inv [OF assms(2) p] emit [of s1] JsonMode p
        by (cases r) (auto simp: saveConfig_def Let_def inv_display)
    qed (use assms(2) JsonMode in \<open>simp add: saveConfig_def Let_def\<close>)
  qed
qed


lemma row_good: "editor_inv env s \<Longrightarrow> i < length (routesOf s) \<Longrightarrow> routeGood (routesOf s ! i)"
  by (metis inv_normalized list_all_length)

lemma setUpstreamPath_good: "patchGood (setUpstreamPath v)"
  using patches_good(3) createRoute_good by blast

lemma editor_step_inv:
  assumes "prints_decimals (en_num_str env)"
  shows "editor_step env s e s' \<Longrightarrow> editor_inv env s \<Longrightarrow> editor_inv env s'"
proof (induction rule: editor_step.induct)
  case (step_auth_field s i field v patch)
  then show ?case
    using patches_good(5) [OF row_good] updateRoute_inv by blast
qed (simp_all add: updateRoute_inv patches_good(1,2,4) row_good setUpstreamPath_good addRoute_inv removeRoute_inv
    switchToVisualMode_inv text_handlers_inv inv_display applyTemplate_inv saveConfig_inv assms)

lemma initialConfig_good: "\<exists>routes. initialConfig v = configOf routes \<and> list_all normalRoute routes \<and> list_all routeGood routes"
proof (cases "parseAdvancedCustomConfig (Some v)")
  case None
  have "normalRoute createAdvancedCustomRoute" by code_simp
  then show ?thesis
    using None createRoute_good by (auto simp: initialConfig_def createAdvancedCustomConfig_def configOf_def)
next
  case (Some c)
  then show ?thesis
    using parse_config [OF Some] normal_routeGood by (auto simp: initialConfig_def json_ok_configOf list_all_iff)
qed

lemma initialEditor_inv: "editor_inv env (initialEditor env v)"
proof -
  obtain routes where r: "initialConfig v = configOf routes" "list_all normalRoute routes" "list_all routeGood routes"
    using initialConfig_good by blast
  have "keysFresh 0 (map initialKey [0..<n])" for n
    by (auto simp: keysFresh_def distinct_map inj_on_def initialKey_inj)
  then show ?thesis
    using r normalize_normal [OF r(2)]
    by (auto simp: editor_inv_def initialEditor_def okOr_def initialKey_def [abs_def, symmetric] simp flip: initialKey_def)
qed

text \<open>The editor as an event system, for every environment with the law of number formatting.\<close>

definition lawful :: "AdvancedEnv \<Rightarrow> bool" where
  "lawful env \<longleftrightarrow> prints_decimals (en_num_str env)"

interpretation editor: invariant_system "\<lambda>(env, s). lawful env \<and> (\<exists>v. s = initialEditor env v)"
    "\<lambda>(env, s) e (env', s'). env' = env \<and> editor_step env s e s'" "\<lambda>(env, s). lawful env \<and> editor_inv env s"
  by unfold_locales (auto simp: lawful_def initialEditor_inv editor_step_inv)

definition editor_reachable :: "AdvancedEnv \<Rightarrow> AdvancedEditor \<Rightarrow> bool" where
  "editor_reachable env s \<longleftrightarrow> reachable (\<lambda>(env, s). lawful env \<and> (\<exists>v. s = initialEditor env v))
     (\<lambda>(env, s) e (env', s'). env' = env \<and> editor_step env s e s') (env, s)"

lemma editor_reachable_inv: "editor_reachable env s \<Longrightarrow> editor_inv env s"
  using editor.reachable_inv [of "(env, s)"] by (simp add: editor_reachable_def)


section \<open>Properties\<close>

lemmas eval_validation = validateAdvancedCustomConfig_def normalizeAdvancedCustomConfig_def normalizeAdvancedCustomRoute_def
  getAdvancedCustomRouteUpstreamPath_def normalizedAuth_def advancedRoutes_def checkRoute_def validateRouteAuth_def optTrim_def
  isFullHttpURLOrAbsolutePath_def isAdvancedCustomConverter_def isConverterPathAllowed_def ADVANCED_CUSTOM_CONVERTER_OPTIONS_def
  js_eval Let_def

lemma templates_valid:
  "list_all (\<lambda>(key, c). validateAdvancedCustomConfig URL (Some c) = Inr None) ADVANCED_CUSTOM_TEMPLATE_OPTIONS"
  by (simp add: ADVANCED_CUSTOM_TEMPLATE_OPTIONS_def templateRoute_def bearerHeaderAuth_def apiKeyHeaderAuth_def geminiQueryAuth_def
      eval_validation)

lemma default_path_offered:
  assumes "(path, label) \<in> set ADVANCED_CUSTOM_INCOMING_PATH_OPTIONS" "isConverterPathAllowed path (JStr c)"
  shows "isConverterPathAllowed (getDefaultAdvancedCustomIncomingPath c) (JStr c)"
proof -
  obtain p l rest where options: "getAdvancedCustomIncomingPathOptions c = (p, l) # rest"
    using assms by (cases "getAdvancedCustomIncomingPathOptions c") (force simp: getAdvancedCustomIncomingPathOptions_def filter_empty_conv)+
  then have "(p, l) \<in> set (getAdvancedCustomIncomingPathOptions c)" by simp
  then have "(p, l) \<in> set ADVANCED_CUSTOM_INCOMING_PATH_OPTIONS" "isConverterPathAllowed p (JStr c)"
    by (simp_all add: getAdvancedCustomIncomingPathOptions_def)
  moreover have "list_all (\<lambda>(p, l). p \<noteq> []) ADVANCED_CUSTOM_INCOMING_PATH_OPTIONS"
    by (simp add: ADVANCED_CUSTOM_INCOMING_PATH_OPTIONS_def)
  ultimately show ?thesis
    using options by (auto simp: getDefaultAdvancedCustomIncomingPath_def or_str_def list_all_iff)
qed

lemma default_path_allowed:
  assumes "(c, label) \<in> set ADVANCED_CUSTOM_CONVERTER_OPTIONS"
  shows "isConverterPathAllowed (getDefaultAdvancedCustomIncomingPath c) (JStr c)"
proof -
  have options: "(js ''/v1/chat/completions'', js ''OpenAI Chat'') \<in> set ADVANCED_CUSTOM_INCOMING_PATH_OPTIONS"
    "(js ''/v1/responses'', js ''OpenAI Responses'') \<in> set ADVANCED_CUSTOM_INCOMING_PATH_OPTIONS"
    "(js ''/v1/messages'', js ''Claude Messages'') \<in> set ADVANCED_CUSTOM_INCOMING_PATH_OPTIONS"
    "(js ''/v1beta/models/{model}:generateContent'', js ''Gemini Generate Content'') \<in> set ADVANCED_CUSTOM_INCOMING_PATH_OPTIONS"
    by (simp_all add: ADVANCED_CUSTOM_INCOMING_PATH_OPTIONS_def)
  have "isConverterPathAllowed (js ''/v1/chat/completions'') (JStr c) \<or> isConverterPathAllowed (js ''/v1/responses'') (JStr c)
      \<or> isConverterPathAllowed (js ''/v1/messages'') (JStr c)
      \<or> isConverterPathAllowed (js ''/v1beta/models/{model}:generateContent'') (JStr c)"
    using assms by (auto simp: ADVANCED_CUSTOM_CONVERTER_OPTIONS_def isConverterPathAllowed_def js_def str_includes_def)
  then show ?thesis using options default_path_offered by blast
qed

text \<open>
  A stored text that parses can still make the editor fail: a path that is a number survives parsing,
  and the validator, which is called while rendering, throws.
\<close>

lemma numeric_path_throws:
  assumes "JSON_parse content = Some (configOf [JObj [(js ''incoming_path'', JNum n)]])" "n \<noteq> 0"
  shows "\<exists>c. parseAdvancedCustomConfig (Some content) = Some c" "getAdvancedCustomStats URL (Some content) = Inl TypeError"
    "validationError env (initialEditor env content) = Inl TypeError"
proof -
  have parsed: "parseAdvancedCustomConfig (Some content) = Some (configOf [routeOf (JNum n) [] (JStr (js ''none'')) None])"
    using assms JSON_parse_nonblank [OF assms(1)]
    by (simp add: parseAdvancedCustomConfig_def configOf_def routeOf_def eval_validation)
  then show "\<exists>c. parseAdvancedCustomConfig (Some content) = Some c" by blast
  show "getAdvancedCustomStats URL (Some content) = Inl TypeError" "validationError env (initialEditor env content) = Inl TypeError"
    using assms(2) parsed
    by (simp_all add: getAdvancedCustomStats_def getAdvancedCustomRouteSummaryLabel_def validationError_def normalizedConfig_def
        initialEditor_def initialConfig_def configOf_def routeOf_def eval_validation)
qed

text \<open>
  The two selects of a row keep converter and path in agreement: after choosing a path the converter
  fits it, and after choosing a converter for a route with a path the path fits the converter.
\<close>

lemma path_select_fits:
  assumes "js_prop route (js ''converter'') = Some (JStr c)" "c \<noteq> []" "route = JObj ps"
    and "patched = patchRoute (setIncomingPath p route) route"
  shows "\<exists>path conv. js_prop patched (js ''incoming_path'') = Some (JStr path) \<and> js_prop patched (js ''converter'') = Some (JStr conv)
    \<and> isConverterPathAllowed path (JStr conv)"
  using assms
  by (auto simp: patchRoute_def setIncomingPath_def Let_def routeConverter_def or_json_def truthy_opt_def
      isAdvancedCustomIncomingPathAllowed_def isConverterPathAllowed_def [of _ "JStr (js ''none'')"])

lemma converter_select_fits:
  assumes "js_prop route (js ''incoming_path'') = Some (JStr path)" "path \<noteq> []" "route = JObj ps"
    and "(c, label) \<in> set ADVANCED_CUSTOM_CONVERTER_OPTIONS" "patched = patchRoute (setConverter c route) route"
  shows "\<exists>path. js_prop patched (js ''incoming_path'') = Some (JStr path) \<and> js_prop patched (js ''converter'') = Some (JStr c)
    \<and> isConverterPathAllowed path (JStr c)"
  using assms default_path_allowed
  by (auto simp: patchRoute_def setConverter_def shownIncomingPath_def or_json_def truthy_opt_def
      isAdvancedCustomIncomingPathAllowed_def)

text \<open>
  C7. The advanced route editor saves only what it can read back: in every state it can reach, each
  text it handed to the form parses to a configuration that passes validation, and every route has a
  row key of its own.
\<close>

theorem advanced_editor_saves_valid:
  assumes "editor_reachable env s"
  shows "(\<forall>content \<in> set (ed_saved s). \<exists>c. parseAdvancedCustomConfig (Some content) = Some c
      \<and> validateAdvancedCustomConfig (en_URL env) (Some c) = Inr None)
    \<and> length (ed_routeKeys s) = length (routesOf s) \<and> distinct (ed_routeKeys s)"
proof -
  have inv: "editor_inv env s" by (rule editor_reachable_inv [OF assms])
  moreover have "length (ed_routeKeys s) = length (routesOf s)"
    using inv_normalized [OF inv] by metis
  ultimately show ?thesis
    by (auto simp: editor_inv_def savedValid_def keysFresh_def list_all_iff)
qed

definition demo_editor_env :: AdvancedEnv where
  "demo_editor_env = \<lparr>en_num_str = dec_str, en_URL = (\<lambda>_. None)\<rparr>"

theorem advanced_editor_saves_valid_witness:
  "editor_reachable demo_editor_env (saveConfig demo_editor_env (initialEditor demo_editor_env []))
    \<and> length (ed_saved (saveConfig demo_editor_env (initialEditor demo_editor_env []))) = 1
    \<and> (\<exists>c. parseAdvancedCustomConfig (Some (hd (ed_saved (saveConfig demo_editor_env (initialEditor demo_editor_env []))))) = Some c)"
proof -
  let ?s = "initialEditor demo_editor_env []" and ?t = "saveConfig demo_editor_env (initialEditor demo_editor_env [])"
  let ?start = "\<lambda>(env, s). lawful env \<and> (\<exists>v. s = initialEditor env v)"
  let ?step = "\<lambda>(env, s) e (env', s'). env' = env \<and> editor_step env s e s'"
  have "?start (demo_editor_env, ?s)"
    by (auto simp: lawful_def demo_editor_env_def dec_str_prints)
  then have "reachable ?start ?step (demo_editor_env, ?s)" by (rule reach_start)
  moreover have "editor_step demo_editor_env ?s Save ?t"
    by (rule step_save) (simp add: initialEditor_def)
  then have "?step (demo_editor_env, ?s) Save (demo_editor_env, ?t)" by simp
  ultimately have reach: "editor_reachable demo_editor_env ?t"
    unfolding editor_reachable_def by (rule reach_step)
  moreover have "ed_config ?s = createAdvancedCustomConfig" "ed_editMode ?s = VisualMode" "ed_saved ?s = []"
    by (simp_all add: initialEditor_def initialConfig_def parseAdvancedCustomConfig_def)
  then have "length (ed_saved ?t) = 1"
    by (simp add: saveConfig_def validationError_def normalizedConfig_def stringifyAdvancedCustomConfig_def
        createAdvancedCustomConfig_def createAdvancedCustomRoute_def eval_validation)
  ultimately show ?thesis
    using advanced_editor_saves_valid [OF reach] by (cases "ed_saved ?t") auto
qed

text \<open>
  C31. The validator of advanced routes accepts exactly the configurations with at least one route whose
  paths are different and whose routes are valid: an absolute path without query, an upstream that is a
  path or an HTTP URL, a registered converter that fits the path, and complete authentication.
\<close>

theorem advanced_validation_exact:
  "validateAdvancedCustomConfig URL (Some config) = Inr None \<longleftrightarrow>
     (\<exists>routes. normalizeAdvancedCustomConfig config = Inr (configOf routes) \<and> routes \<noteq> []
        \<and> list_all (validRoute URL) routes \<and> distinct (map routePath routes))"
  by (rule config_accepted)

text \<open>
  A configuration that was read is written and read back unchanged.
\<close>

theorem advanced_config_roundtrip:
  assumes "prints_decimals num_str" "parseAdvancedCustomConfig v = Some c"
  shows "\<exists>content. stringifyAdvancedCustomConfig num_str c = Inr content \<and> parseAdvancedCustomConfig (Some content) = Some c"
  using parse_config(1,2) [OF assms(2)] parse_printed_config [OF _ _ assms(1)] by (auto simp: stringifyAdvancedCustomConfig_def)

theorem advanced_config_roundtrip_witness:
  "\<exists>c content. parseAdvancedCustomConfig (Some (js ''{}'')) = Some c \<and> stringifyAdvancedCustomConfig dec_str c = Inr content
     \<and> parseAdvancedCustomConfig (Some content) = Some c"
proof -
  have parsed: "parseAdvancedCustomConfig (Some (js ''{}'')) = Some (configOf [])" by code_simp
  show ?thesis using advanced_config_roundtrip [OF dec_str_prints parsed] parsed by blast
qed

text \<open>
  The button of the visual mode discards unsaved edits: pressed while the visual mode is active, it
  replaces the routes by those of the JSON text, whatever was edited since the text was written.
\<close>

theorem visual_click_discards_edits:
  assumes "ed_editMode s = VisualMode" "parseAdvancedCustomConfig (Some (ed_jsonText s)) = Some c"
    and "validateAdvancedCustomConfig (en_URL env) (Some c) = Inr None"
  shows "ed_config (switchToVisualMode env s) = c \<and> ed_editMode (switchToVisualMode env s) = VisualMode"
  using assms parse_config(1) [OF assms(2)]
  by (simp add: switchToVisualMode_def parseJsonEditorConfig_def createRouteKeys_def)

theorem visual_click_discards_edits_witness:
  "length (routesOf (addRoute (initialEditor demo_editor_env []))) = 2
    \<and> ed_config (switchToVisualMode demo_editor_env (addRoute (initialEditor demo_editor_env []))) = createAdvancedCustomConfig"
proof -
  let ?s = "addRoute (initialEditor demo_editor_env [])" and ?c = createAdvancedCustomConfig
  have normal: "normalRoute createAdvancedCustomRoute" and c: "?c = configOf [createAdvancedCustomRoute]"
    by (simp_all add: normalRoute_def createAdvancedCustomRoute_def createAdvancedCustomConfig_def configOf_def eval_validation)
  have n: "normalizeAdvancedCustomConfig ?c = Inr ?c"
    unfolding c by (rule normalize_normal) (simp add: normal)
  have init: "initialConfig [] = ?c"
    by (simp add: initialConfig_def parseAdvancedCustomConfig_def)
  have s: "ed_editMode ?s = VisualMode" "ed_jsonText ?s = JSON_pretty dec_str ?c" "ed_config ?s = configOf [createAdvancedCustomRoute, createAdvancedCustomRoute]"
    using n by (simp_all add: addRoute_def initialEditor_def init normalizedConfig_def okOr_def stringifyAdvancedCustomConfig_def
        demo_editor_env_def) (simp add: c)
  have "json_ok ?c"
    using createRoute_good by (simp add: c json_ok_configOf routeGood_def)
  then have "parseAdvancedCustomConfig (Some (ed_jsonText ?s)) = Some ?c"
    using parse_printed_config [OF _ n dec_str_prints] by (simp add: s(2))
  moreover have "validateAdvancedCustomConfig (en_URL demo_editor_env) (Some ?c) = Inr None"
    by (simp add: createAdvancedCustomConfig_def createAdvancedCustomRoute_def eval_validation)
  ultimately have "ed_config (switchToVisualMode demo_editor_env ?s) = ?c"
    using visual_click_discards_edits [OF s(1)] by blast
  moreover have "routesOf ?s = [createAdvancedCustomRoute, createAdvancedCustomRoute]"
    using normal by (simp add: routesOf_def normalizedConfig_def s(3) normalize_normal)
  ultimately show ?thesis by simp
qed

end
