(* ===== verification/Param_Override.thy ===== *)
theory Param_Override
  imports JS_Stringify
begin

text \<open>
  \<open>features/channels/components/dialogs/param-override-editor-dialog.tsx\<close>, the functions outside the
  component: reading and writing of parameter override rules. Stored values are parsed and cast, so that
  they are \<open>json\<close> here. Every rule and condition gets a local id from a counter that is shared by the whole
  module; it is passed along as \<open>seed\<close>, and \<open>pe_clock\<close> gives the time of each call. After an exception the
  counter is not advanced, which only skips numbers that were given to nothing.
\<close>

section \<open>Data\<close>

record ParamOverrideCondition =
  oc_id :: jstring
  oc_path :: jstring
  oc_mode :: jstring
  oc_value_text :: jstring
  oc_invert :: bool
  oc_pass_missing_key :: bool

record ParamOverrideOperation =
  oo_id :: jstring
  oo_description :: jstring
  oo_path :: jstring
  oo_mode :: jstring
  oo_from :: jstring
  oo_to :: jstring
  oo_value_text :: jstring
  oo_keep_origin :: bool
  oo_logic :: jstring
  oo_conditions :: "ParamOverrideCondition list"

record OverrideEnv =
  pe_num_str :: "jnum \<Rightarrow> jstring"
  pe_clock :: "nat \<Rightarrow> nat"

definition OPERATION_MODE_OPTIONS :: "(jstring \<times> jstring) list" where
  "OPERATION_MODE_OPTIONS = map (map_prod js js)
     [(''set'', ''Set Field''), (''delete'', ''Delete Field''), (''append'', ''Append to End''),
      (''prepend'', ''Prepend to Start''), (''copy'', ''Copy Field''), (''move'', ''Move Field''),
      (''replace'', ''String Replace''), (''regex_replace'', ''Regex Replace''), (''trim_prefix'', ''Trim Prefix''),
      (''trim_suffix'', ''Trim Suffix''), (''ensure_prefix'', ''Ensure Prefix''), (''ensure_suffix'', ''Ensure Suffix''),
      (''trim_space'', ''Trim Space''), (''to_lower'', ''To Lowercase''), (''to_upper'', ''To Uppercase''),
      (''return_error'', ''Return Custom Error''), (''prune_objects'', ''Prune Object Items''),
      (''pass_headers'', ''Pass Through Headers''), (''sync_fields'', ''Sync Fields''),
      (''set_header'', ''Set Request Header''), (''delete_header'', ''Delete Request Header''),
      (''copy_header'', ''Copy Request Header''), (''move_header'', ''Move Request Header'')]"

definition OPERATION_MODE_VALUES :: "jstring list" where
  "OPERATION_MODE_VALUES = map fst OPERATION_MODE_OPTIONS"

definition CONDITION_MODE_VALUES :: "jstring list" where
  "CONDITION_MODE_VALUES = map js [''full'', ''prefix'', ''suffix'', ''contains'', ''gt'', ''gte'', ''lt'', ''lte'']"

record ModeMeta =
  mm_path :: bool
  mm_pathOptional :: bool
  mm_value :: bool
  mm_from :: bool
  mm_to :: bool
  mm_keepOrigin :: bool
  mm_pathAlias :: bool

definition noMeta :: ModeMeta where
  "noMeta = \<lparr>mm_path = False, mm_pathOptional = False, mm_value = False, mm_from = False, mm_to = False, mm_keepOrigin = False,
     mm_pathAlias = False\<rparr>"

definition MODE_META :: "(jstring \<times> ModeMeta) list" where
  "MODE_META =
     (let p = noMeta\<lparr>mm_path := True\<rparr>; pv = p\<lparr>mm_value := True\<rparr>; pvk = pv\<lparr>mm_keepOrigin := True\<rparr>;
          ft = noMeta\<lparr>mm_from := True, mm_to := True\<rparr>; pf = p\<lparr>mm_from := True\<rparr>;
          alias = ft\<lparr>mm_keepOrigin := True, mm_pathAlias := True\<rparr> in
      map (map_prod js id)
        [(''delete'', p), (''set'', pvk), (''append'', pvk), (''prepend'', pvk), (''copy'', ft), (''move'', ft),
         (''replace'', pf), (''regex_replace'', pf), (''trim_prefix'', pv), (''trim_suffix'', pv), (''ensure_prefix'', pv),
         (''ensure_suffix'', pv), (''trim_space'', p), (''to_lower'', p), (''to_upper'', p),
         (''return_error'', noMeta\<lparr>mm_value := True\<rparr>), (''prune_objects'', noMeta\<lparr>mm_pathOptional := True, mm_value := True\<rparr>),
         (''pass_headers'', noMeta\<lparr>mm_value := True, mm_keepOrigin := True\<rparr>), (''sync_fields'', ft), (''set_header'', pvk),
         (''delete_header'', p), (''copy_header'', alias), (''move_header'', alias)])"

definition VALUE_REQUIRED_MODES :: "jstring list" where
  "VALUE_REQUIRED_MODES = map js [''trim_prefix'', ''trim_suffix'', ''ensure_prefix'', ''ensure_suffix'', ''set_header'',
     ''return_error'', ''prune_objects'', ''pass_headers'']"

definition FROM_REQUIRED_MODES :: "jstring list" where
  "FROM_REQUIRED_MODES = map js [''copy'', ''move'', ''replace'', ''regex_replace'', ''copy_header'', ''move_header'', ''sync_fields'']"

definition TO_REQUIRED_MODES :: "jstring list" where
  "TO_REQUIRED_MODES = map js [''copy'', ''move'', ''copy_header'', ''move_header'', ''sync_fields'']"

section \<open>Reading rules\<close>

definition nextLocalId :: "OverrideEnv \<Rightarrow> nat \<Rightarrow> jstring" where
  "nextLocalId env seed = js ''po_'' @ nat_str (pe_clock env seed) @ js ''_'' @ nat_str seed"

definition toValueText :: "OverrideEnv \<Rightarrow> json option \<Rightarrow> jstring" where
  "toValueText env v = (case v of None \<Rightarrow> [] | Some (JStr s) \<Rightarrow> s | Some w \<Rightarrow> JSON_stringify (pe_num_str env) w)"

definition parseLooseValue :: "jstring \<Rightarrow> json" where
  "parseLooseValue valueText =
     (let raw = trim valueText in if raw = [] then JStr [] else (case JSON_parse raw of Some v \<Rightarrow> v | None \<Rightarrow> JStr raw))"

definition verifyJSON :: "jstring \<Rightarrow> bool" where
  "verifyJSON content \<longleftrightarrow> JSON_parse content \<noteq> None"

definition stringField :: "json \<Rightarrow> string \<Rightarrow> jstring" where
  "stringField v k = (case js_prop v (js k) of Some (JStr s) \<Rightarrow> s | _ \<Rightarrow> [])"

definition knownMode :: "jstring list \<Rightarrow> json \<Rightarrow> string \<Rightarrow> jstring" where
  "knownMode modes v fallback = (case js_prop v (js ''mode'') of
     Some (JStr m) \<Rightarrow> if m \<in> set modes then m else js fallback | _ \<Rightarrow> js fallback)"

definition normalizeOverrideCondition :: "OverrideEnv \<Rightarrow> nat \<Rightarrow> json \<Rightarrow> js_error + ParamOverrideCondition \<times> nat" where
  "normalizeOverrideCondition env seed condition =
     (if condition = JNull then Inl TypeError
      else Inr (\<lparr>oc_id = nextLocalId env seed, oc_path = stringField condition ''path'',
          oc_mode = knownMode CONDITION_MODE_VALUES condition ''full'',
          oc_value_text = toValueText env (js_prop condition (js ''value'')),
          oc_invert = (js_prop condition (js ''invert'') = Some (JBool True)),
          oc_pass_missing_key = (js_prop condition (js ''pass_missing_key'') = Some (JBool True))\<rparr>, Suc seed))"

text \<open>\<open>xs.map(f)\<close> for a callback that draws ids.\<close>

fun mapFresh :: "(nat \<Rightarrow> 'a \<Rightarrow> js_error + 'b \<times> nat) \<Rightarrow> nat \<Rightarrow> 'a list \<Rightarrow> js_error + 'b list \<times> nat" where
  "mapFresh f seed [] = Inr ([], seed)"
| "mapFresh f seed (x # xs) = bind_result (f seed x) (\<lambda>(y, seed1). map_sum id (map_prod ((#) y) id) (mapFresh f seed1 xs))"

definition normalizeOperation :: "OverrideEnv \<Rightarrow> nat \<Rightarrow> json \<Rightarrow> js_error + ParamOverrideOperation \<times> nat" where
  "normalizeOperation env seed operation =
     (if operation = JNull then Inl TypeError
      else bind_result (to_string (pe_num_str env) (or_json (js_prop operation (js ''logic'')) (JStr (js ''OR'')))) (\<lambda>logic.
        map_sum id (map_prod (\<lambda>conditions.
            \<lparr>oo_id = nextLocalId env seed, oo_description = stringField operation ''description'',
             oo_path = stringField operation ''path'', oo_mode = knownMode OPERATION_MODE_VALUES operation ''set'',
             oo_from = stringField operation ''from'', oo_to = stringField operation ''to'',
             oo_value_text = toValueText env (js_prop operation (js ''value'')),
             oo_keep_origin = (js_prop operation (js ''keep_origin'') = Some (JBool True)),
             oo_logic = (if ascii_upper logic = js ''AND'' then js ''AND'' else js ''OR''), oo_conditions = conditions\<rparr>) id)
          (case js_prop operation (js ''conditions'') of
             Some (JArr cs) \<Rightarrow> mapFresh (normalizeOverrideCondition env) (Suc seed) cs
           | _ \<Rightarrow> Inr ([], Suc seed))))"

definition createDefaultCondition :: "OverrideEnv \<Rightarrow> nat \<Rightarrow> ParamOverrideCondition" where
  "createDefaultCondition env seed = \<lparr>oc_id = nextLocalId env seed, oc_path = [], oc_mode = js ''full'', oc_value_text = [],
     oc_invert = False, oc_pass_missing_key = False\<rparr>"

definition createDefaultOperation :: "OverrideEnv \<Rightarrow> nat \<Rightarrow> ParamOverrideOperation" where
  "createDefaultOperation env seed = \<lparr>oo_id = nextLocalId env seed, oo_description = [], oo_path = [], oo_mode = js ''set'',
     oo_from = [], oo_to = [], oo_value_text = [], oo_keep_origin = False, oo_logic = js ''OR'', oo_conditions = []\<rparr>"

lemma createDefaultCondition_normalizes:
  "normalizeOverrideCondition env seed (JObj []) = Inr (createDefaultCondition env seed, Suc seed)"
  by (simp add: normalizeOverrideCondition_def createDefaultCondition_def stringField_def knownMode_def toValueText_def)

lemma createDefaultOperation_normalizes:
  "normalizeOperation env seed (JObj [(js ''mode'', JStr (js ''set''))]) = Inr (createDefaultOperation env seed, Suc seed)"
  by (simp add: normalizeOperation_def createDefaultOperation_def stringField_def knownMode_def toValueText_def
      OPERATION_MODE_VALUES_def OPERATION_MODE_OPTIONS_def or_json_def truthy_opt_def ascii_upper_def js_def)

text \<open>Dragging a rule: \<open>afterwards\<close> is the position \<open>'after'\<close>.\<close>

definition reorderOperations :: "ParamOverrideOperation list \<Rightarrow> jstring \<Rightarrow> jstring \<Rightarrow> bool \<Rightarrow> ParamOverrideOperation list" where
  "reorderOperations ops sourceId targetId afterwards =
     (if sourceId = [] \<or> targetId = [] \<or> sourceId = targetId then ops
      else (case findIndex (\<lambda>o'. oo_id o' = sourceId) ops of
          None \<Rightarrow> ops
        | Some srcIdx \<Rightarrow>
            (let rest = take srcIdx ops @ drop (Suc srcIdx) ops in
             case findIndex (\<lambda>o'. oo_id o' = targetId) rest of
               None \<Rightarrow> ops
             | Some targetIdx \<Rightarrow> (let insertIdx = (if afterwards then Suc targetIdx else targetIdx) in
                 take insertIdx rest @ [ops ! srcIdx] @ drop insertIdx rest))))"

definition isOperationBlank :: "ParamOverrideOperation \<Rightarrow> bool" where
  "isOperationBlank operation \<longleftrightarrow>
     (let hasCondition = list_ex (\<lambda>c. trim (oc_path c) \<noteq> [] \<or> trim (oc_value_text c) \<noteq> [] \<or> oc_mode c \<noteq> js ''full''
            \<or> oc_invert c \<or> oc_pass_missing_key c) (oo_conditions operation) in
      oo_mode operation = js ''set'' \<and> trim (oo_path operation) = [] \<and> trim (oo_from operation) = [] \<and> trim (oo_to operation) = []
      \<and> trim (oo_value_text operation) = [] \<and> \<not> oo_keep_origin operation \<and> \<not> hasCondition)"

definition getOperationSummary :: "ParamOverrideOperation \<Rightarrow> nat \<Rightarrow> jstring" where
  "getOperationSummary operation index =
     (let mode = or_str (Some (oo_mode operation)) (js ''set'');
          modeLabel = or_str (map_of OPERATION_MODE_OPTIONS mode) mode;
          targets = (if mode = js ''sync_fields'' then [] else [trim (oo_path operation)]) @ [trim (oo_from operation), trim (oo_to operation)] in
      nat_str (Suc index) @ js ''. '' @ modeLabel @ [32, 183, 32] @ nullish (List.find (\<lambda>t. t \<noteq> []) targets) (js ''-''))"

record SyncTarget =
  sy_type :: jstring
  sy_key :: jstring

definition parseSyncTargetSpec :: "jstring \<Rightarrow> SyncTarget" where
  "parseSyncTargetSpec spec =
     (let raw = trim spec in
      if raw = [] then \<lparr>sy_type = js ''json'', sy_key = []\<rparr>
      else (case indexOf raw [58] 0 of
          None \<Rightarrow> \<lparr>sy_type = js ''json'', sy_key = raw\<rparr>
        | Some idx \<Rightarrow> \<lparr>sy_type = (if ascii_lower (trim (take idx raw)) = js ''header'' then js ''header'' else js ''json''),
            sy_key = trim (drop (Suc idx) raw)\<rparr>))"

definition buildSyncTargetSpec :: "jstring \<Rightarrow> jstring \<Rightarrow> jstring" where
  "buildSyncTargetSpec ty key =
     (let normalizedKey = trim key in
      if normalizedKey = [] then [] else (if ty = js ''header'' then js ''header'' else js ''json'') @ [58] @ normalizedKey)"


section \<open>Values of \<open>return_error\<close>\<close>

text \<open>\<open>None\<close> as a status code is \<open>NaN\<close>.\<close>

record ReturnErrorDraft =
  re_message :: jstring
  re_statusCode :: "jnum option"
  re_code :: jstring
  re_type :: jstring
  re_skipRetry :: bool
  re_simpleMode :: bool

definition returnErrorDefaults :: ReturnErrorDraft where
  "returnErrorDefaults = \<lparr>re_message = [], re_statusCode = Some 400, re_code = [], re_type = [], re_skipRetry = True, re_simpleMode = True\<rparr>"

definition validStatus :: "jnum option \<Rightarrow> jnum" where
  "validStatus n = (if integer_between 100 599 n then the n else 400)"

text \<open>The contents of the \<open>try\<close> block for an object: an exception here leads to the plain text.\<close>

definition parseErrorObject :: "OverrideEnv \<Rightarrow> json \<Rightarrow> js_error + ReturnErrorDraft" where
  "parseErrorObject env parsed =
     (let field = (\<lambda>v. map_sum id trim (to_string (pe_num_str env) v)); p = (\<lambda>k. js_prop parsed (js k));
          statusRaw = (if p ''status_code'' \<noteq> None then p ''status_code'' else p ''status'') in
      bind_result (case statusRaw of None \<Rightarrow> Inr None | Some v \<Rightarrow> to_number (pe_num_str env) v) (\<lambda>statusValue.
      bind_result (field (or_json (p ''message'') (or_json (p ''msg'') (JStr [])))) (\<lambda>message.
      bind_result (field (or_json (p ''code'') (JStr []))) (\<lambda>code.
      map_sum id (\<lambda>ty. \<lparr>re_message = message, re_statusCode = Some (validStatus statusValue), re_code = code, re_type = ty,
          re_skipRetry = (p ''skip_retry'' \<noteq> Some (JBool False)), re_simpleMode = False\<rparr>)
        (field (or_json (p ''type'') (JStr [])))))))"

definition parseReturnErrorDraft :: "OverrideEnv \<Rightarrow> jstring \<Rightarrow> ReturnErrorDraft" where
  "parseReturnErrorDraft env valueText =
     (let raw = trim valueText; plain = returnErrorDefaults\<lparr>re_message := raw\<rparr> in
      if raw = [] then returnErrorDefaults
      else (case JSON_parse raw of
          Some (JObj ps) \<Rightarrow> (case parseErrorObject env (JObj ps) of Inl _ \<Rightarrow> plain | Inr d \<Rightarrow> d)
        | _ \<Rightarrow> plain))"

definition put_if :: "bool \<Rightarrow> string \<Rightarrow> json \<Rightarrow> (jstring \<times> json) list \<Rightarrow> (jstring \<times> json) list" where
  "put_if b k v ps = (if b then obj_put (js k) v ps else ps)"

definition buildReturnErrorValueText :: "OverrideEnv \<Rightarrow> ReturnErrorDraft \<Rightarrow> jstring" where
  "buildReturnErrorValueText env draft =
     (let message = trim (re_message draft) in
      if re_simpleMode draft then message
      else JSON_stringify (pe_num_str env) (JObj
        (put_if (\<not> re_skipRetry draft) ''skip_retry'' (JBool False)
        (put_if (trim (re_type draft) \<noteq> []) ''type'' (JStr (trim (re_type draft)))
        (put_if (trim (re_code draft) \<noteq> []) ''code'' (JStr (trim (re_code draft)))
          [(js ''message'', JStr message), (js ''status_code'', JNum (validStatus (re_statusCode draft)))])))))"

section \<open>Values of \<open>prune_objects\<close>\<close>

text \<open>A prune rule has the fields of a condition.\<close>

type_synonym PruneRule = ParamOverrideCondition

record PruneObjectsDraft =
  pr_simpleMode :: bool
  pr_typeText :: jstring
  pr_logic :: jstring
  pr_recursive :: bool
  pr_rules :: "PruneRule list"

definition pruneDefaults :: PruneObjectsDraft where
  "pruneDefaults = \<lparr>pr_simpleMode = True, pr_typeText = [], pr_logic = js ''AND'', pr_recursive = True, pr_rules = []\<rparr>"

definition normalizePruneRule :: "OverrideEnv \<Rightarrow> nat \<Rightarrow> json \<Rightarrow> js_error + PruneRule \<times> nat" where
  "normalizePruneRule env seed rule = normalizeOverrideCondition env seed rule"

definition whereRule :: "jstring \<times> json \<Rightarrow> json" where
  "whereRule e = JObj [(js ''path'', JStr (fst e)), (js ''mode'', JStr (js ''full'')), (js ''value'', snd e)]"

text \<open>The objects from which the two loops make rules, in their order.\<close>

definition pruneRuleSources :: "json \<Rightarrow> json list" where
  "pruneRuleSources parsed =
     (case js_prop parsed (js ''where'') of Some (JObj ws) \<Rightarrow> map whereRule ws | _ \<Rightarrow> []) @
     (case js_prop parsed (js ''conditions'') of
        Some (JArr cs) \<Rightarrow> filter (\<lambda>c. case c of JObj _ \<Rightarrow> True | JArr _ \<Rightarrow> True | _ \<Rightarrow> False) cs
      | Some (JObj ws) \<Rightarrow> map whereRule ws
      | _ \<Rightarrow> [])"

definition parsePruneObject :: "OverrideEnv \<Rightarrow> nat \<Rightarrow> json \<Rightarrow> js_error + PruneObjectsDraft \<times> nat" where
  "parsePruneObject env seed parsed =
     bind_result (mapFresh (normalizePruneRule env) seed (pruneRuleSources parsed)) (\<lambda>(rules, seed1).
     bind_result (case js_prop parsed (js ''type'') of None \<Rightarrow> Inr [] | Some v \<Rightarrow> map_sum id trim (to_string (pe_num_str env) v)) (\<lambda>typeText.
     map_sum id (\<lambda>logic.
         (\<lparr>pr_simpleMode = list_all (\<lambda>k. js_prop parsed (js k) = None) [''logic'', ''recursive'', ''where'', ''conditions''],
           pr_typeText = typeText, pr_logic = (if ascii_upper logic = js ''OR'' then js ''OR'' else js ''AND''),
           pr_recursive = (js_prop parsed (js ''recursive'') \<noteq> Some (JBool False)), pr_rules = rules\<rparr>, seed1))
       (to_string (pe_num_str env) (or_json (js_prop parsed (js ''logic'')) (JStr (js ''AND''))))))"

definition parsePruneObjectsDraft :: "OverrideEnv \<Rightarrow> nat \<Rightarrow> jstring \<Rightarrow> PruneObjectsDraft \<times> nat" where
  "parsePruneObjectsDraft env seed valueText =
     (let raw = trim valueText; plain = (pruneDefaults\<lparr>pr_typeText := raw\<rparr>, seed) in
      if raw = [] then (pruneDefaults, seed)
      else (case JSON_parse raw of
          None \<Rightarrow> plain
        | Some (JStr s) \<Rightarrow> (pruneDefaults\<lparr>pr_typeText := trim s\<rparr>, seed)
        | Some (JObj ps) \<Rightarrow> (case parsePruneObject env seed (JObj ps) of Inl _ \<Rightarrow> plain | Inr r \<Rightarrow> r)
        | Some v \<Rightarrow> (case (if v = JNull then Inr [] else to_string (pe_num_str env) v) of
            Inl _ \<Rightarrow> plain | Inr t \<Rightarrow> (pruneDefaults\<lparr>pr_typeText := trim t\<rparr>, seed))))"

definition pruneCondition :: "PruneRule \<Rightarrow> json" where
  "pruneCondition rule = JObj
     (put_if (oc_pass_missing_key rule) ''pass_missing_key'' (JBool True)
     (put_if (oc_invert rule) ''invert'' (JBool True)
     (put_if (trim (oc_value_text rule) \<noteq> []) ''value'' (parseLooseValue (trim (oc_value_text rule)))
       [(js ''path'', JStr (trim (oc_path rule))),
        (js ''mode'', JStr (if oc_mode rule \<in> set CONDITION_MODE_VALUES then oc_mode rule else js ''full''))])))"

definition buildPruneObjectsValueText :: "OverrideEnv \<Rightarrow> PruneObjectsDraft \<Rightarrow> jstring" where
  "buildPruneObjectsValueText env draft =
     (let typeText = trim (pr_typeText draft);
          conditions = map pruneCondition (filter (\<lambda>rule. trim (oc_path rule) \<noteq> []) (pr_rules draft)) in
      if pr_simpleMode draft then typeText
      else if typeText = [] \<and> length conditions = 0
      then JSON_stringify (pe_num_str env) (JObj [(js ''logic'', JStr (js ''AND''))])
      else JSON_stringify (pe_num_str env) (JObj
        (put_if (length conditions > 0) ''conditions'' (JArr conditions)
        (put_if (\<not> pr_recursive draft) ''recursive'' (JBool False)
        (put_if (ascii_upper (or_str (Some (pr_logic draft)) (js ''AND'')) = js ''OR'') ''logic'' (JStr (js ''OR''))
        (put_if (typeText \<noteq> []) ''type'' (JStr typeText) []))))))"

section \<open>Validation\<close>

text \<open>The trimmed nonempty names in a list of values; \<open>null\<close> counts as empty.\<close>

definition headerNames :: "OverrideEnv \<Rightarrow> json list \<Rightarrow> js_error + jstring list" where
  "headerNames env vs = map_sum id (\<lambda>names. filter (\<lambda>n. n \<noteq> []) (map trim names))
     (map_result (\<lambda>v. if v = JNull then Inr [] else to_string (pe_num_str env) v) vs)"

definition parsePassHeaderNames :: "OverrideEnv \<Rightarrow> json \<Rightarrow> js_error + jstring list" where
  "parsePassHeaderNames env rawValue = (case rawValue of
     JArr vs \<Rightarrow> headerNames env vs
   | JObj ps \<Rightarrow> (case map_of ps (js ''headers'') of
       Some (JArr vs) \<Rightarrow> headerNames env vs
     | _ \<Rightarrow> (case map_of ps (js ''header'') of Some h \<Rightarrow> headerNames env [h] | None \<Rightarrow> Inr []))
   | JStr s \<Rightarrow> Inr (filter (\<lambda>n. n \<noteq> []) (map trim (split_on 44 s)))
   | _ \<Rightarrow> Inr [])"

definition buildConditionPayload :: "ParamOverrideCondition \<Rightarrow> json option" where
  "buildConditionPayload condition =
     (let path = trim (oc_path condition) in
      if path = [] then None
      else Some (JObj (put_if (oc_pass_missing_key condition) ''pass_missing_key'' (JBool True)
        (put_if (oc_invert condition) ''invert'' (JBool True)
          [(js ''path'', JStr path), (js ''mode'', JStr (or_str (Some (oc_mode condition)) (js ''full''))),
           (js ''value'', parseLooseValue (oc_value_text condition))]))))"

definition modeMeta :: "jstring \<Rightarrow> ModeMeta" where
  "modeMeta mode = nullish (map_of MODE_META mode) (nullish (map_of MODE_META (js ''set'')) noMeta)"

text \<open>The checks of one rule: the text of the first that fails.\<close>

definition validateOperation :: "OverrideEnv \<Rightarrow> ParamOverrideOperation \<Rightarrow> js_error + jstring option" where
  "validateOperation env op1 =
     (let mode = or_str (Some (oo_mode op1)) (js ''set''); meta = modeMeta mode; path = trim (oo_path op1);
          aliased = (mm_pathAlias meta \<and> path \<noteq> []); raw = trim (oo_value_text op1) in
      if mm_path meta \<and> path = [] then Inr (Some (js ''Rule {{line}} is missing target path''))
      else if mode \<in> set FROM_REQUIRED_MODES \<and> trim (oo_from op1) = [] \<and> \<not> aliased
      then Inr (Some (js ''Rule {{line}} is missing source field''))
      else if mode \<in> set TO_REQUIRED_MODES \<and> trim (oo_to op1) = [] \<and> \<not> aliased
      then Inr (Some (js ''Rule {{line}} is missing target field''))
      else if mode \<in> set VALUE_REQUIRED_MODES \<and> raw = [] then Inr (Some (js ''Rule {{line}} is missing value''))
      else if mode = js ''return_error'' then
        (case JSON_parse raw of
           Some (JObj ps) \<Rightarrow>
             (case to_string (pe_num_str env) (or_json (map_of ps (js ''message'')) (JStr [])) of
                Inl _ \<Rightarrow> Inr None
              | Inr message \<Rightarrow> if trim message = [] then Inr (Some (js ''Rule {{line}} return_error requires a message field'')) else Inr None)
         | _ \<Rightarrow> Inr None)
      else if mode = js ''pass_headers'' then
        map_sum id (\<lambda>headers. if length headers = 0 then Some (js ''Rule {{line}} pass_headers format is invalid'') else None)
          (parsePassHeaderNames env (parseLooseValue raw))
      else Inr None)"

text \<open>The loop: the text with the number of the rule, or \<open>None\<close> for the empty string.\<close>

fun validateFrom :: "OverrideEnv \<Rightarrow> nat \<Rightarrow> ParamOverrideOperation list \<Rightarrow> js_error + (jstring \<times> nat) option" where
  "validateFrom env line [] = Inr None"
| "validateFrom env line (o1 # ops) = bind_result (validateOperation env o1) (\<lambda>problem. case problem of
     Some m \<Rightarrow> Inr (Some (m, line)) | None \<Rightarrow> validateFrom env (Suc line) ops)"

definition validateOperations :: "OverrideEnv \<Rightarrow> ParamOverrideOperation list \<Rightarrow> js_error + (jstring \<times> nat) option" where
  "validateOperations env operations = validateFrom env 1 operations"

section \<open>Opening and building\<close>

datatype EditMode = EditVisual | EditJson
datatype VisualMode = VisualOperations | VisualLegacy

record EditorState =
  es_editMode :: EditMode
  es_visualMode :: VisualMode
  es_legacyValue :: jstring
  es_operations :: "ParamOverrideOperation list"
  es_jsonText :: jstring
  es_jsonError :: jstring

text \<open>The list of rules of a parsed value, and the rules made of it; an empty list becomes a blank rule.\<close>

definition operationsOf :: "json \<Rightarrow> json list option" where
  "operationsOf parsed = (case parsed of
     JObj ps \<Rightarrow> (case map_of ps (js ''operations'') of Some (JArr operations) \<Rightarrow> Some operations | _ \<Rightarrow> None)
   | _ \<Rightarrow> None)"

definition normalizeOperations :: "OverrideEnv \<Rightarrow> nat \<Rightarrow> json list \<Rightarrow> js_error + ParamOverrideOperation list \<times> nat" where
  "normalizeOperations env seed operations =
     (if length operations > 0 then mapFresh (normalizeOperation env) seed operations
      else Inr ([createDefaultOperation env seed], Suc seed))"

definition parseInitialState :: "OverrideEnv \<Rightarrow> nat \<Rightarrow> jstring \<Rightarrow> js_error + EditorState \<times> nat" where
  "parseInitialState env seed content =
     (let trimmed = trim content; fallback = [createDefaultOperation env seed];
          blank = \<lparr>es_editMode = EditVisual, es_visualMode = VisualOperations, es_legacyValue = [], es_operations = fallback,
            es_jsonText = [], es_jsonError = []\<rparr> in
      if trimmed = [] then Inr (blank, Suc seed)
      else (case JSON_parse trimmed of
          None \<Rightarrow> Inr (blank\<lparr>es_editMode := EditJson, es_jsonText := content, es_jsonError := js ''Invalid JSON format''\<rparr>, Suc seed)
        | Some parsed \<Rightarrow>
            (let pretty = JSON_pretty (pe_num_str env) parsed in
             case operationsOf parsed of
               Some operations \<Rightarrow> map_sum id (map_prod (\<lambda>ops. blank\<lparr>es_operations := ops, es_jsonText := pretty\<rparr>) id)
                 (normalizeOperations env seed operations)
             | None \<Rightarrow>
                 if plain_object parsed \<noteq> None
                 then Inr (blank\<lparr>es_visualMode := VisualLegacy, es_legacyValue := pretty, es_jsonText := pretty\<rparr>, Suc seed)
                 else Inr (blank\<lparr>es_editMode := EditJson, es_jsonText := pretty\<rparr>, Suc seed))))"

text \<open>The payload of one rule, property by property as the code assigns them.\<close>

definition aliasFields :: "jstring \<Rightarrow> (jstring \<times> json) list \<Rightarrow> (jstring \<times> json) list" where
  "aliasFields pathValue payload =
     (let p1 = put_if (\<not> truthy_opt (map_of payload (js ''from'')) \<and> pathValue \<noteq> []) ''from'' (JStr pathValue) payload in
      put_if (\<not> truthy_opt (map_of p1 (js ''to'')) \<and> pathValue \<noteq> []) ''to'' (JStr pathValue) p1)"

definition operationPayload :: "ParamOverrideOperation \<Rightarrow> json" where
  "operationPayload operation =
     (let mode = or_str (Some (oo_mode operation)) (js ''set''); meta = modeMeta mode;
          descriptionValue = trim (oo_description operation); pathValue = trim (oo_path operation);
          fromValue = trim (oo_from operation); toValue = trim (oo_to operation);
          p1 = put_if (descriptionValue \<noteq> []) ''description'' (JStr descriptionValue) [(js ''mode'', JStr mode)];
          p2 = put_if (mm_path meta) ''path'' (JStr pathValue) p1;
          p3 = put_if (mm_pathOptional meta \<and> pathValue \<noteq> []) ''path'' (JStr pathValue) p2;
          p4 = put_if (mm_value meta) ''value'' (parseLooseValue (oo_value_text operation)) p3;
          p5 = put_if (mm_keepOrigin meta \<and> oo_keep_origin operation) ''keep_origin'' (JBool True) p4;
          p6 = put_if (mm_from meta) ''from'' (JStr fromValue) p5;
          p7 = put_if (\<not> mm_to meta \<and> toValue \<noteq> []) ''to'' (JStr toValue) p6;
          p8 = put_if (mm_to meta) ''to'' (JStr toValue) p7;
          p9 = (if mm_pathAlias meta then aliasFields pathValue p8 else p8);
          conditions = List.map_filter buildConditionPayload (oo_conditions operation);
          p10 = put_if (length conditions > 0) ''conditions'' (JArr conditions) p9;
          p11 = put_if (length conditions > 0) ''logic''
            (JStr (if oo_logic operation = js ''AND'' then js ''AND'' else js ''OR'')) p10 in
      JObj p11)"

text \<open>What a builder can throw: an exception of the language, or an error with a message.\<close>

datatype override_error = Thrown js_error | RuleError jstring nat | MessageError jstring

definition buildOperationsJson :: "OverrideEnv \<Rightarrow> ParamOverrideOperation list \<Rightarrow> bool \<Rightarrow> override_error + jstring" where
  "buildOperationsJson env sourceOperations validate =
     (let filteredOps = filter (\<lambda>o1. \<not> isOperationBlank o1) sourceOperations;
          built = Inr (JSON_pretty (pe_num_str env) (JObj [(js ''operations'', JArr (map operationPayload filteredOps))])) in
      if length filteredOps = 0 then Inr []
      else if \<not> validate then built
      else (case validateOperations env filteredOps of
          Inl e \<Rightarrow> Inl (Thrown e)
        | Inr (Some (m, line)) \<Rightarrow> Inl (RuleError m line)
        | Inr None \<Rightarrow> built))"

end
