(* ===== verification/Param_Override_Editor.thy ===== *)
theory Param_Override_Editor
  imports Param_Override
begin

text \<open>
  \<open>ParamOverrideEditorDialog\<close>: the state of the dialog and its handlers. Each handler is a function on the
  state; \<open>settleSelection\<close> is the effect that runs after it. A handler that throws before its first setter
  leaves the state as it was. Opened conditions and the search field are display state and left out.
\<close>

section \<open>Templates\<close>

definition objectOf :: "(string \<times> json) list \<Rightarrow> json" where
  "objectOf ps = JObj (map (map_prod js id) ps)"

abbreviation jtext :: "string \<Rightarrow> json" where
  "jtext s \<equiv> JStr (js s)"

definition LEGACY_TEMPLATE :: json where
  "LEGACY_TEMPLATE = objectOf [(''temperature'', JNum 0), (''max_tokens'', JNum 1000)]"

definition OPERATION_TEMPLATE :: "json list" where
  "OPERATION_TEMPLATE =
     [objectOf [(''description'', jtext ''Set default temperature for openai/* models.''), (''path'', jtext ''temperature''),
        (''mode'', jtext ''set''), (''value'', JNum (7 / 10)),
        (''conditions'', JArr [objectOf [(''path'', jtext ''model''), (''mode'', jtext ''prefix''), (''value'', jtext ''openai/'')]]),
        (''logic'', jtext ''AND'')]]"

definition HEADER_PASSTHROUGH_TEMPLATE :: "json list" where
  "HEADER_PASSTHROUGH_TEMPLATE =
     [objectOf [(''description'', jtext ''Pass through X-Request-Id header to upstream.''), (''mode'', jtext ''pass_headers''),
        (''value'', JArr [jtext ''X-Request-Id'']), (''keep_origin'', JBool True)]]"

definition GEMINI_IMAGE_4K_TEMPLATE :: "json list" where
  "GEMINI_IMAGE_4K_TEMPLATE =
     [objectOf [(''description'', jtext ''Set imageSize to 4K when model contains gemini/image and ends with 4k.''),
        (''mode'', jtext ''set''), (''path'', jtext ''generationConfig.imageConfig.imageSize''), (''value'', jtext ''4K''),
        (''conditions'', JArr
          [objectOf [(''path'', jtext ''original_model''), (''mode'', jtext ''contains''), (''value'', jtext ''gemini'')],
           objectOf [(''path'', jtext ''original_model''), (''mode'', jtext ''contains''), (''value'', jtext ''image'')],
           objectOf [(''path'', jtext ''original_model''), (''mode'', jtext ''suffix''), (''value'', jtext ''4k'')]]),
        (''logic'', jtext ''AND'')]]"

definition CODEX_CLI_HEADER_PASSTHROUGH_HEADERS :: "string list" where
  "CODEX_CLI_HEADER_PASSTHROUGH_HEADERS =
     [''Originator'', ''Session_id'', ''User-Agent'', ''X-Codex-Beta-Features'', ''X-Codex-Turn-Metadata'']"

definition CLAUDE_CLI_HEADER_PASSTHROUGH_HEADERS :: "string list" where
  "CLAUDE_CLI_HEADER_PASSTHROUGH_HEADERS =
     [''X-Stainless-Arch'', ''X-Stainless-Lang'', ''X-Stainless-Os'', ''X-Stainless-Package-Version'', ''X-Stainless-Retry-Count'',
      ''X-Stainless-Runtime'', ''X-Stainless-Runtime-Version'', ''X-Stainless-Timeout'', ''User-Agent'', ''X-App'', ''Anthropic-Beta'',
      ''Anthropic-Dangerous-Direct-Browser-Access'', ''Anthropic-Version'']"

definition buildPassHeadersTemplate :: "string list \<Rightarrow> json list" where
  "buildPassHeadersTemplate headers =
     [objectOf [(''mode'', jtext ''pass_headers''), (''value'', JArr (map jtext headers)), (''keep_origin'', JBool True)]]"

definition AWS_BEDROCK_ANTHROPIC_COMPAT_TEMPLATE :: "json list" where
  "AWS_BEDROCK_ANTHROPIC_COMPAT_TEMPLATE =
     [objectOf [(''description'', jtext ''Normalize anthropic-beta header tokens for Bedrock compatibility.''),
        (''mode'', jtext ''set_header''), (''path'', jtext ''anthropic-beta''),
        (''value'', objectOf
          [(''advanced-tool-use-2025-11-20'', jtext ''tool-search-tool-2025-10-19''),
           (''bash_20241022'', JNull), (''bash_20250124'', JNull), (''code-execution-2025-08-25'', JNull),
           (''compact-2026-01-12'', jtext ''compact-2026-01-12''),
           (''computer-use-2025-01-24'', jtext ''computer-use-2025-01-24''),
           (''computer-use-2025-11-24'', jtext ''computer-use-2025-11-24''),
           (''context-1m-2025-08-07'', jtext ''context-1m-2025-08-07''),
           (''context-management-2025-06-27'', jtext ''context-management-2025-06-27''),
           (''effort-2025-11-24'', JNull), (''fast-mode-2026-02-01'', JNull), (''files-api-2025-04-14'', JNull),
           (''fine-grained-tool-streaming-2025-05-14'', JNull),
           (''interleaved-thinking-2025-05-14'', jtext ''interleaved-thinking-2025-05-14''),
           (''mcp-client-2025-11-20'', JNull), (''mcp-client-2025-04-04'', JNull), (''mcp-servers-2025-12-04'', JNull),
           (''output-128k-2025-02-19'', JNull), (''structured-output-2024-03-01'', JNull),
           (''prompt-caching-scope-2026-01-05'', JNull), (''skills-2025-10-02'', JNull),
           (''structured-outputs-2025-11-13'', JNull), (''text_editor_20241022'', JNull), (''text_editor_20250124'', JNull),
           (''token-efficient-tools-2025-02-19'', JNull),
           (''tool-search-tool-2025-10-19'', jtext ''tool-search-tool-2025-10-19''),
           (''web-fetch-2025-09-10'', JNull), (''web-search-2025-03-05'', JNull), (''oauth-2025-04-20'', JNull)])],
      objectOf [(''description'', jtext ''Remove all tools[*].custom.input_examples before upstream relay.''),
        (''mode'', jtext ''delete''), (''path'', jtext ''tools.*.custom.input_examples'')]]"

datatype TemplatePreset = OperationsPreset "json list" | LegacyPreset json

definition TEMPLATE_PRESET_CONFIG :: "(jstring \<times> TemplatePreset) list" where
  "TEMPLATE_PRESET_CONFIG = map (map_prod js id)
     [(''operations_default'', OperationsPreset OPERATION_TEMPLATE), (''legacy_default'', LegacyPreset LEGACY_TEMPLATE),
      (''pass_headers_auth'', OperationsPreset HEADER_PASSTHROUGH_TEMPLATE),
      (''gemini_image_4k'', OperationsPreset GEMINI_IMAGE_4K_TEMPLATE),
      (''claude_cli_headers_passthrough'', OperationsPreset (buildPassHeadersTemplate CLAUDE_CLI_HEADER_PASSTHROUGH_HEADERS)),
      (''codex_cli_headers_passthrough'', OperationsPreset (buildPassHeadersTemplate CODEX_CLI_HEADER_PASSTHROUGH_HEADERS)),
      (''aws_bedrock_anthropic_beta_override'', OperationsPreset AWS_BEDROCK_ANTHROPIC_COMPAT_TEMPLATE)]"

section \<open>State\<close>

record OverrideEditor = EditorState +
  ov_selectedOperationId :: jstring
  ov_draggedOperationId :: jstring
  ov_dragOverOperationId :: jstring
  ov_dragAfter :: bool
  ov_templatePresetKey :: jstring
  ov_pruneDraft :: "PruneObjectsDraft option"
  ov_seed :: nat
  ov_toasts :: "override_error list"
  ov_saved :: "jstring list"
  ov_open :: bool

definition operationIds :: "('a EditorState_scheme) \<Rightarrow> jstring list" where
  "operationIds s = map oo_id (es_operations s)"

definition selectedOperation :: "OverrideEditor \<Rightarrow> ParamOverrideOperation option" where
  "selectedOperation s = List.find (\<lambda>o1. oo_id o1 = ov_selectedOperationId s) (es_operations s)"

text \<open>The effect that runs when the dialog opens with a value.\<close>

definition openEditor :: "OverrideEnv \<Rightarrow> nat \<Rightarrow> jstring \<Rightarrow> js_error + OverrideEditor" where
  "openEditor env seed v = map_sum id (\<lambda>(st, seed1).
     \<lparr>es_editMode = es_editMode st, es_visualMode = es_visualMode st, es_legacyValue = es_legacyValue st,
      es_operations = es_operations st, es_jsonText = es_jsonText st, es_jsonError = es_jsonError st,
      ov_selectedOperationId = (case es_operations st of [] \<Rightarrow> [] | o1 # _ \<Rightarrow> oo_id o1), ov_draggedOperationId = [],
      ov_dragOverOperationId = [], ov_dragAfter = False,
      ov_templatePresetKey = (if es_visualMode st = VisualLegacy then js ''legacy_default'' else js ''operations_default''),
      ov_pruneDraft = None, ov_seed = seed1, ov_toasts = [], ov_saved = [], ov_open = True\<rparr>) (parseInitialState env seed v)"

definition settleSelection :: "OverrideEditor \<Rightarrow> OverrideEditor" where
  "settleSelection s = (case es_operations s of
     [] \<Rightarrow> s\<lparr>ov_selectedOperationId := []\<rparr>
   | o1 # _ \<Rightarrow> if ov_selectedOperationId s \<in> set (operationIds s) then s else s\<lparr>ov_selectedOperationId := oo_id o1\<rparr>)"

section \<open>Rules and conditions\<close>

text \<open>\<open>Partial<ParamOverrideOperation>\<close> and \<open>Partial<ParamOverrideCondition>\<close>: the fields the forms assign.\<close>

record OperationPatch =
  op_description :: "jstring option"
  op_path :: "jstring option"
  op_mode :: "jstring option"
  op_from :: "jstring option"
  op_to :: "jstring option"
  op_value_text :: "jstring option"
  op_keep_origin :: "bool option"
  op_logic :: "jstring option"

record ConditionPatch =
  cp_path :: "jstring option"
  cp_mode :: "jstring option"
  cp_value_text :: "jstring option"
  cp_invert :: "bool option"
  cp_pass_missing_key :: "bool option"

definition patchOperation :: "OperationPatch \<Rightarrow> ParamOverrideOperation \<Rightarrow> ParamOverrideOperation" where
  "patchOperation p o1 = o1\<lparr>oo_description := nullish (op_description p) (oo_description o1), oo_path := nullish (op_path p) (oo_path o1),
     oo_mode := nullish (op_mode p) (oo_mode o1), oo_from := nullish (op_from p) (oo_from o1), oo_to := nullish (op_to p) (oo_to o1),
     oo_value_text := nullish (op_value_text p) (oo_value_text o1), oo_keep_origin := nullish (op_keep_origin p) (oo_keep_origin o1),
     oo_logic := nullish (op_logic p) (oo_logic o1)\<rparr>"

definition patchCondition :: "ConditionPatch \<Rightarrow> ParamOverrideCondition \<Rightarrow> ParamOverrideCondition" where
  "patchCondition p c = c\<lparr>oc_path := nullish (cp_path p) (oc_path c), oc_mode := nullish (cp_mode p) (oc_mode c),
     oc_value_text := nullish (cp_value_text p) (oc_value_text c), oc_invert := nullish (cp_invert p) (oc_invert c),
     oc_pass_missing_key := nullish (cp_pass_missing_key p) (oc_pass_missing_key c)\<rparr>"

definition mapOperation :: "jstring \<Rightarrow> (ParamOverrideOperation \<Rightarrow> ParamOverrideOperation) \<Rightarrow> OverrideEditor \<Rightarrow> OverrideEditor" where
  "mapOperation operationId f s =
     s\<lparr>es_operations := map (\<lambda>o1. if oo_id o1 = operationId then f o1 else o1) (es_operations s)\<rparr>"

definition updateOperation :: "jstring \<Rightarrow> OperationPatch \<Rightarrow> OverrideEditor \<Rightarrow> OverrideEditor" where
  "updateOperation operationId patch s = mapOperation operationId (patchOperation patch) s"

definition addOperation :: "OverrideEnv \<Rightarrow> OverrideEditor \<Rightarrow> OverrideEditor" where
  "addOperation env s = (let created = createDefaultOperation env (ov_seed s) in
     s\<lparr>es_operations := es_operations s @ [created], ov_selectedOperationId := oo_id created, ov_seed := Suc (ov_seed s)\<rparr>)"

definition duplicateSource :: "ParamOverrideOperation \<Rightarrow> json" where
  "duplicateSource source = objectOf
     [(''description'', JStr (oo_description source)), (''path'', JStr (oo_path source)), (''mode'', JStr (oo_mode source)),
      (''value'', parseLooseValue (oo_value_text source)), (''keep_origin'', JBool (oo_keep_origin source)),
      (''from'', JStr (oo_from source)), (''to'', JStr (oo_to source)), (''logic'', JStr (oo_logic source)),
      (''conditions'', JArr (map (\<lambda>c. objectOf [(''path'', JStr (oc_path c)), (''mode'', JStr (oc_mode c)),
         (''value'', parseLooseValue (oc_value_text c)), (''invert'', JBool (oc_invert c)),
         (''pass_missing_key'', JBool (oc_pass_missing_key c))]) (oo_conditions source)))]"

text \<open>
  The id of the copy is known to the handler only if the state updater runs at once (\<open>eager\<close>), which depends
  on whether other updates are pending.
\<close>

definition duplicateOperation :: "OverrideEnv \<Rightarrow> bool \<Rightarrow> jstring \<Rightarrow> OverrideEditor \<Rightarrow> OverrideEditor" where
  "duplicateOperation env eager operationId s = (case findIndex (\<lambda>o1. oo_id o1 = operationId) (es_operations s) of
     None \<Rightarrow> s
   | Some idx \<Rightarrow> (case normalizeOperation env (ov_seed s) (duplicateSource (es_operations s ! idx)) of
       Inl _ \<Rightarrow> s
     | Inr (cloned, seed1) \<Rightarrow>
         s\<lparr>es_operations := take (Suc idx) (es_operations s) @ [cloned] @ drop (Suc idx) (es_operations s),
           ov_selectedOperationId := (if eager then oo_id cloned else ov_selectedOperationId s), ov_seed := seed1\<rparr>))"

definition removeOperation :: "OverrideEnv \<Rightarrow> jstring \<Rightarrow> OverrideEditor \<Rightarrow> OverrideEditor" where
  "removeOperation env operationId s =
     (if length (es_operations s) \<le> 1
      then s\<lparr>es_operations := [createDefaultOperation env (ov_seed s)], ov_seed := Suc (ov_seed s)\<rparr>
      else s\<lparr>es_operations := filter (\<lambda>o1. oo_id o1 \<noteq> operationId) (es_operations s)\<rparr>)"

definition addCondition :: "OverrideEnv \<Rightarrow> jstring \<Rightarrow> OverrideEditor \<Rightarrow> OverrideEditor" where
  "addCondition env operationId s =
     (mapOperation operationId (\<lambda>o1. o1\<lparr>oo_conditions := oo_conditions o1 @ [createDefaultCondition env (ov_seed s)]\<rparr>) s)
       \<lparr>ov_seed := Suc (ov_seed s)\<rparr>"

definition updateCondition :: "jstring \<Rightarrow> jstring \<Rightarrow> ConditionPatch \<Rightarrow> OverrideEditor \<Rightarrow> OverrideEditor" where
  "updateCondition operationId conditionId patch s =
     mapOperation operationId (\<lambda>o1. o1\<lparr>oo_conditions :=
       map (\<lambda>c. if oc_id c = conditionId then patchCondition patch c else c) (oo_conditions o1)\<rparr>) s"

definition removeCondition :: "jstring \<Rightarrow> jstring \<Rightarrow> OverrideEditor \<Rightarrow> OverrideEditor" where
  "removeCondition operationId conditionId s =
     mapOperation operationId (\<lambda>o1. o1\<lparr>oo_conditions := filter (\<lambda>c. oc_id c \<noteq> conditionId) (oo_conditions o1)\<rparr>) s"

section \<open>Drafts\<close>

record ReturnErrorPatch =
  rp_message :: "jstring option"
  rp_statusCode :: "jnum option option"
  rp_code :: "jstring option"
  rp_type :: "jstring option"
  rp_skipRetry :: "bool option"
  rp_simpleMode :: "bool option"

definition patchReturnError :: "ReturnErrorPatch \<Rightarrow> ReturnErrorDraft \<Rightarrow> ReturnErrorDraft" where
  "patchReturnError p d = \<lparr>re_message = nullish (rp_message p) (re_message d), re_statusCode = nullish (rp_statusCode p) (re_statusCode d),
     re_code = nullish (rp_code p) (re_code d), re_type = nullish (rp_type p) (re_type d),
     re_skipRetry = nullish (rp_skipRetry p) (re_skipRetry d), re_simpleMode = nullish (rp_simpleMode p) (re_simpleMode d)\<rparr>"

definition updateReturnErrorDraft :: "OverrideEnv \<Rightarrow> jstring \<Rightarrow> ReturnErrorPatch \<Rightarrow> OverrideEditor \<Rightarrow> OverrideEditor" where
  "updateReturnErrorDraft env operationId draftPatch s =
     mapOperation operationId (\<lambda>o1. o1\<lparr>oo_value_text :=
       buildReturnErrorValueText env (patchReturnError draftPatch (parseReturnErrorDraft env (oo_value_text o1)))\<rparr>) s"

fun mapSeed :: "(nat \<Rightarrow> 'a \<Rightarrow> 'b \<times> nat) \<Rightarrow> nat \<Rightarrow> 'a list \<Rightarrow> 'b list \<times> nat" where
  "mapSeed f seed [] = ([], seed)"
| "mapSeed f seed (x # xs) = (let (y, seed1) = f seed x; (ys, seed2) = mapSeed f seed1 xs in (y # ys, seed2))"

text \<open>The updater may draw ids; the draft is parsed anew, which gives its rules new ids.\<close>

definition updatePruneObjectsDraft ::
    "OverrideEnv \<Rightarrow> jstring \<Rightarrow> (nat \<Rightarrow> PruneObjectsDraft \<Rightarrow> PruneObjectsDraft \<times> nat) \<Rightarrow> OverrideEditor \<Rightarrow> OverrideEditor" where
  "updatePruneObjectsDraft env operationId updater s =
     (let (ops, seed1) = mapSeed (\<lambda>seed o1.
          if oo_id o1 \<noteq> operationId then (o1, seed)
          else (let (draft, seed1) = parsePruneObjectsDraft env seed (oo_value_text o1); (nextDraft, seed2) = updater seed1 draft in
            (o1\<lparr>oo_value_text := buildPruneObjectsValueText env nextDraft\<rparr>, seed2))) (ov_seed s) (es_operations s) in
      s\<lparr>es_operations := ops, ov_seed := seed1\<rparr>)"

record PrunePatch =
  pp_simpleMode :: "bool option"
  pp_typeText :: "jstring option"
  pp_logic :: "jstring option"
  pp_recursive :: "bool option"

definition patchPruneDraft :: "PrunePatch \<Rightarrow> nat \<Rightarrow> PruneObjectsDraft \<Rightarrow> PruneObjectsDraft \<times> nat" where
  "patchPruneDraft p seed d = (d\<lparr>pr_simpleMode := nullish (pp_simpleMode p) (pr_simpleMode d),
     pr_typeText := nullish (pp_typeText p) (pr_typeText d), pr_logic := nullish (pp_logic p) (pr_logic d),
     pr_recursive := nullish (pp_recursive p) (pr_recursive d)\<rparr>, seed)"

text \<open>The draft that is shown, computed when the dialog renders; its rules get their ids here.\<close>

definition pruneObjectsDraft :: "OverrideEnv \<Rightarrow> OverrideEditor \<Rightarrow> OverrideEditor" where
  "pruneObjectsDraft env s = (case selectedOperation s of
     None \<Rightarrow> s\<lparr>ov_pruneDraft := None\<rparr>
   | Some o1 \<Rightarrow>
       if oo_mode o1 \<noteq> js ''prune_objects'' then s\<lparr>ov_pruneDraft := None\<rparr>
       else (let (draft, seed1) = parsePruneObjectsDraft env (ov_seed s) (oo_value_text o1) in
         s\<lparr>ov_pruneDraft := Some draft, ov_seed := seed1\<rparr>))"

definition addPruneRule :: "OverrideEnv \<Rightarrow> jstring \<Rightarrow> OverrideEditor \<Rightarrow> OverrideEditor" where
  "addPruneRule env operationId = updatePruneObjectsDraft env operationId (\<lambda>seed draft.
     (draft\<lparr>pr_simpleMode := False, pr_rules := pr_rules draft @ [createDefaultCondition env seed]\<rparr>, Suc seed))"

definition updatePruneRule :: "OverrideEnv \<Rightarrow> jstring \<Rightarrow> jstring \<Rightarrow> ConditionPatch \<Rightarrow> OverrideEditor \<Rightarrow> OverrideEditor" where
  "updatePruneRule env operationId ruleId patch = updatePruneObjectsDraft env operationId (\<lambda>seed draft.
     (draft\<lparr>pr_rules := map (\<lambda>r. if oc_id r = ruleId then patchCondition patch r else r) (pr_rules draft)\<rparr>, seed))"

definition removePruneRule :: "OverrideEnv \<Rightarrow> jstring \<Rightarrow> jstring \<Rightarrow> OverrideEditor \<Rightarrow> OverrideEditor" where
  "removePruneRule env operationId ruleId = updatePruneObjectsDraft env operationId (\<lambda>seed draft.
     (draft\<lparr>pr_rules := filter (\<lambda>r. oc_id r \<noteq> ruleId) (pr_rules draft)\<rparr>, seed))"

section \<open>Drag and drop\<close>

definition resetDragState :: "OverrideEditor \<Rightarrow> OverrideEditor" where
  "resetDragState s = s\<lparr>ov_draggedOperationId := [], ov_dragOverOperationId := [], ov_dragAfter := False\<rparr>"

definition handleDragStart :: "jstring \<Rightarrow> OverrideEditor \<Rightarrow> OverrideEditor" where
  "handleDragStart operationId s = s\<lparr>ov_draggedOperationId := operationId, ov_selectedOperationId := operationId\<rparr>"

text \<open>\<open>lower\<close>: the pointer is in the lower half of the row.\<close>

definition handleDragOver :: "jstring \<Rightarrow> bool \<Rightarrow> OverrideEditor \<Rightarrow> OverrideEditor" where
  "handleDragOver operationId lower s =
     (if ov_draggedOperationId s = [] \<or> ov_draggedOperationId s = operationId then s
      else s\<lparr>ov_dragOverOperationId := operationId, ov_dragAfter := lower\<rparr>)"

definition handleDrop :: "jstring \<Rightarrow> jstring \<Rightarrow> OverrideEditor \<Rightarrow> OverrideEditor" where
  "handleDrop transferred operationId s =
     (let sourceId = or_str (Some (ov_draggedOperationId s)) transferred;
          position = (ov_dragOverOperationId s = operationId \<and> ov_dragAfter s) in
      resetDragState
        (if sourceId \<noteq> [] \<and> operationId \<noteq> [] \<and> sourceId \<noteq> operationId
         then s\<lparr>es_operations := reorderOperations (es_operations s) sourceId operationId position, ov_selectedOperationId := sourceId\<rparr>
         else s))"

section \<open>Modes, templates and saving\<close>

definition buildVisualJson :: "OverrideEnv \<Rightarrow> OverrideEditor \<Rightarrow> override_error + jstring" where
  "buildVisualJson env s =
     (if es_visualMode s = VisualLegacy then
        (let trimmed = trim (es_legacyValue s) in
         if trimmed = [] then Inr []
         else (case JSON_parse trimmed of
             None \<Rightarrow> Inl (MessageError (js ''Parameter override must be valid JSON format''))
           | Some parsed \<Rightarrow> if plain_object parsed = None then Inl (MessageError (js ''Legacy format must be a JSON object''))
               else Inr (JSON_pretty (pe_num_str env) parsed)))
      else buildOperationsJson env (es_operations s) True)"

definition errorText :: "override_error \<Rightarrow> jstring" where
  "errorText e = (case e of Thrown _ \<Rightarrow> js ''TypeError'' | RuleError m line \<Rightarrow> m | MessageError m \<Rightarrow> m)"

definition switchToJsonMode :: "OverrideEnv \<Rightarrow> OverrideEditor \<Rightarrow> OverrideEditor" where
  "switchToJsonMode env s =
     (if es_editMode s = EditJson then s
      else (case buildVisualJson env s of
          Inr content \<Rightarrow> s\<lparr>es_jsonText := content, es_jsonError := [], es_editMode := EditJson\<rparr>
        | Inl e \<Rightarrow> s\<lparr>ov_toasts := e # ov_toasts s,
            es_jsonText := (if es_visualMode s = VisualLegacy then es_legacyValue s
              else (case buildOperationsJson env (es_operations s) False of Inr content \<Rightarrow> content | Inl _ \<Rightarrow> es_jsonText s)),
            es_jsonError := or_str (Some (errorText e)) (js ''Parameter configuration error''), es_editMode := EditJson\<rparr>))"

definition switchToVisualMode :: "OverrideEnv \<Rightarrow> OverrideEditor \<Rightarrow> OverrideEditor" where
  "switchToVisualMode env s =
     (let trimmed = trim (es_jsonText s); fallback = createDefaultOperation env (ov_seed s) in
      if es_editMode s = EditVisual then s
      else if trimmed = [] then
        s\<lparr>es_visualMode := VisualOperations, es_operations := [fallback], ov_selectedOperationId := oo_id fallback,
          es_legacyValue := [], es_jsonError := [], es_editMode := EditVisual, ov_seed := Suc (ov_seed s)\<rparr>
      else (case JSON_parse trimmed of
          None \<Rightarrow> s\<lparr>ov_toasts := MessageError (js ''Parameter override must be valid JSON format'') # ov_toasts s\<rparr>
        | Some parsed \<Rightarrow> (case operationsOf parsed of
            Some operations \<Rightarrow> (case normalizeOperations env (ov_seed s) operations of
                Inl _ \<Rightarrow> s
              | Inr (nextOps, seed1) \<Rightarrow>
                  s\<lparr>es_visualMode := VisualOperations, es_operations := nextOps,
                    ov_selectedOperationId := (case nextOps of [] \<Rightarrow> [] | o1 # _ \<Rightarrow> oo_id o1), es_legacyValue := [], es_jsonError := [],
                    es_editMode := EditVisual, ov_templatePresetKey := js ''operations_default'', ov_seed := seed1\<rparr>)
          | None \<Rightarrow>
              if plain_object parsed \<noteq> None then
                s\<lparr>es_visualMode := VisualLegacy, es_legacyValue := JSON_pretty (pe_num_str env) parsed, es_operations := [fallback],
                  ov_selectedOperationId := oo_id fallback, es_jsonError := [], es_editMode := EditVisual,
                  ov_templatePresetKey := js ''legacy_default'', ov_seed := Suc (ov_seed s)\<rparr>
              else s\<lparr>ov_toasts := MessageError (js ''Parameter override must be a valid JSON object'') # ov_toasts s\<rparr>)))"

text \<open>\<open>{...v}\<close>: the own enumerable properties of a value.\<close>

definition spreadProps :: "json \<Rightarrow> (jstring \<times> json) list" where
  "spreadProps v = (case v of
     JObj ps \<Rightarrow> ps
   | JArr xs \<Rightarrow> map (\<lambda>i. (nat_str i, xs ! i)) [0..<length xs]
   | JStr t \<Rightarrow> map (\<lambda>i. (nat_str i, JStr [t ! i])) [0..<length t]
   | _ \<Rightarrow> [])"

definition mergeProps :: "(jstring \<times> json) list \<Rightarrow> (jstring \<times> json) list \<Rightarrow> (jstring \<times> json) list" where
  "mergeProps base extra = foldl (\<lambda>ps (k, v). obj_put k v ps) base extra"

definition installLegacy :: "OverrideEnv \<Rightarrow> json \<Rightarrow> OverrideEditor \<Rightarrow> OverrideEditor" where
  "installLegacy env v s =
     s\<lparr>es_visualMode := VisualLegacy, es_legacyValue := JSON_pretty (pe_num_str env) v,
       es_operations := [createDefaultOperation env (ov_seed s)], es_jsonText := JSON_pretty (pe_num_str env) v, es_jsonError := [],
       es_editMode := EditVisual, ov_seed := Suc (ov_seed s)\<rparr>"

definition fillTemplate :: "OverrideEnv \<Rightarrow> bool \<Rightarrow> OverrideEditor \<Rightarrow> OverrideEditor" where
  "fillTemplate env appending s =
     (case nullish (map_of TEMPLATE_PRESET_CONFIG (ov_templatePresetKey s)) (OperationsPreset OPERATION_TEMPLATE) of
        LegacyPreset payload \<Rightarrow>
          if appending \<and> es_visualMode s = VisualLegacy then
            (let trimmed = trim (es_legacyValue s) in
             if trimmed = [] then installLegacy env (JObj (mergeProps (spreadProps payload) [])) s
             else (case JSON_parse trimmed of
                 None \<Rightarrow> s\<lparr>ov_toasts := MessageError (js ''Current legacy JSON is invalid, cannot append'') # ov_toasts s\<rparr>
               | Some current \<Rightarrow> installLegacy env (JObj (mergeProps (spreadProps payload) (spreadProps current))) s))
          else installLegacy env payload s
      | OperationsPreset operationsPayload \<Rightarrow> (case mapFresh (normalizeOperation env) (ov_seed s) operationsPayload of
          Inl _ \<Rightarrow> s
        | Inr (created, seed1) \<Rightarrow>
            if appending then
              (let existing = (if es_visualMode s = VisualOperations then filter (\<lambda>o1. \<not> isOperationBlank o1) (es_operations s) else []);
                   nextOps = existing @ created in
               s\<lparr>es_visualMode := VisualOperations, es_operations := (if length nextOps > 0 then nextOps else created),
                 ov_selectedOperationId := (case nextOps of o1 # _ \<Rightarrow> oo_id o1 | [] \<Rightarrow> []),
                 es_legacyValue := [], es_jsonError := [], es_editMode := EditVisual, es_jsonText := [], ov_seed := seed1\<rparr>)
            else
              (let finalOps = (if length created > 0 then created else [createDefaultOperation env seed1]) in
               s\<lparr>es_visualMode := VisualOperations, es_operations := finalOps,
                 ov_selectedOperationId := (case finalOps of o1 # _ \<Rightarrow> oo_id o1 | [] \<Rightarrow> []),
                 es_jsonText := JSON_pretty (pe_num_str env) (JObj [(js ''operations'', JArr operationsPayload)]), es_jsonError := [],
                 es_editMode := EditVisual, ov_seed := (if length created > 0 then seed1 else Suc seed1)\<rparr>)))"

definition resetEditorState :: "OverrideEnv \<Rightarrow> OverrideEditor \<Rightarrow> OverrideEditor" where
  "resetEditorState env s = (let fallback = createDefaultOperation env (ov_seed s) in
     s\<lparr>es_visualMode := VisualOperations, es_legacyValue := [], es_operations := [fallback], ov_selectedOperationId := oo_id fallback,
       es_jsonText := [], es_jsonError := [], ov_templatePresetKey := js ''operations_default'', es_editMode := EditVisual,
       ov_seed := Suc (ov_seed s)\<rparr>)"

definition handleJsonChange :: "jstring \<Rightarrow> OverrideEditor \<Rightarrow> OverrideEditor" where
  "handleJsonChange nextValue s =
     s\<lparr>es_jsonText := nextValue,
       es_jsonError := (let trimmed = trim nextValue in if trimmed = [] \<or> verifyJSON trimmed then [] else js ''JSON format error'')\<rparr>"

definition formatJson :: "OverrideEnv \<Rightarrow> OverrideEditor \<Rightarrow> OverrideEditor" where
  "formatJson env s =
     (let trimmed = trim (es_jsonText s) in
      if trimmed = [] then s
      else (case JSON_parse trimmed of
          None \<Rightarrow> s\<lparr>ov_toasts := MessageError (js ''Parameter override must be valid JSON format'') # ov_toasts s\<rparr>
        | Some v \<Rightarrow> s\<lparr>es_jsonText := JSON_pretty (pe_num_str env) v, es_jsonError := []\<rparr>))"

definition visualValidationError :: "OverrideEnv \<Rightarrow> OverrideEditor \<Rightarrow> jstring" where
  "visualValidationError env s =
     (if es_editMode s \<noteq> EditVisual then []
      else (case buildVisualJson env s of Inr _ \<Rightarrow> [] | Inl e \<Rightarrow> or_str (Some (errorText e)) (js ''Parameter configuration error'')))"

definition handleSave :: "OverrideEnv \<Rightarrow> OverrideEditor \<Rightarrow> OverrideEditor" where
  "handleSave env s =
     (case (if es_editMode s = EditJson then
              (let trimmed = trim (es_jsonText s) in
               if trimmed = [] then Inr []
               else (case JSON_parse trimmed of
                   None \<Rightarrow> Inl (MessageError (js ''Parameter override must be valid JSON format''))
                 | Some v \<Rightarrow> Inr (JSON_pretty (pe_num_str env) v)))
            else buildVisualJson env s) of
        Inl e \<Rightarrow> s\<lparr>ov_toasts := e # ov_toasts s\<rparr>
      | Inr result \<Rightarrow> s\<lparr>ov_saved := result # ov_saved s, ov_open := False\<rparr>)"

section \<open>The dialog as a system of events\<close>

text \<open>
  The fields of the rule editor change the selected rule. \<open>SetSyncType\<close> and \<open>SetSyncKey\<close> are the fields of a
  \<open>sync_fields\<close> rule (\<open>source\<close>: the source endpoint), \<open>FormatValue\<close> the button above the value.
\<close>

definition noPatch :: OperationPatch where
  "noPatch = \<lparr>op_description = None, op_path = None, op_mode = None, op_from = None, op_to = None, op_value_text = None,
     op_keep_origin = None, op_logic = None\<rparr>"

definition syncPatch :: "bool \<Rightarrow> jstring \<Rightarrow> OperationPatch" where
  "syncPatch source spec = (if source then noPatch\<lparr>op_from := Some spec\<rparr> else noPatch\<lparr>op_to := Some spec\<rparr>)"

definition syncTarget :: "bool \<Rightarrow> ParamOverrideOperation \<Rightarrow> SyncTarget" where
  "syncTarget source o1 = parseSyncTargetSpec (if source then oo_from o1 else oo_to o1)"

definition formatValuePatch :: "OverrideEnv \<Rightarrow> ParamOverrideOperation \<Rightarrow> OperationPatch" where
  "formatValuePatch env o1 = (case JSON_parse (oo_value_text o1) of
     Some parsed \<Rightarrow> noPatch\<lparr>op_value_text := Some (JSON_pretty (pe_num_str env) parsed)\<rparr>
   | None \<Rightarrow> noPatch)"

datatype OverrideEvent = UpdateOperation OperationPatch | SetSyncType bool jstring | SetSyncKey bool jstring | FormatValue
  | AddOperation | DuplicateOperation bool | RemoveOperation | SelectOperation jstring
  | AddCondition | UpdateCondition jstring ConditionPatch | RemoveCondition jstring
  | UpdateReturnError ReturnErrorPatch | UpdatePruneDraft PrunePatch | AddPruneRule
  | UpdatePruneRule jstring ConditionPatch | RemovePruneRule jstring | RenderDraft
  | DragStart jstring | DragOver jstring bool | Drop jstring jstring | DragEnd
  | SelectPreset jstring | FillTemplate bool | ResetEditor | LegacyChange jstring
  | SwitchToJson | SwitchToVisual | JsonChange jstring | FormatJson | SaveOverride | CancelOverride

definition offeredPatch :: "OperationPatch \<Rightarrow> bool" where
  "offeredPatch p \<longleftrightarrow> (op_mode p = None \<or> the (op_mode p) \<in> set OPERATION_MODE_VALUES)
     \<and> (op_logic p = None \<or> the (op_logic p) \<in> {js ''AND'', js ''OR''})"

definition offeredCondition :: "ConditionPatch \<Rightarrow> bool" where
  "offeredCondition p \<longleftrightarrow> cp_mode p = None \<or> the (cp_mode p) \<in> set CONDITION_MODE_VALUES"

definition shownRules :: "OverrideEditor \<Rightarrow> PruneRule list" where
  "shownRules s = (case ov_pruneDraft s of Some draft \<Rightarrow> pr_rules draft | None \<Rightarrow> [])"

definition showsRules :: "OverrideEditor \<Rightarrow> bool" where
  "showsRules s \<longleftrightarrow> ov_open s \<and> es_editMode s = EditVisual \<and> es_visualMode s = VisualOperations"

inductive override_handler :: "OverrideEnv \<Rightarrow> OverrideEditor \<Rightarrow> OverrideEvent \<Rightarrow> OverrideEditor \<Rightarrow> bool" for env where
  h_update: "\<lbrakk>showsRules s; offeredPatch p\<rbrakk> \<Longrightarrow>
    override_handler env s (UpdateOperation p) (updateOperation (ov_selectedOperationId s) p s)"
| h_sync_type: "\<lbrakk>showsRules s; selectedOperation s = Some o1; oo_mode o1 = js ''sync_fields''; ty \<in> {js ''json'', js ''header''}\<rbrakk> \<Longrightarrow>
    override_handler env s (SetSyncType src ty)
      (updateOperation (oo_id o1) (syncPatch src (buildSyncTargetSpec ty (sy_key (syncTarget src o1)))) s)"
| h_sync_key: "\<lbrakk>showsRules s; selectedOperation s = Some o1; oo_mode o1 = js ''sync_fields''\<rbrakk> \<Longrightarrow>
    override_handler env s (SetSyncKey src key)
      (updateOperation (oo_id o1) (syncPatch src (buildSyncTargetSpec (sy_type (syncTarget src o1)) key)) s)"
| h_format_value: "\<lbrakk>showsRules s; selectedOperation s = Some o1\<rbrakk> \<Longrightarrow>
    override_handler env s FormatValue (updateOperation (oo_id o1) (formatValuePatch env o1) s)"
| h_add: "showsRules s \<Longrightarrow> override_handler env s AddOperation (addOperation env s)"
| h_duplicate: "showsRules s \<Longrightarrow>
    override_handler env s (DuplicateOperation eager) (duplicateOperation env eager (ov_selectedOperationId s) s)"
| h_remove: "showsRules s \<Longrightarrow> override_handler env s RemoveOperation (removeOperation env (ov_selectedOperationId s) s)"
| h_select: "\<lbrakk>showsRules s; i \<in> set (operationIds s)\<rbrakk> \<Longrightarrow>
    override_handler env s (SelectOperation i) (s\<lparr>ov_selectedOperationId := i\<rparr>)"
| h_add_condition: "showsRules s \<Longrightarrow> override_handler env s AddCondition (addCondition env (ov_selectedOperationId s) s)"
| h_update_condition: "\<lbrakk>showsRules s; offeredCondition p\<rbrakk> \<Longrightarrow>
    override_handler env s (UpdateCondition c p) (updateCondition (ov_selectedOperationId s) c p s)"
| h_remove_condition: "showsRules s \<Longrightarrow>
    override_handler env s (RemoveCondition c) (removeCondition (ov_selectedOperationId s) c s)"
| h_return_error: "showsRules s \<Longrightarrow>
    override_handler env s (UpdateReturnError r) (updateReturnErrorDraft env (ov_selectedOperationId s) r s)"
| h_prune_draft: "showsRules s \<Longrightarrow>
    override_handler env s (UpdatePruneDraft d) (updatePruneObjectsDraft env (ov_selectedOperationId s) (patchPruneDraft d) s)"
| h_add_rule: "showsRules s \<Longrightarrow> override_handler env s AddPruneRule (addPruneRule env (ov_selectedOperationId s) s)"
| h_update_rule: "\<lbrakk>showsRules s; offeredCondition p; r \<in> set (shownRules s)\<rbrakk> \<Longrightarrow>
    override_handler env s (UpdatePruneRule (oc_id r) p) (updatePruneRule env (ov_selectedOperationId s) (oc_id r) p s)"
| h_remove_rule: "\<lbrakk>showsRules s; r \<in> set (shownRules s)\<rbrakk> \<Longrightarrow>
    override_handler env s (RemovePruneRule (oc_id r)) (removePruneRule env (ov_selectedOperationId s) (oc_id r) s)"
| h_render: "ov_open s \<Longrightarrow> override_handler env s RenderDraft (pruneObjectsDraft env s)"
| h_drag_start: "\<lbrakk>showsRules s; length (es_operations s) > 1; i \<in> set (operationIds s)\<rbrakk> \<Longrightarrow>
    override_handler env s (DragStart i) (handleDragStart i s)"
| h_drag_over: "\<lbrakk>showsRules s; i \<in> set (operationIds s)\<rbrakk> \<Longrightarrow> override_handler env s (DragOver i lower) (handleDragOver i lower s)"
| h_drop: "\<lbrakk>showsRules s; i \<in> set (operationIds s)\<rbrakk> \<Longrightarrow> override_handler env s (Drop transferred i) (handleDrop transferred i s)"
| h_drag_end: "showsRules s \<Longrightarrow> override_handler env s DragEnd (resetDragState s)"
| h_preset: "ov_open s \<Longrightarrow>
    override_handler env s (SelectPreset k) (s\<lparr>ov_templatePresetKey := or_str (Some k) (js ''operations_default'')\<rparr>)"
| h_template: "ov_open s \<Longrightarrow> override_handler env s (FillTemplate appending) (fillTemplate env appending s)"
| h_reset: "ov_open s \<Longrightarrow> override_handler env s ResetEditor (resetEditorState env s)"
| h_legacy: "\<lbrakk>ov_open s; es_editMode s = EditVisual; es_visualMode s = VisualLegacy\<rbrakk> \<Longrightarrow>
    override_handler env s (LegacyChange v) (s\<lparr>es_legacyValue := v\<rparr>)"
| h_json: "ov_open s \<Longrightarrow> override_handler env s SwitchToJson (switchToJsonMode env s)"
| h_visual: "ov_open s \<Longrightarrow> override_handler env s SwitchToVisual (switchToVisualMode env s)"
| h_change: "\<lbrakk>ov_open s; es_editMode s = EditJson\<rbrakk> \<Longrightarrow> override_handler env s (JsonChange v) (handleJsonChange v s)"
| h_format: "\<lbrakk>ov_open s; es_editMode s = EditJson\<rbrakk> \<Longrightarrow> override_handler env s FormatJson (formatJson env s)"
| h_save: "ov_open s \<Longrightarrow> override_handler env s SaveOverride (handleSave env s)"
| h_cancel: "ov_open s \<Longrightarrow> override_handler env s CancelOverride (s\<lparr>ov_open := False\<rparr>)"

inductive_cases override_handlerE: "override_handler env s e s'"

text \<open>A step: a handler, and the effect that repairs the selection.\<close>

definition override_step :: "OverrideEnv \<Rightarrow> OverrideEditor \<Rightarrow> OverrideEvent \<Rightarrow> OverrideEditor \<Rightarrow> bool" where
  "override_step env s e s' \<longleftrightarrow> (\<exists>t. override_handler env s e t \<and> s' = settleSelection t)"

end
