(* ===== verification/Param_Override_Invariant.thy ===== *)
theory Param_Override_Invariant
  imports Param_Override_Editor "HOL-Library.Multiset"
begin

text \<open>
  The invariant of the parameter override dialog: the list of rules is never empty, the ids of rules and of
  their conditions are distinct, the selected rule exists, modes are known, at most one text is saved and it
  is empty or JSON.
\<close>

section \<open>Local ids\<close>

lemma nextLocalId_inj [simp]: "nextLocalId env a = nextLocalId env b \<longleftrightarrow> a = b"
proof
  assume eq: "nextLocalId env a = nextLocalId env b"
  have no: "95 \<notin> set (nat_str n)" for n
    using nat_str_digits [of n] by (auto simp: list_all_iff is_digit_def)
  have "split_on 95 (nextLocalId env n) = [js ''po'', nat_str (pe_clock env n), nat_str n]" for n
    using split_on_append [of 95 "js ''po''" "nat_str (pe_clock env n) @ [95] @ nat_str n"] no
    by (simp add: nextLocalId_def js_def split_on_append split_on_clean)
  with eq show "a = b" by (metis list.inject nat_str_inj)
qed simp

lemma nextLocalId_nonempty [simp]: "nextLocalId env k \<noteq> []"
  by (simp add: nextLocalId_def)

text \<open>An id drawn in a range of the counter.\<close>

definition drawn :: "OverrideEnv \<Rightarrow> nat \<Rightarrow> nat \<Rightarrow> jstring \<Rightarrow> bool" where
  "drawn env lo hi i \<longleftrightarrow> (\<exists>k. lo \<le> k \<and> k < hi \<and> i = nextLocalId env k)"

lemma drawn_mono: "drawn env lo hi i \<Longrightarrow> lo' \<le> lo \<Longrightarrow> hi \<le> hi' \<Longrightarrow> drawn env lo' hi' i"
  by (auto simp: drawn_def)

lemma drawn_disjoint: "drawn env lo mid i \<Longrightarrow> drawn env mid hi j \<Longrightarrow> i \<noteq> j"
  by (auto simp: drawn_def)

lemma drawn_next [simp]: "drawn env lo hi (nextLocalId env k) \<longleftrightarrow> lo \<le> k \<and> k < hi"
  by (auto simp: drawn_def)

lemma drawn_nonempty: "drawn env lo hi i \<Longrightarrow> i \<noteq> []"
  by (auto simp: drawn_def)

text \<open>A callback that gives each result the next id keeps the ids of a list apart.\<close>

locale id_supply =
  fixes env :: OverrideEnv and make :: "nat \<Rightarrow> 'a \<Rightarrow> js_error + 'b \<times> nat" and ident :: "'b \<Rightarrow> jstring"
  assumes make_draws: "make seed x = Inr (y, seed1) \<Longrightarrow> seed < seed1 \<and> ident y = nextLocalId env seed"
begin

lemma mapFresh_draws:
  "mapFresh make seed xs = Inr (ys, seed1) \<Longrightarrow>
    seed \<le> seed1 \<and> length ys = length xs \<and> distinct (map ident ys) \<and> (\<forall>y \<in> set ys. drawn env seed seed1 (ident y))"
proof (induction xs arbitrary: seed ys)
  case (Cons x xs)
  then obtain y s1 zs where parts: "make seed x = Inr (y, s1)" "mapFresh make s1 xs = Inr (zs, seed1)" "ys = y # zs"
    by (auto simp: bind_result_Inr_iff map_sum_Inr_iff)
  have y: "seed < s1" "ident y = nextLocalId env seed"
    using make_draws [OF parts(1)] by auto
  have rest: "s1 \<le> seed1" "length zs = length xs" "distinct (map ident zs)" "\<forall>z \<in> set zs. drawn env s1 seed1 (ident z)"
    using Cons.IH [OF parts(2)] by auto
  have "ident y \<notin> ident ` set zs"
    using rest(4) y drawn_disjoint [of env seed "Suc seed" "ident y"] by (fastforce simp: drawn_def)
  with y rest parts(3) show ?case
    by (auto intro: drawn_mono)
qed simp

lemma mapFresh_each:
  "mapFresh make seed xs = Inr (ys, seed1) \<Longrightarrow> y \<in> set ys \<Longrightarrow> \<exists>x \<in> set xs. \<exists>a b. make a x = Inr (y, b) \<and> seed \<le> a \<and> b \<le> seed1"
proof (induction xs arbitrary: seed ys)
  case (Cons x xs)
  then obtain z s1 zs where parts: "make seed x = Inr (z, s1)" "mapFresh make s1 xs = Inr (zs, seed1)" "ys = z # zs"
    by (auto simp: bind_result_Inr_iff map_sum_Inr_iff)
  have bounds: "seed < s1" "s1 \<le> seed1"
    using make_draws [OF parts(1)] mapFresh_draws [OF parts(2)] by auto
  show ?case
  proof (cases "y = z")
    case True
    then show ?thesis using parts(1) bounds by auto
  next
    case False
    then have "y \<in> set zs" using Cons.prems(2) parts(3) by simp
    from Cons.IH [OF parts(2) this] bounds show ?thesis by fastforce
  qed
qed simp

end

lemma normalizeOverrideCondition_draws:
  "normalizeOverrideCondition env seed v = Inr (c, seed1) \<Longrightarrow> seed1 = Suc seed \<and> oc_id c = nextLocalId env seed \<and>
    oc_mode c \<in> set CONDITION_MODE_VALUES"
  by (auto simp: normalizeOverrideCondition_def knownMode_def CONDITION_MODE_VALUES_def split: if_splits option.splits json.splits)

interpretation conditions: id_supply env "normalizeOverrideCondition env" oc_id for env
  by unfold_locales (drule normalizeOverrideCondition_draws, simp)

definition goodConditions :: "OverrideEnv \<Rightarrow> nat \<Rightarrow> ParamOverrideCondition list \<Rightarrow> bool" where
  "goodConditions env seed cs \<longleftrightarrow> distinct (map oc_id cs) \<and> (\<forall>c \<in> set cs. drawn env 0 seed (oc_id c) \<and> oc_mode c \<in> set CONDITION_MODE_VALUES)"

definition goodOperation :: "OverrideEnv \<Rightarrow> nat \<Rightarrow> ParamOverrideOperation \<Rightarrow> bool" where
  "goodOperation env seed o1 \<longleftrightarrow> drawn env 0 seed (oo_id o1) \<and> oo_mode o1 \<in> set OPERATION_MODE_VALUES
     \<and> oo_logic o1 \<in> {js ''AND'', js ''OR''} \<and> goodConditions env seed (oo_conditions o1)"

lemma goodConditions_mono: "goodConditions env seed cs \<Longrightarrow> seed \<le> seed' \<Longrightarrow> goodConditions env seed' cs"
  unfolding goodConditions_def using drawn_mono by blast

lemma goodOperation_mono: "goodOperation env seed o1 \<Longrightarrow> seed \<le> seed' \<Longrightarrow> goodOperation env seed' o1"
  unfolding goodOperation_def using drawn_mono goodConditions_mono by blast

lemma normalizeOverrideConditions_good:
  assumes "mapFresh (normalizeOverrideCondition env) seed vs = Inr (cs, seed1)"
  shows "seed \<le> seed1 \<and> goodConditions env seed1 cs"
  using conditions.mapFresh_draws [OF assms] conditions.mapFresh_each [OF assms] normalizeOverrideCondition_draws
  unfolding goodConditions_def by (meson drawn_mono le0 order_refl)

lemma known_set_mode [simp]: "js ''set'' \<in> set OPERATION_MODE_VALUES"
  by (simp add: OPERATION_MODE_VALUES_def OPERATION_MODE_OPTIONS_def)

lemma known_full_mode [simp]: "js ''full'' \<in> set CONDITION_MODE_VALUES"
  by (simp add: CONDITION_MODE_VALUES_def)

lemma normalizeOperation_good:
  assumes "normalizeOperation env seed v = Inr (o1, seed1)"
  shows "seed < seed1 \<and> oo_id o1 = nextLocalId env seed \<and> goodOperation env seed1 o1"
proof -
  obtain cs where cs: "(case js_prop v (js ''conditions'') of Some (JArr cs) \<Rightarrow> mapFresh (normalizeOverrideCondition env) (Suc seed) cs
      | _ \<Rightarrow> Inr ([], Suc seed)) = Inr (cs, seed1)" "oo_conditions o1 = cs" "oo_id o1 = nextLocalId env seed"
      "oo_mode o1 = knownMode OPERATION_MODE_VALUES v ''set''" "oo_logic o1 \<in> {js ''AND'', js ''OR''}"
    using assms by (auto simp: normalizeOperation_def bind_result_Inr_iff map_sum_Inr_iff split: if_splits)
  have "Suc seed \<le> seed1 \<and> goodConditions env seed1 cs"
    using cs(1) normalizeOverrideConditions_good by (auto simp: goodConditions_def split: option.splits json.splits)
  moreover have "oo_mode o1 \<in> set OPERATION_MODE_VALUES"
    by (simp add: cs(4) knownMode_def split: option.splits json.splits)
  ultimately show ?thesis using cs(2,3,5) by (auto simp: goodOperation_def)
qed

interpretation rules: id_supply env "normalizeOperation env" oo_id for env
  by unfold_locales (drule normalizeOperation_good, simp)

lemma createDefaultOperation_good [simp]: "seed < seed' \<Longrightarrow> goodOperation env seed' (createDefaultOperation env seed)"
  by (simp add: createDefaultOperation_def goodOperation_def goodConditions_def)

lemma createDefaultOperation_id [simp]: "oo_id (createDefaultOperation env seed) = nextLocalId env seed"
  by (simp add: createDefaultOperation_def)

section \<open>Lists of rules\<close>

definition goodRules :: "OverrideEnv \<Rightarrow> nat \<Rightarrow> ParamOverrideOperation list \<Rightarrow> bool" where
  "goodRules env seed ops \<longleftrightarrow> ops \<noteq> [] \<and> distinct (map oo_id ops) \<and> (\<forall>o1 \<in> set ops. goodOperation env seed o1)"

lemma goodRules_mono: "goodRules env seed ops \<Longrightarrow> seed \<le> seed' \<Longrightarrow> goodRules env seed' ops"
  unfolding goodRules_def using goodOperation_mono by blast

lemma goodRules_default: "goodRules env (Suc seed) [createDefaultOperation env seed]"
  by (simp add: goodRules_def)

lemma mapFresh_rules_good:
  assumes "mapFresh (normalizeOperation env) seed vs = Inr (ops, seed1)"
  shows "seed \<le> seed1 \<and> distinct (map oo_id ops) \<and> (\<forall>o1 \<in> set ops. goodOperation env seed1 o1 \<and> drawn env seed seed1 (oo_id o1))"
  using rules.mapFresh_draws [OF assms] rules.mapFresh_each [OF assms] normalizeOperation_good goodOperation_mono by meson

lemma normalizeOperations_good:
  assumes "normalizeOperations env seed vs = Inr (ops, seed1)"
  shows "seed \<le> seed1 \<and> goodRules env seed1 ops"
proof (cases "vs = []")
  case True
  then show ?thesis using assms goodRules_default by (auto simp: normalizeOperations_def)
next
  case False
  then have made: "mapFresh (normalizeOperation env) seed vs = Inr (ops, seed1)"
    using assms by (simp add: normalizeOperations_def)
  with False show ?thesis
    using mapFresh_rules_good [OF made] rules.mapFresh_draws [OF made] by (auto simp: goodRules_def)
qed

lemma goodRules_map:
  assumes "goodRules env seed ops" "seed \<le> seed'"
    "\<And>o1. o1 \<in> set ops \<Longrightarrow> goodOperation env seed o1 \<Longrightarrow> goodOperation env seed' (f o1) \<and> oo_id (f o1) = oo_id o1"
  shows "goodRules env seed' (map (\<lambda>o1. if oo_id o1 = i then f o1 else o1) ops)"
proof -
  have "map (oo_id \<circ> (\<lambda>o1. if oo_id o1 = i then f o1 else o1)) ops = map oo_id ops"
    using assms(1,3) by (auto simp: goodRules_def)
  then show ?thesis
    using assms goodOperation_mono [OF _ assms(2)] by (auto simp: goodRules_def simp flip: map_map)
qed

lemma goodRules_subset:
  assumes "goodRules env seed ops" "set ops' \<subseteq> set ops" "distinct (map oo_id ops')" "ops' \<noteq> []"
  shows "goodRules env seed ops'"
  using assms by (auto simp: goodRules_def)

lemma goodRules_insert:
  assumes "goodRules env seed (xs @ ys)" "goodOperation env seed' o1" "drawn env seed seed' (oo_id o1)" "seed \<le> seed'"
  shows "goodRules env seed' (xs @ [o1] @ ys)"
proof -
  have "oo_id x \<noteq> oo_id o1" if "x \<in> set xs \<union> set ys" for x
    using drawn_disjoint [of env 0 seed "oo_id x"] that assms(1,3) by (auto simp: goodRules_def goodOperation_def)
  then have "oo_id o1 \<notin> oo_id ` (set xs \<union> set ys)" by force
  with assms(1,2) goodOperation_mono [OF _ assms(4)] show ?thesis
    by (auto simp: goodRules_def)
qed

lemma goodRules_append:
  assumes "goodRules env seed xs \<or> xs = []" "distinct (map oo_id ys)" "seed \<le> seed'" "xs @ ys \<noteq> []"
    "\<forall>o1 \<in> set ys. goodOperation env seed' o1 \<and> drawn env seed seed' (oo_id o1)"
  shows "goodRules env seed' (xs @ ys)"
  using assms drawn_disjoint goodOperation_mono [OF _ assms(3)] by (fastforce simp: goodRules_def goodOperation_def)

section \<open>Reordering\<close>

lemma findIndex_id:
  assumes "distinct (map oo_id ops)" "findIndex (\<lambda>o1. oo_id o1 = i) ops = Some k"
  shows "\<exists>xs o1 ys. ops = xs @ o1 # ys \<and> length xs = k \<and> oo_id o1 = i \<and> i \<notin> oo_id ` set (xs @ ys)"
proof (intro exI conjI)
  have k: "k < length ops" "oo_id (ops ! k) = i"
    using findIndex_Some [OF assms(2)] by auto
  show split: "ops = take k ops @ ops ! k # drop (Suc k) ops"
    using k(1) by (simp add: id_take_nth_drop)
  show "length (take k ops) = k" "oo_id (ops ! k) = i" using k by auto
  have "distinct (map oo_id (take k ops @ ops ! k # drop (Suc k) ops))"
    using assms(1) split by argo
  then show "i \<notin> oo_id ` set (take k ops @ drop (Suc k) ops)"
    using k(2) by auto
qed

text \<open>The rule that is dragged leaves its place and stands next to the target; the others keep their order.\<close>

lemma reorderOperations_spec:
  assumes "distinct (map oo_id ops)" "a \<in> oo_id ` set ops" "b \<in> oo_id ` set ops" "a \<noteq> b" "a \<noteq> []" "b \<noteq> []"
  obtains xs ys o1 o2 where "filter (\<lambda>o1. oo_id o1 \<noteq> a) ops = xs @ o2 # ys" "oo_id o1 = a" "oo_id o2 = b" "o1 \<in> set ops"
    "reorderOperations ops a b afterwards = xs @ (if afterwards then [o2, o1] else [o1, o2]) @ ys"
proof -
  obtain k where k: "findIndex (\<lambda>o1. oo_id o1 = a) ops = Some k"
    using assms(2) findIndex_None_iff [of "\<lambda>o1. oo_id o1 = a" ops] by (cases "findIndex (\<lambda>o1. oo_id o1 = a) ops") (auto simp: list_all_iff)
  obtain us o1 vs where ops: "ops = us @ o1 # vs" "length us = k" "oo_id o1 = a" "a \<notin> oo_id ` set (us @ vs)"
    using findIndex_id [OF assms(1) k] by blast
  have others: "filter (\<lambda>x. oo_id x \<noteq> a) us = us" "filter (\<lambda>x. oo_id x \<noteq> a) vs = vs"
    using ops(4) by (auto simp: filter_id_conv)
  have rest: "filter (\<lambda>x. oo_id x \<noteq> a) ops = us @ vs" "take k ops @ drop (Suc k) ops = us @ vs"
    using ops(2,3) others by (simp_all add: ops(1))
  obtain j where j: "findIndex (\<lambda>o1. oo_id o1 = b) (us @ vs) = Some j"
    using assms(3,4) ops findIndex_None_iff [of "\<lambda>o1. oo_id o1 = b" "us @ vs"]
    by (cases "findIndex (\<lambda>o1. oo_id o1 = b) (us @ vs)") (auto simp: list_all_iff)
  have "distinct (map oo_id (us @ vs))" using assms(1) ops(1) by auto
  then obtain xs o2 ys where split: "us @ vs = xs @ o2 # ys" "length xs = j" "oo_id o2 = b"
    using findIndex_id j by blast
  show ?thesis
  proof
    show "filter (\<lambda>o1. oo_id o1 \<noteq> a) ops = xs @ o2 # ys" using rest split by simp
    show "reorderOperations ops a b afterwards = xs @ (if afterwards then [o2, o1] else [o1, o2]) @ ys"
      using assms(4-6) k j ops(1,2) rest(2) split(1,2) by (auto simp: reorderOperations_def Let_def nth_append)
  qed (use ops split in auto)
qed

lemma reorderOperations_unchanged:
  assumes "a \<notin> oo_id ` set ops \<or> b \<notin> oo_id ` set ops \<or> a = b \<or> a = [] \<or> b = []"
  shows "reorderOperations ops a b afterwards = ops"
proof -
  have out: "findIndex (\<lambda>o1. oo_id o1 = i) xs = None" if "i \<notin> oo_id ` set xs" for i xs
    using that by (auto simp: findIndex_None_iff list_all_iff)
  have "findIndex (\<lambda>o1. oo_id o1 = b) (take k ops @ drop (Suc k) ops) = None" if "b \<notin> oo_id ` set ops" for k
    using that by (intro out) (auto dest: in_set_takeD in_set_dropD)
  then show ?thesis
    using assms out [of a ops] by (auto simp: reorderOperations_def Let_def split: option.split)
qed

lemma reorderOperations_mset:
  assumes "distinct (map oo_id ops)"
  shows "mset (reorderOperations ops a b afterwards) = mset ops"
proof (cases "a \<in> oo_id ` set ops \<and> b \<in> oo_id ` set ops \<and> a \<noteq> b \<and> a \<noteq> [] \<and> b \<noteq> []")
  case True
  then have t: "a \<in> oo_id ` set ops" "b \<in> oo_id ` set ops" "a \<noteq> b" "a \<noteq> []" "b \<noteq> []" by auto
  obtain xs ys o1 o2 where r: "filter (\<lambda>o1. oo_id o1 \<noteq> a) ops = xs @ o2 # ys" "oo_id o1 = a" "o1 \<in> set ops"
    "reorderOperations ops a b afterwards = xs @ (if afterwards then [o2, o1] else [o1, o2]) @ ys"
    by (rule reorderOperations_spec [OF assms t, of afterwards]) (rule that)
  have "filter (\<lambda>o1. oo_id o1 = a) ops = [o1]"
  proof -
    obtain us vs where ops: "ops = us @ o1 # vs" using r(3) by (meson split_list)
    then have "oo_id o1 \<notin> oo_id ` set us" "oo_id o1 \<notin> oo_id ` set vs" using assms by auto
    then have "filter (\<lambda>x. oo_id x = a) us = []" "filter (\<lambda>x. oo_id x = a) vs = []"
      unfolding filter_empty_conv using r(2) by (metis imageI)+
    then show ?thesis using r(2) by (simp add: ops)
  qed
  then have "mset ops = mset (xs @ o2 # ys) + mset [o1]"
    using multiset_partition [of "mset ops" "\<lambda>o1. oo_id o1 \<noteq> a"] r(1) by (simp flip: mset_filter)
  then show ?thesis by (simp add: r(4))
qed (use reorderOperations_unchanged in auto)

lemma goodRules_reorder:
  assumes "goodRules env seed ops"
  shows "goodRules env seed (reorderOperations ops a b afterwards)"
proof -
  have m: "mset (reorderOperations ops a b afterwards) = mset ops"
    using assms by (auto simp: goodRules_def intro: reorderOperations_mset)
  then have "mset (map oo_id (reorderOperations ops a b afterwards)) = mset (map oo_id ops)" by simp
  then have "distinct (map oo_id (reorderOperations ops a b afterwards))"
    using assms mset_eq_imp_distinct_iff by (metis goodRules_def)
  then show ?thesis
    using assms mset_eq_setD [OF m] by (auto simp: goodRules_def)
qed

section \<open>The invariant\<close>

definition savedText :: "jstring \<Rightarrow> bool" where
  "savedText t \<longleftrightarrow> t = [] \<or> JSON_parse t \<noteq> None"

definition override_inv :: "OverrideEnv \<Rightarrow> OverrideEditor \<Rightarrow> bool" where
  "override_inv env s \<longleftrightarrow> goodRules env (ov_seed s) (es_operations s) \<and> ov_selectedOperationId s \<in> set (operationIds s)
     \<and> (\<forall>r \<in> set (shownRules s). drawn env 0 (ov_seed s) (oc_id r))
     \<and> list_all savedText (ov_saved s) \<and> length (ov_saved s) \<le> 1 \<and> (ov_open s \<longrightarrow> ov_saved s = [])"

text \<open>What a handler keeps; the selection is repaired afterwards.\<close>

definition override_kept :: "OverrideEnv \<Rightarrow> OverrideEditor \<Rightarrow> OverrideEditor \<Rightarrow> bool" where
  "override_kept env s t \<longleftrightarrow> goodRules env (ov_seed t) (es_operations t) \<and> ov_seed s \<le> ov_seed t
     \<and> ov_pruneDraft t = ov_pruneDraft s \<and> ov_saved t = ov_saved s \<and> ov_open t = ov_open s"

lemma settleSelection_inv:
  assumes "goodRules env (ov_seed t) (es_operations t)" "\<forall>r \<in> set (shownRules t). drawn env 0 (ov_seed t) (oc_id r)"
    "list_all savedText (ov_saved t)" "length (ov_saved t) \<le> 1" "ov_open t \<longrightarrow> ov_saved t = []"
  shows "override_inv env (settleSelection t)"
  using assms by (auto simp: override_inv_def settleSelection_def operationIds_def goodRules_def shownRules_def split: list.splits)

lemma kept_inv:
  assumes "override_inv env s" "override_kept env s t"
  shows "override_inv env (settleSelection t)"
proof (rule settleSelection_inv)
  show "\<forall>r \<in> set (shownRules t). drawn env 0 (ov_seed t) (oc_id r)"
    using assms drawn_mono by (fastforce simp: override_inv_def override_kept_def shownRules_def)
qed (use assms in \<open>auto simp: override_inv_def override_kept_def\<close>)

lemma mapOperation_kept:
  assumes "goodRules env (ov_seed s) (es_operations s)"
    "\<And>o1. goodOperation env (ov_seed s) o1 \<Longrightarrow> goodOperation env seed1 (f o1) \<and> oo_id (f o1) = oo_id o1" "ov_seed s \<le> seed1"
  shows "override_kept env s ((mapOperation i f s)\<lparr>ov_seed := seed1\<rparr>)"
  using assms goodRules_map [OF assms(1,3), of f i] by (simp add: override_kept_def mapOperation_def)

lemma mapOperation_kept_seed:
  assumes "goodRules env (ov_seed s) (es_operations s)"
    "\<And>o1. goodOperation env (ov_seed s) o1 \<Longrightarrow> goodOperation env (ov_seed s) (f o1) \<and> oo_id (f o1) = oo_id o1"
  shows "override_kept env s (mapOperation i f s)"
  using assms goodRules_map [OF assms(1) order_refl, of f i] by (simp add: override_kept_def mapOperation_def)

lemma patchOperation_good:
  "offeredPatch p \<Longrightarrow> goodOperation env seed o1 \<Longrightarrow> goodOperation env seed (patchOperation p o1) \<and> oo_id (patchOperation p o1) = oo_id o1"
  by (cases "op_mode p"; cases "op_logic p") (auto simp: offeredPatch_def patchOperation_def goodOperation_def)

lemma updateOperation_kept:
  "goodRules env (ov_seed s) (es_operations s) \<Longrightarrow> offeredPatch p \<Longrightarrow> override_kept env s (updateOperation i p s)"
  by (simp add: updateOperation_def mapOperation_kept_seed patchOperation_good)

lemma offered_field_patches:
  "offeredPatch (syncPatch src spec)" "offeredPatch (formatValuePatch env o1)"
  by (auto simp: offeredPatch_def syncPatch_def formatValuePatch_def noPatch_def split: option.splits)

lemma good_conditions_patch:
  assumes "goodConditions env seed cs" "offeredCondition p"
  shows "goodConditions env seed (map (\<lambda>c. if oc_id c = i then patchCondition p c else c) cs)"
proof -
  have "oc_id \<circ> (\<lambda>c. if oc_id c = i then patchCondition p c else c) = oc_id"
    by (auto simp: patchCondition_def)
  then show ?thesis
    using assms by (cases "cp_mode p") (auto simp: goodConditions_def offeredCondition_def patchCondition_def)
qed

lemma conditions_kept:
  assumes rules: "goodRules env (ov_seed s) (es_operations s)"
  shows "override_kept env s (addCondition env i s)" "offeredCondition p \<Longrightarrow> override_kept env s (updateCondition i c p s)"
    "override_kept env s (removeCondition i c s)"
proof -
  have new: "oc_id c' \<noteq> nextLocalId env (ov_seed s)" if "goodConditions env (ov_seed s) cs" "c' \<in> set cs" for c' cs
    using that by (auto simp: goodConditions_def drawn_def)
  have "goodConditions env (Suc (ov_seed s)) (cs @ [createDefaultCondition env (ov_seed s)])" if "goodConditions env (ov_seed s) cs" for cs
    using goodConditions_mono [OF that, of "Suc (ov_seed s)"] new [OF that] by (force simp: goodConditions_def createDefaultCondition_def)
  then show "override_kept env s (addCondition env i s)"
    unfolding addCondition_def using drawn_mono [of env 0 "ov_seed s" _ 0 "Suc (ov_seed s)"]
    by (intro mapOperation_kept [OF rules]) (auto simp: goodOperation_def)
  show "override_kept env s (removeCondition i c s)"
    unfolding removeCondition_def
    by (intro mapOperation_kept_seed [OF rules]) (auto simp: goodOperation_def goodConditions_def distinct_map_filter)
  show "override_kept env s (updateCondition i c p s)" if "offeredCondition p"
    unfolding updateCondition_def using good_conditions_patch [OF _ that]
    by (intro mapOperation_kept_seed [OF rules]) (auto simp: goodOperation_def)
qed

lemma updateReturnErrorDraft_kept:
  "goodRules env (ov_seed s) (es_operations s) \<Longrightarrow> override_kept env s (updateReturnErrorDraft env i r s)"
  unfolding updateReturnErrorDraft_def by (rule mapOperation_kept_seed) (auto simp: goodOperation_def)

lemma add_remove_kept:
  assumes "goodRules env (ov_seed s) (es_operations s)"
  shows "override_kept env s (addOperation env s)" "override_kept env s (removeOperation env i s)"
proof -
  show "override_kept env s (addOperation env s)"
    using assms goodRules_append [of env "ov_seed s" "es_operations s" "[createDefaultOperation env (ov_seed s)]" "Suc (ov_seed s)"]
    by (simp add: override_kept_def addOperation_def Let_def)
  have "filter (\<lambda>o1. oo_id o1 \<noteq> i) (es_operations s) \<noteq> []" if "1 < length (es_operations s)"
  proof
    assume "filter (\<lambda>o1. oo_id o1 \<noteq> i) (es_operations s) = []"
    then have "set (map oo_id (es_operations s)) \<subseteq> {i}"
      by (auto simp: filter_empty_conv)
    moreover have "distinct (map oo_id (es_operations s))" using assms by (simp add: goodRules_def)
    ultimately have "length (map oo_id (es_operations s)) \<le> card {i}"
      by (metis card_mono distinct_card finite.emptyI finite_insert)
    with that show False by simp
  qed
  then show "override_kept env s (removeOperation env i s)"
    using assms goodRules_default goodRules_subset [OF assms, of "filter (\<lambda>o1. oo_id o1 \<noteq> i) (es_operations s)"]
    by (auto simp: override_kept_def removeOperation_def goodRules_def distinct_map_filter)
qed

lemma duplicateOperation_kept:
  assumes "goodRules env (ov_seed s) (es_operations s)"
  shows "override_kept env s (duplicateOperation env eager i s)"
proof (cases "findIndex (\<lambda>o1. oo_id o1 = i) (es_operations s)")
  case (Some idx)
  show ?thesis
  proof (cases "normalizeOperation env (ov_seed s) (duplicateSource (es_operations s ! idx))")
    case (Inr r)
    obtain cloned seed1 where r: "r = (cloned, seed1)" by (cases r)
    have new: "ov_seed s < seed1" "oo_id cloned = nextLocalId env (ov_seed s)" "goodOperation env seed1 cloned"
      using normalizeOperation_good [of env "ov_seed s" _ cloned seed1] Inr r by auto
    have "goodRules env seed1 (take (Suc idx) (es_operations s) @ [cloned] @ drop (Suc idx) (es_operations s))"
      by (rule goodRules_insert [of env "ov_seed s"]) (use new assms in auto)
    then show ?thesis using Some Inr r new(1) by (simp add: duplicateOperation_def override_kept_def)
  qed (use Some assms in \<open>simp add: duplicateOperation_def override_kept_def\<close>)
qed (use assms in \<open>simp add: duplicateOperation_def override_kept_def\<close>)

section \<open>Prune rules\<close>

lemma parsePruneObjectsDraft_draws:
  "parsePruneObjectsDraft env seed t = (d, seed1) \<Longrightarrow> seed \<le> seed1 \<and> (\<forall>r \<in> set (pr_rules d). drawn env seed seed1 (oc_id r))"
proof -
  have "seed \<le> seed1 \<and> (\<forall>r \<in> set (pr_rules d). drawn env seed seed1 (oc_id r))" if "parsePruneObject env seed v = Inr (d, seed1)" for v
  proof -
    have "mapFresh (normalizeOverrideCondition env) seed (pruneRuleSources v) = Inr (pr_rules d, seed1)"
      using that by (auto simp: parsePruneObject_def normalizePruneRule_def [abs_def] bind_result_Inr_iff map_sum_Inr_iff)
    from conditions.mapFresh_draws [OF this] show ?thesis by simp
  qed
  then show "parsePruneObjectsDraft env seed t = (d, seed1) \<Longrightarrow> ?thesis"
    by (auto simp: parsePruneObjectsDraft_def Let_def pruneDefaults_def split: if_splits option.splits json.splits sum.splits)
qed

lemma mapSeed_good:
  assumes "\<And>seed x y seed1. f seed x = (y, seed1) \<Longrightarrow> seed \<le> seed1 \<and> oo_id y = oo_id x \<and> (\<forall>k. goodOperation env k x \<longrightarrow> goodOperation env k y)"
  shows "mapSeed f seed xs = (ys, seed1) \<Longrightarrow> seed \<le> seed1 \<and> map oo_id ys = map oo_id xs \<and>
    (\<forall>k. (\<forall>x \<in> set xs. goodOperation env k x) \<longrightarrow> (\<forall>y \<in> set ys. goodOperation env k y))"
proof (induction xs arbitrary: seed ys)
  case (Cons x xs)
  then obtain y s1 zs where parts: "f seed x = (y, s1)" "mapSeed f s1 xs = (zs, seed1)" "ys = y # zs"
    by (auto split: prod.splits)
  show ?case using assms [OF parts(1)] Cons.IH [OF parts(2)] parts(3) by auto
qed simp

lemma updatePruneObjectsDraft_kept:
  assumes "goodRules env (ov_seed s) (es_operations s)" "\<And>k d. k \<le> snd (updater k d)"
  shows "override_kept env s (updatePruneObjectsDraft env i updater s)"
proof -
  let ?f = "\<lambda>seed o1. if oo_id o1 \<noteq> i then (o1, seed)
    else (let (draft, seed1) = parsePruneObjectsDraft env seed (oo_value_text o1); (nextDraft, seed2) = updater seed1 draft in
      (o1\<lparr>oo_value_text := buildPruneObjectsValueText env nextDraft\<rparr>, seed2))"
  obtain ops seed1 where made: "mapSeed ?f (ov_seed s) (es_operations s) = (ops, seed1)" by fastforce
  have f: "seed \<le> seed1 \<and> oo_id y = oo_id x \<and> (\<forall>k. goodOperation env k x \<longrightarrow> goodOperation env k y)" if fx: "?f seed x = (y, seed1)" for seed x y seed1
  proof (cases "oo_id x = i")
    case True
    obtain d k where d: "parsePruneObjectsDraft env seed (oo_value_text x) = (d, k)" by fastforce
    obtain e where e: "updater k d = (e, seed1)" "y = x\<lparr>oo_value_text := buildPruneObjectsValueText env e\<rparr>"
      using fx True d by (auto split: prod.splits)
    have "seed \<le> k" "k \<le> seed1" using parsePruneObjectsDraft_draws [OF d] assms(2) [of k d] e(1) by auto
    then show ?thesis by (auto simp: e(2) goodOperation_def)
  qed (use fx in auto)
  have ops: "ov_seed s \<le> seed1" "map oo_id ops = map oo_id (es_operations s)"
      "\<And>k. (\<forall>x \<in> set (es_operations s). goodOperation env k x) \<Longrightarrow> \<forall>y \<in> set ops. goodOperation env k y"
    using mapSeed_good [OF f made] by blast+
  have "goodRules env seed1 (es_operations s)" using goodRules_mono [OF assms(1) ops(1)] .
  then have "goodRules env seed1 ops"
    using ops(2) ops(3) [of seed1] map_is_Nil_conv [of oo_id ops] by (auto simp: goodRules_def)
  with ops(1) have "goodRules env seed1 ops" "ov_seed s \<le> seed1" by auto
  then show ?thesis using made by (simp add: updatePruneObjectsDraft_def override_kept_def)
qed

lemma prune_handlers_kept:
  assumes "goodRules env (ov_seed s) (es_operations s)"
  shows "override_kept env s (updatePruneObjectsDraft env i (patchPruneDraft d) s)" "override_kept env s (addPruneRule env i s)"
    "override_kept env s (updatePruneRule env i r p s)" "override_kept env s (removePruneRule env i r s)"
  unfolding addPruneRule_def updatePruneRule_def removePruneRule_def
  by (rule updatePruneObjectsDraft_kept [OF assms], simp add: patchPruneDraft_def)+

section \<open>Modes, templates and saving\<close>

lemma switch_kept:
  assumes "goodRules env (ov_seed s) (es_operations s)"
  shows "override_kept env s (switchToJsonMode env s)" "override_kept env s (switchToVisualMode env s)"
    "override_kept env s (resetEditorState env s)"
proof -
  show "override_kept env s (switchToJsonMode env s)"
    using assms by (simp add: switchToJsonMode_def override_kept_def split: sum.split)
  show "override_kept env s (resetEditorState env s)"
    by (simp add: resetEditorState_def override_kept_def Let_def goodRules_default)
  have "ov_seed s \<le> seed1 \<and> goodRules env seed1 ops" if "normalizeOperations env (ov_seed s) vs = Inr (ops, seed1)" for vs ops seed1
    using normalizeOperations_good that by blast
  then show "override_kept env s (switchToVisualMode env s)"
    using assms by (auto simp: switchToVisualMode_def override_kept_def Let_def goodRules_default split: option.split sum.split)
qed

lemma presets_nonempty:
  "nullish (map_of TEMPLATE_PRESET_CONFIG k) (OperationsPreset OPERATION_TEMPLATE) = OperationsPreset vs \<Longrightarrow> vs \<noteq> []"
proof -
  have all: "list_all (\<lambda>(key, preset). preset \<noteq> OperationsPreset []) TEMPLATE_PRESET_CONFIG"
    by (simp add: TEMPLATE_PRESET_CONFIG_def OPERATION_TEMPLATE_def HEADER_PASSTHROUGH_TEMPLATE_def GEMINI_IMAGE_4K_TEMPLATE_def
        buildPassHeadersTemplate_def AWS_BEDROCK_ANTHROPIC_COMPAT_TEMPLATE_def)
  show "nullish (map_of TEMPLATE_PRESET_CONFIG k) (OperationsPreset OPERATION_TEMPLATE) = OperationsPreset vs \<Longrightarrow> ?thesis"
    using all by (cases "map_of TEMPLATE_PRESET_CONFIG k") (auto simp: OPERATION_TEMPLATE_def list_all_iff dest: map_of_SomeD)
qed

lemma fillTemplate_kept:
  assumes rules: "goodRules env (ov_seed s) (es_operations s)"
  shows "override_kept env s (fillTemplate env appending s)"
proof (cases "nullish (map_of TEMPLATE_PRESET_CONFIG (ov_templatePresetKey s)) (OperationsPreset OPERATION_TEMPLATE)")
  case (LegacyPreset v)
  have "override_kept env s (installLegacy env w s)" for w
    by (simp add: installLegacy_def override_kept_def goodRules_default)
  then show ?thesis
    using LegacyPreset rules by (simp add: fillTemplate_def Let_def override_kept_def split: option.split)
next
  case (OperationsPreset vs)
  show ?thesis
  proof (cases "mapFresh (normalizeOperation env) (ov_seed s) vs")
    case (Inr r)
    obtain created seed1 where r: "mapFresh (normalizeOperation env) (ov_seed s) vs = Inr (created, seed1)"
      using Inr by (cases r) simp
    let ?existing = "if es_visualMode s = VisualOperations then filter (\<lambda>o1. \<not> isOperationBlank o1) (es_operations s) else []"
    have old: "goodRules env (ov_seed s) ?existing \<or> ?existing = []"
      using goodRules_subset [OF rules, of ?existing] rules by (auto simp: goodRules_def distinct_map_filter)
    have new: "created \<noteq> []" "ov_seed s \<le> seed1" "distinct (map oo_id created)"
        "\<forall>o1 \<in> set created. goodOperation env seed1 o1 \<and> drawn env (ov_seed s) seed1 (oo_id o1)"
      using presets_nonempty [OF OperationsPreset] rules.mapFresh_draws [OF r] mapFresh_rules_good [OF r] by auto
    have "goodRules env seed1 (?existing @ created)" "goodRules env seed1 created"
      using goodRules_append [OF old new(3,2)] goodRules_append [of env "ov_seed s" "[]" created seed1] new by auto
    then show ?thesis
      using OperationsPreset r new(1,2) by (simp add: fillTemplate_def Let_def override_kept_def split: if_split)
  qed (use OperationsPreset rules in \<open>simp add: fillTemplate_def override_kept_def\<close>)
qed

lemma savedText_Nil [simp]: "savedText []"
  by (simp add: savedText_def)

lemma pretty_saved: "prints_decimals (pe_num_str env) \<Longrightarrow> json_ok v \<Longrightarrow> savedText (JSON_pretty (pe_num_str env) v)"
  by (simp add: savedText_def JSON_parse_stringify)

lemma put_if_ok: "json_ok (JObj ps) \<Longrightarrow> (b \<Longrightarrow> json_ok v) \<Longrightarrow> json_ok (JObj (put_if b k v ps))"
  by (simp add: put_if_def json_ok_put del: json_ok.simps(3))

lemma parseLooseValue_ok: "json_ok (parseLooseValue t)"
  by (auto simp: parseLooseValue_def Let_def dest: JSON_parse_ok split: option.splits)

lemma single_ok: "json_ok v \<Longrightarrow> json_ok (JObj [(k, v)])"
  by (simp add: ordered_keys_def)

lemma buildConditionPayload_ok:
  assumes "buildConditionPayload c = Some v"
  shows "json_ok v"
proof -
  have "json_ok (JObj [(js ''path'', JStr p), (js ''mode'', JStr m), (js ''value'', parseLooseValue t)])" for p m t
    using parseLooseValue_ok by (simp add: ordered_keys_def key_before_def index_key_def is_digit_def js_def)
  with assms show ?thesis
    by (auto simp: buildConditionPayload_def Let_def simp del: json_ok.simps(3) intro!: put_if_ok split: if_splits)
qed

lemma conditionPayloads_ok: "list_all json_ok (List.map_filter buildConditionPayload cs)"
  using buildConditionPayload_ok by (fastforce simp: List.map_filter_def list_all_iff)

lemma aliasFields_ok: "json_ok (JObj ps) \<Longrightarrow> json_ok (JObj (aliasFields t ps))"
  unfolding aliasFields_def Let_def by (intro put_if_ok) simp_all

lemma operationPayload_ok: "json_ok (operationPayload o1)"
proof -
  have optional: "json_ok (JObj (if b then aliasFields t ps else ps))" if "json_ok (JObj ps)" for b t ps
    using that aliasFields_ok by (simp del: json_ok.simps(3))
  show ?thesis
    unfolding operationPayload_def Let_def
    by (intro put_if_ok optional single_ok) (simp_all add: parseLooseValue_ok conditionPayloads_ok)
qed

lemma payloads_ok: "json_ok (JObj [(js ''operations'', JArr (map operationPayload ops))])"
  by (intro single_ok) (simp add: list_all_iff operationPayload_ok)

lemma buildOperationsJson_saved:
  "prints_decimals (pe_num_str env) \<Longrightarrow> buildOperationsJson env ops b = Inr t \<Longrightarrow> savedText t"
  by (auto simp: buildOperationsJson_def Let_def intro!: pretty_saved payloads_ok split: if_splits sum.splits option.splits)

lemma buildVisualJson_saved: "prints_decimals (pe_num_str env) \<Longrightarrow> buildVisualJson env s = Inr t \<Longrightarrow> savedText t"
  by (auto simp: buildVisualJson_def Let_def intro!: pretty_saved intro: JSON_parse_ok buildOperationsJson_saved
      split: if_splits option.splits)

lemma handleSave_inv:
  assumes "prints_decimals (pe_num_str env)" "override_inv env s" "ov_open s"
  shows "override_inv env (settleSelection (handleSave env s))"
proof -
  have none: "ov_saved s = []" and inv: "goodRules env (ov_seed s) (es_operations s)" "\<forall>r \<in> set (shownRules s). drawn env 0 (ov_seed s) (oc_id r)"
    using assms(2,3) by (auto simp: override_inv_def)
  obtain r where r: "handleSave env s = (case r of Inl e \<Rightarrow> s\<lparr>ov_toasts := e # ov_toasts s\<rparr>
      | Inr t \<Rightarrow> s\<lparr>ov_saved := t # ov_saved s, ov_open := False\<rparr>)" "\<And>t. r = Inr t \<Longrightarrow> savedText t"
  proof (cases "es_editMode s = EditJson")
    case True
    then show ?thesis
      using pretty_saved [OF assms(1)]
      by (intro that [OF handleSave_def]) (auto simp: Let_def dest: JSON_parse_ok split: if_splits option.splits)
  next
    case False
    then show ?thesis
      using buildVisualJson_saved [OF assms(1)] by (intro that [OF handleSave_def]) auto
  qed
  show ?thesis
    using none inv r by (intro settleSelection_inv) (auto simp: shownRules_def split: sum.splits)
qed

lemma pruneObjectsDraft_inv:
  assumes "override_inv env s"
  shows "override_inv env (settleSelection (pruneObjectsDraft env s))"
proof (cases "selectedOperation s")
  case None
  then show ?thesis
    using assms by (intro settleSelection_inv) (auto simp: pruneObjectsDraft_def shownRules_def override_inv_def)
next
  case (Some o1)
  obtain d seed1 where d: "parsePruneObjectsDraft env (ov_seed s) (oo_value_text o1) = (d, seed1)" by fastforce
  have "ov_seed s \<le> seed1" "\<forall>r \<in> set (pr_rules d). drawn env 0 seed1 (oc_id r)"
    using parsePruneObjectsDraft_draws [OF d] drawn_mono by blast+
  with assms Some d goodRules_mono show ?thesis
    by (intro settleSelection_inv) (auto simp: pruneObjectsDraft_def shownRules_def override_inv_def)
qed

lemma handleDrop_kept:
  assumes "goodRules env (ov_seed s) (es_operations s)"
  shows "override_kept env s (handleDrop transferred i s)"
  using assms goodRules_reorder [OF assms] by (simp add: handleDrop_def Let_def resetDragState_def override_kept_def)

lemma frame_kept:
  assumes "goodRules env (ov_seed s) (es_operations s)"
  shows "override_kept env s (handleDragStart i s)" "override_kept env s (handleDragOver i lower s)"
    "override_kept env s (resetDragState s)" "override_kept env s (handleJsonChange v s)" "override_kept env s (formatJson env s)"
    "override_kept env s (s\<lparr>ov_selectedOperationId := i\<rparr>)" "override_kept env s (s\<lparr>ov_templatePresetKey := k\<rparr>)"
    "override_kept env s (s\<lparr>es_legacyValue := v\<rparr>)"
  using assms by (auto simp: override_kept_def handleDragStart_def handleDragOver_def resetDragState_def handleJsonChange_def
      formatJson_def Let_def split: option.split)

lemmas handlers_kept = updateOperation_kept conditions_kept updateReturnErrorDraft_kept add_remove_kept
  duplicateOperation_kept prune_handlers_kept switch_kept fillTemplate_kept handleDrop_kept frame_kept

lemma override_handler_inv:
  assumes "override_handler env s e t" "override_inv env s" "prints_decimals (pe_num_str env)"
  shows "override_inv env (settleSelection t)"
proof -
  have rules: "goodRules env (ov_seed s) (es_operations s)" using assms(2) by (simp add: override_inv_def)
  have kept: "override_inv env (settleSelection u)" if "override_kept env s u" for u
    using kept_inv [OF assms(2) that] .
  have cancelled: "override_inv env (settleSelection (s\<lparr>ov_open := False\<rparr>))"
    using assms(2) by (intro settleSelection_inv) (auto simp: override_inv_def shownRules_def)
  from assms(1) show ?thesis
    by cases (simp_all add: kept handlers_kept [OF rules] offered_field_patches cancelled
        handleSave_inv [OF assms(3,2)] pruneObjectsDraft_inv [OF assms(2)])
qed

lemma openEditor_inv:
  assumes "openEditor env seed v = Inr s"
  shows "override_inv env s"
proof -
  obtain st seed1 where st: "parseInitialState env seed v = Inr (st, seed1)" "es_operations s = es_operations st" "ov_seed s = seed1"
      "ov_pruneDraft s = None" "ov_saved s = []" "ov_selectedOperationId s = (case es_operations st of [] \<Rightarrow> [] | o1 # _ \<Rightarrow> oo_id o1)"
    using assms by (auto simp: openEditor_def map_sum_Inr_iff)
  have "goodRules env seed1 (es_operations st)"
    using st(1) goodRules_default normalizeOperations_good
    by (auto simp: parseInitialState_def Let_def map_sum_Inr_iff split: if_splits option.splits)
  then show ?thesis
    using st by (auto simp: override_inv_def shownRules_def operationIds_def goodRules_def split: list.splits)
qed

definition overrideLawful :: "OverrideEnv \<Rightarrow> bool" where
  "overrideLawful env \<longleftrightarrow> prints_decimals (pe_num_str env)"

interpretation dialog: invariant_system "\<lambda>(env, s). overrideLawful env \<and> (\<exists>seed v. openEditor env seed v = Inr s)"
    "\<lambda>(env, s) e (env', s'). env' = env \<and> override_step env s e s'" "\<lambda>(env, s). overrideLawful env \<and> override_inv env s"
  by unfold_locales (auto simp: overrideLawful_def override_step_def openEditor_inv override_handler_inv)

definition override_reachable :: "OverrideEnv \<Rightarrow> OverrideEditor \<Rightarrow> bool" where
  "override_reachable env s \<longleftrightarrow> reachable (\<lambda>(env, s). overrideLawful env \<and> (\<exists>seed v. openEditor env seed v = Inr s))
     (\<lambda>(env, s) e (env', s'). env' = env \<and> override_step env s e s') (env, s)"

lemma override_reachable_start: "overrideLawful env \<Longrightarrow> openEditor env seed v = Inr s \<Longrightarrow> override_reachable env s"
  unfolding override_reachable_def by (rule reach_start) auto

lemma override_reachable_step: "override_reachable env s \<Longrightarrow> override_step env s e s' \<Longrightarrow> override_reachable env s'"
  unfolding override_reachable_def by (erule reach_step [where e = e]) simp

lemma override_reachable_inv: "override_reachable env s \<Longrightarrow> override_inv env s \<and> overrideLawful env"
  using dialog.reachable_inv [of "(env, s)"] by (simp add: override_reachable_def)

end
