(* ===== verification/Param_Override_Rules.thy ===== *)
theory Param_Override_Rules
  imports Param_Override_Invariant
begin

text \<open>
  What the parameter override dialog keeps of a configuration: values, drafts of custom errors, whole rules
  that are written and read again; what validation of a rule establishes; and updates of prune drafts.
\<close>

section \<open>Values\<close>

lemma p_str_shrinks: "p_str s = Some (t, r) \<Longrightarrow> length t + length r < length s"
proof (induction "length s" arbitrary: s t rule: less_induct)
  case less
  show ?case
  proof (cases s)
    case (Cons x s')
    have shorter: "length t' + length r < length u" if "p_str u = Some (t', r)" "length u < length s" for u t'
      using less.hyps that by blast
    from less.prems Cons show ?thesis
      by (auto split: if_splits list.splits option.splits dest!: shorter)
  qed (use less.prems in simp)
qed

lemma JSON_parse_string_shrinks:
  assumes "JSON_parse s = Some (JStr t)"
  shows "length t < length s"
proof -
  obtain r where r: "p_value s = Some (JStr t, r)"
    using assms by (auto simp: JSON_parse_def split: option.splits if_splits)
  then obtain c u where cu: "skip_ws s = c # u" by (cases "skip_ws s") (auto simp: p_value.simps)
  have "p_str u = Some (t, r)"
    using r cu by (auto simp: p_value.simps split: if_splits list.splits)
  then show ?thesis
    using p_str_shrinks [of u t r] skip_ws_Cons [OF cu] by linarith
qed

lemma loose_nonstring:
  assumes "prints_decimals (pe_num_str env)" "json_ok v" "\<not> (\<exists>s. v = JStr s)"
  shows "parseLooseValue (toValueText env (Some v)) = v"
proof -
  have eq: "toValueText env (Some v) = JSON_stringify (pe_num_str env) v"
    using assms(3) by (cases v) (auto simp: toValueText_def)
  have parsed: "JSON_parse (JSON_stringify (pe_num_str env) v) = Some v"
    using JSON_parse_stringify [OF assms(1,2)] by simp
  show ?thesis
    using JSON_parse_nonblank [OF parsed] parsed by (simp add: eq parseLooseValue_def trim_printed [OF assms(1,2)])
qed

text \<open>The strings that a text field keeps: trimmed, and not themselves a JSON text.\<close>

definition plainString :: "jstring \<Rightarrow> bool" where
  "plainString s \<longleftrightarrow> trim s = s \<and> (s = [] \<or> JSON_parse s = None)"

definition stableValue :: "json \<Rightarrow> bool" where
  "stableValue v \<longleftrightarrow> (case v of JStr s \<Rightarrow> plainString s | _ \<Rightarrow> True)"

lemma length_trim: "length (trim s) \<le> length s"
  using length_dropWhile_le [of is_ws "rev (dropWhile is_ws s)"] length_dropWhile_le [of is_ws s]
  by (simp add: trim_def trim_start_def trim_end_def)

lemma loose_string: "parseLooseValue s = JStr s \<longleftrightarrow> plainString s"
proof (cases "trim s = []")
  case False
  show ?thesis
  proof (cases "JSON_parse (trim s)")
    case None
    then show ?thesis using False by (auto simp: parseLooseValue_def plainString_def)
  next
    case (Some v)
    have "v \<noteq> JStr s"
      using JSON_parse_string_shrinks [of "trim s" s] Some length_trim [of s] by auto
    then show ?thesis using False Some by (auto simp: parseLooseValue_def plainString_def)
  qed
qed (auto simp: parseLooseValue_def plainString_def)

lemma loose_stable:
  assumes "prints_decimals (pe_num_str env)" "json_ok v"
  shows "parseLooseValue (toValueText env (Some v)) = v \<longleftrightarrow> stableValue v"
  using loose_nonstring [OF assms] loose_string
  by (cases v) (auto simp: stableValue_def toValueText_def)

section \<open>Custom errors\<close>

lemma map_of_put_if: "map_of (put_if b k v ps) = (if b then (map_of ps)(js k \<mapsto> v) else map_of ps)"
  by (simp add: put_if_def)

lemma validStatus_range: "integer_between 100 599 (Some (validStatus n))"
  by (cases n) (auto simp: validStatus_def integer_between_def)

lemma validStatus_valid [simp]: "validStatus (Some (validStatus n)) = validStatus n"
  using validStatus_range [of n] by (simp add: validStatus_def)

definition shownDraft :: "ReturnErrorDraft \<Rightarrow> ReturnErrorDraft" where
  "shownDraft d = \<lparr>re_message = trim (re_message d), re_statusCode = Some (validStatus (re_statusCode d)), re_code = trim (re_code d),
     re_type = trim (re_type d), re_skipRetry = re_skipRetry d, re_simpleMode = False\<rparr>"

lemma error_payload_ok:
  "json_ok (JObj [(js ''message'', JStr m), (js ''status_code'', JNum (validStatus n))])"
proof -
  have "of_int \<lfloor>validStatus n\<rfloor> = validStatus n"
    using validStatus_range [of n] by (simp add: integer_between_def)
  then have "decimal (validStatus n)" by (metis decimal_of_int)
  then show ?thesis by (simp add: ordered_keys_def key_before_def index_key_def is_digit_def js_def)
qed

lemma or_json_text [simp]: "or_json (Some (JStr t)) (JStr []) = JStr t"
  by (simp add: or_json_def truthy_opt_def)

lemma or_json_absent [simp]: "or_json None d = d"
  by (simp add: or_json_def truthy_opt_def)

lemma return_error_reads:
  assumes "prints_decimals (pe_num_str env)" "\<not> re_simpleMode d"
  shows "parseReturnErrorDraft env (buildReturnErrorValueText env d) = shownDraft d"
proof -
  define ps where "ps = put_if (\<not> re_skipRetry d) ''skip_retry'' (JBool False)
        (put_if (trim (re_type d) \<noteq> []) ''type'' (JStr (trim (re_type d)))
        (put_if (trim (re_code d) \<noteq> []) ''code'' (JStr (trim (re_code d)))
          [(js ''message'', JStr (trim (re_message d))), (js ''status_code'', JNum (validStatus (re_statusCode d)))]))"
  have built: "buildReturnErrorValueText env d = JSON_stringify (pe_num_str env) (JObj ps)"
    using assms(2) by (simp add: buildReturnErrorValueText_def Let_def ps_def)
  have ok: "json_ok (JObj ps)"
    unfolding ps_def by (intro put_if_ok error_payload_ok) simp_all
  have parsed: "JSON_parse (JSON_stringify (pe_num_str env) (JObj ps)) = Some (JObj ps)"
    using JSON_parse_stringify [OF assms(1) ok] by simp
  have fields: "map_of ps (js ''message'') = Some (JStr (trim (re_message d)))"
      "map_of ps (js ''status_code'') = Some (JNum (validStatus (re_statusCode d)))" "map_of ps (js ''status'') = None"
      "map_of ps (js ''msg'') = None"
      "map_of ps (js ''code'') = (if trim (re_code d) = [] then None else Some (JStr (trim (re_code d))))"
      "map_of ps (js ''type'') = (if trim (re_type d) = [] then None else Some (JStr (trim (re_type d))))"
      "map_of ps (js ''skip_retry'') = (if re_skipRetry d then None else Some (JBool False))"
    by (simp_all add: ps_def map_of_put_if js_inject)
  have "parseErrorObject env (JObj ps) = Inr (shownDraft d)"
    by (simp add: parseErrorObject_def fields shownDraft_def Let_def)
  then show ?thesis
    using JSON_parse_nonblank [OF parsed] by (simp add: parseReturnErrorDraft_def built trim_printed [OF assms(1) ok] parsed Let_def)
qed

section \<open>The payload of a rule\<close>

text \<open>
  \<open>sourceValue\<close> and \<open>targetValue\<close>: the fields \<open>from\<close> and \<open>to\<close> of the payload, for which modes on request
  headers take the path when they are empty.
\<close>

definition sourceValue :: "ParamOverrideOperation \<Rightarrow> jstring" where
  "sourceValue o1 = (if mm_pathAlias (modeMeta (oo_mode o1)) \<and> trim (oo_from o1) = [] then trim (oo_path o1) else trim (oo_from o1))"

definition targetValue :: "ParamOverrideOperation \<Rightarrow> jstring" where
  "targetValue o1 = (if mm_pathAlias (modeMeta (oo_mode o1)) \<and> trim (oo_to o1) = [] then trim (oo_path o1) else trim (oo_to o1))"

definition conditionPayloads :: "ParamOverrideOperation \<Rightarrow> json list" where
  "conditionPayloads o1 = List.map_filter buildConditionPayload (oo_conditions o1)"

lemmas modeTables = MODE_META_def OPERATION_MODE_VALUES_def OPERATION_MODE_OPTIONS_def FROM_REQUIRED_MODES_def TO_REQUIRED_MODES_def
  VALUE_REQUIRED_MODES_def noMeta_def

definition lawfulMode :: "jstring \<Rightarrow> bool" where
  "lawfulMode m \<longleftrightarrow> (let meta = modeMeta m in
     m \<noteq> [] \<and> (m \<in> set FROM_REQUIRED_MODES \<longrightarrow> mm_from meta) \<and> (m \<in> set TO_REQUIRED_MODES \<longrightarrow> mm_to meta)
     \<and> (m \<in> set VALUE_REQUIRED_MODES \<longrightarrow> mm_value meta) \<and> (mm_path meta \<longrightarrow> \<not> mm_pathOptional meta)
     \<and> (mm_pathAlias meta \<longrightarrow> mm_from meta \<and> mm_to meta \<and> \<not> mm_path meta \<and> \<not> mm_pathOptional meta \<and> \<not> mm_value meta))"

lemma lawful_modes: "m \<in> set OPERATION_MODE_VALUES \<Longrightarrow> lawfulMode m"
proof -
  have "list_all lawfulMode OPERATION_MODE_VALUES"
    by (simp add: lawfulMode_def modeTables modeMeta_def js_inject Let_def)
  then show "m \<in> set OPERATION_MODE_VALUES \<Longrightarrow> lawfulMode m" by (simp add: list_all_iff)
qed

lemma modeMeta_set [simp]: "mm_path (modeMeta (js ''set''))"
  by (simp add: modeTables modeMeta_def js_inject Let_def)

text \<open>The payload without the two assignments that only replace an empty \<open>from\<close> or \<open>to\<close>.\<close>

definition rulePayload :: "jstring \<Rightarrow> jstring \<Rightarrow> jstring \<Rightarrow> json \<Rightarrow> bool \<Rightarrow> jstring \<Rightarrow> jstring \<Rightarrow> json list \<Rightarrow> jstring \<Rightarrow> (jstring \<times> json) list" where
  "rulePayload mode description path val keep src tgt conditions logic = (let meta = modeMeta mode in
     put_if (conditions \<noteq> []) ''logic'' (JStr logic)
     (put_if (conditions \<noteq> []) ''conditions'' (JArr conditions)
     (put_if (mm_to meta \<or> tgt \<noteq> []) ''to'' (JStr tgt)
     (put_if (mm_from meta) ''from'' (JStr src)
     (put_if (mm_keepOrigin meta \<and> keep) ''keep_origin'' (JBool True)
     (put_if (mm_value meta) ''value'' val
     (put_if (mm_path meta \<or> mm_pathOptional meta \<and> path \<noteq> []) ''path'' (JStr path)
     (put_if (description \<noteq> []) ''description'' (JStr description) [(js ''mode'', JStr mode)]))))))))"

lemma replace_insert: "map_of ps k = None \<Longrightarrow> replace_key k v (insert_key k u ps) = insert_key k v ps"
  by (induction k u ps rule: insert_key.induct) (auto split: option.splits if_splits)

lemma replace_insert_other: "k \<noteq> j \<Longrightarrow> replace_key k v (insert_key j w ps) = insert_key j w (replace_key k v ps)"
  by (induction j w ps rule: insert_key.induct) (auto split: option.splits if_splits)

lemma replace_replace: "replace_key k v (replace_key k u ps) = replace_key k v ps"
  by (induction k u ps rule: replace_key.induct) auto

lemma replace_replace_other: "k \<noteq> j \<Longrightarrow> replace_key k v (replace_key j w ps) = replace_key j w (replace_key k v ps)"
  by (induction j w ps rule: replace_key.induct) auto

lemma obj_put_put: "obj_put k v (obj_put k u ps) = obj_put k v ps"
  by (simp add: obj_put_def map_of_insert_key map_of_replace_key replace_insert replace_replace)

lemma obj_put_under:
  assumes "k \<noteq> j"
  shows "obj_put k v (obj_put j w (obj_put k u ps)) = obj_put j w (obj_put k v ps)"
proof -
  have "obj_put k v (obj_put j w (obj_put k u ps)) = obj_put j w (obj_put k v (obj_put k u ps))"
    using assms map_of_obj_put [of k u ps] map_of_obj_put [of k v "obj_put k u ps"]
    by (cases "map_of (obj_put k u ps) j = None")
      (auto simp: obj_put_def [of k v] obj_put_def [of j w] map_of_insert_key map_of_replace_key replace_insert_other replace_replace_other)
  then show ?thesis by (simp add: obj_put_put)
qed

lemma aliasFields_puts:
  "aliasFields p (obj_put (js ''to'') (JStr t) (obj_put (js ''from'') (JStr f) ps)) =
    obj_put (js ''to'') (JStr (if t = [] then p else t)) (obj_put (js ''from'') (JStr (if f = [] then p else f)) ps)"
  by (simp add: aliasFields_def Let_def truthy_opt_def map_of_put_if js_inject)
    (simp add: put_if_def obj_put_put obj_put_under js_inject)

lemma put_if_simps [simp]: "put_if True k v ps = obj_put (js k) v ps" "put_if False k v ps = ps"
  by (simp_all add: put_if_def)

lemma operationPayload_rule:
  assumes "oo_mode o1 \<in> set OPERATION_MODE_VALUES"
  shows "operationPayload o1 = JObj (rulePayload (oo_mode o1) (trim (oo_description o1)) (trim (oo_path o1))
    (parseLooseValue (oo_value_text o1)) (oo_keep_origin o1) (sourceValue o1) (targetValue o1) (conditionPayloads o1)
    (if oo_logic o1 = js ''AND'' then js ''AND'' else js ''OR''))"
proof -
  have law: "lawfulMode (oo_mode o1)" using lawful_modes [OF assms] .
  then have mode: "or_str (Some (oo_mode o1)) (js ''set'') = oo_mode o1" by (simp add: or_str_def lawfulMode_def Let_def)
  show ?thesis
  proof (cases "mm_pathAlias (modeMeta (oo_mode o1))")
    case True
    then have "mm_from (modeMeta (oo_mode o1))" "mm_to (modeMeta (oo_mode o1))" "\<not> mm_path (modeMeta (oo_mode o1))"
        "\<not> mm_pathOptional (modeMeta (oo_mode o1))" "\<not> mm_value (modeMeta (oo_mode o1))"
      using law by (auto simp: lawfulMode_def Let_def)
    with True show ?thesis
      by (simp add: operationPayload_def rulePayload_def Let_def mode sourceValue_def targetValue_def aliasFields_puts
          flip: conditionPayloads_def)
  next
    case False
    then show ?thesis
      using law by (cases "mm_path (modeMeta (oo_mode o1))"; cases "mm_to (modeMeta (oo_mode o1))")
        (simp_all add: operationPayload_def rulePayload_def Let_def mode sourceValue_def targetValue_def lawfulMode_def
          flip: conditionPayloads_def)
  qed
qed

lemma rulePayload_fields:
  assumes "ps = rulePayload m d p v keep f t cs l"
  shows "map_of ps (js ''mode'') = Some (JStr m)"
    "map_of ps (js ''description'') = (if d = [] then None else Some (JStr d))"
    "map_of ps (js ''path'') = (if mm_path (modeMeta m) \<or> mm_pathOptional (modeMeta m) \<and> p \<noteq> [] then Some (JStr p) else None)"
    "map_of ps (js ''value'') = (if mm_value (modeMeta m) then Some v else None)"
    "map_of ps (js ''keep_origin'') = (if mm_keepOrigin (modeMeta m) \<and> keep then Some (JBool True) else None)"
    "map_of ps (js ''from'') = (if mm_from (modeMeta m) then Some (JStr f) else None)"
    "map_of ps (js ''to'') = (if mm_to (modeMeta m) \<or> t \<noteq> [] then Some (JStr t) else None)"
    "map_of ps (js ''conditions'') = (if cs = [] then None else Some (JArr cs))"
    "map_of ps (js ''logic'') = (if cs = [] then None else Some (JStr l))"
  by (simp_all add: assms rulePayload_def Let_def map_of_put_if js_inject)

lemma rulePayload_cong:
  assumes "mm_path (modeMeta m) \<or> mm_pathOptional (modeMeta m) \<Longrightarrow> p = p'" "mm_value (modeMeta m) \<Longrightarrow> v = v'"
    "mm_keepOrigin (modeMeta m) \<Longrightarrow> keep = keep'" "mm_from (modeMeta m) \<Longrightarrow> f = f'" "cs \<noteq> [] \<Longrightarrow> l = l'"
  shows "rulePayload m d p v keep f t cs l = rulePayload m d p' v' keep' f' t cs l'"
proof -
  have put: "put_if b k x ps = put_if b' k x' ps'" if "b = b'" "b \<Longrightarrow> x = x'" "ps = ps'" for b b' k x x' ps ps'
    using that by (auto simp: put_if_def)
  show ?thesis
    unfolding rulePayload_def Let_def by (intro put) (use assms in auto)
qed

section \<open>Reading a rule back\<close>

lemma trim_endpoints [simp]: "trim (sourceValue o1) = sourceValue o1" "trim (targetValue o1) = targetValue o1"
  by (simp_all add: sourceValue_def targetValue_def)

lemma mapFresh_reads:
  assumes "\<And>k x. x \<in> set xs \<Longrightarrow> \<exists>y k'. f k x = Inr (y, k') \<and> P x y"
  shows "\<exists>ys k'. mapFresh f k xs = Inr (ys, k') \<and> list_all2 P xs ys"
  using assms
proof (induction xs arbitrary: k)
  case (Cons x xs)
  obtain y k1 where y: "f k x = Inr (y, k1)" "P x y" using Cons.prems [of x k] by auto
  obtain ys k2 where "mapFresh f k1 xs = Inr (ys, k2)" "list_all2 P xs ys" using Cons.IH [of k1] Cons.prems by auto
  with y show ?case by auto
qed simp

definition stableCondition :: "ParamOverrideCondition \<Rightarrow> bool" where
  "stableCondition c \<longleftrightarrow> oc_mode c \<in> set CONDITION_MODE_VALUES \<and> stableValue (parseLooseValue (oc_value_text c))"

definition stableRule :: "ParamOverrideOperation \<Rightarrow> bool" where
  "stableRule o1 \<longleftrightarrow> oo_mode o1 \<in> set OPERATION_MODE_VALUES \<and> stableValue (parseLooseValue (oo_value_text o1))
     \<and> list_all stableCondition (oo_conditions o1)"

lemma known_condition_nonempty: "m \<in> set CONDITION_MODE_VALUES \<Longrightarrow> m \<noteq> []"
  by (auto simp: CONDITION_MODE_VALUES_def js_def)

lemma condition_reads:
  assumes "prints_decimals (pe_num_str env)" "stableCondition c" "buildConditionPayload c = Some v"
  shows "\<exists>c' k'. normalizeOverrideCondition env k v = Inr (c', k') \<and> buildConditionPayload c' = Some v"
proof -
  define ps where "ps = put_if (oc_pass_missing_key c) ''pass_missing_key'' (JBool True) (put_if (oc_invert c) ''invert'' (JBool True)
     [(js ''path'', JStr (trim (oc_path c))), (js ''mode'', JStr (oc_mode c)), (js ''value'', parseLooseValue (oc_value_text c))])"
  have mode: "or_str (Some (oc_mode c)) (js ''full'') = oc_mode c" "oc_mode c \<in> set CONDITION_MODE_VALUES"
    using assms(2) known_condition_nonempty by (auto simp: stableCondition_def or_str_def)
  have v: "v = JObj ps" "trim (oc_path c) \<noteq> []"
    using assms(3) by (auto simp: buildConditionPayload_def Let_def mode ps_def split: if_splits)
  have same: "parseLooseValue (toValueText env (Some (parseLooseValue (oc_value_text c)))) = parseLooseValue (oc_value_text c)"
    using loose_stable [OF assms(1) parseLooseValue_ok] assms(2) by (simp add: stableCondition_def)
  have fields: "map_of ps (js ''path'') = Some (JStr (trim (oc_path c)))" "map_of ps (js ''mode'') = Some (JStr (oc_mode c))"
      "map_of ps (js ''value'') = Some (parseLooseValue (oc_value_text c))"
      "map_of ps (js ''invert'') = (if oc_invert c then Some (JBool True) else None)"
      "map_of ps (js ''pass_missing_key'') = (if oc_pass_missing_key c then Some (JBool True) else None)"
    by (simp_all add: ps_def map_of_put_if js_inject)
  show ?thesis
    using v(2) by (simp add: v(1) normalizeOverrideCondition_def buildConditionPayload_def stringField_def knownMode_def fields mode same Let_def)
      (simp add: ps_def)
qed

lemma conditions_read:
  assumes "prints_decimals (pe_num_str env)" "list_all stableCondition cs"
  shows "\<exists>cs' k'. mapFresh (normalizeOverrideCondition env) k (List.map_filter buildConditionPayload cs) = Inr (cs', k')
    \<and> List.map_filter buildConditionPayload cs' = List.map_filter buildConditionPayload cs"
proof -
  let ?vs = "List.map_filter buildConditionPayload cs"
  have "\<exists>c' k'. normalizeOverrideCondition env k v = Inr (c', k') \<and> buildConditionPayload c' = Some v" if member: "v \<in> set ?vs" for k v
  proof -
    obtain c where "c \<in> set cs" "buildConditionPayload c = Some v"
      using member by (auto simp: List.map_filter_def)
    then show ?thesis using condition_reads [OF assms(1), of c v k] assms(2) by (auto simp: list_all_iff)
  qed
  then obtain cs' k' where "mapFresh (normalizeOverrideCondition env) k ?vs = Inr (cs', k')"
      "list_all2 (\<lambda>v c'. buildConditionPayload c' = Some v) ?vs cs'"
    using mapFresh_reads [of ?vs "normalizeOverrideCondition env" "\<lambda>v c'. buildConditionPayload c' = Some v" k] by blast
  moreover have "list_all2 (\<lambda>v c'. buildConditionPayload c' = Some v) vs cs' \<Longrightarrow> List.map_filter buildConditionPayload cs' = vs" for vs
    by (induction vs cs' rule: list_all2_induct) (auto simp: map_filter_simps)
  ultimately show ?thesis by blast
qed

lemma rule_reads:
  assumes lawful: "prints_decimals (pe_num_str env)" and stable: "stableRule o1"
  shows "\<exists>o2 k'. normalizeOperation env k (operationPayload o1) = Inr (o2, k') \<and> operationPayload o2 = operationPayload o1
    \<and> oo_mode o2 = oo_mode o1 \<and> (mm_path (modeMeta (oo_mode o1)) \<longrightarrow> oo_path o2 = trim (oo_path o1))"
proof -
  let ?m = "oo_mode o1" and ?v = "parseLooseValue (oo_value_text o1)"
  let ?l = "if oo_logic o1 = js ''AND'' then js ''AND'' else js ''OR''"
  define ps where "ps = rulePayload ?m (trim (oo_description o1)) (trim (oo_path o1)) ?v (oo_keep_origin o1)
    (sourceValue o1) (targetValue o1) (conditionPayloads o1) ?l"
  have known: "?m \<in> set OPERATION_MODE_VALUES" and law: "lawfulMode ?m"
    using stable lawful_modes by (auto simp: stableRule_def)
  have payload: "operationPayload o1 = JObj ps" using operationPayload_rule [OF known] by (simp add: ps_def)
  note fields = rulePayload_fields [OF ps_def]
  have same: "parseLooseValue (toValueText env (Some ?v)) = ?v"
    using loose_stable [OF lawful parseLooseValue_ok] stable by (simp add: stableRule_def)
  obtain cs' k' where cs': "mapFresh (normalizeOverrideCondition env) (Suc k) (conditionPayloads o1) = Inr (cs', k')"
      "List.map_filter buildConditionPayload cs' = conditionPayloads o1"
    using conditions_read [OF lawful, of "oo_conditions o1" "Suc k"] stable by (auto simp: stableRule_def conditionPayloads_def)
  have conditions: "(case map_of ps (js ''conditions'') of Some (JArr cs) \<Rightarrow> mapFresh (normalizeOverrideCondition env) (Suc k) cs
      | _ \<Rightarrow> Inr ([], Suc k)) = Inr (cs', k')"
    using cs' by (cases "conditionPayloads o1 = []") (auto simp: fields)
  have logic: "or_json (map_of ps (js ''logic'')) (JStr (js ''OR'')) = JStr (if conditionPayloads o1 = [] then js ''OR'' else ?l)"
    by (simp add: fields or_json_def truthy_opt_def)
  have upper: "ascii_upper (js ''AND'') = js ''AND''" "ascii_upper (js ''OR'') = js ''OR''" by (simp_all add: ascii_upper_def js_def)
  let ?path = "if mm_path (modeMeta ?m) \<or> mm_pathOptional (modeMeta ?m) \<and> trim (oo_path o1) \<noteq> [] then trim (oo_path o1) else []"
  let ?logic = "if conditionPayloads o1 = [] then js ''OR'' else ?l"
  define o2 where "o2 = \<lparr>oo_id = nextLocalId env k, oo_description = trim (oo_description o1), oo_path = ?path, oo_mode = ?m,
    oo_from = (if mm_from (modeMeta ?m) then sourceValue o1 else []), oo_to = targetValue o1,
    oo_value_text = (if mm_value (modeMeta ?m) then toValueText env (Some ?v) else []),
    oo_keep_origin = (mm_keepOrigin (modeMeta ?m) \<and> oo_keep_origin o1), oo_logic = ?logic, oo_conditions = cs'\<rparr>"
  have strings: "stringField (JObj ps) ''description'' = trim (oo_description o1)" "stringField (JObj ps) ''path'' = ?path"
      "stringField (JObj ps) ''from'' = (if mm_from (modeMeta ?m) then sourceValue o1 else [])" "stringField (JObj ps) ''to'' = targetValue o1"
      "knownMode OPERATION_MODE_VALUES (JObj ps) ''set'' = ?m"
    using known by (simp_all add: stringField_def knownMode_def fields)
  have "(if ascii_upper ?logic = js ''AND'' then js ''AND'' else js ''OR'') = ?logic"
    by (simp add: upper js_inject)
  then have norm: "normalizeOperation env k (JObj ps) = Inr (o2, k')"
    unfolding normalizeOperation_def js_prop.simps strings conditions logic
    by (simp add: fields(4,5) o2_def toValueText_def)
  have o2: "oo_mode o2 = ?m" "oo_description o2 = trim (oo_description o1)" "oo_path o2 = ?path"
      "oo_value_text o2 = (if mm_value (modeMeta ?m) then toValueText env (Some ?v) else [])"
      "oo_keep_origin o2 \<longleftrightarrow> mm_keepOrigin (modeMeta ?m) \<and> oo_keep_origin o1"
      "oo_from o2 = (if mm_from (modeMeta ?m) then sourceValue o1 else [])" "oo_to o2 = targetValue o1" "oo_conditions o2 = cs'"
      "conditionPayloads o1 \<noteq> [] \<Longrightarrow> (if oo_logic o2 = js ''AND'' then js ''AND'' else js ''OR'') = ?l"
    by (simp_all add: o2_def js_inject)
  have cps: "conditionPayloads o2 = conditionPayloads o1" using cs'(2) o2(8) by (simp add: conditionPayloads_def)
  have src: "mm_from (modeMeta ?m) \<Longrightarrow> sourceValue o2 = sourceValue o1" and tgt: "targetValue o2 = targetValue o1"
    using law by (auto simp: sourceValue_def [of o2] targetValue_def [of o2] o2 lawfulMode_def Let_def)
  have "rulePayload ?m (trim (oo_description o1)) (trim (oo_path o2)) (parseLooseValue (oo_value_text o2)) (oo_keep_origin o2)
      (sourceValue o2) (targetValue o1) (conditionPayloads o1) (if oo_logic o2 = js ''AND'' then js ''AND'' else js ''OR'') = ps"
    unfolding ps_def by (rule rulePayload_cong) (auto simp: o2(3-5,9) src same)
  then have "operationPayload o2 = JObj ps"
    using operationPayload_rule [of o2] known by (simp add: o2(1,2) cps tgt)
  then show ?thesis using norm o2(1,3) by (auto simp: payload)
qed

section \<open>Validated rules\<close>

lemma validateFrom_None: "validateFrom env n ops = Inr None \<longleftrightarrow> (\<forall>o1 \<in> set ops. validateOperation env o1 = Inr None)"
  by (induction env n ops rule: validateFrom.induct) (auto simp: bind_result_Inr_iff split: option.splits)

lemma built_operations:
  assumes "buildOperationsJson env ops True = Inr t" "t \<noteq> []"
  obtains rest where "rest = filter (\<lambda>o1. \<not> isOperationBlank o1) ops" "rest \<noteq> []" "\<forall>o1 \<in> set rest. validateOperation env o1 = Inr None"
    "t = JSON_pretty (pe_num_str env) (JObj [(js ''operations'', JArr (map operationPayload rest))])"
  using assms that [of "filter (\<lambda>o1. \<not> isOperationBlank o1) ops"]
  by (auto simp: buildOperationsJson_def Let_def validateOperations_def validateFrom_None split: if_splits sum.splits option.splits)

lemma validated_fields:
  assumes "validateOperation env o1 = Inr None" "oo_mode o1 \<in> set OPERATION_MODE_VALUES"
  shows "mm_path (modeMeta (oo_mode o1)) \<Longrightarrow> trim (oo_path o1) \<noteq> []"
    "oo_mode o1 \<in> set FROM_REQUIRED_MODES \<Longrightarrow> sourceValue o1 \<noteq> []" "oo_mode o1 \<in> set TO_REQUIRED_MODES \<Longrightarrow> targetValue o1 \<noteq> []"
    "oo_mode o1 \<in> set VALUE_REQUIRED_MODES \<Longrightarrow> trim (oo_value_text o1) \<noteq> []"
    "oo_mode o1 = js ''pass_headers'' \<Longrightarrow> \<exists>h hs. parsePassHeaderNames env (parseLooseValue (oo_value_text o1)) = Inr (h # hs)"
proof -
  have mode: "or_str (Some (oo_mode o1)) (js ''set'') = oo_mode o1"
    using lawful_modes [OF assms(2)] by (simp add: or_str_def lawfulMode_def Let_def)
  note v = assms(1) [unfolded validateOperation_def Let_def mode]
  show "mm_path (modeMeta (oo_mode o1)) \<Longrightarrow> trim (oo_path o1) \<noteq> []" using v by (auto split: if_splits)
  show "oo_mode o1 \<in> set FROM_REQUIRED_MODES \<Longrightarrow> sourceValue o1 \<noteq> []" using v by (auto simp: sourceValue_def split: if_splits)
  show "oo_mode o1 \<in> set TO_REQUIRED_MODES \<Longrightarrow> targetValue o1 \<noteq> []" using v by (auto simp: targetValue_def split: if_splits)
  show "oo_mode o1 \<in> set VALUE_REQUIRED_MODES \<Longrightarrow> trim (oo_value_text o1) \<noteq> []" using v by (auto split: if_splits)
  have "parseLooseValue (trim (oo_value_text o1)) = parseLooseValue (oo_value_text o1)" by (simp add: parseLooseValue_def)
  then show "oo_mode o1 = js ''pass_headers'' \<Longrightarrow> \<exists>h hs. parsePassHeaderNames env (parseLooseValue (oo_value_text o1)) = Inr (h # hs)"
    using v by (auto simp: map_sum_Inr_iff js_inject neq_Nil_conv split: if_splits)
qed

text \<open>A rule that is filled in: the fields its mode needs are not blank, and the values of two modes say something.\<close>

definition completeEdit :: "OverrideEnv \<Rightarrow> ParamOverrideOperation \<Rightarrow> bool" where
  "completeEdit env o1 \<longleftrightarrow>
     (let m = oo_mode o1; aliased = (mm_pathAlias (modeMeta m) \<and> trim (oo_path o1) \<noteq> []); raw = trim (oo_value_text o1) in
      (mm_path (modeMeta m) \<longrightarrow> trim (oo_path o1) \<noteq> [])
    \<and> (m \<in> set FROM_REQUIRED_MODES \<longrightarrow> trim (oo_from o1) \<noteq> [] \<or> aliased)
    \<and> (m \<in> set TO_REQUIRED_MODES \<longrightarrow> trim (oo_to o1) \<noteq> [] \<or> aliased)
    \<and> (m \<in> set VALUE_REQUIRED_MODES \<longrightarrow> raw \<noteq> [])
    \<and> (m = js ''pass_headers'' \<longrightarrow> (case parsePassHeaderNames env (parseLooseValue raw) of Inr (h # hs) \<Rightarrow> True | _ \<Rightarrow> False))
    \<and> (m = js ''return_error'' \<longrightarrow> (case JSON_parse raw of
          Some (JObj ps) \<Rightarrow> (case to_string (pe_num_str env) (or_json (map_of ps (js ''message'')) (JStr [])) of
              Inr message \<Rightarrow> trim message \<noteq> [] | Inl _ \<Rightarrow> True)
        | _ \<Rightarrow> True)))"

lemma validate_exact:
  assumes "oo_mode o1 \<in> set OPERATION_MODE_VALUES"
  shows "validateOperation env o1 = Inr None \<longleftrightarrow> completeEdit env o1"
proof -
  have mode: "or_str (Some (oo_mode o1)) (js ''set'') = oo_mode o1"
    using lawful_modes [OF assms] by (simp add: or_str_def lawfulMode_def Let_def)
  have differ: "js ''return_error'' \<noteq> js ''pass_headers''" by (simp add: js_inject)
  have headers: "map_sum id (\<lambda>hs. if length hs = 0 then Some m else None) x = Inr None \<longleftrightarrow>
      (case x of Inr (h # hs) \<Rightarrow> True | _ \<Rightarrow> False)" for m :: jstring and x :: "js_error + jstring list"
    by (cases x) (auto simp: neq_Nil_conv split: list.split)
  have object: "(case j of
           Some (JObj ps) \<Rightarrow> (case f ps of Inl _ \<Rightarrow> Inr None | Inr message \<Rightarrow> if trim message = [] then Inr (Some m) else Inr None)
         | _ \<Rightarrow> Inr None) = Inr None \<longleftrightarrow>
       (case j of Some (JObj ps) \<Rightarrow> (case f ps of Inr message \<Rightarrow> trim message \<noteq> [] | Inl _ \<Rightarrow> True) | _ \<Rightarrow> True)"
    for j :: "json option" and f :: "(jstring \<times> json) list \<Rightarrow> js_error + jstring" and m :: jstring
    by (auto split: option.split json.split sum.split)
  have guards: "(if a then Inr (Some x1) else if b then Inr (Some x2) else if c then Inr (Some x3) else if d then Inr (Some x4) else R) = Inr None
      \<longleftrightarrow> \<not> a \<and> \<not> b \<and> \<not> c \<and> \<not> d \<and> R = Inr None" for a b c d x1 x2 x3 x4 and R :: "js_error + jstring option"
    by simp
  show ?thesis
    unfolding validateOperation_def completeEdit_def Let_def mode guards if_distrib [of "\<lambda>r. r = Inr None"] headers object
    using differ by (simp cong: if_cong)
qed

text \<open>A rule as the server reads it, with the fields its mode needs.\<close>

definition nonblankField :: "(jstring \<times> json) list \<Rightarrow> string \<Rightarrow> bool" where
  "nonblankField ps k = (case map_of ps (js k) of Some (JStr t) \<Rightarrow> t \<noteq> [] \<and> trim t = t | _ \<Rightarrow> False)"

definition completeRule :: "OverrideEnv \<Rightarrow> json \<Rightarrow> bool" where
  "completeRule env v = (case v of JObj ps \<Rightarrow> (case map_of ps (js ''mode'') of
       Some (JStr m) \<Rightarrow> m \<in> set OPERATION_MODE_VALUES
         \<and> (mm_path (modeMeta m) \<longrightarrow> nonblankField ps ''path'') \<and> (m \<in> set FROM_REQUIRED_MODES \<longrightarrow> nonblankField ps ''from'')
         \<and> (m \<in> set TO_REQUIRED_MODES \<longrightarrow> nonblankField ps ''to'')
         \<and> (m \<in> set VALUE_REQUIRED_MODES \<longrightarrow> map_of ps (js ''value'') \<noteq> None)
         \<and> (m = js ''pass_headers'' \<longrightarrow> (case parsePassHeaderNames env (the (map_of ps (js ''value''))) of Inr (h # hs) \<Rightarrow> True | _ \<Rightarrow> False))
     | _ \<Rightarrow> False) | _ \<Rightarrow> False)"

lemma validated_complete:
  assumes "validateOperation env o1 = Inr None" "oo_mode o1 \<in> set OPERATION_MODE_VALUES"
  shows "completeRule env (operationPayload o1)"
proof -
  have pass: "mm_value (modeMeta (js ''pass_headers''))" by (simp add: modeTables modeMeta_def js_inject Let_def)
  have law: "lawfulMode (oo_mode o1)" using lawful_modes [OF assms(2)] .
  show ?thesis
    unfolding operationPayload_rule [OF assms(2)] completeRule_def nonblankField_def
    using validated_fields [OF assms] assms(2) law pass
    by (auto simp: rulePayload_fields [OF refl] lawfulMode_def Let_def)
qed

section \<open>Prune rules\<close>

lemma mapSeed_cong:
  assumes "\<And>k x. k0 \<le> k \<Longrightarrow> f k x = g k x" "\<And>k x. k \<le> snd (f k x)"
  shows "k0 \<le> k \<Longrightarrow> mapSeed f k xs = mapSeed g k xs"
proof (induction xs arbitrary: k)
  case (Cons x xs)
  obtain y k1 where y: "f k x = (y, k1)" by fastforce
  have "k0 \<le> k1" using assms(2) [of k x] y Cons.prems by simp
  with Cons y assms(1) [of k x] show ?case by simp
qed simp

lemma mapSeed_others: "(\<And>k x. x \<in> set xs \<Longrightarrow> f k x = (x, k)) \<Longrightarrow> mapSeed f k xs = (xs, k)"
  by (induction xs arbitrary: k) auto

lemma prune_updates_agree:
  assumes "distinct (map oo_id ops)" "\<And>k x. oo_id x \<noteq> i \<Longrightarrow> f k x = (x, k) \<and> g k x = (x, k)"
    "\<And>k x. fst (f k x) = fst (g k x)"
  shows "fst (mapSeed f k ops) = fst (mapSeed g k ops)"
  using assms(1)
proof (induction ops)
  case (Cons x xs)
  show ?case
  proof (cases "oo_id x = i")
    case True
    then have "\<And>y. y \<in> set xs \<Longrightarrow> oo_id y \<noteq> i" using Cons.prems by (metis distinct.simps(2) image_eqI list.simps(9) set_map)
    then have "mapSeed f k' xs = (xs, k')" "mapSeed g k' xs = (xs, k')" for k'
      using assms(2) by (auto intro!: mapSeed_others)
    then show ?thesis using assms(3) [of k x] by (auto split: prod.splits)
  next
    case False
    then show ?thesis using Cons assms(2) by (auto split: prod.splits)
  qed
qed simp

text \<open>A rule of a draft that was shown has an id that no later reading of the draft gives again.\<close>

lemma shown_rule_unknown:
  assumes "parsePruneObjectsDraft env k t = (d, k1)" "drawn env 0 k i"
  shows "map (\<lambda>r. if oc_id r = i then p r else r) (pr_rules d) = pr_rules d" "filter (\<lambda>r. oc_id r \<noteq> i) (pr_rules d) = pr_rules d"
proof -
  have "oc_id r \<noteq> i" if "r \<in> set (pr_rules d)" for r
    using drawn_disjoint [OF assms(2), of k1 "oc_id r"] parsePruneObjectsDraft_draws [OF assms(1)] that by auto
  then show "map (\<lambda>r. if oc_id r = i then p r else r) (pr_rules d) = pr_rules d" "filter (\<lambda>r. oc_id r \<noteq> i) (pr_rules d) = pr_rules d"
    by (auto simp: filter_id_conv intro: map_idI)
qed

lemma prune_update_cong:
  assumes "\<And>k t d k1. ov_seed s \<le> k \<Longrightarrow> parsePruneObjectsDraft env k t = (d, k1) \<Longrightarrow> u k1 d = w k1 d" "\<And>k d. k \<le> snd (u k d)"
  shows "updatePruneObjectsDraft env i u s = updatePruneObjectsDraft env i w s"
proof -
  let ?f = "\<lambda>u seed o1. if oo_id o1 \<noteq> i then (o1, seed)
    else (let (draft, seed1) = parsePruneObjectsDraft env seed (oo_value_text o1); (nextDraft, seed2) = u seed1 draft in
      (o1\<lparr>oo_value_text := buildPruneObjectsValueText env nextDraft\<rparr>, seed2))"
  have "mapSeed (?f u) (ov_seed s) (es_operations s) = mapSeed (?f w) (ov_seed s) (es_operations s)"
  proof (rule mapSeed_cong [of "ov_seed s"])
    fix k and x :: ParamOverrideOperation
    obtain d k1 where d: "parsePruneObjectsDraft env k (oo_value_text x) = (d, k1)" by fastforce
    show "?f u k x = ?f w k x" if "ov_seed s \<le> k" using assms(1) [OF that d] d by simp
    show "k \<le> snd (?f u k x)"
      using parsePruneObjectsDraft_draws [OF d] assms(2) [of k1 d] d by (auto split: prod.splits)
  qed simp
  then show ?thesis by (simp add: updatePruneObjectsDraft_def)
qed

lemma added_rule_dropped:
  "buildPruneObjectsValueText env (d\<lparr>pr_simpleMode := False, pr_rules := pr_rules d @ [createDefaultCondition env k]\<rparr>) =
    buildPruneObjectsValueText env (d\<lparr>pr_simpleMode := False\<rparr>)"
  by (simp add: buildPruneObjectsValueText_def createDefaultCondition_def Let_def)

section \<open>Opening a printed configuration\<close>

lemma parseInitialState_printed:
  assumes "prints_decimals (pe_num_str env)" "json_ok v" "operationsOf v = Some vs" "normalizeOperations env seed vs = Inr (ops, seed1)"
  shows "parseInitialState env seed (JSON_pretty (pe_num_str env) v) = Inr (\<lparr>es_editMode = EditVisual, es_visualMode = VisualOperations,
    es_legacyValue = [], es_operations = ops, es_jsonText = JSON_pretty (pe_num_str env) v, es_jsonError = []\<rparr>, seed1)"
proof -
  have parsed: "JSON_parse (JSON_pretty (pe_num_str env) v) = Some v" using JSON_parse_stringify [OF assms(1,2)] by simp
  show ?thesis
    using JSON_parse_nonblank [OF parsed] assms(3,4)
    by (simp add: parseInitialState_def trim_printed [OF assms(1,2)] parsed Let_def)
qed

lemma rules_read:
  assumes "prints_decimals (pe_num_str env)" "ops \<noteq> []" "\<forall>o1 \<in> set ops. stableRule o1 \<and> validateOperation env o1 = Inr None"
  shows "\<exists>ops' k'. normalizeOperations env k (map operationPayload ops) = Inr (ops', k') \<and> map operationPayload ops' = map operationPayload ops
    \<and> list_all (\<lambda>o2. \<not> isOperationBlank o2) ops'"
proof -
  let ?P = "\<lambda>v o2. operationPayload o2 = v \<and> \<not> isOperationBlank o2"
  have "\<exists>o2 k'. normalizeOperation env k v = Inr (o2, k') \<and> ?P v o2" if member: "v \<in> set (map operationPayload ops)" for k v
  proof -
    obtain o1 where o1: "o1 \<in> set ops" "v = operationPayload o1" using member by auto
    have stable: "stableRule o1" and valid: "validateOperation env o1 = Inr None" using o1(1) assms(3) by auto
    obtain o2 k' where o2: "normalizeOperation env k v = Inr (o2, k')" "operationPayload o2 = v" "oo_mode o2 = oo_mode o1"
        "mm_path (modeMeta (oo_mode o1)) \<longrightarrow> oo_path o2 = trim (oo_path o1)"
      using rule_reads [OF assms(1) stable, of k] o1(2) by auto
    have "\<not> isOperationBlank o2"
      using validated_fields(1) [OF valid] stable o2(3,4) by (auto simp: isOperationBlank_def stableRule_def)
    with o2 show ?thesis by blast
  qed
  then obtain ops' k' where made: "mapFresh (normalizeOperation env) k (map operationPayload ops) = Inr (ops', k')"
      "list_all2 ?P (map operationPayload ops) ops'"
    using mapFresh_reads [of "map operationPayload ops" "normalizeOperation env" ?P k] by blast
  have "map operationPayload ops' = vs \<and> list_all (\<lambda>o2. \<not> isOperationBlank o2) ops'" if "list_all2 ?P vs ops'" for vs
    using that by (induction vs ops' rule: list_all2_induct) auto
  with made assms(2) show ?thesis by (auto simp: normalizeOperations_def)
qed

end
