(* ===== verification/Param_Override_Properties.thy ===== *)
theory Param_Override_Properties
  imports Param_Override_Rules
begin

text \<open>
  The properties of the parameter override dialog, with the example states at which they are applied.
\<close>

section \<open>Example states\<close>

definition decimalEnv :: OverrideEnv where
  "decimalEnv = \<lparr>pe_num_str = dec_str, pe_clock = (\<lambda>_. 0)\<rparr>"

lemma decimalEnv_lawful [simp]: "overrideLawful decimalEnv" "prints_decimals (pe_num_str decimalEnv)"
  by (simp_all add: overrideLawful_def decimalEnv_def dec_str_prints)

definition exampleEditor :: "ParamOverrideOperation list \<Rightarrow> nat \<Rightarrow> jstring \<Rightarrow> OverrideEditor" where
  "exampleEditor ops n content = \<lparr>es_editMode = EditVisual, es_visualMode = VisualOperations, es_legacyValue = [], es_operations = ops,
      es_jsonText = content, es_jsonError = [],
      ov_selectedOperationId = (case ops of [] \<Rightarrow> [] | o1 # _ \<Rightarrow> oo_id o1), ov_draggedOperationId = [],
      ov_dragOverOperationId = [], ov_dragAfter = False, ov_templatePresetKey = js ''operations_default'',
      ov_pruneDraft = None, ov_seed = n, ov_toasts = [], ov_saved = [], ov_open = True\<rparr>"

lemma example_opens:
  assumes "list_all json_ok vs" "normalizeOperations decimalEnv 0 vs = Inr (ops, n)"
  shows "override_reachable decimalEnv (exampleEditor ops n (JSON_pretty dec_str (JObj [(js ''operations'', JArr vs)])))"
proof -
  let ?v = "JObj [(js ''operations'', JArr vs)]"
  have "json_ok ?v" "operationsOf ?v = Some vs" "pe_num_str decimalEnv = dec_str"
    using assms(1) by (simp_all add: operationsOf_def ordered_keys_def decimalEnv_def)
  note parsed = parseInitialState_printed [OF decimalEnv_lawful(2) this(1,2) assms(2), unfolded this(3)]
  show ?thesis
    by (rule override_reachable_start [OF decimalEnv_lawful(1), of 0 "JSON_pretty dec_str ?v"]) (simp add: openEditor_def parsed exampleEditor_def)
qed

text \<open>A rule that deletes a field, and one that prunes objects by a condition.\<close>

definition deleteRule :: "string \<Rightarrow> json" where
  "deleteRule field = JObj [(js ''mode'', jtext ''delete''), (js ''path'', jtext field)]"

definition deleteOperation :: "nat \<Rightarrow> string \<Rightarrow> ParamOverrideOperation" where
  "deleteOperation k field = (createDefaultOperation decimalEnv k)\<lparr>oo_mode := js ''delete'', oo_path := js field\<rparr>"

lemma known_delete: "js ''delete'' \<in> set OPERATION_MODE_VALUES"
  by (simp add: OPERATION_MODE_VALUES_def OPERATION_MODE_OPTIONS_def)

lemma deleteRule_reads: "normalizeOperation decimalEnv k (deleteRule field) = Inr (deleteOperation k field, Suc k)"
  by (simp add: normalizeOperation_def deleteRule_def deleteOperation_def createDefaultOperation_def stringField_def knownMode_def
      known_delete toValueText_def js_inject ascii_upper_def) (simp add: js_def)

lemma deleteRule_ok: "json_ok (deleteRule field)"
  by (simp add: deleteRule_def ordered_keys_def key_before_def index_key_def is_digit_def js_def)

abbreviation deleteEditor :: "string list \<Rightarrow> OverrideEditor" where
  "deleteEditor names \<equiv> exampleEditor (map2 deleteOperation [0..<length names] names) (length names)
     (JSON_pretty dec_str (JObj [(js ''operations'', JArr (map deleteRule names))]))"

lemma deleteEditor_reachable: "override_reachable decimalEnv (deleteEditor [''user''])" "override_reachable decimalEnv (deleteEditor [''user'', ''seed''])"
  by (rule example_opens; simp add: deleteRule_ok normalizeOperations_def deleteRule_reads numeral_2_eq_2)+

lemma modeMeta_delete: "modeMeta (js ''delete'') = noMeta\<lparr>mm_path := True\<rparr>"
  by (simp add: modeTables modeMeta_def js_inject Let_def)

lemma delete_valid: "field \<noteq> [] \<Longrightarrow> trim (js field) = js field \<Longrightarrow> validateOperation decimalEnv (deleteOperation k field) = Inr None"
  by (simp add: validateOperation_def deleteOperation_def or_str_def modeMeta_delete noMeta_def FROM_REQUIRED_MODES_def TO_REQUIRED_MODES_def
      VALUE_REQUIRED_MODES_def js_inject)

lemma delete_nonblank: "\<not> isOperationBlank (deleteOperation k field)"
  by (simp add: isOperationBlank_def deleteOperation_def js_inject)

lemma trim_user: "trim (js ''user'') = js ''user''"
  by (rule trim_fixed) (simp_all add: js_def is_ws_def)

lemma deleteUser_built:
  "\<exists>t. buildOperationsJson decimalEnv [deleteOperation 0 ''user''] True = Inr t \<and> t \<noteq> []"
proof -
  have "trim (JSON_pretty (pe_num_str decimalEnv) (JObj [(js ''operations'', JArr [operationPayload (deleteOperation 0 ''user'')])])) \<noteq> []"
    by (rule JSON_pretty_object) simp
  then show ?thesis
    by (auto simp: buildOperationsJson_def delete_nonblank validateOperations_def delete_valid trim_user Let_def)
qed

lemma parse_123: "JSON_parse (js ''123'') \<noteq> None" "trim (js ''123'') = js ''123''"
proof -
  show "JSON_parse (js ''123'') \<noteq> None"
    by (simp add: JSON_parse_def p_value.simps p_num_def p_int_def p_frac_def p_exp_def skip_ws_def is_json_ws_def is_digit_def js_def)
  show "trim (js ''123'') = js ''123''" by (rule trim_fixed) (simp_all add: js_def is_ws_def)
qed

definition pruneValue :: json where
  "pruneValue = JObj [(js ''conditions'', JArr [JObj [(js ''path'', jtext ''type'')]])]"

definition pruneOperation :: ParamOverrideOperation where
  "pruneOperation = (createDefaultOperation decimalEnv 0)\<lparr>oo_mode := js ''prune_objects'', oo_value_text := JSON_stringify dec_str pruneValue\<rparr>"

definition pruneEditor :: OverrideEditor where
  "pruneEditor = exampleEditor [pruneOperation] 1
     (JSON_pretty dec_str (JObj [(js ''operations'', JArr [JObj [(js ''mode'', jtext ''prune_objects''), (js ''value'', pruneValue)]])]))"

lemma pruneValue_ok: "json_ok pruneValue"
  by (simp add: pruneValue_def ordered_keys_def)

lemma pruneEditor_reachable: "override_reachable decimalEnv pruneEditor"
  unfolding pruneEditor_def
proof (rule example_opens)
  have known: "js ''prune_objects'' \<in> set OPERATION_MODE_VALUES" by (simp add: OPERATION_MODE_VALUES_def OPERATION_MODE_OPTIONS_def)
  have num: "pe_num_str decimalEnv = dec_str" by (simp add: decimalEnv_def)
  have "toValueText decimalEnv (Some pruneValue) = JSON_stringify dec_str pruneValue" by (simp add: toValueText_def pruneValue_def num)
  then show "normalizeOperations decimalEnv 0 [JObj [(js ''mode'', jtext ''prune_objects''), (js ''value'', pruneValue)]] = Inr ([pruneOperation], 1)"
    by (simp add: normalizeOperations_def normalizeOperation_def pruneOperation_def createDefaultOperation_def stringField_def knownMode_def known
        js_inject ascii_upper_def) (simp add: js_def)
  show "list_all json_ok [JObj [(js ''mode'', jtext ''prune_objects''), (js ''value'', pruneValue)]]"
    using pruneValue_ok by (simp add: ordered_keys_def key_before_def index_key_def is_digit_def js_def)
qed

lemma pruneOperation_draft:
  "parsePruneObjectsDraft decimalEnv 1 (oo_value_text pruneOperation) =
    (pruneDefaults\<lparr>pr_simpleMode := False, pr_rules := [(createDefaultCondition decimalEnv 1)\<lparr>oc_path := js ''type''\<rparr>]\<rparr>, 2)"
proof -
  have num: "pe_num_str decimalEnv = dec_str" by (simp add: decimalEnv_def)
  have parsed: "JSON_parse (JSON_stringify dec_str pruneValue) = Some pruneValue"
    using JSON_parse_stringify(1) [OF dec_str_prints pruneValue_ok] .
  have "parsePruneObject decimalEnv 1 pruneValue =
      Inr (pruneDefaults\<lparr>pr_simpleMode := False, pr_rules := [(createDefaultCondition decimalEnv 1)\<lparr>oc_path := js ''type''\<rparr>]\<rparr>, 2)"
    by (simp add: parsePruneObject_def pruneValue_def pruneRuleSources_def normalizePruneRule_def normalizeOverrideCondition_def stringField_def
        knownMode_def toValueText_def createDefaultCondition_def pruneDefaults_def js_inject) (simp add: ascii_upper_def js_def)
  then show ?thesis
    using JSON_parse_nonblank [OF parsed] parsed
    by (simp add: parsePruneObjectsDraft_def pruneOperation_def trim_printed(1) [OF dec_str_prints pruneValue_ok] Let_def)
      (simp add: pruneValue_def)
qed

section \<open>Properties\<close>

text \<open>
  C11. In every state the dialog can reach, the list of rules is not empty, no two rules and no two conditions
  of a rule share an id, the selected rule is one of the list, the modes are ones the selects offer, and what
  was saved, at most once, is empty or a JSON text.
\<close>

theorem override_editor_invariant:
  "override_reachable env s \<Longrightarrow> es_operations s \<noteq> [] \<and> distinct (operationIds s) \<and> ov_selectedOperationId s \<in> set (operationIds s)
    \<and> list_all (\<lambda>o1. oo_mode o1 \<in> set OPERATION_MODE_VALUES \<and> distinct (map oc_id (oo_conditions o1))) (es_operations s)
    \<and> length (ov_saved s) \<le> 1 \<and> list_all (\<lambda>t. t = [] \<or> JSON_parse t \<noteq> None) (ov_saved s)"
  using override_reachable_inv [of env s]
  by (auto simp: override_inv_def goodRules_def goodOperation_def goodConditions_def operationIds_def savedText_def list_all_iff)

theorem override_editor_invariant_witness:
  "override_reachable decimalEnv (deleteEditor [''user'', ''seed'']) \<and> distinct (operationIds (deleteEditor [''user'', ''seed'']))"
  using override_editor_invariant [OF deleteEditor_reachable(2)] deleteEditor_reachable(2) by blast

text \<open>
  C10. The visual editor saves exactly complete rules. In the operations mode the rules that are not blank are saved if
  and only if each is filled in: the path, source and target its mode needs, a value that is not blank where one is
  required, a header name in a rule that passes headers on, a message in an error object; the text then parses to
  the list of these rules, each with the fields the server needs. Otherwise nothing is saved and a message is
  shown. In the legacy mode exactly a JSON object is saved, unchanged. An empty editor saves the empty text.
\<close>

theorem override_saved_rules_complete:
  assumes "override_reachable env s" "es_editMode s = EditVisual"
  shows "case es_visualMode s of
      VisualOperations \<Rightarrow>
        (let rest = filter (\<lambda>o1. \<not> isOperationBlank o1) (es_operations s); s' = handleSave env s in
         if rest = [] then ov_saved s' = [] # ov_saved s
         else if list_all (completeEdit env) rest
         then list_all (completeRule env) (map operationPayload rest) \<and>
           (\<exists>t. ov_saved s' = t # ov_saved s \<and> JSON_parse t = Some (JObj [(js ''operations'', JArr (map operationPayload rest))]))
         else ov_saved s' = ov_saved s \<and> length (ov_toasts s') = Suc (length (ov_toasts s)))
    | VisualLegacy \<Rightarrow>
        (let s' = handleSave env s in
         if trim (es_legacyValue s) = [] then ov_saved s' = [] # ov_saved s
         else (case JSON_parse (trim (es_legacyValue s)) of
             Some (JObj ps) \<Rightarrow> \<exists>t. ov_saved s' = t # ov_saved s \<and> JSON_parse t = Some (JObj ps)
           | _ \<Rightarrow> ov_saved s' = ov_saved s \<and> length (ov_toasts s') = Suc (length (ov_toasts s))))"
proof -
  have lawful: "prints_decimals (pe_num_str env)" and modes: "\<forall>o1 \<in> set (es_operations s). oo_mode o1 \<in> set OPERATION_MODE_VALUES"
    using override_reachable_inv [OF assms(1)] by (auto simp: overrideLawful_def override_inv_def goodRules_def goodOperation_def)
  let ?rest = "filter (\<lambda>o1. \<not> isOperationBlank o1) (es_operations s)"
  have exact: "list_all (completeEdit env) ?rest \<longleftrightarrow> (\<forall>o1 \<in> set ?rest. validateOperation env o1 = Inr None)"
    using modes validate_exact by (auto simp: list_all_iff)
  have built: "buildOperationsJson env (es_operations s) True =
      (if ?rest = [] then Inr [] else case validateOperations env ?rest of
         Inl e \<Rightarrow> Inl (Thrown e) | Inr (Some (m, line)) \<Rightarrow> Inl (RuleError m line)
       | Inr None \<Rightarrow> Inr (JSON_pretty (pe_num_str env) (JObj [(js ''operations'', JArr (map operationPayload ?rest))])))"
    by (simp add: buildOperationsJson_def Let_def)
  have all: "validateOperations env ?rest = Inr None \<longleftrightarrow> list_all (completeEdit env) ?rest"
    unfolding exact by (simp add: validateOperations_def validateFrom_None)
  show ?thesis
  proof (cases "es_visualMode s")
    case VisualOperations
    have save: "handleSave env s = (case buildOperationsJson env (es_operations s) True of
        Inl e \<Rightarrow> s\<lparr>ov_toasts := e # ov_toasts s\<rparr> | Inr result \<Rightarrow> s\<lparr>ov_saved := result # ov_saved s, ov_open := False\<rparr>)"
      using VisualOperations assms(2) by (simp add: handleSave_def buildVisualJson_def)
    consider "?rest = []" | "?rest \<noteq> []" "list_all (completeEdit env) ?rest" | "?rest \<noteq> []" "\<not> list_all (completeEdit env) ?rest" by blast
    then show ?thesis
    proof cases
      case 1
      then show ?thesis using VisualOperations by (simp only: save built Let_def) simp
    next
      case 2
      then have "list_all (completeRule env) (map operationPayload ?rest)"
        using exact modes validated_complete by (auto simp: list_all_iff)
      with 2 all VisualOperations show ?thesis
        using JSON_parse_stringify(2) [OF lawful payloads_ok] by (simp add: save built Let_def)
    next
      case 3
      then have "\<exists>e. buildOperationsJson env (es_operations s) True = Inl e"
        using all unfolding built by (simp split: sum.splits option.splits prod.splits)
      with 3 VisualOperations show ?thesis by (auto simp: save Let_def)
    qed
  next
    case VisualLegacy
    have "Some v = JSON_parse (trim (es_legacyValue s)) \<Longrightarrow> JSON_parse (JSON_pretty (pe_num_str env) v) = Some v" for v
      using JSON_parse_stringify(2) [OF lawful] JSON_parse_ok by metis
    with VisualLegacy assms(2) show ?thesis
      by (auto simp: handleSave_def buildVisualJson_def Let_def split: option.splits json.splits)
  qed
qed

theorem override_saved_rules_complete_witness:
  "\<exists>t. override_reachable decimalEnv (deleteEditor [''user'']) \<and> ov_saved (handleSave decimalEnv (deleteEditor [''user''])) = [t] \<and>
     JSON_parse t = Some (JObj [(js ''operations'', JArr [operationPayload (deleteOperation 0 ''user'')])])"
proof -
  obtain t where t: "buildOperationsJson decimalEnv [deleteOperation 0 ''user''] True = Inr t" "t \<noteq> []" using deleteUser_built by blast
  then have rest: "filter (\<lambda>o1. \<not> isOperationBlank o1) [deleteOperation 0 ''user''] = [deleteOperation 0 ''user'']"
    by (auto simp: buildOperationsJson_def split: if_splits)
  have saved: "ov_saved (handleSave decimalEnv (deleteEditor [''user''])) = [t]"
    using t(1) by (simp add: handleSave_def buildVisualJson_def exampleEditor_def)
  show ?thesis
    using override_saved_rules_complete [OF deleteEditor_reachable(1)] deleteEditor_reachable(1) saved rest t(2)
    by (auto simp: exampleEditor_def Let_def split: if_splits)
qed

text \<open>
  C12. Reopening a saved configuration shows the same rules: a text built from rules with stable values opens
  in the visual editor, and building it again gives the same text.
\<close>

theorem override_reopen_same:
  assumes "overrideLawful env" "list_all stableRule ops" "buildOperationsJson env ops True = Inr t" "t \<noteq> []"
  shows "\<exists>st seed'. parseInitialState env seed t = Inr (st, seed') \<and> es_editMode st = EditVisual \<and> es_visualMode st = VisualOperations
    \<and> buildOperationsJson env (es_operations st) False = Inr t"
proof -
  have lawful: "prints_decimals (pe_num_str env)" using assms(1) by (simp add: overrideLawful_def)
  obtain rest where rest: "rest = filter (\<lambda>o1. \<not> isOperationBlank o1) ops" "rest \<noteq> []"
      "\<forall>o1 \<in> set rest. validateOperation env o1 = Inr None"
      "t = JSON_pretty (pe_num_str env) (JObj [(js ''operations'', JArr (map operationPayload rest))])"
    by (rule built_operations [OF assms(3,4)]) (rule that)
  obtain ops' seed' where ops': "normalizeOperations env seed (map operationPayload rest) = Inr (ops', seed')"
      "map operationPayload ops' = map operationPayload rest" "list_all (\<lambda>o2. \<not> isOperationBlank o2) ops'"
    using rules_read [OF lawful rest(2), of seed] rest(1,3) assms(2) by (auto simp: list_all_iff)
  have same: "filter (\<lambda>o1. \<not> isOperationBlank o1) ops' = ops'" "ops' \<noteq> []"
    using ops'(2,3) rest(2) by (auto simp: filter_id_conv list_all_iff)
  have "operationsOf (JObj [(js ''operations'', JArr (map operationPayload rest))]) = Some (map operationPayload rest)"
    by (simp add: operationsOf_def)
  from parseInitialState_printed [OF lawful payloads_ok this ops'(1)] show ?thesis
    using same ops'(2) by (simp add: rest(4) buildOperationsJson_def Let_def)
qed

theorem override_reopen_same_witness:
  "\<exists>t st n. buildOperationsJson decimalEnv [deleteOperation 0 ''user''] True = Inr t \<and> parseInitialState decimalEnv 7 t = Inr (st, n)
    \<and> buildOperationsJson decimalEnv (es_operations st) False = Inr t"
proof -
  obtain t where t: "buildOperationsJson decimalEnv [deleteOperation 0 ''user''] True = Inr t" "t \<noteq> []" using deleteUser_built by blast
  have "list_all stableRule [deleteOperation 0 ''user'']"
    by (simp add: stableRule_def deleteOperation_def createDefaultOperation_def known_delete parseLooseValue_def stableValue_def plainString_def)
  from override_reopen_same [OF decimalEnv_lawful(1) this t, of 7] t(1) show ?thesis by blast
qed

text \<open>
  C33. A value that the editor shows in a text field is read back unchanged exactly if it is not a string, or a
  string without surrounding white space that is not itself a JSON text: the string \<open>"123"\<close> comes back as a
  number.
\<close>

theorem loose_value_exact:
  "prints_decimals (pe_num_str env) \<Longrightarrow> json_ok v \<Longrightarrow> parseLooseValue (toValueText env (Some v)) = v \<longleftrightarrow> stableValue v"
  by (rule loose_stable)

theorem loose_value_exact_witness:
  "parseLooseValue (toValueText decimalEnv (Some (JStr (js ''123'')))) \<noteq> JStr (js ''123'')"
  using loose_value_exact [OF decimalEnv_lawful(2), of "JStr (js ''123'')"] parse_123 by (simp add: stableValue_def plainString_def)

text \<open>
  C32. Edits of the conditions of a \<open>prune_objects\<close> rule are lost: an edit or removal of a condition that is
  shown only rewrites the draft as it is, and adding one only leaves the simple mode.
\<close>

theorem prune_rule_edits_ignored:
  assumes "override_reachable env s" "r \<in> set (shownRules s)"
  shows "updatePruneRule env i (oc_id r) p s = updatePruneObjectsDraft env i (\<lambda>seed d. (d, seed)) s
    \<and> removePruneRule env i (oc_id r) s = updatePruneObjectsDraft env i (\<lambda>seed d. (d, seed)) s
    \<and> es_operations (addPruneRule env i s) = es_operations (updatePruneObjectsDraft env i (\<lambda>seed d. (d\<lparr>pr_simpleMode := False\<rparr>, seed)) s)"
proof (intro conjI)
  have inv: "drawn env 0 (ov_seed s) (oc_id r)" "distinct (map oo_id (es_operations s))"
    using override_reachable_inv [OF assms(1)] assms(2) by (auto simp: override_inv_def goodRules_def)
  have unknown: "drawn env 0 k (oc_id r)" if "ov_seed s \<le> k" for k
    using drawn_mono [OF inv(1) _ that] by simp
  show "updatePruneRule env i (oc_id r) p s = updatePruneObjectsDraft env i (\<lambda>seed d. (d, seed)) s"
    unfolding updatePruneRule_def
    by (rule prune_update_cong) (simp_all add: shown_rule_unknown(1) [OF _ unknown])
  show "removePruneRule env i (oc_id r) s = updatePruneObjectsDraft env i (\<lambda>seed d. (d, seed)) s"
    unfolding removePruneRule_def
    by (rule prune_update_cong) (simp_all add: shown_rule_unknown(2) [OF _ unknown])
  show "es_operations (addPruneRule env i s) = es_operations (updatePruneObjectsDraft env i (\<lambda>seed d. (d\<lparr>pr_simpleMode := False\<rparr>, seed)) s)"
    unfolding addPruneRule_def updatePruneObjectsDraft_def Let_def case_prod_unfold
    by (simp, rule prune_updates_agree [OF inv(2), of i]) (auto simp: added_rule_dropped)
qed

theorem prune_rule_edits_ignored_witness:
  "\<exists>s r. override_reachable decimalEnv s \<and> r \<in> set (shownRules s) \<and> oc_path r = js ''type''
    \<and> removePruneRule decimalEnv (oo_id pruneOperation) (oc_id r) s = updatePruneObjectsDraft decimalEnv (oo_id pruneOperation) (\<lambda>seed d. (d, seed)) s"
proof -
  let ?s = "settleSelection (pruneObjectsDraft decimalEnv pruneEditor)"
  let ?r = "(createDefaultCondition decimalEnv 1)\<lparr>oc_path := js ''type''\<rparr>"
  have "override_handler decimalEnv pruneEditor RenderDraft (pruneObjectsDraft decimalEnv pruneEditor)"
    by (rule h_render) (simp add: pruneEditor_def exampleEditor_def)
  then have "override_step decimalEnv pruneEditor RenderDraft ?s"
    by (auto simp: override_step_def)
  then have reach: "override_reachable decimalEnv ?s"
    by (rule override_reachable_step [OF pruneEditor_reachable])
  have mode: "oo_mode pruneOperation = js ''prune_objects''" by (simp add: pruneOperation_def)
  have "?r \<in> set (shownRules ?s)"
    using pruneOperation_draft
    by (simp add: shownRules_def settleSelection_def pruneObjectsDraft_def selectedOperation_def pruneEditor_def exampleEditor_def mode operationIds_def)
  with prune_rule_edits_ignored [OF reach this, of "oo_id pruneOperation"] reach show ?thesis by fastforce
qed

text \<open>
  C34. The detailed form of a custom error is kept by its text: the fields come back trimmed, with a status
  code outside 100 to 599 replaced by 400.
\<close>

theorem return_error_roundtrip:
  assumes "prints_decimals (pe_num_str env)" "\<not> re_simpleMode d"
  shows "parseReturnErrorDraft env (buildReturnErrorValueText env d) = shownDraft d
    \<and> (shownDraft d = d \<longleftrightarrow> trim (re_message d) = re_message d \<and> trim (re_code d) = re_code d \<and> trim (re_type d) = re_type d
      \<and> integer_between 100 599 (re_statusCode d))"
proof
  show "parseReturnErrorDraft env (buildReturnErrorValueText env d) = shownDraft d" by (rule return_error_reads [OF assms])
  have "Some (validStatus n) = n \<longleftrightarrow> integer_between 100 599 n" for n
    using validStatus_range [of n] by (cases n) (auto simp: validStatus_def integer_between_def split: if_splits)
  then show "shownDraft d = d \<longleftrightarrow> trim (re_message d) = re_message d \<and> trim (re_code d) = re_code d \<and> trim (re_type d) = re_type d
      \<and> integer_between 100 599 (re_statusCode d)"
    using assms(2) by (cases d) (auto simp: shownDraft_def)
qed

theorem return_error_roundtrip_witness:
  "parseReturnErrorDraft decimalEnv (buildReturnErrorValueText decimalEnv (returnErrorDefaults\<lparr>re_message := js ''user'', re_simpleMode := False\<rparr>))
    = returnErrorDefaults\<lparr>re_message := js ''user'', re_simpleMode := False\<rparr>"
  using return_error_roundtrip [OF decimalEnv_lawful(2), of "returnErrorDefaults\<lparr>re_message := js ''user'', re_simpleMode := False\<rparr>"]
  by (simp add: returnErrorDefaults_def integer_between_def trim_user)

text \<open>
  Dropping a dragged rule on another moves it directly before or after that rule, as the pointer showed;
  the other rules keep their order, no rule is lost, and the moved rule is selected.
\<close>

theorem drop_moves_rule:
  assumes "override_reachable env s" "ov_draggedOperationId s \<in> set (operationIds s)" "i \<in> set (operationIds s)" "ov_draggedOperationId s \<noteq> i"
  shows "\<exists>xs ys o1 o2. oo_id o1 = ov_draggedOperationId s \<and> oo_id o2 = i
    \<and> filter (\<lambda>o1. oo_id o1 \<noteq> ov_draggedOperationId s) (es_operations s) = xs @ o2 # ys
    \<and> es_operations (handleDrop transferred i s) = xs @ (if ov_dragOverOperationId s = i \<and> ov_dragAfter s then [o2, o1] else [o1, o2]) @ ys
    \<and> mset (es_operations (handleDrop transferred i s)) = mset (es_operations s)
    \<and> ov_selectedOperationId (handleDrop transferred i s) = ov_draggedOperationId s"
proof -
  have ids: "distinct (map oo_id (es_operations s))" "\<And>o1. o1 \<in> set (es_operations s) \<Longrightarrow> oo_id o1 \<noteq> []"
    using override_reachable_inv [OF assms(1)] drawn_nonempty by (auto simp: override_inv_def goodRules_def goodOperation_def)
  have mem: "ov_draggedOperationId s \<in> oo_id ` set (es_operations s)" "i \<in> oo_id ` set (es_operations s)"
    using assms(2,3) by (auto simp: operationIds_def)
  then have nonempty: "ov_draggedOperationId s \<noteq> []" "i \<noteq> []" using ids(2) by force+
  have drop: "es_operations (handleDrop transferred i s) =
      reorderOperations (es_operations s) (ov_draggedOperationId s) i (ov_dragOverOperationId s = i \<and> ov_dragAfter s)"
      "ov_selectedOperationId (handleDrop transferred i s) = ov_draggedOperationId s"
    using nonempty assms(4) by (simp_all add: handleDrop_def Let_def or_str_def resetDragState_def)
  obtain xs ys o1 o2 where r: "filter (\<lambda>o1. oo_id o1 \<noteq> ov_draggedOperationId s) (es_operations s) = xs @ o2 # ys"
      "oo_id o1 = ov_draggedOperationId s" "oo_id o2 = i" "o1 \<in> set (es_operations s)"
      "reorderOperations (es_operations s) (ov_draggedOperationId s) i (ov_dragOverOperationId s = i \<and> ov_dragAfter s)
        = xs @ (if ov_dragOverOperationId s = i \<and> ov_dragAfter s then [o2, o1] else [o1, o2]) @ ys"
    by (rule reorderOperations_spec [OF ids(1) mem assms(4) nonempty]) (rule that)
  have "mset (es_operations (handleDrop transferred i s)) = mset (es_operations s)"
    by (simp add: drop(1) reorderOperations_mset [OF ids(1)])
  moreover have "es_operations (handleDrop transferred i s)
      = xs @ (if ov_dragOverOperationId s = i \<and> ov_dragAfter s then [o2, o1] else [o1, o2]) @ ys"
    using drop(1) r(5) by simp
  ultimately show ?thesis using r(1-3) drop(2) by blast
qed

theorem drop_moves_rule_witness:
  "\<exists>s. override_reachable decimalEnv s \<and> ov_draggedOperationId s = nextLocalId decimalEnv 1
    \<and> mset (es_operations (handleDrop [] (nextLocalId decimalEnv 0) s)) = mset (es_operations s)"
proof -
  let ?e = "deleteEditor [''user'', ''seed'']" and ?i = "nextLocalId decimalEnv 1"
  let ?s = "settleSelection (handleDragStart ?i ?e)"
  have ids: "operationIds ?e = [nextLocalId decimalEnv 0, ?i]"
    by (simp add: operationIds_def exampleEditor_def deleteOperation_def)
  have "override_handler decimalEnv ?e (DragStart ?i) (handleDragStart ?i ?e)"
    by (rule h_drag_start) (simp_all add: showsRules_def exampleEditor_def operationIds_def deleteOperation_def)
  then have "override_step decimalEnv ?e (DragStart ?i) ?s" by (auto simp: override_step_def)
  then have reach: "override_reachable decimalEnv ?s" by (rule override_reachable_step [OF deleteEditor_reachable(2)])
  have drag: "ov_draggedOperationId ?s = ?i" "operationIds ?s = operationIds ?e"
    by (simp_all add: settleSelection_def handleDragStart_def exampleEditor_def operationIds_def deleteOperation_def)
  have "ov_draggedOperationId ?s \<in> set (operationIds ?s)" "nextLocalId decimalEnv 0 \<in> set (operationIds ?s)"
      "ov_draggedOperationId ?s \<noteq> nextLocalId decimalEnv 0"
    unfolding drag ids by simp_all
  from drop_moves_rule [OF reach this, of "[]"] reach drag(1) show ?thesis by blast
qed

end
