(* ===== verification/Channel_Form.thy ===== *)
theory Channel_Form
  imports Channel_Submit Advanced_Custom
begin

text \<open>
  \<open>features/channels/lib/channel-form.ts\<close>, \<open>channel-form-errors.ts\<close> and \<open>hooks/use-channel-mutate-form.ts\<close>: the
  schema of the channel form, its values made from a stored channel, and the requests made from its values.
  Fields that are filled from parsed settings may hold any value and are \<open>json\<close>. The schema library is not
  modelled: a form is valid if the field checks and the refinement find no issue. An object that is sent is the
  list of its properties; console output is left out.
\<close>

section \<open>Data\<close>

datatype MultiKeyMode = SingleKey | BatchKeys | MultiToSingle

record ChannelForm = ChannelFormValues +
  fv_name :: jstring
  fv_type :: int
  fv_base_url :: "jstring option"
  fv_openai_organization :: "jstring option"
  fv_group :: "jstring list"
  fv_priority :: "jnum option"
  fv_weight :: "jnum option"
  fv_test_model :: "jstring option"
  fv_auto_ban :: "jnum option"
  fv_status :: jnum
  fv_tag :: "jstring option"
  fv_remark :: "jstring option"
  fv_setting :: "jstring option"
  fv_param_override :: "jstring option"
  fv_header_override :: "jstring option"
  fv_settings :: "jstring option"
  fv_advanced_custom :: "jstring option"
  fv_other :: "jstring option"
  fv_multi_key_mode :: "MultiKeyMode option"
  fv_multi_key_type :: "jstring option"
  fv_batch_add_set_key_prefix_2_name :: "bool option"
  fv_key_mode :: "jstring option"
  fv_force_format :: "json option"
  fv_thinking_to_content :: "json option"
  fv_proxy :: "json option"
  fv_pass_through_body_enabled :: "json option"
  fv_system_prompt :: "json option"
  fv_system_prompt_override :: "json option"
  fv_is_enterprise_account :: "bool option"
  fv_vertex_key_type :: "json option"
  fv_aws_key_type :: "json option"
  fv_azure_responses_version :: "json option"
  fv_allow_service_tier :: "bool option"
  fv_disable_store :: "bool option"
  fv_allow_safety_identifier :: "bool option"
  fv_allow_include_obfuscation :: "bool option"
  fv_allow_inference_geo :: "bool option"
  fv_allow_speed :: "bool option"
  fv_claude_beta_query :: "bool option"
  fv_disable_task_polling_sleep :: "bool option"
  fv_upstream_model_update_check_enabled :: "bool option"
  fv_upstream_model_update_auto_sync_enabled :: "bool option"
  fv_upstream_model_update_ignored_models :: "jstring option"

record Channel =
  ch_id :: jnum
  ch_type :: int
  ch_name :: jstring
  ch_base_url :: "jstring option"
  ch_openai_organization :: "jstring option"
  ch_models :: jstring
  ch_group :: jstring
  ch_model_mapping :: "jstring option"
  ch_priority :: "jnum option"
  ch_weight :: "jnum option"
  ch_test_model :: "jstring option"
  ch_auto_ban :: "jnum option"
  ch_status :: jnum
  ch_status_code_mapping :: "jstring option"
  ch_tag :: "jstring option"
  ch_remark :: jstring
  ch_setting :: "jstring option"
  ch_param_override :: "jstring option"
  ch_header_override :: "jstring option"
  ch_settings :: jstring
  ch_other :: jstring
  ch_multi_key_mode :: jstring

section \<open>Schema\<close>

text \<open>The outer \<open>None\<close> is a \<open>SyntaxError\<close>, the inner one \<open>undefined\<close>.\<close>

definition parseOptionalJson :: "jstring option \<Rightarrow> json option option" where
  "parseOptionalJson v = (if trim (nullish v []) = [] then Some None else map_option Some (JSON_parse (nullish v [])))"

definition isOptionalJsonObject :: "jstring option \<Rightarrow> bool" where
  "isOptionalJsonObject v = (case parseOptionalJson v of
     None \<Rightarrow> False | Some None \<Rightarrow> True | Some (Some parsed) \<Rightarrow> plain_object parsed \<noteq> None)"

definition isOptionalModelMapping :: "jstring option \<Rightarrow> bool" where
  "isOptionalModelMapping v = (case parseOptionalJson v of
     None \<Rightarrow> False
   | Some None \<Rightarrow> True
   | Some (Some parsed) \<Rightarrow> (case plain_object parsed of
       None \<Rightarrow> False | Some ps \<Rightarrow> list_all (\<lambda>(k, item). case item of JStr _ \<Rightarrow> True | _ \<Rightarrow> False) ps))"

text \<open>An exception in the conversion of a target to a number counts as failure.\<close>

definition validCodeEntry :: "(jnum \<Rightarrow> jstring) \<Rightarrow> jstring \<times> json \<Rightarrow> bool" where
  "validCodeEntry num_str e = (case to_number num_str (snd e) of
     Inl _ \<Rightarrow> False
   | Inr toCode \<Rightarrow> integer_between 100 599 (string_number (fst e)) \<and> integer_between 100 599 toCode)"

definition isOptionalStatusCodeMapping :: "(jnum \<Rightarrow> jstring) \<Rightarrow> jstring option \<Rightarrow> bool" where
  "isOptionalStatusCodeMapping num_str v = (case parseOptionalJson v of
     None \<Rightarrow> False
   | Some None \<Rightarrow> True
   | Some (Some parsed) \<Rightarrow> (case plain_object parsed of None \<Rightarrow> False | Some ps \<Rightarrow> list_all (validCodeEntry num_str) ps))"

definition nonblankText :: "json option \<Rightarrow> bool" where
  "nonblankText v = (case v of Some (JStr s) \<Rightarrow> trim s \<noteq> [] | _ \<Rightarrow> False)"

definition isCodexCredential :: "jstring option \<Rightarrow> bool" where
  "isCodexCredential v = (case parseOptionalJson v of
     None \<Rightarrow> False
   | Some None \<Rightarrow> True
   | Some (Some parsed) \<Rightarrow> plain_object parsed \<noteq> None \<and> nonblankText (js_prop parsed (js ''access_token''))
       \<and> nonblankText (js_prop parsed (js ''account_id'')))"

definition isVertexJsonKey :: "jstring option \<Rightarrow> bool" where
  "isVertexJsonKey v = (case parseOptionalJson v of
     None \<Rightarrow> False
   | Some None \<Rightarrow> True
   | Some (Some (JArr items)) \<Rightarrow> list_all (\<lambda>item. plain_object item \<noteq> None) items
   | Some (Some parsed) \<Rightarrow> plain_object parsed \<noteq> None)"

type_synonym Issue = "string \<times> jstring"

definition issue_unless :: "bool \<Rightarrow> string \<Rightarrow> jstring \<Rightarrow> Issue list" where
  "issue_unless ok path message = (if ok then [] else [(path, message)])"

definition optionalBool :: "json option \<Rightarrow> bool" where
  "optionalBool v = (case v of None \<Rightarrow> True | Some (JBool _) \<Rightarrow> True | _ \<Rightarrow> False)"

definition optionalString :: "json option \<Rightarrow> bool" where
  "optionalString v = (case v of None \<Rightarrow> True | Some (JStr _) \<Rightarrow> True | _ \<Rightarrow> False)"

definition optionalEnum :: "string list \<Rightarrow> json option \<Rightarrow> bool" where
  "optionalEnum options v = (case v of None \<Rightarrow> True | Some (JStr s) \<Rightarrow> s \<in> set (map js options) | _ \<Rightarrow> False)"

text \<open>The checks of the single fields that the types of the record do not already make.\<close>

definition fieldIssues :: "(jnum \<Rightarrow> jstring) \<Rightarrow> ChannelForm \<Rightarrow> Issue list" where
  "fieldIssues num_str f =
     issue_unless (fv_name f \<noteq> []) ''name'' (js ''Channel name is required'') @
     issue_unless (fv_type f \<ge> 0) ''type'' (js ''Channel type is required'') @
     issue_unless (cf_models f \<noteq> []) ''models'' (js ''Models are required'') @
     issue_unless (fv_group f \<noteq> []) ''group'' (js ''Group is required'') @
     issue_unless (isOptionalModelMapping (cf_model_mapping f)) ''model_mapping''
       (js ''Model mapping must be a JSON object with string values'') @
     issue_unless (isOptionalStatusCodeMapping num_str (cf_status_code_mapping f)) ''status_code_mapping''
       (js ''Status code mapping must use valid HTTP status codes'') @
     issue_unless (length (nullish (fv_remark f) []) \<le> 255) ''remark'' (js ''Remark must be less than 255 characters'') @
     issue_unless (isOptionalJsonObject (fv_setting f)) ''setting'' (js ''Invalid JSON format'') @
     issue_unless (isOptionalJsonObject (fv_param_override f)) ''param_override'' (js ''Invalid JSON format'') @
     issue_unless (isOptionalJsonObject (fv_header_override f)) ''header_override'' (js ''Invalid JSON format'') @
     issue_unless (isOptionalJsonObject (fv_settings f)) ''settings'' (js ''Invalid JSON format'') @
     concat (map (\<lambda>(path, ok). issue_unless ok path [])
       [(''multi_key_type'', optionalEnum [''random'', ''polling''] (map_option JStr (fv_multi_key_type f))),
        (''key_mode'', optionalEnum [''append'', ''replace''] (map_option JStr (fv_key_mode f))),
        (''force_format'', optionalBool (fv_force_format f)), (''thinking_to_content'', optionalBool (fv_thinking_to_content f)),
        (''proxy'', optionalString (fv_proxy f)), (''pass_through_body_enabled'', optionalBool (fv_pass_through_body_enabled f)),
        (''system_prompt'', optionalString (fv_system_prompt f)),
        (''system_prompt_override'', optionalBool (fv_system_prompt_override f)),
        (''vertex_key_type'', optionalEnum [''json'', ''api_key''] (fv_vertex_key_type f)),
        (''aws_key_type'', optionalEnum [''ak_sk'', ''api_key''] (fv_aws_key_type f)),
        (''azure_responses_version'', optionalString (fv_azure_responses_version f))])"

definition blankText :: "jstring option \<Rightarrow> bool" where
  "blankText v \<longleftrightarrow> trim (nullish v []) = []"

definition batchMode :: "ChannelForm \<Rightarrow> bool" where
  "batchMode f \<longleftrightarrow> (case fv_multi_key_mode f of None \<Rightarrow> False | Some m \<Rightarrow> m \<noteq> SingleKey)"

definition advancedIssues :: "(jstring \<Rightarrow> (jstring \<times> jstring) option) \<Rightarrow> ChannelForm \<Rightarrow> js_error + Issue list" where
  "advancedIssues URL f =
     (if fv_type f \<noteq> CHANNEL_TYPE_ADVANCED_CUSTOM then Inr []
      else (let config = parseAdvancedCustomConfig (fv_advanced_custom f) in
        bind_result (validateAdvancedCustomConfig URL config) (\<lambda>problem.
        map_sum id (\<lambda>relative.
            (case problem of Some p \<Rightarrow> [(''advanced_custom'', av_message p)] | None \<Rightarrow> []) @
            issue_unless (\<not> (relative \<and> blankText (fv_base_url f))) ''base_url''
              (js ''Base URL is required when an advanced route uses an upstream path''))
          (advancedCustomConfigUsesRelativeUpstreamPath config))))"

definition superRefine :: "(jstring \<Rightarrow> (jstring \<times> jstring) option) \<Rightarrow> ChannelForm \<Rightarrow> js_error + Issue list" where
  "superRefine URL f = map_sum id (\<lambda>advanced.
     issue_unless (\<not> (fv_type f \<in> {3, 8, 36, 45} \<and> blankText (fv_base_url f))) ''base_url''
       (js ''Base URL is required for this channel type'') @
     advanced @
     issue_unless (\<not> (fv_type f \<in> {3, 18, 21, 39, 41, 49} \<and> blankText (fv_other f))) ''other''
       (js ''This channel type requires additional configuration'') @
     issue_unless (\<not> (fv_type f = 57 \<and> batchMode f)) ''multi_key_mode'' (js ''Codex channels do not support batch creation'') @
     issue_unless (\<not> (fv_type f = 57 \<and> trim (cf_key f) \<noteq> [] \<and> \<not> isCodexCredential (Some (cf_key f)))) ''key''
       (js ''Codex credential must be a JSON object with access_token and account_id'') @
     issue_unless (\<not> (fv_type f = 41 \<and> fv_vertex_key_type f = Some (JStr (js ''json'')) \<and> trim (cf_key f) \<noteq> []
         \<and> \<not> isVertexJsonKey (Some (cf_key f)))) ''key'' (js ''Vertex AI service account key must be valid JSON'') @
     issue_unless (\<not> (fv_type f = 41 \<and> fv_vertex_key_type f = Some (JStr (js ''api_key'')) \<and> batchMode f)) ''multi_key_mode''
       (js ''Vertex AI API Key mode does not support batch creation''))
     (advancedIssues URL f)"

definition channelFormSchema :: "(jnum \<Rightarrow> jstring) \<Rightarrow> (jstring \<Rightarrow> (jstring \<times> jstring) option) \<Rightarrow> ChannelForm \<Rightarrow> bool" where
  "channelFormSchema num_str URL f \<longleftrightarrow> fieldIssues num_str f = [] \<and> superRefine URL f = Inr []"

definition ADVANCED_SETTINGS_FIELDS :: "string list" where
  "ADVANCED_SETTINGS_FIELDS =
     [''priority'', ''weight'', ''test_model'', ''auto_ban'', ''tag'', ''remark'', ''param_override'', ''header_override'',
      ''status_code_mapping'', ''advanced_custom'', ''force_format'', ''thinking_to_content'', ''pass_through_body_enabled'',
      ''proxy'', ''system_prompt'', ''system_prompt_override'', ''allow_service_tier'', ''disable_store'',
      ''allow_safety_identifier'', ''allow_include_obfuscation'', ''allow_inference_geo'', ''allow_speed'',
      ''claude_beta_query'', ''disable_task_polling_sleep'', ''upstream_model_update_check_enabled'',
      ''upstream_model_update_auto_sync_enabled'', ''upstream_model_update_ignored_models'']"

definition isAdvancedSettingsField :: "string \<Rightarrow> bool" where
  "isAdvancedSettingsField fieldName \<longleftrightarrow> fieldName \<in> set ADVANCED_SETTINGS_FIELDS"

definition hasAdvancedSettingsErrors :: "Issue list \<Rightarrow> bool" where
  "hasAdvancedSettingsErrors errors \<longleftrightarrow> list_ex (\<lambda>(path, message). isAdvancedSettingsField path) errors"

section \<open>Values from a stored channel\<close>

definition parseGroups :: "jstring \<Rightarrow> jstring list" where
  "parseGroups groups = (if groups = [] then [] else filter (\<lambda>g. length g > 0) (map trim (split_on 44 groups)))"

definition formatGroups :: "jstring list \<Rightarrow> jstring" where
  "formatGroups groups = join (js '','') groups"

definition parseModels :: "jstring \<Rightarrow> jstring list" where
  "parseModels models = (if models = [] then [] else filter (\<lambda>m. length m > 0) (map trim (split_on 44 models)))"

definition formatModels :: "jstring list \<Rightarrow> jstring" where
  "formatModels models = join (js '','') models"

definition validateJSON :: "jstring \<Rightarrow> bool" where
  "validateJSON v \<longleftrightarrow> trim v = [] \<or> JSON_parse v \<noteq> None"

definition validateModelMapping :: "jstring \<Rightarrow> bool" where
  "validateModelMapping v \<longleftrightarrow> trim v = [] \<or> validateJSON v"

definition CHANNEL_FORM_DEFAULT_VALUES :: ChannelForm where
  "CHANNEL_FORM_DEFAULT_VALUES =
     \<lparr>cf_key = [], cf_models = [], cf_model_mapping = Some [], cf_status_code_mapping = Some [],
      fv_name = [], fv_type = 1, fv_base_url = Some [], fv_openai_organization = Some [], fv_group = [js ''default''],
      fv_priority = Some 0, fv_weight = Some 0, fv_test_model = Some [], fv_auto_ban = Some 1, fv_status = 1, fv_tag = Some [],
      fv_remark = Some [], fv_setting = Some [], fv_param_override = Some [], fv_header_override = Some [],
      fv_settings = Some (js ''{}''), fv_advanced_custom = Some [], fv_other = Some [], fv_multi_key_mode = Some SingleKey,
      fv_multi_key_type = Some (js ''random''), fv_batch_add_set_key_prefix_2_name = Some False, fv_key_mode = Some (js ''append''),
      fv_force_format = Some (JBool False), fv_thinking_to_content = Some (JBool False), fv_proxy = Some (JStr []),
      fv_pass_through_body_enabled = Some (JBool False), fv_system_prompt = Some (JStr []),
      fv_system_prompt_override = Some (JBool False), fv_is_enterprise_account = Some False,
      fv_vertex_key_type = Some (JStr (js ''json'')), fv_aws_key_type = Some (JStr (js ''ak_sk'')),
      fv_azure_responses_version = Some (JStr []), fv_allow_service_tier = Some False, fv_disable_store = Some False,
      fv_allow_safety_identifier = Some False, fv_allow_include_obfuscation = Some False, fv_allow_inference_geo = Some False,
      fv_allow_speed = Some False, fv_claude_beta_query = Some False, fv_disable_task_polling_sleep = Some False,
      fv_upstream_model_update_check_enabled = Some False, fv_upstream_model_update_auto_sync_enabled = Some False,
      fv_upstream_model_update_ignored_models = Some []\<rparr>"

text \<open>The first \<open>try\<close> block: the settings that every channel has.\<close>

definition readSetting :: "jstring option \<Rightarrow> ChannelForm \<Rightarrow> ChannelForm" where
  "readSetting setting f = (case JSON_parse (or_str setting []) of
     None \<Rightarrow> f
   | Some JNull \<Rightarrow> f
   | Some parsed \<Rightarrow> (let flag = (\<lambda>k. Some (or_json (js_prop parsed (js k)) (JBool False)));
         txt = (\<lambda>k. Some (or_json (js_prop parsed (js k)) (JStr []))) in
       f\<lparr>fv_force_format := flag ''force_format'', fv_thinking_to_content := flag ''thinking_to_content'', fv_proxy := txt ''proxy'',
         fv_pass_through_body_enabled := flag ''pass_through_body_enabled'', fv_system_prompt := txt ''system_prompt'',
         fv_system_prompt_override := flag ''system_prompt_override''\<rparr>))"

text \<open>
  The second \<open>try\<close> block: an exception keeps what was assigned before it, which can be in the text of the
  ignored models or in the advanced routes.
\<close>

definition readSettingsFields :: "json \<Rightarrow> ChannelForm \<Rightarrow> ChannelForm" where
  "readSettingsFields parsed f = (let is_true = (\<lambda>k. Some (js_prop parsed (js k) = Some (JBool True))) in
     f\<lparr>fv_vertex_key_type := Some (or_json (js_prop parsed (js ''vertex_key_type'')) (JStr (js ''json''))),
       fv_azure_responses_version := Some (or_json (js_prop parsed (js ''azure_responses_version'')) (JStr [])),
       fv_is_enterprise_account := is_true ''openrouter_enterprise'',
       fv_aws_key_type := Some (or_json (js_prop parsed (js ''aws_key_type'')) (JStr (js ''ak_sk''))),
       fv_allow_service_tier := is_true ''allow_service_tier'', fv_disable_store := is_true ''disable_store'',
       fv_allow_safety_identifier := is_true ''allow_safety_identifier'',
       fv_allow_include_obfuscation := is_true ''allow_include_obfuscation'',
       fv_allow_inference_geo := is_true ''allow_inference_geo'', fv_allow_speed := is_true ''allow_speed'',
       fv_claude_beta_query := is_true ''claude_beta_query'', fv_disable_task_polling_sleep := is_true ''disable_task_polling_sleep'',
       fv_upstream_model_update_check_enabled := is_true ''upstream_model_update_check_enabled'',
       fv_upstream_model_update_auto_sync_enabled := is_true ''upstream_model_update_auto_sync_enabled''\<rparr>)"

definition readSettings :: "(jnum \<Rightarrow> jstring) \<Rightarrow> jstring \<Rightarrow> ChannelForm \<Rightarrow> ChannelForm" where
  "readSettings num_str settings f = (case JSON_parse settings of
     None \<Rightarrow> f
   | Some JNull \<Rightarrow> f
   | Some parsed \<Rightarrow> (let f1 = readSettingsFields parsed f;
         ignored = (case js_prop parsed (js ''upstream_model_update_ignored_models'') of
            Some (JArr vs) \<Rightarrow> to_string num_str (JArr vs) | _ \<Rightarrow> Inr []) in
       case ignored of
         Inl _ \<Rightarrow> f1
       | Inr t \<Rightarrow> (let f2 = f1\<lparr>fv_upstream_model_update_ignored_models := Some t\<rparr>;
             advanced = js_prop parsed (js ''advanced_custom'') in
           if \<not> truthy_opt advanced then f2
           else (case stringifyAdvancedCustomConfig num_str (the advanced) of
               Inl _ \<Rightarrow> f2 | Inr content \<Rightarrow> f2\<lparr>fv_advanced_custom := Some content\<rparr>))))"

text \<open>The fields that are columns of the channel.\<close>

definition channelColumns :: "Channel \<Rightarrow> ChannelForm" where
  "channelColumns c = CHANNEL_FORM_DEFAULT_VALUES
     \<lparr>cf_models := ch_models c, cf_model_mapping := Some (or_str (ch_model_mapping c) []),
      cf_status_code_mapping := Some (or_str (ch_status_code_mapping c) []),
      fv_name := ch_name c, fv_type := ch_type c, fv_base_url := Some (or_str (ch_base_url c) []),
      fv_openai_organization := Some (or_str (ch_openai_organization c) []),
      fv_group := parseGroups (or_str (Some (ch_group c)) (js ''default'')),
      fv_priority := Some (nullish (ch_priority c) 0), fv_weight := Some (nullish (ch_weight c) 0),
      fv_test_model := Some (or_str (ch_test_model c) []), fv_auto_ban := Some (nullish (ch_auto_ban c) 1),
      fv_status := ch_status c, fv_tag := Some (or_str (ch_tag c) []), fv_remark := Some (ch_remark c),
      fv_setting := Some (or_str (ch_setting c) []), fv_param_override := Some (or_str (ch_param_override c) []),
      fv_header_override := Some (or_str (ch_header_override c) []),
      fv_settings := Some (or_str (Some (ch_settings c)) (js ''{}'')), fv_other := Some (ch_other c),
      fv_multi_key_type := Some (or_str (Some (ch_multi_key_mode c)) (js ''random''))\<rparr>"

definition transformChannelToFormDefaults :: "(jnum \<Rightarrow> jstring) \<Rightarrow> Channel \<Rightarrow> ChannelForm" where
  "transformChannelToFormDefaults num_str c = readSettings num_str (ch_settings c) (readSetting (ch_setting c) (channelColumns c))"

section \<open>Settings that are sent\<close>

definition buildSettingJSON :: "(jnum \<Rightarrow> jstring) \<Rightarrow> ChannelForm \<Rightarrow> jstring" where
  "buildSettingJSON num_str f = (let flag = (\<lambda>v. or_json v (JBool False)); txt = (\<lambda>v. or_json v (JStr [])) in
     JSON_stringify num_str (JObj
       [(js ''force_format'', flag (fv_force_format f)), (js ''thinking_to_content'', flag (fv_thinking_to_content f)),
        (js ''proxy'', txt (fv_proxy f)), (js ''pass_through_body_enabled'', flag (fv_pass_through_body_enabled f)),
        (js ''system_prompt'', txt (fv_system_prompt f)), (js ''system_prompt_override'', flag (fv_system_prompt_override f))]))"

definition delete_key :: "jstring \<Rightarrow> (jstring \<times> json) list \<Rightarrow> (jstring \<times> json) list" where
  "delete_key k ps = filter (\<lambda>p. fst p \<noteq> k) ps"

text \<open>\<open>if (b) obj.k = v else if ('k' in obj) delete obj.k\<close>\<close>

definition set_or_delete :: "bool \<Rightarrow> string \<Rightarrow> json \<Rightarrow> (jstring \<times> json) list \<Rightarrow> (jstring \<times> json) list" where
  "set_or_delete b k v ps = (if b then obj_put (js k) v ps else delete_key (js k) ps)"

abbreviation put :: "string \<Rightarrow> json \<Rightarrow> (jstring \<times> json) list \<Rightarrow> (jstring \<times> json) list" where
  "put k v ps \<equiv> obj_put (js k) v ps"

definition bool_json :: "bool option \<Rightarrow> json" where
  "bool_json b = JBool (b = Some True)"

definition MODEL_FETCHABLE_TYPES :: "int list" where
  "MODEL_FETCHABLE_TYPES = [1, 4, 14, 17, 20, 23, 24, 25, 26, 27, 31, 34, 35, 40, 42, 43, 47, 48]"

definition ignoredModels :: "ChannelForm \<Rightarrow> jstring list" where
  "ignoredModels f = dedup (filter (\<lambda>m. m \<noteq> []) (map trim (split_on 44 (or_str (fv_upstream_model_update_ignored_models f) []))))"

text \<open>The blocks of the function in their order: keys of providers, field controls, the upstream check, advanced routes.\<close>

definition providerSettings :: "ChannelForm \<Rightarrow> (jstring \<times> json) list \<Rightarrow> (jstring \<times> json) list" where
  "providerSettings f ps =
     set_or_delete (fv_type f = 33) ''aws_key_type'' (or_json (fv_aws_key_type f) (JStr (js ''ak_sk'')))
     (set_or_delete (fv_type f = 20) ''openrouter_enterprise'' (bool_json (fv_is_enterprise_account f))
     (set_or_delete (fv_type f = 3 \<and> truthy_opt (fv_azure_responses_version f)) ''azure_responses_version''
       (nullish (fv_azure_responses_version f) JNull)
     (set_or_delete (fv_type f = 41) ''vertex_key_type'' (or_json (fv_vertex_key_type f) (JStr (js ''json''))) ps)))"

definition fieldControls :: "ChannelForm \<Rightarrow> (jstring \<times> json) list \<Rightarrow> (jstring \<times> json) list" where
  "fieldControls f ps =
     (let p1 = set_or_delete (fv_type f = 1 \<or> fv_type f = 14) ''allow_service_tier'' (bool_json (fv_allow_service_tier f)) ps;
          p2 = set_or_delete (fv_type f = 1) ''disable_store'' (bool_json (fv_disable_store f)) p1;
          p3 = set_or_delete (fv_type f = 1) ''allow_safety_identifier'' (bool_json (fv_allow_safety_identifier f)) p2;
          p4 = set_or_delete (fv_type f = 1) ''allow_include_obfuscation'' (bool_json (fv_allow_include_obfuscation f)) p3;
          p5 = (if fv_type f = 1 then put ''allow_inference_geo'' (bool_json (fv_allow_inference_geo f)) p4
                else if fv_type f \<noteq> 14 then delete_key (js ''allow_inference_geo'') p4 else p4);
          p6 = (if fv_type f = 14 then put ''allow_inference_geo'' (bool_json (fv_allow_inference_geo f)) p5 else p5);
          p7 = set_or_delete (fv_type f = 14) ''allow_speed'' (bool_json (fv_allow_speed f)) p6;
          p8 = set_or_delete (fv_type f = 14) ''claude_beta_query'' (bool_json (fv_claude_beta_query f)) p7 in
      put ''disable_task_polling_sleep'' (bool_json (fv_disable_task_polling_sleep f)) p8)"

definition upstreamSettings :: "ChannelForm \<Rightarrow> (jstring \<times> json) list \<Rightarrow> (jstring \<times> json) list" where
  "upstreamSettings f ps =
     (if fv_type f \<notin> set MODEL_FETCHABLE_TYPES then ps
      else (let check = (fv_upstream_model_update_check_enabled f = Some True);
          p1 = put ''upstream_model_update_check_enabled'' (JBool check) ps;
          p2 = put ''upstream_model_update_auto_sync_enabled''
            (JBool (check \<and> fv_upstream_model_update_auto_sync_enabled f = Some True)) p1;
          p3 = put ''upstream_model_update_ignored_models'' (JArr (map JStr (ignoredModels f))) p2;
          detected = map_of p3 (js ''upstream_model_update_last_detected_models'');
          p4 = (if (case detected of Some (JArr _) \<Rightarrow> False | _ \<Rightarrow> True) \<or> \<not> check
                then put ''upstream_model_update_last_detected_models'' (JArr []) p3 else p3) in
        case map_of p4 (js ''upstream_model_update_last_check_time'') of
          Some (JNum _) \<Rightarrow> p4 | _ \<Rightarrow> put ''upstream_model_update_last_check_time'' (JNum 0) p4))"

definition advancedSettings :: "ChannelForm \<Rightarrow> (jstring \<times> json) list \<Rightarrow> (jstring \<times> json) list" where
  "advancedSettings f ps =
     (if fv_type f = CHANNEL_TYPE_ADVANCED_CUSTOM
      then (case parseAdvancedCustomConfig (fv_advanced_custom f) of Some config \<Rightarrow> put ''advanced_custom'' config ps | None \<Rightarrow> ps)
      else delete_key (js ''advanced_custom'') ps)"

definition settingsObject :: "ChannelForm \<Rightarrow> (jstring \<times> json) list \<Rightarrow> (jstring \<times> json) list" where
  "settingsObject f ps = advancedSettings f (upstreamSettings f (fieldControls f (providerSettings f ps)))"

text \<open>
  On an array the assignments make properties that \<open>JSON.stringify\<close> does not write; on \<open>null\<close> and primitive
  values they throw.
\<close>

definition buildSettingsJSON :: "(jnum \<Rightarrow> jstring) \<Rightarrow> ChannelForm \<Rightarrow> js_error + jstring" where
  "buildSettingsJSON num_str f =
     (let settings = or_str (fv_settings f) [];
          parsed = (if settings \<noteq> [] \<and> settings \<noteq> js ''{}'' then JSON_parse settings else None) in
      case nullish parsed (JObj []) of
        JObj ps \<Rightarrow> Inr (JSON_stringify num_str (JObj (settingsObject f ps)))
      | JArr vs \<Rightarrow> Inr (JSON_stringify num_str (JArr vs))
      | _ \<Rightarrow> Inl TypeError)"

section \<open>Requests\<close>

text \<open>\<open>value.trim().replace(/\/+$/, '')\<close>\<close>

definition normalizeBaseUrl :: "jstring option \<Rightarrow> jstring" where
  "normalizeBaseUrl v = rev (dropWhile (\<lambda>c. c = 47) (rev (trim (or_str v []))))"

definition str_or_null :: "jstring \<Rightarrow> json" where
  "str_or_null s = (if s = [] then JNull else JStr s)"

definition num_or_null :: "jnum option \<Rightarrow> json" where
  "num_or_null n = (case n of Some q \<Rightarrow> if q = 0 then JNull else JNum q | None \<Rightarrow> JNull)"

abbreviation text_or_null :: "jstring option \<Rightarrow> json" where
  "text_or_null v \<equiv> str_or_null (or_str v [])"

abbreviation text_json :: "jstring option \<Rightarrow> json" where
  "text_json v \<equiv> JStr (or_str v [])"

text \<open>The loop that turns empty strings into \<open>null\<close>.\<close>

definition emptyToNull :: "(jstring \<times> json) list \<Rightarrow> (jstring \<times> json) list" where
  "emptyToNull ps = map (\<lambda>(k, v). (k, if v = JStr [] then JNull else v)) ps"

record CreatePayload =
  crp_mode :: MultiKeyMode
  crp_multi_key_mode :: "jstring option"
  crp_batch_add_set_key_prefix_2_name :: "bool option"
  crp_channel :: "(jstring \<times> json) list"

definition createFields :: "(jnum \<Rightarrow> jstring) \<Rightarrow> ChannelForm \<Rightarrow> jstring \<Rightarrow> (string \<times> json) list" where
  "createFields num_str f settings =
     [(''name'', JStr (fv_name f)), (''type'', JNum (of_int (fv_type f))), (''base_url'', str_or_null (normalizeBaseUrl (fv_base_url f))),
      (''key'', JStr (cf_key f)), (''openai_organization'', text_or_null (fv_openai_organization f)), (''models'', JStr (cf_models f)),
      (''group'', JStr (formatGroups (fv_group f))), (''model_mapping'', text_or_null (cf_model_mapping f)),
      (''priority'', num_or_null (fv_priority f)), (''weight'', num_or_null (fv_weight f)),
      (''test_model'', text_or_null (fv_test_model f)), (''auto_ban'', JNum (nullish (fv_auto_ban f) 1)),
      (''status'', JNum (fv_status f)), (''status_code_mapping'', text_or_null (cf_status_code_mapping f)),
      (''tag'', text_or_null (fv_tag f)), (''remark'', text_json (fv_remark f)), (''setting'', JStr (buildSettingJSON num_str f)),
      (''param_override'', text_or_null (fv_param_override f)), (''header_override'', text_or_null (fv_header_override f)),
      (''settings'', JStr settings), (''other'', text_json (fv_other f))]"

definition transformFormDataToCreatePayload :: "(jnum \<Rightarrow> jstring) \<Rightarrow> ChannelForm \<Rightarrow> js_error + CreatePayload" where
  "transformFormDataToCreatePayload num_str f =
     (let mode = nullish (fv_multi_key_mode f) SingleKey in
      map_sum id (\<lambda>settings.
        \<lparr>crp_mode = mode, crp_multi_key_mode = (if mode = MultiToSingle then fv_multi_key_type f else None),
         crp_batch_add_set_key_prefix_2_name = (if mode = BatchKeys then fv_batch_add_set_key_prefix_2_name f else None),
         crp_channel = emptyToNull (map (map_prod js id) (createFields num_str f settings))\<rparr>)
        (buildSettingsJSON num_str f))"

definition updateFields :: "(jnum \<Rightarrow> jstring) \<Rightarrow> ChannelForm \<Rightarrow> jnum \<Rightarrow> jstring \<Rightarrow> (string \<times> json) list" where
  "updateFields num_str f channelId settings =
     [(''id'', JNum channelId), (''name'', JStr (fv_name f)), (''type'', JNum (of_int (fv_type f))),
      (''base_url'', str_or_null (normalizeBaseUrl (fv_base_url f))),
      (''openai_organization'', text_or_null (fv_openai_organization f)), (''models'', JStr (cf_models f)),
      (''group'', JStr (formatGroups (fv_group f))), (''model_mapping'', text_or_null (cf_model_mapping f)),
      (''priority'', JNum (nullish (fv_priority f) 0)), (''weight'', JNum (nullish (fv_weight f) 0)),
      (''test_model'', text_or_null (fv_test_model f)), (''auto_ban'', JNum (nullish (fv_auto_ban f) 1)),
      (''status_code_mapping'', text_or_null (cf_status_code_mapping f)), (''tag'', text_or_null (fv_tag f)),
      (''remark'', text_json (fv_remark f)), (''setting'', JStr (buildSettingJSON num_str f)),
      (''param_override'', text_or_null (fv_param_override f)), (''header_override'', text_or_null (fv_header_override f)),
      (''settings'', JStr settings), (''other'', text_json (fv_other f))]"

text \<open>The assignments that send empty strings for nullable fields.\<close>

definition explicitFields :: "ChannelForm \<Rightarrow> (string \<times> json) list" where
  "explicitFields f =
     [(''base_url'', JStr (normalizeBaseUrl (fv_base_url f))), (''openai_organization'', text_json (fv_openai_organization f)),
      (''test_model'', text_json (fv_test_model f)), (''tag'', text_json (fv_tag f)), (''remark'', text_json (fv_remark f)),
      (''model_mapping'', text_json (cf_model_mapping f)), (''status_code_mapping'', text_json (cf_status_code_mapping f)),
      (''param_override'', text_json (fv_param_override f)), (''header_override'', text_json (fv_header_override f))]"

definition assign_all :: "(string \<times> json) list \<Rightarrow> (jstring \<times> json) list \<Rightarrow> (jstring \<times> json) list" where
  "assign_all assignments ps = foldl (\<lambda>ps (k, v). put k v ps) ps assignments"

definition transformFormDataToUpdatePayload :: "(jnum \<Rightarrow> jstring) \<Rightarrow> ChannelForm \<Rightarrow> jnum \<Rightarrow> js_error + (jstring \<times> json) list" where
  "transformFormDataToUpdatePayload num_str f channelId = map_sum id (\<lambda>settings.
     let payload = map (map_prod js id) (updateFields num_str f channelId settings);
         p1 = (if trim (cf_key f) \<noteq> [] then put ''key'' (JStr (cf_key f)) payload else payload) in
     assign_all (explicitFields f) (emptyToNull p1)) (buildSettingsJSON num_str f)"

section \<open>The mutation of the drawer\<close>

definition SENSITIVE_UPDATE_FIELDS :: "string list" where
  "SENSITIVE_UPDATE_FIELDS =
     [''type'', ''key'', ''base_url'', ''openai_organization'', ''param_override'', ''header_override'', ''setting'', ''settings'', ''other'']"

datatype ChannelRequest = UpdateChannel jnum "(jstring \<times> json) list" | CreateChannel CreatePayload

text \<open>\<open>currentRow\<close>: the id of the row that is edited, if any.\<close>

definition mutationFn :: "(jnum \<Rightarrow> jstring) \<Rightarrow> bool \<Rightarrow> bool \<Rightarrow> jnum option \<Rightarrow> bool \<Rightarrow> ChannelForm \<Rightarrow> js_error + ChannelRequest" where
  "mutationFn num_str canEdit isEditing currentRow isMultiKeyChannel f =
     (case currentRow of
        Some row \<Rightarrow>
          if isEditing then map_sum id (\<lambda>payload.
            let p1 = (if trim (cf_key f) = [] then delete_key (js ''key'') payload else payload);
                p2 = (if canEdit then p1 else foldl (\<lambda>p field. delete_key (js field) p) p1 SENSITIVE_UPDATE_FIELDS);
                p3 = (if canEdit \<and> isMultiKeyChannel \<and> trim (cf_key f) \<noteq> [] \<and> or_str (fv_key_mode f) [] \<noteq> []
                  then put ''key_mode'' (text_json (fv_key_mode f)) p2 else p2) in
            UpdateChannel row p3) (transformFormDataToUpdatePayload num_str f row)
          else map_sum id CreateChannel (transformFormDataToCreatePayload num_str f)
      | None \<Rightarrow> map_sum id CreateChannel (transformFormDataToCreatePayload num_str f))"

end
