(* ===== verification/Channel_Form_Properties.thy ===== *)
theory Channel_Form_Properties
  imports Channel_Form
begin

text \<open>
  What the channel form sends: the settings object, its reading back, the advanced routes in it, and the
  request of an editor without the permission for sensitive settings.
\<close>

section \<open>Objects\<close>

lemma map_of_delete_key [simp]: "map_of (delete_key k ps) = (map_of ps)(k := None)"
  by (induction ps) (auto simp: delete_key_def)

lemma map_of_set_or_delete [simp]: "map_of (set_or_delete b k v ps) = (map_of ps)(js k := if b then Some v else None)"
  by (auto simp: set_or_delete_def)

lemma replace_same: "map_of ps k = Some v \<Longrightarrow> replace_key k v ps = ps"
  by (induction ps) auto

lemma obj_put_same: "map_of ps k = Some v \<Longrightarrow> obj_put k v ps = ps"
  by (simp add: obj_put_def replace_same)

lemma delete_absent: "map_of ps k = None \<Longrightarrow> delete_key k ps = ps"
  by (induction ps) (auto simp: delete_key_def split: if_splits)

lemma set_or_delete_same: "map_of ps (js k) = (if b then Some v else None) \<Longrightarrow> set_or_delete b k v ps = ps"
  by (auto simp: set_or_delete_def obj_put_same delete_absent)

lemma json_ok_delete: "json_ok (JObj ps) \<Longrightarrow> json_ok (JObj (delete_key k ps))"
  unfolding delete_key_def by (rule json_ok_filter)

lemma json_ok_set_or_delete: "json_ok (JObj ps) \<Longrightarrow> (b \<Longrightarrow> json_ok v) \<Longrightarrow> json_ok (JObj (set_or_delete b k v ps))"
  unfolding set_or_delete_def by (simp add: json_ok_put json_ok_delete del: json_ok.simps(3))

section \<open>The settings object\<close>

text \<open>
  The keys the form manages, each with the value it gets, or \<open>None\<close> if the form removes it; \<open>ps\<close> are the
  settings the channel had.
\<close>

definition only :: "bool \<Rightarrow> json \<Rightarrow> json option" where
  "only b v = (if b then Some v else None)"

definition providerTable :: "ChannelForm \<Rightarrow> (string \<times> json option) list" where
  "providerTable f =
     [(''vertex_key_type'', only (fv_type f = 41) (or_json (fv_vertex_key_type f) (JStr (js ''json'')))),
      (''azure_responses_version'', only (fv_type f = 3 \<and> truthy_opt (fv_azure_responses_version f))
         (nullish (fv_azure_responses_version f) JNull)),
      (''openrouter_enterprise'', only (fv_type f = 20) (bool_json (fv_is_enterprise_account f))),
      (''aws_key_type'', only (fv_type f = 33) (or_json (fv_aws_key_type f) (JStr (js ''ak_sk''))))]"

definition controlTable :: "ChannelForm \<Rightarrow> (string \<times> json option) list" where
  "controlTable f =
     [(''allow_service_tier'', only (fv_type f \<in> {1, 14}) (bool_json (fv_allow_service_tier f))),
      (''disable_store'', only (fv_type f = 1) (bool_json (fv_disable_store f))),
      (''allow_safety_identifier'', only (fv_type f = 1) (bool_json (fv_allow_safety_identifier f))),
      (''allow_include_obfuscation'', only (fv_type f = 1) (bool_json (fv_allow_include_obfuscation f))),
      (''allow_inference_geo'', only (fv_type f \<in> {1, 14}) (bool_json (fv_allow_inference_geo f))),
      (''allow_speed'', only (fv_type f = 14) (bool_json (fv_allow_speed f))),
      (''claude_beta_query'', only (fv_type f = 14) (bool_json (fv_claude_beta_query f))),
      (''disable_task_polling_sleep'', Some (bool_json (fv_disable_task_polling_sleep f)))]"

definition detectedModels :: "bool \<Rightarrow> json option \<Rightarrow> json" where
  "detectedModels check v = (case v of Some (JArr vs) \<Rightarrow> if check then JArr vs else JArr [] | _ \<Rightarrow> JArr [])"

definition checkTime :: "json option \<Rightarrow> json" where
  "checkTime v = (case v of Some (JNum n) \<Rightarrow> JNum n | _ \<Rightarrow> JNum 0)"

definition upstreamTable :: "ChannelForm \<Rightarrow> (jstring \<Rightarrow> json option) \<Rightarrow> (string \<times> json option) list" where
  "upstreamTable f old =
     (let check = (fv_upstream_model_update_check_enabled f = Some True) in
      if fv_type f \<notin> set MODEL_FETCHABLE_TYPES then []
      else [(''upstream_model_update_check_enabled'', Some (JBool check)),
         (''upstream_model_update_auto_sync_enabled'',
            Some (JBool (check \<and> fv_upstream_model_update_auto_sync_enabled f = Some True))),
         (''upstream_model_update_ignored_models'', Some (JArr (map JStr (ignoredModels f)))),
         (''upstream_model_update_last_detected_models'',
            Some (detectedModels check (old (js ''upstream_model_update_last_detected_models'')))),
         (''upstream_model_update_last_check_time'',
            Some (checkTime (old (js ''upstream_model_update_last_check_time''))))])"

definition advancedTable :: "ChannelForm \<Rightarrow> (string \<times> json option) list" where
  "advancedTable f =
     (if fv_type f \<noteq> CHANNEL_TYPE_ADVANCED_CUSTOM then [(''advanced_custom'', None)]
      else (case parseAdvancedCustomConfig (fv_advanced_custom f) of
          Some config \<Rightarrow> [(''advanced_custom'', Some config)] | None \<Rightarrow> []))"

definition managedSettings :: "ChannelForm \<Rightarrow> (jstring \<Rightarrow> json option) \<Rightarrow> (string \<times> json option) list" where
  "managedSettings f old = providerTable f @ controlTable f @ upstreamTable f old @ advancedTable f"

text \<open>A table of new vals over an old object.\<close>

definition overlay :: "(string \<times> json option) list \<Rightarrow> (jstring \<Rightarrow> json option) \<Rightarrow> jstring \<Rightarrow> json option" where
  "overlay table m = foldl (\<lambda>m (k, v). m(js k := v)) m table"

lemma overlay_append: "overlay (s @ t) m = overlay t (overlay s m)"
  by (simp add: overlay_def)

lemma overlay_other: "k \<notin> js ` fst ` set table \<Longrightarrow> overlay table m k = m k"
  by (induction table arbitrary: m) (auto simp: overlay_def)

lemma overlay_member: "distinct (map fst table) \<Longrightarrow> (k, v) \<in> set table \<Longrightarrow> overlay table m (js k) = v"
proof (induction table arbitrary: m)
  case (Cons e table)
  then show ?case
    using overlay_other [of "js k" table "m(js k := v)"] by (cases "e = (k, v)") (auto simp: overlay_def js_inject image_iff)
qed simp

lemma map_of_providerSettings: "map_of (providerSettings f ps) = overlay (providerTable f) (map_of ps)"
  by (simp add: providerSettings_def providerTable_def overlay_def only_def)

lemma map_of_fieldControls: "map_of (fieldControls f ps) = overlay (controlTable f) (map_of ps)"
proof -
  consider "fv_type f = 1" | "fv_type f = 14" | "fv_type f \<noteq> 1" "fv_type f \<noteq> 14" by blast
  then show ?thesis
    by cases (simp_all add: fieldControls_def controlTable_def overlay_def only_def Let_def)
qed

lemma map_of_upstreamSettings: "map_of (upstreamSettings f ps) = overlay (upstreamTable f (map_of ps)) (map_of ps)"
proof (cases "fv_type f \<in> set MODEL_FETCHABLE_TYPES")
  case True
  define time where "time = map_of ps (js ''upstream_model_update_last_check_time'')"
  define detected where "detected = map_of ps (js ''upstream_model_update_last_detected_models'')"
  have keep: "m = m(k := Some v)" if "m k = Some v" for m :: "jstring \<Rightarrow> json option" and k v
    using that by auto
  define check where "check = (fv_upstream_model_update_check_enabled f = Some True)"
  define p3 where "p3 = put ''upstream_model_update_ignored_models'' (JArr (map JStr (ignoredModels f)))
      (put ''upstream_model_update_auto_sync_enabled'' (JBool (check \<and> fv_upstream_model_update_auto_sync_enabled f = Some True))
       (put ''upstream_model_update_check_enabled'' (JBool check) ps))"
  define p4 where "p4 = (if (case map_of p3 (js ''upstream_model_update_last_detected_models'') of Some (JArr _) \<Rightarrow> False | _ \<Rightarrow> True) \<or> \<not> check
                then put ''upstream_model_update_last_detected_models'' (JArr []) p3 else p3)"
  have p3: "map_of p3 (js ''upstream_model_update_last_detected_models'') = detected"
    "map_of p3 (js ''upstream_model_update_last_check_time'') = time"
    by (simp_all add: p3_def detected_def time_def js_inject)
  have p4: "map_of p4 = (map_of p3)(js ''upstream_model_update_last_detected_models'' \<mapsto> detectedModels check detected)"
    unfolding p4_def p3 by (auto simp: detectedModels_def p3 intro!: keep split: option.splits json.splits)
  have p4': "map_of p4 (js ''upstream_model_update_last_check_time'') = time"
    by (simp add: p4 p3 js_inject)
  have "upstreamSettings f ps = (case time of
          Some (JNum _) \<Rightarrow> p4 | _ \<Rightarrow> put ''upstream_model_update_last_check_time'' (JNum 0) p4)"
    using True by (simp only: upstreamSettings_def Let_def check_def [symmetric] p3_def [symmetric] p4_def [symmetric] p4') simp
  then have "map_of (upstreamSettings f ps) = (map_of p4)(js ''upstream_model_update_last_check_time'' \<mapsto> checkTime time)"
    using p4' by (auto simp: checkTime_def intro!: keep split: option.splits json.splits)
  then show ?thesis
    using True by (simp add: p4 upstreamTable_def overlay_def Let_def check_def time_def detected_def p3_def)
qed (simp add: upstreamSettings_def upstreamTable_def overlay_def)

lemma map_of_advancedSettings: "map_of (advancedSettings f ps) = overlay (advancedTable f) (map_of ps)"
  by (simp add: advancedSettings_def advancedTable_def overlay_def split: option.splits)

lemma map_of_settingsObject: "map_of (settingsObject f ps) = overlay (managedSettings f (map_of ps)) (map_of ps)"
proof -
  have "overlay (controlTable f) (overlay (providerTable f) m) (js k) = m (js k)"
    if "k \<in> {''upstream_model_update_last_detected_models'', ''upstream_model_update_last_check_time''}" for m k
    using that by (auto simp: overlay_other controlTable_def providerTable_def js_inject)
  then have "upstreamTable f (overlay (controlTable f) (overlay (providerTable f) m)) = upstreamTable f m" for m
    by (simp add: upstreamTable_def Let_def)
  then show ?thesis
    by (simp add: settingsObject_def map_of_advancedSettings map_of_upstreamSettings map_of_fieldControls map_of_providerSettings
        managedSettings_def overlay_append)
qed

lemma managed_keys_distinct: "distinct (map fst (managedSettings f old))"
  by (simp add: managedSettings_def providerTable_def controlTable_def upstreamTable_def advancedTable_def Let_def split: option.splits)


text \<open>The settings of the channel that is edited.\<close>

definition oldSettings :: "ChannelForm \<Rightarrow> (jstring \<times> json) list" where
  "oldSettings f = (case JSON_parse (or_str (fv_settings f) []) of Some (JObj ps) \<Rightarrow> ps | _ \<Rightarrow> [])"

lemma issue_unless_Nil [simp]: "issue_unless ok path message = [] \<longleftrightarrow> ok"
  by (simp add: issue_unless_def)

lemma empty_object: "JSON_parse (js ''{}'') = Some (JObj [])"
  by code_simp

lemma JSON_parse_Nil: "JSON_parse [] = None"
  by code_simp

lemma or_str_nullish: "or_str v [] = nullish v []"
  by (cases v) (auto simp: or_str_def)

lemma optional_object:
  assumes "isOptionalJsonObject v"
  shows "JSON_parse (nullish v []) = None \<or> (\<exists>ps. JSON_parse (nullish v []) = Some (JObj ps))"
proof -
  have "\<exists>ps. w = JObj ps" if "plain_object w \<noteq> None" for w
    using that by (cases w) auto
  with assms JSON_parse_nonblank show ?thesis
    by (auto simp: isOptionalJsonObject_def parseOptionalJson_def split: if_splits option.splits)
qed

lemma buildSettingsJSON_object:
  assumes "isOptionalJsonObject (fv_settings f)"
  shows "buildSettingsJSON num_str f = Inr (JSON_stringify num_str (JObj (settingsObject f (oldSettings f))))"
  using optional_object [OF assms] empty_object
  by (auto simp: buildSettingsJSON_def oldSettings_def or_str_nullish JSON_parse_Nil Let_def)

lemma oldSettings_ok: "json_ok (JObj (oldSettings f))"
  using JSON_parse_ok [of "or_str (fv_settings f) []"]
  by (auto simp: oldSettings_def ordered_keys_def simp del: json_ok.simps(3) split: option.splits json.splits)
     (auto simp: ordered_keys_def)

lemma valid_fields:
  assumes "channelFormSchema num_str URL f"
  shows "fv_name f \<noteq> []" "cf_models f \<noteq> []" "fv_group f \<noteq> []" "isOptionalJsonObject (fv_settings f)"
    "optionalBool (fv_force_format f)" "optionalBool (fv_thinking_to_content f)" "optionalString (fv_proxy f)"
    "optionalBool (fv_pass_through_body_enabled f)" "optionalString (fv_system_prompt f)"
    "optionalBool (fv_system_prompt_override f)" "optionalString (fv_azure_responses_version f)"
    "optionalEnum [''json'', ''api_key''] (fv_vertex_key_type f)" "optionalEnum [''ak_sk'', ''api_key''] (fv_aws_key_type f)"
  using assms by (simp_all add: channelFormSchema_def fieldIssues_def)

lemma optional_ok:
  "optionalBool v \<Longrightarrow> v = Some w \<Longrightarrow> json_ok w" "optionalString v \<Longrightarrow> v = Some w \<Longrightarrow> json_ok w"
  "optionalEnum options v \<Longrightarrow> v = Some w \<Longrightarrow> json_ok w"
  by (auto simp: optionalBool_def optionalString_def optionalEnum_def split: json.splits)

lemma bool_json_ok [simp]: "json_ok (bool_json b)"
  by (simp add: bool_json_def)

lemma or_text_ok: "(\<And>w. v = Some w \<Longrightarrow> json_ok w) \<Longrightarrow> json_ok (or_json v (JStr s))"
  by (rule json_ok_or) simp_all

lemma settingsObject_ok:
  assumes ok: "json_ok (JObj ps)" and valid: "channelFormSchema num_str URL f"
  shows "json_ok (JObj (settingsObject f ps))"
proof -
  note fields = optional_ok(2) [OF valid_fields(11) [OF valid]] optional_ok(3) [OF valid_fields(12) [OF valid]]
    optional_ok(3) [OF valid_fields(13) [OF valid]]
  have 1: "json_ok (JObj (providerSettings f ps))"
    unfolding providerSettings_def
    by (intro json_ok_set_or_delete ok) (auto intro!: or_text_ok intro: fields simp: truthy_opt_def split: option.splits)
  have either: "json_ok (JObj (if b then p else q))" if "json_ok (JObj p)" "json_ok (JObj q)" for b p q
    using that by simp
  have timed: "json_ok (JObj (case x of Some (JNum _) \<Rightarrow> p | _ \<Rightarrow> put k (JNum 0) p))" if "json_ok (JObj p)" for x k p
    using that json_ok_put [OF that, of "JNum 0"] by (simp del: json_ok.simps(3) add: json_ok.simps(1) split: option.split json.split)
  have 2: "json_ok (JObj (fieldControls f (providerSettings f ps)))"
    unfolding fieldControls_def Let_def by (intro either json_ok_set_or_delete json_ok_put json_ok_delete 1 bool_json_ok)
  have 3: "json_ok (JObj (upstreamSettings f qs))" if "json_ok (JObj qs)" for qs
    unfolding upstreamSettings_def Let_def
    by (intro either timed json_ok_put that) (simp_all add: list_all_iff)
  have "json_ok (JObj (advancedSettings f qs))" if "json_ok (JObj qs)" for qs
    using that parse_config(2) by (simp add: advancedSettings_def json_ok_put json_ok_delete del: json_ok.simps(3) split: option.splits)
  with 2 3 show ?thesis unfolding settingsObject_def by blast
qed

section \<open>Reading the settings back\<close>

lemma elem_strings_JStr: "elem_strings num_str (map JStr ms) = Inr ms"
  by (induction ms) auto

lemma readSettings_object:
  assumes "JSON_parse t = Some (JObj qs)"
  shows "\<exists>ig ac. readSettings num_str t f =
      (readSettingsFields (JObj qs) f)\<lparr>fv_upstream_model_update_ignored_models := ig, fv_advanced_custom := ac\<rparr> \<and>
    (\<forall>ms. map_of qs (js ''upstream_model_update_ignored_models'') = Some (JArr (map JStr ms)) \<longrightarrow> ig = Some (join (js '','') ms)) \<and>
    (\<forall>config. map_of qs (js ''advanced_custom'') = Some config \<longrightarrow> normalizeAdvancedCustomConfig config = Inr config \<longrightarrow>
       ac = fv_advanced_custom f \<or> ac = Some (JSON_pretty num_str config))"
proof -
  let ?f1 = "readSettingsFields (JObj qs) f"
  define ignored where "ignored = (case map_of qs (js ''upstream_model_update_ignored_models'') of
            Some (JArr vs) \<Rightarrow> to_string num_str (JArr vs) | _ \<Rightarrow> Inr [])"
  have ig: "ignored = Inr (join (js '','') ms)"
    if "map_of qs (js ''upstream_model_update_ignored_models'') = Some (JArr (map JStr ms))" for ms
    using that by (simp add: ignored_def elem_strings_JStr)
  have keep: "?f1 = ?f1\<lparr>fv_upstream_model_update_ignored_models := fv_upstream_model_update_ignored_models f,
      fv_advanced_custom := fv_advanced_custom f\<rparr>"
    "?f1\<lparr>fv_upstream_model_update_ignored_models := v\<rparr> = ?f1\<lparr>fv_upstream_model_update_ignored_models := v,
      fv_advanced_custom := fv_advanced_custom f\<rparr>" for v
    by (simp_all add: readSettingsFields_def)
  have read: "readSettings num_str t f = (case ignored of Inl _ \<Rightarrow> ?f1
     | Inr t \<Rightarrow> if \<not> truthy_opt (map_of qs (js ''advanced_custom'')) then ?f1\<lparr>fv_upstream_model_update_ignored_models := Some t\<rparr>
         else (case stringifyAdvancedCustomConfig num_str (the (map_of qs (js ''advanced_custom''))) of
             Inl _ \<Rightarrow> ?f1\<lparr>fv_upstream_model_update_ignored_models := Some t\<rparr>
           | Inr content \<Rightarrow> ?f1\<lparr>fv_upstream_model_update_ignored_models := Some t, fv_advanced_custom := Some content\<rparr>))"
    by (simp add: readSettings_def assms ignored_def Let_def)
  show ?thesis
  proof (cases ignored)
    case (Inl e)
    with ig show ?thesis
      by (intro exI [of _ "fv_upstream_model_update_ignored_models f"] exI [of _ "fv_advanced_custom f"]) (auto simp: read keep(1) [symmetric])
  next
    case (Inr v)
    show ?thesis
    proof (cases "truthy_opt (map_of qs (js ''advanced_custom''))")
      case True
      show ?thesis
      proof (cases "stringifyAdvancedCustomConfig num_str (the (map_of qs (js ''advanced_custom'')))")
        case (Inl e)
        with True \<open>ignored = Inr v\<close> ig show ?thesis
          by (intro exI [of _ "Some v"] exI [of _ "fv_advanced_custom f"]) (auto simp: read keep(2) [symmetric])
      next
        case (Inr content)
        with True \<open>ignored = Inr v\<close> ig show ?thesis
          by (intro exI [of _ "Some v"] exI [of _ "Some content"]) (auto simp: read stringifyAdvancedCustomConfig_def)
      qed
    next
      case False
      with Inr ig show ?thesis
        by (intro exI [of _ "Some v"] exI [of _ "fv_advanced_custom f"]) (auto simp: read keep(2) [symmetric])
    qed
  qed
qed

lemma checkTime_fixed: "v = Some (checkTime v) \<Longrightarrow> \<exists>n. v = Some (JNum n)"
  unfolding checkTime_def by (cases v; cases "the v") auto

lemma detectedModels_fixed:
  "v = Some (detectedModels check v) \<Longrightarrow> (case v of Some (JArr _) \<Rightarrow> False | _ \<Rightarrow> True) \<or> \<not> check \<Longrightarrow> v = Some (JArr [])"
  unfolding detectedModels_def by (cases v; cases "the v") auto

lemma upstreamSettings_fixed:
  assumes t: "\<And>k v. (k, v) \<in> set (upstreamTable f (map_of ps)) \<Longrightarrow> map_of ps (js k) = v"
  shows "upstreamSettings f ps = ps"
proof (cases "fv_type f \<in> set MODEL_FETCHABLE_TYPES")
  case True
  have d: "map_of ps (js ''upstream_model_update_last_detected_models'') = Some (detectedModels (fv_upstream_model_update_check_enabled f = Some True)
      (map_of ps (js ''upstream_model_update_last_detected_models'')))"
    and c: "map_of ps (js ''upstream_model_update_last_check_time'') = Some (checkTime (map_of ps (js ''upstream_model_update_last_check_time'')))"
    by (rule t, use True in \<open>simp add: upstreamTable_def Let_def\<close>)+
  have d': "(case map_of ps (js ''upstream_model_update_last_detected_models'') of Some (JArr _) \<Rightarrow> False | _ \<Rightarrow> True) \<or>
      fv_upstream_model_update_check_enabled f \<noteq> Some True \<Longrightarrow>
      map_of ps (js ''upstream_model_update_last_detected_models'') = Some (JArr [])"
    using detectedModels_fixed [OF d] by blast
  have c': "\<exists>n. map_of ps (js ''upstream_model_update_last_check_time'') = Some (JNum n)"
    by (rule checkTime_fixed [OF c])
  have p: "put ''upstream_model_update_check_enabled'' (JBool (fv_upstream_model_update_check_enabled f = Some True)) ps = ps"
    "put ''upstream_model_update_auto_sync_enabled'' (JBool (fv_upstream_model_update_check_enabled f = Some True \<and>
       fv_upstream_model_update_auto_sync_enabled f = Some True)) ps = ps"
    "put ''upstream_model_update_ignored_models'' (JArr (map JStr (ignoredModels f))) ps = ps"
    by (rule obj_put_same, rule t, use True in \<open>simp add: upstreamTable_def Let_def\<close>)+
  have "(if (case map_of ps (js ''upstream_model_update_last_detected_models'') of Some (JArr _) \<Rightarrow> False | _ \<Rightarrow> True) \<or>
      fv_upstream_model_update_check_enabled f \<noteq> Some True
    then put ''upstream_model_update_last_detected_models'' (JArr []) ps else ps) = ps"
    using d' by (auto intro!: obj_put_same)
  with True c' show ?thesis by (auto simp only: upstreamSettings_def Let_def p option.case json.case if_not_P not_not simp_thms)
qed (simp add: upstreamSettings_def)

lemma settingsObject_fixed:
  assumes "\<And>k v. (k, v) \<in> set (managedSettings f (map_of ps)) \<Longrightarrow> map_of ps (js k) = v"
  shows "settingsObject f ps = ps"
proof -
  have table: "(k, v) \<in> set (providerTable f) \<union> set (controlTable f) \<union> set (upstreamTable f (map_of ps)) \<union> set (advancedTable f)
      \<Longrightarrow> map_of ps (js k) = v" for k v
    using assms by (auto simp: managedSettings_def)
  have provider: "providerSettings f ps = ps"
    using table by (simp add: providerSettings_def providerTable_def only_def set_or_delete_same)
  have control: "fieldControls f ps = ps"
  proof -
    have "list_all (\<lambda>(k, v). map_of ps (js k) = v) (controlTable f)"
      using table by (auto simp: list_all_iff)
    then have c: "map_of ps (js ''allow_service_tier'') = (if fv_type f = 1 \<or> fv_type f = 14 then Some (bool_json (fv_allow_service_tier f)) else None)"
      "map_of ps (js ''disable_store'') = (if fv_type f = 1 then Some (bool_json (fv_disable_store f)) else None)"
      "map_of ps (js ''allow_safety_identifier'') = (if fv_type f = 1 then Some (bool_json (fv_allow_safety_identifier f)) else None)"
      "map_of ps (js ''allow_include_obfuscation'') = (if fv_type f = 1 then Some (bool_json (fv_allow_include_obfuscation f)) else None)"
      "map_of ps (js ''allow_inference_geo'') = (if fv_type f = 1 \<or> fv_type f = 14 then Some (bool_json (fv_allow_inference_geo f)) else None)"
      "map_of ps (js ''allow_speed'') = (if fv_type f = 14 then Some (bool_json (fv_allow_speed f)) else None)"
      "map_of ps (js ''claude_beta_query'') = (if fv_type f = 14 then Some (bool_json (fv_claude_beta_query f)) else None)"
      "map_of ps (js ''disable_task_polling_sleep'') = Some (bool_json (fv_disable_task_polling_sleep f))"
      unfolding controlTable_def only_def insert_iff empty_iff list.pred_inject prod.case simp_thms by (simp_all only: simp_thms)
    have geo: "fv_type f = 1 \<or> fv_type f = 14 \<Longrightarrow> put ''allow_inference_geo'' (bool_json (fv_allow_inference_geo f)) ps = ps"
      "fv_type f \<noteq> 1 \<Longrightarrow> fv_type f \<noteq> 14 \<Longrightarrow> delete_key (js ''allow_inference_geo'') ps = ps"
      using c(5) by (auto intro: obj_put_same delete_absent)
    note kept = set_or_delete_same [OF c(1)] set_or_delete_same [OF c(2)] set_or_delete_same [OF c(3)] set_or_delete_same [OF c(4)]
      set_or_delete_same [OF c(6)] set_or_delete_same [OF c(7)] obj_put_same [OF c(8)]
    have inference: "(if fv_type f = 1 then put ''allow_inference_geo'' (bool_json (fv_allow_inference_geo f)) ps
        else if fv_type f \<noteq> 14 then delete_key (js ''allow_inference_geo'') ps else ps) = ps"
      "(if fv_type f = 14 then put ''allow_inference_geo'' (bool_json (fv_allow_inference_geo f)) ps else ps) = ps"
      using geo by simp_all
    show ?thesis unfolding fieldControls_def Let_def kept inference by (rule refl)
  qed
  have upstream: "upstreamSettings f ps = ps"
    by (rule upstreamSettings_fixed) (use table in blast)
  have "advancedSettings f ps = ps"
    using table by (simp add: advancedSettings_def advancedTable_def delete_absent obj_put_same split: option.splits)
  with provider control upstream show ?thesis by (simp add: settingsObject_def)
qed


lemma ignoredModels_printed: "ignoredModels (g\<lparr>fv_upstream_model_update_ignored_models := Some (join (js '','') (ignoredModels f))\<rparr>) = ignoredModels f"
proof -
  have parse: "ignoredModels h = dedup (parseModelsString (or_str (fv_upstream_model_update_ignored_models h) []))" for h
    by (auto simp: ignoredModels_def parseModelsString_def dedup_distinct)
  let ?ms = "ignoredModels f"
  have "dedup ?ms = ?ms" by (simp add: ignoredModels_def)
  then have "formatModelsArray ?ms = join (js '','') ?ms"
    by (simp add: formatModelsArray_def)
  moreover have "list_all modelName ?ms"
    using parseModelsString_names by (simp add: parse list_all_iff)
  ultimately show ?thesis
    using parse_format [of ?ms] \<open>dedup ?ms = ?ms\<close> by (simp add: parse or_str_nullish)
qed


text \<open>The fields that are read from the settings the form has built fix these settings.\<close>

lemma managed_value:
  "(k, v) \<in> set (managedSettings f (map_of ps)) \<Longrightarrow> map_of (settingsObject f ps) (js k) = v"
  by (simp add: map_of_settingsObject overlay_member [OF managed_keys_distinct])

lemma provider_reread:
  assumes ty: "fv_type g = fv_type f" and vals: "\<And>k v. (k, v) \<in> set (providerTable f) \<Longrightarrow> map_of qs (js k) = v"
  shows "providerTable ((readSettingsFields (JObj qs) g)\<lparr>fv_upstream_model_update_ignored_models := ig, fv_advanced_custom := ac\<rparr>) = providerTable f"
proof -
  have "map_of qs (js ''vertex_key_type'') = only (fv_type f = 41) (or_json (fv_vertex_key_type f) (JStr (js ''json'')))"
    "map_of qs (js ''azure_responses_version'') = only (fv_type f = 3 \<and> truthy_opt (fv_azure_responses_version f))
         (nullish (fv_azure_responses_version f) JNull)"
    "map_of qs (js ''openrouter_enterprise'') = only (fv_type f = 20) (bool_json (fv_is_enterprise_account f))"
    "map_of qs (js ''aws_key_type'') = only (fv_type f = 33) (or_json (fv_aws_key_type f) (JStr (js ''ak_sk'')))"
    using vals by (simp_all add: providerTable_def)
  then show ?thesis
    by (auto simp: ty providerTable_def readSettingsFields_def only_def bool_json_def or_json_def truthy_opt_def split: option.splits)
qed

lemma control_reread:
  assumes "fv_type g = fv_type f" "\<And>k v. (k, v) \<in> set (controlTable f) \<Longrightarrow> map_of qs (js k) = v"
  shows "controlTable ((readSettingsFields (JObj qs) g)\<lparr>fv_upstream_model_update_ignored_models := ig, fv_advanced_custom := ac\<rparr>) = controlTable f"
  using assms by (auto simp: controlTable_def readSettingsFields_def only_def bool_json_def Let_def)

lemma upstream_reread:
  assumes ty: "fv_type g = fv_type f" and vals: "\<And>k v. (k, v) \<in> set (upstreamTable f old) \<Longrightarrow> map_of qs (js k) = v"
    and ig: "\<And>ms. map_of qs (js ''upstream_model_update_ignored_models'') = Some (JArr (map JStr ms)) \<Longrightarrow> ig = Some (join (js '','') ms)"
  shows "upstreamTable ((readSettingsFields (JObj qs) g)\<lparr>fv_upstream_model_update_ignored_models := ig, fv_advanced_custom := ac\<rparr>) (map_of qs) = upstreamTable f old"
proof (cases "fv_type f \<in> set MODEL_FETCHABLE_TYPES")
  case True
  let ?check = "fv_upstream_model_update_check_enabled f = Some True"
  have q: "map_of qs (js ''upstream_model_update_check_enabled'') = Some (JBool ?check)"
    "map_of qs (js ''upstream_model_update_auto_sync_enabled'') =
       Some (JBool (?check \<and> fv_upstream_model_update_auto_sync_enabled f = Some True))"
    "map_of qs (js ''upstream_model_update_ignored_models'') = Some (JArr (map JStr (ignoredModels f)))"
    "map_of qs (js ''upstream_model_update_last_detected_models'') =
       Some (detectedModels ?check (old (js ''upstream_model_update_last_detected_models'')))"
    "map_of qs (js ''upstream_model_update_last_check_time'') = Some (checkTime (old (js ''upstream_model_update_last_check_time'')))"
    using vals True by (simp_all add: upstreamTable_def Let_def)
  have "detectedModels b (Some (detectedModels b v)) = detectedModels b v" "checkTime (Some (checkTime v)) = checkTime v" for b v
    by (auto simp: detectedModels_def checkTime_def split: option.splits json.splits)
  moreover have "ignoredModels (h\<lparr>fv_upstream_model_update_ignored_models := ig, fv_advanced_custom := ac\<rparr>) = ignoredModels f" for h
    using ignoredModels_printed [where f = f and g = "h\<lparr>fv_advanced_custom := ac\<rparr>"] ig [OF q(3)] by (simp add: ignoredModels_def)
  ultimately show ?thesis
    using True by (simp add: upstreamTable_def q readSettingsFields_def Let_def ty)
qed (simp add: upstreamTable_def readSettingsFields_def ty)


lemma valid_advanced:
  assumes "channelFormSchema num_str URL f" "fv_type f = CHANNEL_TYPE_ADVANCED_CUSTOM"
  shows "\<exists>config. parseAdvancedCustomConfig (fv_advanced_custom f) = Some config \<and>
    validateAdvancedCustomConfig URL (Some config) = Inr None \<and>
    (advancedCustomConfigUsesRelativeUpstreamPath (Some config) = Inr True \<longrightarrow> \<not> blankText (fv_base_url f)) \<and>
    (\<exists>b. advancedCustomConfigUsesRelativeUpstreamPath (Some config) = Inr b)"
proof -
  have "superRefine URL f = Inr []"
    using assms by (simp add: channelFormSchema_def)
  then have "advancedIssues URL f = Inr []"
    by (auto simp: superRefine_def map_sum_Inr_iff)
  with assms(2) obtain problem relative where
    *: "validateAdvancedCustomConfig URL (parseAdvancedCustomConfig (fv_advanced_custom f)) = Inr problem"
      "advancedCustomConfigUsesRelativeUpstreamPath (parseAdvancedCustomConfig (fv_advanced_custom f)) = Inr relative"
      "problem = None" "\<not> (relative \<and> blankText (fv_base_url f))"
    by (auto simp: advancedIssues_def Let_def bind_result_Inr_iff map_sum_Inr_iff split: option.splits)
  then show ?thesis
    by (cases "parseAdvancedCustomConfig (fv_advanced_custom f)") (auto simp: validateAdvancedCustomConfig_def)
qed

lemma built_settings:
  assumes "prints_decimals num_str" "channelFormSchema num_str URL f"
  shows "\<exists>t. buildSettingsJSON num_str f = Inr t \<and> JSON_parse t = Some (JObj (settingsObject f (oldSettings f)))"
  using buildSettingsJSON_object [OF valid_fields(4) [OF assms(2)]] settingsObject_ok [OF oldSettings_ok assms(2)] JSON_parse_stringify(1) [OF assms(1)]
  by blast

text \<open>The fields that the settings do not determine.\<close>

lemma readSetting_kept:
  "cf_key (readSetting s h) = cf_key h" "cf_models (readSetting s h) = cf_models h" "cf_model_mapping (readSetting s h) = cf_model_mapping h"
  "cf_status_code_mapping (readSetting s h) = cf_status_code_mapping h" "fv_name (readSetting s h) = fv_name h"
  "fv_type (readSetting s h) = fv_type h" "fv_base_url (readSetting s h) = fv_base_url h"
  "fv_openai_organization (readSetting s h) = fv_openai_organization h" "fv_group (readSetting s h) = fv_group h"
  "fv_priority (readSetting s h) = fv_priority h" "fv_weight (readSetting s h) = fv_weight h"
  "fv_test_model (readSetting s h) = fv_test_model h" "fv_auto_ban (readSetting s h) = fv_auto_ban h"
  "fv_tag (readSetting s h) = fv_tag h" "fv_remark (readSetting s h) = fv_remark h" "fv_setting (readSetting s h) = fv_setting h"
  "fv_param_override (readSetting s h) = fv_param_override h" "fv_header_override (readSetting s h) = fv_header_override h"
  "fv_settings (readSetting s h) = fv_settings h" "fv_advanced_custom (readSetting s h) = fv_advanced_custom h"
  "fv_other (readSetting s h) = fv_other h"
  by (auto simp: readSetting_def Let_def split: option.splits json.splits)

lemma readSettingsFields_kept:
  "cf_key (readSettingsFields p h) = cf_key h" "cf_models (readSettingsFields p h) = cf_models h" "cf_model_mapping (readSettingsFields p h) = cf_model_mapping h"
  "cf_status_code_mapping (readSettingsFields p h) = cf_status_code_mapping h" "fv_name (readSettingsFields p h) = fv_name h"
  "fv_type (readSettingsFields p h) = fv_type h" "fv_base_url (readSettingsFields p h) = fv_base_url h"
  "fv_openai_organization (readSettingsFields p h) = fv_openai_organization h" "fv_group (readSettingsFields p h) = fv_group h"
  "fv_priority (readSettingsFields p h) = fv_priority h" "fv_weight (readSettingsFields p h) = fv_weight h"
  "fv_test_model (readSettingsFields p h) = fv_test_model h" "fv_auto_ban (readSettingsFields p h) = fv_auto_ban h"
  "fv_tag (readSettingsFields p h) = fv_tag h" "fv_remark (readSettingsFields p h) = fv_remark h" "fv_setting (readSettingsFields p h) = fv_setting h"
  "fv_param_override (readSettingsFields p h) = fv_param_override h" "fv_header_override (readSettingsFields p h) = fv_header_override h"
  "fv_settings (readSettingsFields p h) = fv_settings h" "fv_advanced_custom (readSettingsFields p h) = fv_advanced_custom h"
  "fv_other (readSettingsFields p h) = fv_other h"
  "fv_force_format (readSettingsFields p h) = fv_force_format h" "fv_thinking_to_content (readSettingsFields p h) = fv_thinking_to_content h"
  "fv_proxy (readSettingsFields p h) = fv_proxy h" "fv_pass_through_body_enabled (readSettingsFields p h) = fv_pass_through_body_enabled h"
  "fv_system_prompt (readSettingsFields p h) = fv_system_prompt h" "fv_system_prompt_override (readSettingsFields p h) = fv_system_prompt_override h"
  by (simp_all add: readSettingsFields_def Let_def)

lemma transform_shape:
  assumes "JSON_parse (ch_settings c) = Some (JObj qs)"
  shows "\<exists>ig ac. transformChannelToFormDefaults num_str c = (readSettingsFields (JObj qs) (readSetting (ch_setting c) (channelColumns c)))
      \<lparr>fv_upstream_model_update_ignored_models := ig, fv_advanced_custom := ac\<rparr> \<and>
    (\<forall>ms. map_of qs (js ''upstream_model_update_ignored_models'') = Some (JArr (map JStr ms)) \<longrightarrow> ig = Some (join (js '','') ms)) \<and>
    (\<forall>config. map_of qs (js ''advanced_custom'') = Some config \<longrightarrow> normalizeAdvancedCustomConfig config = Inr config \<longrightarrow>
       ac = Some [] \<or> ac = Some (JSON_pretty num_str config))"
  using readSettings_object [OF assms, of num_str "readSetting (ch_setting c) (channelColumns c)"]
  by (simp add: transformChannelToFormDefaults_def readSetting_kept channelColumns_def CHANNEL_FORM_DEFAULT_VALUES_def)

lemma resaved_settings:
  assumes law: "prints_decimals num_str" and valid: "channelFormSchema num_str URL f"
    and c: "ch_type c = fv_type f" "buildSettingsJSON num_str f = Inr (ch_settings c)"
  shows "buildSettingsJSON num_str (transformChannelToFormDefaults num_str c) = Inr (ch_settings c)"
proof -
  define ps qs where "ps = oldSettings f" and "qs = settingsObject f (oldSettings f)"
  have parsed: "JSON_parse (ch_settings c) = Some (JObj qs)"
    using built_settings [OF law valid] c(2) by (simp add: qs_def)
  define f' where "f' = transformChannelToFormDefaults num_str c"
  define g where "g = readSetting (ch_setting c) (channelColumns c)"
  obtain ig ac where f': "f' = (readSettingsFields (JObj qs) g)\<lparr>fv_upstream_model_update_ignored_models := ig, fv_advanced_custom := ac\<rparr>"
    and ig: "\<And>ms. map_of qs (js ''upstream_model_update_ignored_models'') = Some (JArr (map JStr ms)) \<Longrightarrow> ig = Some (join (js '','') ms)"
    and ac: "\<And>config. map_of qs (js ''advanced_custom'') = Some config \<Longrightarrow> normalizeAdvancedCustomConfig config = Inr config \<Longrightarrow>
       ac = Some [] \<or> ac = Some (JSON_pretty num_str config)"
    using transform_shape [OF parsed, of num_str] unfolding f'_def g_def by auto
  have g: "fv_type g = fv_type f" "fv_settings g = Some (ch_settings c)"
    using c(1) parsed JSON_parse_Nil by (auto simp: g_def readSetting_kept channelColumns_def or_str_def)
  have vals: "(k, v) \<in> set (providerTable f) \<union> set (controlTable f) \<union> set (upstreamTable f (map_of ps)) \<union> set (advancedTable f)
      \<Longrightarrow> map_of qs (js k) = v" for k v
    using managed_value [of k v f ps] by (auto simp: qs_def ps_def managedSettings_def)
  have "set (advancedTable f') \<subseteq> set (advancedTable f)"
  proof (cases "fv_type f = CHANNEL_TYPE_ADVANCED_CUSTOM")
    case True
    then obtain config where config: "parseAdvancedCustomConfig (fv_advanced_custom f) = Some config"
      using valid_advanced [OF valid] by blast
    have "map_of qs (js ''advanced_custom'') = Some config"
      using vals [of "''advanced_custom''" "Some config"] True config by (simp add: advancedTable_def)
    then have "parseAdvancedCustomConfig ac \<in> {None, Some config}"
      using ac parse_config [OF config] parse_printed_config [of config num_str] law by (auto simp: parseAdvancedCustomConfig_def)
    then show ?thesis
      using True config g by (auto simp: advancedTable_def f' readSettingsFields_def)
  next
    case False
    with g show ?thesis by (simp add: advancedTable_def f' readSettingsFields_def)
  qed
  moreover have "providerTable f' = providerTable f" "controlTable f' = controlTable f" "upstreamTable f' (map_of qs) = upstreamTable f (map_of ps)"
    unfolding f' using vals by (auto intro!: provider_reread control_reread upstream_reread g(1) ig)
  ultimately have "settingsObject f' qs = qs"
    using vals by (intro settingsObject_fixed) (auto simp: managedSettings_def)
  moreover have "fv_settings f' = Some (ch_settings c)"
    by (simp add: f' readSettingsFields_def g)
  moreover from this have "isOptionalJsonObject (fv_settings f')" "oldSettings f' = qs"
    using parsed by (simp_all add: isOptionalJsonObject_def parseOptionalJson_def oldSettings_def or_str_nullish)
  ultimately show ?thesis
    using buildSettingsJSON_object [of f' num_str] buildSettingsJSON_object [OF valid_fields(4) [OF valid], of num_str] c(2)
    by (simp add: f'_def qs_def)
qed

lemma setting_keys: "ordered_keys (map js [''force_format'', ''thinking_to_content'', ''proxy'', ''pass_through_body_enabled'',
    ''system_prompt'', ''system_prompt_override''])"
  by code_simp

lemma optional_or_ok:
  "optionalBool v \<Longrightarrow> json_ok (or_json v (JBool b))" "optionalString v \<Longrightarrow> json_ok (or_json v (JStr s))"
  by (rule json_ok_or; simp add: optional_ok)+

lemma parse_buildSettingJSON:
  assumes law: "prints_decimals num_str" and valid: "channelFormSchema num_str URL f"
  shows "JSON_parse (buildSettingJSON num_str f) = Some (JObj
       [(js ''force_format'', or_json (fv_force_format f) (JBool False)),
        (js ''thinking_to_content'', or_json (fv_thinking_to_content f) (JBool False)),
        (js ''proxy'', or_json (fv_proxy f) (JStr [])),
        (js ''pass_through_body_enabled'', or_json (fv_pass_through_body_enabled f) (JBool False)),
        (js ''system_prompt'', or_json (fv_system_prompt f) (JStr [])),
        (js ''system_prompt_override'', or_json (fv_system_prompt_override f) (JBool False))])"
  unfolding buildSettingJSON_def Let_def
  by (rule JSON_parse_stringify(1) [OF law]) (use setting_keys valid_fields [OF valid] optional_or_ok in simp)

lemma readSetting_built:
  assumes law: "prints_decimals num_str" and valid: "channelFormSchema num_str URL f"
    and fields: "fv_force_format g = fv_force_format h" "fv_thinking_to_content g = fv_thinking_to_content h" "fv_proxy g = fv_proxy h"
      "fv_pass_through_body_enabled g = fv_pass_through_body_enabled h" "fv_system_prompt g = fv_system_prompt h"
      "fv_system_prompt_override g = fv_system_prompt_override h"
    and h: "h = readSetting (Some (buildSettingJSON num_str f)) h'"
  shows "buildSettingJSON num_str g = buildSettingJSON num_str f"
proof -
  note parsed = parse_buildSettingJSON [OF law valid]
  have "fv_force_format h = Some (or_json (fv_force_format f) (JBool False))"
    "fv_thinking_to_content h = Some (or_json (fv_thinking_to_content f) (JBool False))" "fv_proxy h = Some (or_json (fv_proxy f) (JStr []))"
    "fv_pass_through_body_enabled h = Some (or_json (fv_pass_through_body_enabled f) (JBool False))"
    "fv_system_prompt h = Some (or_json (fv_system_prompt f) (JStr []))"
    "fv_system_prompt_override h = Some (or_json (fv_system_prompt_override f) (JBool False))"
    by (simp_all add: h readSetting_def or_str_nullish parsed js_inject Let_def)
  then show ?thesis
    by (simp add: buildSettingJSON_def fields)
qed

section \<open>Requests\<close>

lemma map_of_emptyToNull [simp]: "map_of (emptyToNull ps) k = map_option (\<lambda>v. if v = JStr [] then JNull else v) (map_of ps k)"
  unfolding emptyToNull_def by (induction ps) (simp_all add: split_beta)

lemma map_of_js_table: "map_of (map (map_prod js id) table) (js k) = map_of table k"
  by (induction table) (auto simp: js_inject)

lemma map_of_assign_all: "map_of (assign_all table ps) (js k) = (case map_of (rev table) k of Some v \<Rightarrow> Some v | None \<Rightarrow> map_of ps (js k))"
  unfolding assign_all_def by (induction table arbitrary: ps) (auto simp: js_inject split: option.splits)

lemma map_of_deletes:
  "map_of (foldl (\<lambda>p field. delete_key (js field) p) p fs) k = (if k \<in> js ` set fs then None else map_of p k)"
  by (induction fs arbitrary: p) auto

text \<open>A channel has in its columns what an update sends; \<open>null\<close> is stored as the empty text.\<close>

definition storesPayload :: "Channel \<Rightarrow> (jstring \<times> json) list \<Rightarrow> bool" where
  "storesPayload c p \<longleftrightarrow> (let sent = (\<lambda>k. map_of p (js k)); stored = (\<lambda>v. Some (JStr (or_str v []))) in
     sent ''name'' = Some (JStr (ch_name c)) \<and> sent ''type'' = Some (JNum (of_int (ch_type c))) \<and>
     sent ''base_url'' = stored (ch_base_url c) \<and> sent ''openai_organization'' = stored (ch_openai_organization c) \<and>
     sent ''models'' = Some (JStr (ch_models c)) \<and> sent ''group'' = Some (JStr (ch_group c)) \<and>
     sent ''model_mapping'' = stored (ch_model_mapping c) \<and>
     sent ''priority'' = Some (JNum (nullish (ch_priority c) 0)) \<and> sent ''weight'' = Some (JNum (nullish (ch_weight c) 0)) \<and>
     sent ''test_model'' = stored (ch_test_model c) \<and> sent ''auto_ban'' = Some (JNum (nullish (ch_auto_ban c) 1)) \<and>
     sent ''status_code_mapping'' = stored (ch_status_code_mapping c) \<and> sent ''tag'' = stored (ch_tag c) \<and>
     sent ''remark'' = Some (JStr (ch_remark c)) \<and> sent ''setting'' = stored (ch_setting c) \<and>
     sent ''param_override'' = stored (ch_param_override c) \<and> sent ''header_override'' = stored (ch_header_override c) \<and>
     sent ''settings'' = Some (JStr (ch_settings c)) \<and> sent ''other'' = Some (str_or_null (ch_other c)))"

lemma update_values:
  assumes "transformFormDataToUpdatePayload num_str f row = Inr p" "buildSettingsJSON num_str f = Inr t"
  shows "map_of p (js ''name'') = Some (str_or_null (fv_name f))" "map_of p (js ''type'') = Some (JNum (of_int (fv_type f)))"
    "map_of p (js ''base_url'') = Some (JStr (normalizeBaseUrl (fv_base_url f)))"
    "map_of p (js ''openai_organization'') = Some (text_json (fv_openai_organization f))"
    "map_of p (js ''models'') = Some (str_or_null (cf_models f))" "map_of p (js ''group'') = Some (str_or_null (formatGroups (fv_group f)))"
    "map_of p (js ''model_mapping'') = Some (text_json (cf_model_mapping f))"
    "map_of p (js ''priority'') = Some (JNum (nullish (fv_priority f) 0))" "map_of p (js ''weight'') = Some (JNum (nullish (fv_weight f) 0))"
    "map_of p (js ''test_model'') = Some (text_json (fv_test_model f))" "map_of p (js ''auto_ban'') = Some (JNum (nullish (fv_auto_ban f) 1))"
    "map_of p (js ''status_code_mapping'') = Some (text_json (cf_status_code_mapping f))" "map_of p (js ''tag'') = Some (text_json (fv_tag f))"
    "map_of p (js ''remark'') = Some (text_json (fv_remark f))" "map_of p (js ''setting'') = Some (str_or_null (buildSettingJSON num_str f))"
    "map_of p (js ''param_override'') = Some (text_json (fv_param_override f))"
    "map_of p (js ''header_override'') = Some (text_json (fv_header_override f))"
    "map_of p (js ''settings'') = Some (str_or_null t)" "map_of p (js ''other'') = Some (text_or_null (fv_other f))"
    "map_of p (js ''key'') = (if trim (cf_key f) \<noteq> [] then Some (JStr (cf_key f)) else None)"
    "map_of p (js ''id'') = Some (JNum row)"
proof -
  have p: "p = assign_all (explicitFields f) (emptyToNull (if trim (cf_key f) \<noteq> []
      then put ''key'' (JStr (cf_key f)) (map (map_prod js id) (updateFields num_str f row t))
      else map (map_prod js id) (updateFields num_str f row t)))"
    using assms by (simp add: transformFormDataToUpdatePayload_def Let_def)
  have lookup: "map_of p (js k) = (case map_of (rev (explicitFields f)) k of Some v \<Rightarrow> Some v
      | None \<Rightarrow> map_option (\<lambda>v. if v = JStr [] then JNull else v)
          (if k = ''key'' \<and> trim (cf_key f) \<noteq> [] then Some (JStr (cf_key f)) else map_of (updateFields num_str f row t) k))" for k
    unfolding p map_of_assign_all by (simp add: map_of_js_table js_inject split: option.split)
  note tables = lookup explicitFields_def updateFields_def str_or_null_def
  show "map_of p (js ''name'') = Some (str_or_null (fv_name f))" "map_of p (js ''type'') = Some (JNum (of_int (fv_type f)))"
    "map_of p (js ''base_url'') = Some (JStr (normalizeBaseUrl (fv_base_url f)))"
    "map_of p (js ''openai_organization'') = Some (text_json (fv_openai_organization f))"
    "map_of p (js ''models'') = Some (str_or_null (cf_models f))" "map_of p (js ''group'') = Some (str_or_null (formatGroups (fv_group f)))"
    "map_of p (js ''model_mapping'') = Some (text_json (cf_model_mapping f))"
    "map_of p (js ''priority'') = Some (JNum (nullish (fv_priority f) 0))" "map_of p (js ''weight'') = Some (JNum (nullish (fv_weight f) 0))"
    by (simp_all add: tables)
  show
    "map_of p (js ''test_model'') = Some (text_json (fv_test_model f))" "map_of p (js ''auto_ban'') = Some (JNum (nullish (fv_auto_ban f) 1))"
    "map_of p (js ''status_code_mapping'') = Some (text_json (cf_status_code_mapping f))" "map_of p (js ''tag'') = Some (text_json (fv_tag f))"
    "map_of p (js ''remark'') = Some (text_json (fv_remark f))" "map_of p (js ''setting'') = Some (str_or_null (buildSettingJSON num_str f))"
    "map_of p (js ''param_override'') = Some (text_json (fv_param_override f))"
    "map_of p (js ''header_override'') = Some (text_json (fv_header_override f))"
    "map_of p (js ''settings'') = Some (str_or_null t)" "map_of p (js ''other'') = Some (text_or_null (fv_other f))"
    "map_of p (js ''key'') = (if trim (cf_key f) \<noteq> [] then Some (JStr (cf_key f)) else None)"
    "map_of p (js ''id'') = Some (JNum row)"
    by (simp_all add: tables)
qed

lemma normalizeBaseUrl_again:
  assumes "b = normalizeBaseUrl v" "b = [] \<or> \<not> is_ws (last b)"
  shows "normalizeBaseUrl (Some b) = b"
proof (cases "b = []")
  case True
  then show ?thesis by (simp add: normalizeBaseUrl_def or_str_nullish)
next
  case False
  obtain z where z: "trim (or_str v []) = b @ z" "last b \<noteq> 47"
  proof -
    let ?t = "trim (or_str v [])"
    have "?t = b @ rev (takeWhile (\<lambda>c. c = 47) (rev ?t))"
      unfolding assms(1) normalizeBaseUrl_def by (metis rev_append rev_rev_ident takeWhile_dropWhile_id)
    moreover have "last b \<noteq> 47"
      using False hd_dropWhile [of "\<lambda>c. c = 47" "rev ?t"] unfolding assms(1) normalizeBaseUrl_def by (simp add: last_rev)
    ultimately show thesis by (rule that)
  qed
  have "\<not> is_ws (hd b)"
    using trim_ends(1) [of "or_str v []"] False z(1) by simp
  with assms(2) False have "trim b = b" by (intro trim_fixed) auto
  moreover have "rev (dropWhile (\<lambda>c. c = 47) (rev b)) = b"
    using z(2) False by (cases b rule: rev_cases) auto
  ultimately show ?thesis by (simp add: normalizeBaseUrl_def or_str_nullish)
qed

lemma parse_formatGroups:
  assumes "gs \<noteq> []" "list_all modelName gs"
  shows "parseGroups (formatGroups gs) = gs" "formatGroups gs \<noteq> []"
proof -
  have split: "split_on 44 (formatGroups gs) = gs"
    using assms split_on_join [of gs 44] by (auto simp: formatGroups_def modelName_def list_all_iff js_def)
  show "formatGroups gs \<noteq> []"
  proof
    assume "formatGroups gs = []"
    with split assms show False by (auto simp: modelName_def)
  qed
  moreover have "filter (\<lambda>g. 0 < length g) (map trim gs) = gs"
    using assms(2) by (induction gs) (auto simp: modelName_def)
  ultimately show "parseGroups (formatGroups gs) = gs"
    by (simp add: parseGroups_def split)
qed

lemma nullish_eq_nonempty: "nullish v [] = s \<Longrightarrow> s \<noteq> [] \<Longrightarrow> v = Some s"
  by (cases v) auto

lemma or_str_some_nonempty: "s \<noteq> [] \<Longrightarrow> or_str (Some s) d = s"
  by (simp add: or_str_def)

lemma buildSettings_key: "buildSettingsJSON num_str (f\<lparr>cf_key := k\<rparr>) = buildSettingsJSON num_str f"
proof -
  have ignored: "ignoredModels (f\<lparr>cf_key := k\<rparr>) = ignoredModels f"
    by (simp add: ignoredModels_def)
  have fields: "fv_type (f\<lparr>cf_key := k\<rparr>) = fv_type f"
    "fv_upstream_model_update_check_enabled (f\<lparr>cf_key := k\<rparr>) = fv_upstream_model_update_check_enabled f"
    "fv_upstream_model_update_auto_sync_enabled (f\<lparr>cf_key := k\<rparr>) = fv_upstream_model_update_auto_sync_enabled f"
    by simp_all
  have "providerSettings (f\<lparr>cf_key := k\<rparr>) = providerSettings f" "advancedSettings (f\<lparr>cf_key := k\<rparr>) = advancedSettings f"
    by (simp_all add: providerSettings_def advancedSettings_def fun_eq_iff)
  moreover have "fieldControls (f\<lparr>cf_key := k\<rparr>) = fieldControls f"
    by (rule ext) (simp add: fieldControls_def Let_def)
  moreover have "upstreamSettings (f\<lparr>cf_key := k\<rparr>) = upstreamSettings f"
    unfolding fun_eq_iff upstreamSettings_def fields ignored by blast
  ultimately have "settingsObject (f\<lparr>cf_key := k\<rparr>) = settingsObject f"
    unfolding fun_eq_iff settingsObject_def by simp
  then show ?thesis by (simp add: buildSettingsJSON_def Let_def split: json.split)
qed

lemma valid_request:
  assumes "channelFormSchema num_str URL f"
  shows "\<exists>t p. buildSettingsJSON num_str f = Inr t \<and> transformFormDataToUpdatePayload num_str f row = Inr p"
  using buildSettingsJSON_object [OF valid_fields(4) [OF assms]] by (simp add: transformFormDataToUpdatePayload_def)

lemma update_uses_values:
  assumes "updateFields num_str f row = updateFields num_str g row" "explicitFields f = explicitFields g" "cf_key f = cf_key g"
    "buildSettingsJSON num_str f = buildSettingsJSON num_str g"
  shows "transformFormDataToUpdatePayload num_str f row = transformFormDataToUpdatePayload num_str g row"
  unfolding transformFormDataToUpdatePayload_def assms(3,4) Let_def by (simp only: assms(1,2))

lemma str_or_null_eq [simp]: "str_or_null s = JStr t \<longleftrightarrow> s = t \<and> s \<noteq> []" "str_or_null s = str_or_null t \<longleftrightarrow> s = t"
  by (auto simp: str_or_null_def)

lemma dom_assign_all: "dom (map_of (assign_all table ps)) = js ` fst ` set table \<union> dom (map_of ps)"
  unfolding assign_all_def by (induction table arbitrary: ps) auto

lemma update_keys:
  assumes "transformFormDataToUpdatePayload num_str f row = Inr p"
  shows "dom (map_of p) = js ` (set [''id'', ''name'', ''type'', ''base_url'', ''openai_organization'', ''models'', ''group'',
     ''model_mapping'', ''priority'', ''weight'', ''test_model'', ''auto_ban'', ''status_code_mapping'', ''tag'', ''remark'',
     ''setting'', ''param_override'', ''header_override'', ''settings'', ''other''] \<union> (if trim (cf_key f) \<noteq> [] then {''key''} else {}))"
proof -
  have table: "dom (map_of (map (map_prod js id) table)) = js ` fst ` set table" for table :: "(string \<times> json) list"
    by (simp add: dom_map_of_conv_image_fst image_image)
  have null: "dom (map_of (emptyToNull ps)) = dom (map_of ps)" for ps
    by auto
  obtain t where p: "p = assign_all (explicitFields f) (emptyToNull (if trim (cf_key f) \<noteq> []
      then put ''key'' (JStr (cf_key f)) (map (map_prod js id) (updateFields num_str f row t))
      else map (map_prod js id) (updateFields num_str f row t)))"
    using assms by (auto simp: transformFormDataToUpdatePayload_def Let_def map_sum_Inr_iff)
  have "dom (map_of p) = js ` fst ` set (explicitFields f) \<union> (js ` fst ` set (updateFields num_str f row t) \<union>
      (if trim (cf_key f) \<noteq> [] then {js ''key''} else {}))"
    unfolding p dom_assign_all null by (simp add: table)
  then show ?thesis
    by (auto simp: explicitFields_def updateFields_def)
qed

section \<open>Properties\<close>

text \<open>
  C8. Saving what was saved: when a valid form was sent as an update and the channel has the sent values in its
  columns, the form made from this channel, sent again without a change, makes the same request, with no key. So the
  text of the settings, the nested routes and the ignored models survive the way through the form. Group names are
  assumed to have no comma and no blanks at their ends, and the base URL not to end in a blank after its slashes are
  removed.
\<close>

theorem saved_channel_resaves:
  assumes law: "prints_decimals num_str" and valid: "channelFormSchema num_str URL f"
    and groups: "list_all modelName (fv_group f)"
    and url: "normalizeBaseUrl (fv_base_url f) = [] \<or> \<not> is_ws (last (normalizeBaseUrl (fv_base_url f)))"
    and sent: "transformFormDataToUpdatePayload num_str f row = Inr p" and stored: "storesPayload c p"
  shows "mutationFn num_str canEdit True (Some row) multi (transformChannelToFormDefaults num_str c) =
    mutationFn num_str canEdit True (Some row) multi (f\<lparr>cf_key := []\<rparr>)"
proof -
  obtain t where t: "buildSettingsJSON num_str f = Inr t"
    using valid_request [OF valid] by blast
  note v = valid_fields [OF valid]
  note g = parse_formatGroups [OF v(3) groups]
  note p = update_values [OF sent t]
  have parsed: "JSON_parse t = Some (JObj (settingsObject f (oldSettings f)))"
    using built_settings [OF law valid] t by simp
  have nonempty: "t \<noteq> []" "buildSettingJSON num_str f \<noteq> []"
    using parsed parse_buildSettingJSON [OF law valid] JSON_parse_Nil by auto
  have c: "ch_name c = fv_name f" "ch_type c = fv_type f" "or_str (ch_base_url c) [] = normalizeBaseUrl (fv_base_url f)"
    "or_str (ch_openai_organization c) [] = or_str (fv_openai_organization f) []" "ch_models c = cf_models f"
    "ch_group c = formatGroups (fv_group f)" "or_str (ch_model_mapping c) [] = or_str (cf_model_mapping f) []"
    "nullish (ch_priority c) 0 = nullish (fv_priority f) 0" "nullish (ch_weight c) 0 = nullish (fv_weight f) 0"
    "or_str (ch_test_model c) [] = or_str (fv_test_model f) []" "nullish (ch_auto_ban c) 1 = nullish (fv_auto_ban f) 1"
    "or_str (ch_status_code_mapping c) [] = or_str (cf_status_code_mapping f) []" "or_str (ch_tag c) [] = or_str (fv_tag f) []"
    "ch_remark c = or_str (fv_remark f) []" "ch_setting c = Some (buildSettingJSON num_str f)"
    "or_str (ch_param_override c) [] = or_str (fv_param_override f) []"
    "or_str (ch_header_override c) [] = or_str (fv_header_override f) []" "ch_settings c = t" "ch_other c = or_str (fv_other f) []"
    using stored nonempty v(1,2) g(2)
    by (auto simp: storesPayload_def p or_str_nullish nullish_eq_nonempty Let_def)
  define f' where "f' = transformChannelToFormDefaults num_str c"
  have settings: "buildSettingsJSON num_str f' = Inr t"
    using resaved_settings [OF law valid c(2)] c(18) t by (simp add: f'_def)
  obtain ig ac where f': "f' = (readSettingsFields (JObj (settingsObject f (oldSettings f))) (readSetting (ch_setting c) (channelColumns c)))
      \<lparr>fv_upstream_model_update_ignored_models := ig, fv_advanced_custom := ac\<rparr>"
    using transform_shape [of c "settingsObject f (oldSettings f)" num_str] parsed c(18) unfolding f'_def by auto
  have setting: "buildSettingJSON num_str f' = buildSettingJSON num_str f"
    by (rule readSetting_built [OF law valid, where h = "readSetting (ch_setting c) (channelColumns c)" and h' = "channelColumns c"])
      (simp_all add: f' readSettingsFields_kept c(15))
  have columns: "cf_key f' = []" "cf_models f' = cf_models f" "cf_model_mapping f' = Some (or_str (cf_model_mapping f) [])"
    "cf_status_code_mapping f' = Some (or_str (cf_status_code_mapping f) [])" "fv_name f' = fv_name f" "fv_type f' = fv_type f"
    "fv_base_url f' = Some (normalizeBaseUrl (fv_base_url f))" "fv_openai_organization f' = Some (or_str (fv_openai_organization f) [])"
    "fv_group f' = fv_group f" "fv_priority f' = Some (nullish (fv_priority f) 0)" "fv_weight f' = Some (nullish (fv_weight f) 0)"
    "fv_test_model f' = Some (or_str (fv_test_model f) [])" "fv_auto_ban f' = Some (nullish (fv_auto_ban f) 1)"
    "fv_tag f' = Some (or_str (fv_tag f) [])" "fv_remark f' = Some (or_str (fv_remark f) [])"
    "fv_param_override f' = Some (or_str (fv_param_override f) [])" "fv_header_override f' = Some (or_str (fv_header_override f) [])"
    "fv_other f' = Some (or_str (fv_other f) [])"
    using g by (simp_all add: f' readSettingsFields_kept readSetting_kept channelColumns_def CHANNEL_FORM_DEFAULT_VALUES_def c
        or_str_some_nonempty)
  have or_again: "or_str (Some (or_str x [])) [] = or_str x []" for x
    by (simp add: or_str_nullish)
  have "transformFormDataToUpdatePayload num_str f' row = transformFormDataToUpdatePayload num_str (f\<lparr>cf_key := []\<rparr>) row"
  proof (rule update_uses_values)
    show "updateFields num_str f' row = updateFields num_str (f\<lparr>cf_key := []\<rparr>) row" "explicitFields f' = explicitFields (f\<lparr>cf_key := []\<rparr>)"
      using normalizeBaseUrl_again [OF refl url] setting
      by (simp_all add: updateFields_def explicitFields_def columns or_again fun_eq_iff buildSettingJSON_def)
    show "buildSettingsJSON num_str f' = buildSettingsJSON num_str (f\<lparr>cf_key := []\<rparr>)"
      using buildSettings_key [where f = f and num_str = num_str] settings t by simp
  qed (simp add: columns)
  then show ?thesis
    unfolding f'_def [symmetric] by (simp add: mutationFn_def columns)
qed

text \<open>
  C9. Two locks on the secrets of a channel: an editor without the permission for sensitive settings gets past the
  submit handler only with none of the sensitive fields changed, and the request that is then made has exactly the
  keys of the other fields, with the values of the form; the key, the URL, the overrides and both settings objects
  are not in it.
\<close>

theorem unprivileged_update_keeps_secrets:
  assumes submit: "onSubmit num_str ctx dialogs f = Mutate d" and editing: "sc_isEditing ctx" and locked: "\<not> canEditSensitive (sc_user ctx)"
    and request: "mutationFn num_str (canEditSensitive (sc_user ctx)) (sc_isEditing ctx) (Some row) multi d = Inr (UpdateChannel r p)"
  shows "r = row \<and> set SENSITIVE_FORM_FIELDS \<inter> set (sc_dirtyFields ctx) = {} \<and>
    fst ` set p = js ` {''id'', ''name'', ''models'', ''group'', ''model_mapping'', ''priority'', ''weight'', ''test_model'',
      ''auto_ban'', ''status_code_mapping'', ''tag'', ''remark''} \<and>
    (\<exists>q. transformFormDataToUpdatePayload num_str d row = Inr q \<and> (\<forall>k \<in> fst ` set p. map_of p k = map_of q k))"
proof (intro conjI)
  show "set SENSITIVE_FORM_FIELDS \<inter> set (sc_dirtyFields ctx) = {}"
    using onSubmit_Mutate(2) [OF submit] editing locked by (simp add: sensitiveLocked_def)
  obtain q where q: "transformFormDataToUpdatePayload num_str d row = Inr q" and "r = row"
    and p: "p = foldl (\<lambda>p field. delete_key (js field) p) (if trim (cf_key d) = [] then delete_key (js ''key'') q else q)
      SENSITIVE_UPDATE_FIELDS"
    using request editing locked by (auto simp: mutationFn_def Let_def map_sum_Inr_iff)
  then show "r = row" by simp
  have lookup: "map_of p k = (if k \<in> js ` set SENSITIVE_UPDATE_FIELDS then None else map_of q k)" for k
    unfolding p map_of_deletes by (auto simp: SENSITIVE_UPDATE_FIELDS_def)
  have "fst ` set p = dom (map_of q) - js ` set SENSITIVE_UPDATE_FIELDS"
    by (auto simp: lookup dom_map_of_conv_image_fst [symmetric] split: if_splits)
  also have "\<dots> = js ` {''id'', ''name'', ''models'', ''group'', ''model_mapping'', ''priority'', ''weight'', ''test_model'',
      ''auto_ban'', ''status_code_mapping'', ''tag'', ''remark''}"
    unfolding update_keys [OF q] SENSITIVE_UPDATE_FIELDS_def by (simp add: js_inject insert_Diff_if)
  finally show "fst ` set p = js ` {''id'', ''name'', ''models'', ''group'', ''model_mapping'', ''priority'', ''weight'', ''test_model'',
      ''auto_ban'', ''status_code_mapping'', ''tag'', ''remark''}" .
  show "\<exists>q. transformFormDataToUpdatePayload num_str d row = Inr q \<and> (\<forall>k \<in> fst ` set p. map_of p k = map_of q k)"
    using q lookup by (metis (no_types) dom_map_of_conv_image_fst domIff)
qed

text \<open>
  C17. The settings object that a valid form sends: each key the form manages has the value of the form if it applies to
  the type of the channel and is absent otherwise, and every other setting the channel had is kept. For channels whose
  models cannot be fetched, the keys of the upstream check are not managed and so stay as they were.
\<close>

theorem settings_sent_exactly:
  assumes "prints_decimals num_str" "channelFormSchema num_str URL f"
  shows "\<exists>t qs. buildSettingsJSON num_str f = Inr t \<and> JSON_parse t = Some (JObj qs) \<and>
    (let table = managedSettings f (map_of (oldSettings f)) in
      (\<forall>(k, v) \<in> set table. map_of qs (js k) = v) \<and>
      (\<forall>k. k \<notin> js ` fst ` set table \<longrightarrow> map_of qs k = map_of (oldSettings f) k))"
  using built_settings [OF assms] by (auto simp: Let_def map_of_settingsObject overlay_other overlay_member [OF managed_keys_distinct])

text \<open>
  C35. What the settings of a form can fail with: building them throws exactly if the text of the settings is valid JSON
  but \<open>null\<close> or a primitive value. A valid form therefore always gives a request.
\<close>

theorem settings_error_exact:
  "(buildSettingsJSON num_str f = Inl e \<longleftrightarrow> e = TypeError \<and>
     (\<exists>v. JSON_parse (or_str (fv_settings f) []) = Some v \<and> (\<forall>ps. v \<noteq> JObj ps) \<and> (\<forall>vs. v \<noteq> JArr vs))) \<and>
   (channelFormSchema num_str URL f \<longrightarrow> (\<exists>request. mutationFn num_str canEdit isEditing currentRow multi f = Inr request))"
proof
  show "buildSettingsJSON num_str f = Inl e \<longleftrightarrow> e = TypeError \<and>
     (\<exists>v. JSON_parse (or_str (fv_settings f) []) = Some v \<and> (\<forall>ps. v \<noteq> JObj ps) \<and> (\<forall>vs. v \<noteq> JArr vs))"
    using empty_object JSON_parse_Nil
    by (cases "JSON_parse (or_str (fv_settings f) [])"; cases "the (JSON_parse (or_str (fv_settings f) []))")
      (auto simp: buildSettingsJSON_def Let_def)
  show "channelFormSchema num_str URL f \<longrightarrow> (\<exists>request. mutationFn num_str canEdit isEditing currentRow multi f = Inr request)"
  proof
    assume "channelFormSchema num_str URL f"
    then obtain t p where "buildSettingsJSON num_str f = Inr t" "transformFormDataToUpdatePayload num_str f (the currentRow) = Inr p"
      using valid_request by blast
    then show "\<exists>request. mutationFn num_str canEdit isEditing currentRow multi f = Inr request"
      by (cases currentRow) (auto simp: mutationFn_def transformFormDataToCreatePayload_def Let_def)
  qed
qed

lemma stripped_last: "rev (dropWhile (\<lambda>c. c = x) (rev xs)) = [] \<or> last (rev (dropWhile (\<lambda>c. c = x) (rev xs))) \<noteq> x"
  using hd_dropWhile [of "\<lambda>c. c = x" "rev xs"] by (cases "dropWhile (\<lambda>c. c = x) (rev xs) = []") (simp_all only: last_rev, simp_all)

lemma split_trailing:
  "xs = rev (dropWhile (\<lambda>c. c = x) (rev xs)) @ replicate (length (takeWhile (\<lambda>c. c = x) (rev xs))) x"
proof -
  have "takeWhile (\<lambda>c. c = x) (rev xs) = replicate (length (takeWhile (\<lambda>c. c = x) (rev xs))) x"
    by (rule replicate_length_same [symmetric]) (auto dest: set_takeWhileD)
  moreover have "rev xs = takeWhile (\<lambda>c. c = x) (rev xs) @ dropWhile (\<lambda>c. c = x) (rev xs)" by simp
  ultimately show ?thesis by (metis rev_append rev_replicate rev_rev_ident)
qed

text \<open>
  C13. What a valid new channel sends: the form's name and models, not empty, its type and key; the base URL without
  surrounding white space and trailing slashes, or \<open>null\<close> when nothing is left, and one was given where it is
  required; the extra parameter of the form, not blank where it is required; and for an advanced custom channel
  settings that hold the routes of the form, which the validation of the routes accepts, with a base URL given if one
  of them is relative. A required URL of slashes only passes the form and is sent as \<open>null\<close>.
\<close>

theorem valid_channel_is_complete:
  assumes law: "prints_decimals num_str" and valid: "channelFormSchema num_str URL f"
    and sent: "transformFormDataToCreatePayload num_str f = Inr request"
  shows "(let p = map_of (crp_channel request); url = trim (or_str (fv_base_url f) []); other = or_str (fv_other f) [] in
    p (js ''name'') = Some (JStr (fv_name f)) \<and> fv_name f \<noteq> [] \<and>
    p (js ''models'') = Some (JStr (cf_models f)) \<and> cf_models f \<noteq> [] \<and>
    p (js ''type'') = Some (JNum (of_int (fv_type f))) \<and>
    p (js ''key'') = Some (if cf_key f = [] then JNull else JStr (cf_key f)) \<and>
    (\<exists>u n. url = u @ replicate n 47 \<and> (u = [] \<or> last u \<noteq> 47) \<and> p (js ''base_url'') = Some (if u = [] then JNull else JStr u)) \<and>
    (fv_type f \<in> {3, 8, 36, 45} \<longrightarrow> url \<noteq> []) \<and>
    p (js ''other'') = Some (if other = [] then JNull else JStr other) \<and>
    (fv_type f \<in> {3, 18, 21, 39, 41, 49} \<longrightarrow> trim other \<noteq> []) \<and>
    (fv_type f = CHANNEL_TYPE_ADVANCED_CUSTOM \<longrightarrow> (\<exists>t qs config. p (js ''settings'') = Some (JStr t) \<and> JSON_parse t = Some (JObj qs) \<and>
       map_of qs (js ''advanced_custom'') = Some config \<and> parseAdvancedCustomConfig (fv_advanced_custom f) = Some config \<and>
       validateAdvancedCustomConfig URL (Some config) = Inr None \<and>
       (advancedCustomConfigUsesRelativeUpstreamPath (Some config) = Inr True \<longrightarrow> url \<noteq> []))))"
proof -
  obtain t where t: "buildSettingsJSON num_str f = Inr t" and parsed: "JSON_parse t = Some (JObj (settingsObject f (oldSettings f)))"
    using built_settings [OF law valid] by blast
  have p: "map_of (crp_channel request) (js k) = map_option (\<lambda>v. if v = JStr [] then JNull else v) (map_of (createFields num_str f t) k)" for k
    using sent t by (auto simp: transformFormDataToCreatePayload_def Let_def map_of_js_table)
  have blank: "blankText v \<longleftrightarrow> trim (or_str v []) = []" for v by (simp add: blankText_def or_str_nullish)
  have url: "\<exists>u n. trim (or_str (fv_base_url f) []) = u @ replicate n 47 \<and> (u = [] \<or> last u \<noteq> 47) \<and>
      map_of (crp_channel request) (js ''base_url'') = Some (if u = [] then JNull else JStr u)"
  proof -
    let ?r = "rev (trim (or_str (fv_base_url f) []))"
    have "trim (or_str (fv_base_url f) []) = normalizeBaseUrl (fv_base_url f) @ replicate (length (takeWhile (\<lambda>c. c = 47) ?r)) 47"
      unfolding normalizeBaseUrl_def by (rule split_trailing)
    moreover have "normalizeBaseUrl (fv_base_url f) = [] \<or> last (normalizeBaseUrl (fv_base_url f)) \<noteq> 47"
      unfolding normalizeBaseUrl_def by (rule stripped_last)
    moreover have "map_of (crp_channel request) (js ''base_url'') =
        Some (if normalizeBaseUrl (fv_base_url f) = [] then JNull else JStr (normalizeBaseUrl (fv_base_url f)))"
      by (simp add: p createFields_def str_or_null_def)
    ultimately show ?thesis by blast
  qed
  have refined: "superRefine URL f = Inr []"
    using valid by (simp add: channelFormSchema_def)
  then have other: "fv_type f \<in> {3, 18, 21, 39, 41, 49} \<Longrightarrow> trim (or_str (fv_other f) []) \<noteq> []"
    by (auto simp: superRefine_def map_sum_Inr_iff blank)
  have required: "fv_type f \<in> {3, 8, 36, 45} \<Longrightarrow> trim (or_str (fv_base_url f) []) \<noteq> []"
    using refined by (auto simp: superRefine_def map_sum_Inr_iff blank)
  have config: "\<exists>config. map_of (settingsObject f (oldSettings f)) (js ''advanced_custom'') = Some config \<and>
      parseAdvancedCustomConfig (fv_advanced_custom f) = Some config \<and> validateAdvancedCustomConfig URL (Some config) = Inr None \<and>
      (advancedCustomConfigUsesRelativeUpstreamPath (Some config) = Inr True \<longrightarrow> trim (or_str (fv_base_url f) []) \<noteq> [])"
    if ty: "fv_type f = CHANNEL_TYPE_ADVANCED_CUSTOM"
  proof -
    obtain config where config: "parseAdvancedCustomConfig (fv_advanced_custom f) = Some config"
        "validateAdvancedCustomConfig URL (Some config) = Inr None"
        "advancedCustomConfigUsesRelativeUpstreamPath (Some config) = Inr True \<longrightarrow> \<not> blankText (fv_base_url f)"
      using valid_advanced [OF valid ty] by blast
    then have "map_of (settingsObject f (oldSettings f)) (js ''advanced_custom'') = Some config"
      by (intro managed_value) (simp add: managedSettings_def advancedTable_def ty)
    with config blank show ?thesis by blast
  qed
  have "t \<noteq> []" using parsed JSON_parse_Nil by auto
  then have settings: "map_of (crp_channel request) (js ''settings'') = Some (JStr t)"
    by (simp add: p createFields_def)
  have basics: "map_of (crp_channel request) (js ''name'') = Some (JStr (fv_name f))" "fv_name f \<noteq> []"
    "map_of (crp_channel request) (js ''models'') = Some (JStr (cf_models f))" "cf_models f \<noteq> []"
    "map_of (crp_channel request) (js ''type'') = Some (JNum (of_int (fv_type f)))"
    "map_of (crp_channel request) (js ''key'') = Some (if cf_key f = [] then JNull else JStr (cf_key f))"
    "map_of (crp_channel request) (js ''other'') = Some (if or_str (fv_other f) [] = [] then JNull else JStr (or_str (fv_other f) []))"
    using valid_fields [OF valid] by (simp_all add: p createFields_def)
  have "\<exists>t qs config. map_of (crp_channel request) (js ''settings'') = Some (JStr t) \<and> JSON_parse t = Some (JObj qs) \<and>
      map_of qs (js ''advanced_custom'') = Some config \<and> parseAdvancedCustomConfig (fv_advanced_custom f) = Some config \<and>
      validateAdvancedCustomConfig URL (Some config) = Inr None \<and>
      (advancedCustomConfigUsesRelativeUpstreamPath (Some config) = Inr True \<longrightarrow> trim (or_str (fv_base_url f) []) \<noteq> [])"
    if "fv_type f = CHANNEL_TYPE_ADVANCED_CUSTOM"
    using settings parsed config [OF that] by meson
  with basics url other required show ?thesis unfolding Let_def by simp
qed

section \<open>Witnesses\<close>

definition saved_form :: ChannelForm where
  "saved_form = CHANNEL_FORM_DEFAULT_VALUES
     \<lparr>cf_models := js ''m'', fv_name := js ''n'', fv_type := 58, fv_base_url := Some (js ''u/''), fv_settings := Some (js ''{\"a\":\"b\"}''),
      fv_advanced_custom := Some (js ''{\"advanced_routes\":[{\"incoming_path\":\"/v\",\"upstream_path\":\"/x\"}]}'')\<rparr>"

lemma saved_form_valid: "channelFormSchema dec_str (\<lambda>_. None) saved_form"
  by code_simp

definition saved_channel :: "jstring \<Rightarrow> Channel" where
  "saved_channel t = \<lparr>ch_id = 1, ch_type = 58, ch_name = js ''n'', ch_base_url = Some (js ''u''), ch_openai_organization = None,
     ch_models = js ''m'', ch_group = js ''default'', ch_model_mapping = None, ch_priority = None, ch_weight = Some 0, ch_test_model = None,
     ch_auto_ban = Some 1, ch_status = 1, ch_status_code_mapping = None, ch_tag = None, ch_remark = [],
     ch_setting = Some (buildSettingJSON dec_str saved_form), ch_param_override = None, ch_header_override = None, ch_settings = t,
     ch_other = [], ch_multi_key_mode = []\<rparr>"

lemma saved_url: "normalizeBaseUrl (fv_base_url saved_form) = js ''u''"
  by code_simp

lemma saved_submit: "onSubmit dec_str demo_context demo_dialogs saved_form = Mutate saved_form"
  by code_simp

theorem saved_channel_resaves_witness:
  "\<exists>t. storesPayload (saved_channel t) (projr (transformFormDataToUpdatePayload dec_str saved_form 1)) \<and>
     mutationFn dec_str True True (Some 1) False (transformChannelToFormDefaults dec_str (saved_channel t)) =
     mutationFn dec_str True True (Some 1) False (saved_form\<lparr>cf_key := []\<rparr>)"
proof -
  obtain t p where t: "buildSettingsJSON dec_str saved_form = Inr t" and p: "transformFormDataToUpdatePayload dec_str saved_form 1 = Inr p"
    using valid_request [OF saved_form_valid] by blast
  have "t \<noteq> []" "buildSettingJSON dec_str saved_form \<noteq> []"
    using built_settings [OF dec_str_prints saved_form_valid] parse_buildSettingJSON [OF dec_str_prints saved_form_valid] t JSON_parse_Nil by auto
  moreover have "formatGroups [js ''default''] = js ''default''"
    by (simp add: formatGroups_def)
  ultimately have stored: "storesPayload (saved_channel t) p"
    using saved_url
    by (simp add: storesPayload_def update_values [OF p t] saved_channel_def saved_form_def CHANNEL_FORM_DEFAULT_VALUES_def
        or_str_nullish str_or_null_def Let_def)
  have "mutationFn dec_str True True (Some 1) False (transformChannelToFormDefaults dec_str (saved_channel t)) =
     mutationFn dec_str True True (Some 1) False (saved_form\<lparr>cf_key := []\<rparr>)"
  proof (rule saved_channel_resaves [OF dec_str_prints saved_form_valid _ _ p stored])
    show "list_all modelName (fv_group saved_form)" by code_simp
    show "normalizeBaseUrl (fv_base_url saved_form) = [] \<or> \<not> is_ws (last (normalizeBaseUrl (fv_base_url saved_form)))"
      unfolding saved_url by code_simp
  qed
  with stored p show ?thesis by auto
qed

theorem unprivileged_update_keeps_secrets_witness:
  "\<exists>p. mutationFn dec_str False True (Some 1) False saved_form = Inr (UpdateChannel 1 p) \<and> js ''settings'' \<notin> fst ` set p"
proof -
  obtain p where p: "mutationFn dec_str False True (Some 1) False saved_form = Inr (UpdateChannel 1 p)"
    using valid_request [OF saved_form_valid, of 1] by (auto simp: mutationFn_def Let_def)
  have locked: "sc_isEditing demo_context" "\<not> canEditSensitive (sc_user demo_context)"
    by (simp_all add: demo_context_def canEditSensitive_def hasPermission_def)
  have "fst ` set p = js ` {''id'', ''name'', ''models'', ''group'', ''model_mapping'', ''priority'', ''weight'', ''test_model'',
      ''auto_ban'', ''status_code_mapping'', ''tag'', ''remark''}"
    using unprivileged_update_keeps_secrets [OF saved_submit locked, where row = 1 and multi = False and r = 1 and p = p] p locked by simp
  with p show ?thesis by (auto simp: js_inject)
qed

theorem settings_sent_exactly_witness:
  "\<exists>t qs. buildSettingsJSON dec_str saved_form = Inr t \<and> JSON_parse t = Some (JObj qs) \<and>
     map_of qs (js ''disable_task_polling_sleep'') = Some (JBool False)"
proof -
  have "(''disable_task_polling_sleep'', Some (JBool False)) \<in> set (managedSettings saved_form (map_of (oldSettings saved_form)))"
    by (simp add: managedSettings_def controlTable_def saved_form_def CHANNEL_FORM_DEFAULT_VALUES_def bool_json_def)
  with settings_sent_exactly [OF dec_str_prints saved_form_valid] show ?thesis
    by (fastforce simp: Let_def)
qed

theorem settings_error_exact_witness:
  "\<exists>request. mutationFn dec_str True False None False saved_form = Inr request"
  using settings_error_exact [of dec_str saved_form TypeError "\<lambda>_. None" True False None False] saved_form_valid by blast

theorem valid_channel_is_complete_witness:
  "\<exists>request t. transformFormDataToCreatePayload dec_str saved_form = Inr request \<and>
     map_of (crp_channel request) (js ''settings'') = Some (JStr t)"
proof -
  obtain request where request: "transformFormDataToCreatePayload dec_str saved_form = Inr request"
    using valid_request [OF saved_form_valid, of 1] by (auto simp: transformFormDataToCreatePayload_def Let_def)
  moreover have "fv_type saved_form = CHANNEL_TYPE_ADVANCED_CUSTOM"
    by (simp add: saved_form_def CHANNEL_TYPE_ADVANCED_CUSTOM_def)
  ultimately show ?thesis
    using valid_channel_is_complete [OF dec_str_prints saved_form_valid request] unfolding Let_def by blast
qed

end
