(* ===== verification/Tier_Expr.thy ===== *)
theory Tier_Expr
  imports JS_Regex JS_Stringify
begin

text \<open>
  \<open>features/pricing/lib/tier-expr.ts\<close> and the tier part of \<open>billing-expr.ts\<close>: the variables of billing
  expressions, the visual configuration of price tiers, the expression made from it and the two readers of
  such expressions. A number of the language is a rational or \<open>NaN\<close>, which is \<open>None\<close>. A price that a tier does not
  have is not in its list of prices. \<open>evalExprLocally\<close> runs the text as a program and is not modelled.
\<close>

type_synonym js_number = "jnum option"

definition number_or_zero :: "js_number option \<Rightarrow> jnum" where
  "number_or_zero v = (case v of Some (Some q) \<Rightarrow> q | _ \<Rightarrow> 0)"

definition show_number :: "(jnum \<Rightarrow> jstring) \<Rightarrow> js_number \<Rightarrow> jstring" where
  "show_number num_str v = (case v of Some q \<Rightarrow> num_str q | None \<Rightarrow> js ''NaN'')"

section \<open>Variables\<close>

datatype BillingSide = InputSide | OutputSide | ConditionSide

record BillingVar =
  bv_key :: jstring
  bv_field :: "jstring option"
  bv_tierField :: "jstring option"
  bv_label :: jstring
  bv_shortLabel :: jstring
  bv_side :: BillingSide
  bv_isBase :: bool
  bv_isConditionOnly :: bool
  bv_group :: "jstring option"

definition priceVar :: "string \<Rightarrow> string \<Rightarrow> string \<Rightarrow> string \<Rightarrow> string \<Rightarrow> BillingSide \<Rightarrow> bool \<Rightarrow> string option \<Rightarrow> BillingVar" where
  "priceVar key field tierField label shortLabel side isBase grp =
     \<lparr>bv_key = js key, bv_field = Some (js field), bv_tierField = Some (js tierField), bv_label = js label,
      bv_shortLabel = js shortLabel, bv_side = side, bv_isBase = isBase, bv_isConditionOnly = False, bv_group = map_option js grp\<rparr>"

definition BILLING_VARS :: "BillingVar list" where
  "BILLING_VARS =
     [priceVar ''p'' ''inputPrice'' ''input_unit_cost'' ''Input price'' ''Input'' InputSide True None,
      priceVar ''c'' ''outputPrice'' ''output_unit_cost'' ''Completion price'' ''Output'' OutputSide True None,
      \<lparr>bv_key = js ''len'', bv_field = None, bv_tierField = None, bv_label = js ''Input length'', bv_shortLabel = js ''Length'',
       bv_side = ConditionSide, bv_isBase = False, bv_isConditionOnly = True, bv_group = None\<rparr>,
      priceVar ''cr'' ''cacheReadPrice'' ''cache_read_unit_cost'' ''Cache read price'' ''Cache Read'' InputSide False (Some ''cache''),
      priceVar ''cc'' ''cacheCreatePrice'' ''cache_create_unit_cost'' ''Cache create price'' ''Cache Write'' InputSide False
        (Some ''cache''),
      priceVar ''cc1h'' ''cacheCreate1hPrice'' ''cache_create_1h_unit_cost'' ''Cache create (1h) price'' ''Cache Write (1h)'' InputSide
        False (Some ''cache''),
      priceVar ''img'' ''imagePrice'' ''image_unit_cost'' ''Image input price'' ''Image In'' InputSide False (Some ''media''),
      priceVar ''img_o'' ''imageOutputPrice'' ''image_output_unit_cost'' ''Image output price'' ''Image Out'' OutputSide False
        (Some ''media''),
      priceVar ''ai'' ''audioInputPrice'' ''audio_input_unit_cost'' ''Audio input price'' ''Audio In'' InputSide False (Some ''media''),
      priceVar ''ao'' ''audioOutputPrice'' ''audio_output_unit_cost'' ''Audio output price'' ''Audio Out'' OutputSide False
        (Some ''media'')]"

definition BILLING_PRICING_VARS :: "BillingVar list" where
  "BILLING_PRICING_VARS = filter (\<lambda>v. \<not> bv_isConditionOnly v) BILLING_VARS"

definition BILLING_CONDITION_VARS :: "jstring list" where
  "BILLING_CONDITION_VARS = map bv_key (filter (\<lambda>v. bv_isBase v \<or> bv_isConditionOnly v) BILLING_VARS)"

definition BILLING_VAR_KEY_TO_FIELD :: "(jstring \<times> jstring) list" where
  "BILLING_VAR_KEY_TO_FIELD = map (\<lambda>v. (bv_key v, nullish (bv_field v) [])) BILLING_PRICING_VARS"

definition BILLING_EXTRA_VARS :: "BillingVar list" where
  "BILLING_EXTRA_VARS = filter (\<lambda>v. \<not> bv_isBase v \<and> \<not> bv_isConditionOnly v) BILLING_VARS"

text \<open>The field of a tier and the variable of the expression.\<close>

definition BILLING_CACHE_VAR_MAP :: "(jstring \<times> jstring) list" where
  "BILLING_CACHE_VAR_MAP = map (\<lambda>v. (nullish (bv_tierField v) [], bv_key v)) BILLING_EXTRA_VARS"

section \<open>The visual configuration\<close>

datatype ConditionValue = NumberValue js_number | TextValue jstring

record TierConditionInput =
  tc_var :: jstring
  tc_op :: jstring
  tc_value :: ConditionValue

record VisualTier =
  vt_label :: jstring
  vt_conditions :: "TierConditionInput list"
  vt_input_unit_cost :: js_number
  vt_output_unit_cost :: js_number
  vt_cache_mode :: jstring
  vt_costs :: "(jstring \<times> js_number) list"

type_synonym VisualConfig = "VisualTier list"

record PartialTier =
  pt_label :: "jstring option"
  pt_conditions :: "TierConditionInput list option"
  pt_input_unit_cost :: "js_number option"
  pt_output_unit_cost :: "js_number option"
  pt_cache_mode :: "jstring option"
  pt_costs :: "(jstring \<times> js_number) list"

definition asPartial :: "VisualTier \<Rightarrow> PartialTier" where
  "asPartial t = \<lparr>pt_label = Some (vt_label t), pt_conditions = Some (vt_conditions t),
     pt_input_unit_cost = Some (vt_input_unit_cost t), pt_output_unit_cost = Some (vt_output_unit_cost t),
     pt_cache_mode = Some (vt_cache_mode t), pt_costs = vt_costs t\<rparr>"

definition getTierCacheMode :: "PartialTier \<Rightarrow> jstring" where
  "getTierCacheMode tier =
     (if pt_cache_mode tier = Some (js ''timed'') then js ''timed''
      else if pt_cache_mode tier = Some (js ''generic'') then js ''generic''
      else if number_or_zero (map_of (pt_costs tier) (js ''cache_create_1h_unit_cost'')) > 0 then js ''timed'' else js ''generic'')"

definition EXTRA_COST_FIELDS :: "jstring list" where
  "EXTRA_COST_FIELDS = map js [''cache_read_unit_cost'', ''cache_create_unit_cost'', ''cache_create_1h_unit_cost'',
     ''image_unit_cost'', ''image_output_unit_cost'', ''audio_input_unit_cost'', ''audio_output_unit_cost'']"

text \<open>The defaults come before \<open>...tier\<close>, so that a base price the tier has is kept even if it is \<open>NaN\<close>.\<close>

definition normalizeVisualTier :: "PartialTier \<Rightarrow> VisualTier" where
  "normalizeVisualTier tier =
     \<lparr>vt_label = nullish (pt_label tier) [], vt_conditions = nullish (pt_conditions tier) [],
      vt_input_unit_cost = nullish (pt_input_unit_cost tier) (Some 0),
      vt_output_unit_cost = nullish (pt_output_unit_cost tier) (Some 0),
      vt_cache_mode = nullish (pt_cache_mode tier) (getTierCacheMode tier),
      vt_costs = map (\<lambda>field. (field, Some (number_or_zero (map_of (pt_costs tier) field)))) EXTRA_COST_FIELDS\<rparr>"

definition createDefaultVisualConfig :: VisualConfig where
  "createDefaultVisualConfig =
     [normalizeVisualTier \<lparr>pt_label = Some (js ''base''), pt_conditions = Some [], pt_input_unit_cost = Some (Some 0),
        pt_output_unit_cost = Some (Some 0), pt_cache_mode = Some (js ''generic''), pt_costs = []\<rparr>]"

definition normalizeVisualConfig :: "VisualConfig option \<Rightarrow> VisualConfig" where
  "normalizeVisualConfig config = (case config of
     None \<Rightarrow> createDefaultVisualConfig
   | Some tiers \<Rightarrow> if length tiers = 0 then createDefaultVisualConfig else map (\<lambda>tier. normalizeVisualTier (asPartial tier)) tiers)"

section \<open>The expression of a configuration\<close>

definition conditionValueText :: "(jnum \<Rightarrow> jstring) \<Rightarrow> ConditionValue \<Rightarrow> jstring" where
  "conditionValueText num_str v = (case v of NumberValue n \<Rightarrow> show_number num_str n | TextValue s \<Rightarrow> s)"

definition buildConditionStr :: "(jnum \<Rightarrow> jstring) \<Rightarrow> TierConditionInput list \<Rightarrow> jstring" where
  "buildConditionStr num_str conditions =
     join (js '' && '') (map (\<lambda>c. tc_var c @ js '' '' @ tc_op c @ js '' '' @ conditionValueText num_str (tc_value c))
       (filter (\<lambda>c. tc_var c \<noteq> [] \<and> tc_op c \<noteq> [] \<and> tc_value c \<noteq> TextValue []) conditions))"

definition productText :: "(jnum \<Rightarrow> jstring) \<Rightarrow> jstring \<Rightarrow> jnum \<Rightarrow> jstring" where
  "productText num_str v q = v @ js '' * '' @ num_str q"

definition buildTierBodyExpr :: "(jnum \<Rightarrow> jstring) \<Rightarrow> VisualTier \<Rightarrow> jstring" where
  "buildTierBodyExpr num_str tier =
     join (js '' + '')
      ([productText num_str (js ''p'') (number_or_zero (Some (vt_input_unit_cost tier))),
        productText num_str (js ''c'') (number_or_zero (Some (vt_output_unit_cost tier)))] @
       List.map_filter (\<lambda>(field, exprVar). let v = number_or_zero (map_of (vt_costs tier) field) in
           if v \<noteq> 0 then Some (productText num_str exprVar v) else None)
         BILLING_CACHE_VAR_MAP)"

definition tierCall :: "(jnum \<Rightarrow> jstring) \<Rightarrow> jstring \<Rightarrow> VisualTier \<Rightarrow> jstring" where
  "tierCall num_str label tier = js ''tier(\"'' @ label @ js ''\", '' @ buildTierBodyExpr num_str tier @ js '')''"

text \<open>The parts of the loop from index \<open>i\<close> on.\<close>

fun tierParts :: "(jnum \<Rightarrow> jstring) \<Rightarrow> nat \<Rightarrow> VisualTier list \<Rightarrow> jstring list" where
  "tierParts num_str i [] = []"
| "tierParts num_str i (tier # tiers) =
     (let label = or_str (Some (vt_label tier)) (js ''tier_'' @ nat_str (i + 1));
          body = tierCall num_str label tier;
          cond = buildConditionStr num_str (vt_conditions tier) in
      (if tiers \<noteq> [] \<and> cond \<noteq> [] then cond @ js '' ? '' @ body else body) # tierParts num_str (Suc i) tiers)"

definition generateExprFromVisualConfig :: "(jnum \<Rightarrow> jstring) \<Rightarrow> VisualConfig option \<Rightarrow> jstring" where
  "generateExprFromVisualConfig num_str config = (case config of
     None \<Rightarrow> js ''p * 0 + c * 0''
   | Some [] \<Rightarrow> js ''p * 0 + c * 0''
   | Some [tier] \<Rightarrow>
       (let body = tierCall num_str (or_str (Some (vt_label tier)) (js ''default'')) tier;
            cond = buildConditionStr num_str (vt_conditions tier) in
        if cond \<noteq> [] then cond @ js '' ? '' @ body @ js '' : p * 0 + c * 0'' else body)
   | Some tiers \<Rightarrow> join (js '' : '') (tierParts num_str 0 tiers))"

section \<open>The patterns\<close>

text \<open>The classes \<open>[\d.eE+-]\<close> (\<open>num_char\<close>) and \<open>[\d.eE+]\<close>.\<close>

definition bound_char :: "jchar \<Rightarrow> bool" where
  "bound_char c \<longleftrightarrow> num_char c \<and> c \<noteq> 45"

definition product_rx :: "jstring \<Rightarrow> nat \<Rightarrow> rx" where
  "product_rx v n = rx_seq [rx_text v, rx_ws, rx_text (js ''*''), rx_ws, RxGroup n (rx_some num_char)]"

text \<open>The optional products, one for each variable; the groups are counted from \<open>n\<close>.\<close>

fun optProducts :: "nat \<Rightarrow> jstring list \<Rightarrow> rx" where
  "optProducts n [] = RxEmpty"
| "optProducts n (v # vs) = RxSeq (rx_opt (rx_seq [rx_ws, rx_text (js ''+''), rx_ws, product_rx v n])) (optProducts (Suc n) vs)"

definition body_rx :: "nat \<Rightarrow> rx" where
  "body_rx n = rx_seq [product_rx (js ''p'') n, rx_ws, rx_text (js ''+''), rx_ws, product_rx (js ''c'') (n + 1),
     optProducts (n + 2) (map snd BILLING_CACHE_VAR_MAP)]"

definition label_rx :: "nat \<Rightarrow> rx" where
  "label_rx n = rx_seq [rx_text (js ''tier(\"''), RxGroup n (rx_many (\<lambda>c. c \<noteq> 34)), rx_text (js ''\",''), rx_ws]"

definition single_rx :: rx where
  "single_rx = rx_seq [label_rx 1, body_rx 2, rx_text (js '')''), RxEnd]"

definition condition_rx :: rx where
  "condition_rx = rx_seq [rx_alts (map rx_text [js ''p'', js ''c'', js ''len'']), rx_ws,
     rx_alts (map rx_text [js ''<'', js ''<='', js ''>'', js ''>='']), rx_ws, rx_some bound_char]"

definition and_rx :: rx where
  "and_rx = rx_seq [rx_ws, rx_text (js ''&&''), rx_ws]"

definition guard_rx :: rx where
  "guard_rx = rx_opt (rx_seq [RxGroup 1 (RxSeq condition_rx (RxStar (RxSeq and_rx condition_rx))), rx_ws, rx_text (js ''?''), rx_ws])"

definition tier_rx :: rx where
  "tier_rx = rx_seq [guard_rx, label_rx 2, body_rx 3, rx_text (js '')'')]"

definition any_tier_rx :: rx where
  "any_tier_rx = rx_seq [guard_rx, label_rx 2, RxGroup 3 (rx_some (\<lambda>c. c \<noteq> 41)), rx_text (js '')'')]"

definition one_condition_rx :: rx where
  "one_condition_rx = rx_seq [RxGroup 1 (rx_alts (map rx_text [js ''p'', js ''c'', js ''len''])), rx_ws,
     RxGroup 2 (rx_alts (map rx_text [js ''<'', js ''<='', js ''>'', js ''>=''])), rx_ws, RxGroup 3 (rx_some bound_char), RxEnd]"

definition version_rx :: rx where
  "version_rx = rx_seq [rx_text (js ''v''), RxGroup 1 (rx_some is_digit), rx_text (js '':''), RxGroup 2 (rx_many (\<lambda>_. True)), RxEnd]"

definition BILLING_VAR_REGEX :: rx where
  "BILLING_VAR_REGEX = rx_seq [RxBoundary, RxGroup 1 (rx_alts (map (\<lambda>v. rx_text (bv_key v)) BILLING_PRICING_VARS)), rx_ws,
     rx_text (js ''*''), rx_ws, RxGroup 2 (rx_some num_char)]"

definition ESTIMATOR_VARS :: "(jstring \<times> jstring) list" where
  "ESTIMATOR_VARS = map (map_prod js js)
     [(''cr'', ''cacheReadTokens''), (''cc'', ''cacheCreateTokens''), (''cc1h'', ''cacheCreate1hTokens''), (''img'', ''imageTokens''),
      (''img_o'', ''imageOutputTokens''), (''ai'', ''audioInputTokens''), (''ao'', ''audioOutputTokens'')]"

definition exprUsesExtraVars :: "jstring \<Rightarrow> bool" where
  "exprUsesExtraVars exprStr \<longleftrightarrow> exprStr \<noteq> [] \<and>
     rx_test (rx_seq [RxBoundary, RxGroup 1 (rx_alts (map (\<lambda>(v, stateKey). rx_text v) ESTIMATOR_VARS)), RxBoundary]) exprStr"

section \<open>Reading an expression\<close>

definition captured_text :: "(nat \<times> jstring) list \<Rightarrow> nat \<Rightarrow> jstring" where
  "captured_text caps n = nullish (map_of caps n) []"

definition stripExprVersion :: "jstring \<Rightarrow> js_number \<times> jstring" where
  "stripExprVersion exprStr =
     (if exprStr = [] then (Some 1, [])
      else (case rx_anchored version_rx exprStr of
          Some m \<Rightarrow> (string_number (captured_text m 1), captured_text m 2)
        | None \<Rightarrow> (Some 1, exprStr)))"

text \<open>The loop over the parts of a condition text.\<close>

definition parseConditionPart :: "jstring \<Rightarrow> TierConditionInput option" where
  "parseConditionPart cp = map_option (\<lambda>cm. \<lparr>tc_var = captured_text cm 1, tc_op = captured_text cm 2,
     tc_value = NumberValue (string_number (captured_text cm 3))\<rparr>) (rx_anchored one_condition_rx (trim cp))"

definition parseConditionText :: "jstring \<Rightarrow> TierConditionInput list" where
  "parseConditionText condStr = (if condStr = [] then [] else List.map_filter parseConditionPart (rx_split and_rx [] condStr))"

definition capturedTier :: "nat \<Rightarrow> TierConditionInput list \<Rightarrow> (nat \<times> jstring) list \<Rightarrow> VisualTier" where
  "capturedTier n conditions m = normalizeVisualTier
     \<lparr>pt_label = Some (captured_text m n), pt_conditions = Some conditions,
      pt_input_unit_cost = Some (string_number (captured_text m (n + 1))),
      pt_output_unit_cost = Some (string_number (captured_text m (n + 2))), pt_cache_mode = None,
      pt_costs = List.map_filter (\<lambda>(i, field, exprVar). map_option (\<lambda>val. (field, string_number val)) (map_of m (n + 3 + i)))
        (enumerate 0 BILLING_CACHE_VAR_MAP)\<rparr>"

definition strip_ws :: "jstring \<Rightarrow> jstring" where
  "strip_ws s = filter (\<lambda>c. \<not> is_ws c) s"

definition tryParseVisualConfig :: "(jnum \<Rightarrow> jstring) \<Rightarrow> jstring option \<Rightarrow> VisualConfig option" where
  "tryParseVisualConfig num_str exprStr =
     (if nullish exprStr [] = [] then None
      else (let body = (case rx_anchored version_rx (nullish exprStr []) of Some m \<Rightarrow> captured_text m 2 | None \<Rightarrow> nullish exprStr []) in
        case rx_anchored single_rx body of
          Some simple \<Rightarrow> Some (normalizeVisualConfig (Some [capturedTier 1 [] simple]))
        | None \<Rightarrow>
            (let tiers = map (\<lambda>m. capturedTier 2 (parseConditionText (captured_text m 1)) m) (rx_all tier_rx [] body) in
             if length tiers = 0 then None
             else (let cfg = normalizeVisualConfig (Some tiers); regenerated = generateExprFromVisualConfig num_str (Some cfg) in
               if strip_ws regenerated \<noteq> strip_ws body then None else Some cfg))))"

record ParsedTier =
  rt_label :: jstring
  rt_conditions :: "TierConditionInput list"
  rt_prices :: "(jstring \<times> jnum) list"

text \<open>The first coefficient of each variable.\<close>

definition parseTierBody :: "jstring \<Rightarrow> (jstring \<times> jnum) list" where
  "parseTierBody bodyStr =
     (let coeffs = map (\<lambda>m. (captured_text m 1, string_number (captured_text m 2))) (rx_all BILLING_VAR_REGEX [] bodyStr) in
      map (\<lambda>(varName, field). (field, number_or_zero (map_of coeffs varName))) BILLING_VAR_KEY_TO_FIELD)"

definition parseTiersFromExpr :: "jstring \<Rightarrow> ParsedTier list" where
  "parseTiersFromExpr exprStr =
     (if exprStr = [] then []
      else map (\<lambda>m. \<lparr>rt_label = captured_text m 2, rt_conditions = parseConditionText (captured_text m 1),
          rt_prices = parseTierBody (captured_text m 3)\<rparr>) (rx_all any_tier_rx [] (snd (stripExprVersion exprStr))))"

text \<open>\<open>toLowerCase\<close> of the platform is an argument.\<close>

definition comparisonChar :: "jchar \<Rightarrow> jchar" where
  "comparisonChar c = (if c \<in> {60, 65308, 8804} then 60 else if c \<in> {62, 65310, 8805} then 62 else c)"

fun simplifyComparisons :: "jstring \<Rightarrow> jstring" where
  "simplifyComparisons (c # d # s) = comparisonChar c #
     (if c \<in> {60, 65308, 62, 65310} \<and> d \<in> {61, 65309} then simplifyComparisons s else simplifyComparisons (d # s))"
| "simplifyComparisons s = map comparisonChar s"

definition normalizeTierLabel :: "(jstring \<Rightarrow> jstring) \<Rightarrow> jstring option \<Rightarrow> jstring" where
  "normalizeTierLabel toLowerCase label =
     (if nullish label [] = [] then [] else toLowerCase (strip_ws (simplifyComparisons (nullish label []))))"

end
