(* ===== verification/Tier_Properties.thy ===== *)
theory Tier_Properties
  imports Tier_Expr
begin

text \<open>
  The expression of a price configuration is read back by the visual editor and by the price display: the
  patterns take the generated text piece by piece, and what they capture are the labels, conditions and prices.
\<close>

declare split_paired_Ex [simp del] split_paired_All [simp del]

section \<open>Numbers\<close>

text \<open>The text of a number is a string that \<open>Number\<close> reads as it.\<close>

lemma takeWhile_digits_drop: "drop (length (takeWhile is_digit s)) s = dropWhile is_digit s"
  by (metis dropWhile_eq_drop)

lemma num_chars_no_radix: "list_all num_char s \<Longrightarrow> take 2 s \<notin> {js ''0x'', js ''0X'', js ''0o'', js ''0O'', js ''0b'', js ''0B''}"
  by (cases s; cases "tl s") (auto simp: js_def num_char_def is_digit_def word_le_nat_alt)

lemma string_number_printed:
  assumes "p_num s = Some (n, [])"
  shows "string_number s = Some n"
proof -
  have chars: "s \<noteq> []" "list_all num_char s"
    using p_num_chars [OF assms] by auto
  then have trim: "trim s = s"
    by (auto intro!: trim_fixed num_char_not_ws simp: list_all_iff)
  have hd: "hd s \<noteq> 43"
    using p_num_start [OF assms] by (auto simp: is_digit_def word_le_nat_alt)
  define t where "t = (if s \<noteq> [] \<and> hd s = 45 then tl s else s)"
  obtain i s1 f s2 e where p: "p_int t = Some (i, s1)" "p_frac s1 = Some (f, s2)" "p_exp s2 = Some (e, [])"
    and n: "n = (if s \<noteq> [] \<and> hd s = 45 then - 1 else 1) * (of_nat i + f) * e"
    using assms by (auto simp: p_num_def t_def Let_def split: option.splits prod.splits)
  define ds where "ds = takeWhile is_digit t"
  have int: "ds \<noteq> [] \<and> i = digits_val ds \<and> s1 = dropWhile is_digit t"
  proof
    show "ds \<noteq> []" using p(1) by (auto simp: p_int_def ds_def Let_def split: if_splits)
    show "i = digits_val ds \<and> s1 = dropWhile is_digit t"
    proof (cases "hd ds = 48")
      case False
      with p(1) show ?thesis by (auto simp: p_int_def ds_def Let_def takeWhile_digits_drop split: if_splits)
    next
      case True
      then have s1: "i = 0" "s1 = tl t"
        using p(1) by (auto simp: p_int_def ds_def Let_def split: if_splits)
      obtain c u where t: "t = c # u" "is_digit c"
        using \<open>ds \<noteq> []\<close> unfolding ds_def by (cases t) (auto split: if_splits)
      have "u = [] \<or> \<not> is_digit (hd u)"
      proof (rule ccontr)
        assume "\<not> ?thesis"
        then obtain d v where u: "u = d # v" "is_digit d" by (cases u) auto
        then have "d \<noteq> 46" "d \<noteq> 101" "d \<noteq> 69" by (auto simp: is_digit_def word_le_nat_alt)
        with p(2,3) u s1 t show False by (auto simp: p_frac_def p_exp_def)
      qed
      then have "takeWhile is_digit u = []" "dropWhile is_digit u = u" by (cases u; auto)+
      with t s1 True show ?thesis by (simp add: ds_def digits_val_def digit_val_def)
    qed
  qed
  define dot where "dot = (s1 \<noteq> [] \<and> hd s1 = 46)"
  define fs where "fs = (if dot then takeWhile is_digit (tl s1) else [])"
  have frac: "f = of_nat (digits_val fs) / 10 ^ length fs" "s2 = (if dot then dropWhile is_digit (tl s1) else s1)"
    using p(2) by (cases s1; auto simp: p_frac_def dot_def fs_def Let_def takeWhile_digits_drop digits_val_def split: if_splits)+
  have t2: "(if s \<noteq> [] \<and> (hd s = 43 \<or> hd s = 45) then tl s else s) = t"
    using hd by (simp add: t_def)
  have s1: "dropWhile is_digit t = s1"
    using int by simp
  have "decimal_literal s = (if ds = [] \<and> fs = [] then None
      else (case p_exp s2 of
          Some (e, []) \<Rightarrow> Some ((if s \<noteq> [] \<and> hd s = 45 then - 1 else 1) * (of_nat (digits_val ds) + of_nat (digits_val fs) / 10 ^ length fs) * e)
        | _ \<Rightarrow> None))"
    unfolding decimal_literal_def Let_def t2 ds_def [symmetric] s1 dot_def [symmetric] fs_def [symmetric] frac(2) [symmetric] ..
  then have "decimal_literal s = Some n"
    using int p(3) by (simp only: n frac(1)) simp
  then show ?thesis
    using num_chars_no_radix [OF chars(2)] chars(1) by (simp add: string_number_def trim Let_def)
qed

lemma printed:
  assumes "prints_decimals num_str" "decimal q"
  shows "num_str q \<noteq> []" "list_all num_char (num_str q)" "string_number (num_str q) = Some q"
  using p_num_chars [of "num_str q" q] string_number_printed [of "num_str q" q] assms
  by (auto simp: prints_decimals_def reads_back_def)

section \<open>Products\<close>

definition wordy :: "jstring \<Rightarrow> bool" where
  "wordy v \<longleftrightarrow> v \<noteq> [] \<and> list_all is_word v"

lemma word_chars: "is_word c \<Longrightarrow> \<not> is_ws c \<and> c \<notin> {32, 34, 38, 41, 42, 43, 58, 63}"
  by (auto simp: is_word_def is_digit_def is_ws_def word_le_nat_alt)

lemma num_chars: "num_char c \<Longrightarrow> \<not> is_ws c \<and> c \<notin> {32, 34, 38, 41, 42, 58, 63}"
  by (auto simp: num_char_def is_digit_def is_ws_def word_le_nat_alt)

lemma js_pieces: "js '' * '' = [32] @ js ''*'' @ [32]" "js '' + '' = [32] @ js ''+'' @ [32]"
  by (simp_all add: js_def)

lemma js_and: "js ''&&'' = 38 # [38]"
  by (simp add: js_def)

lemma js_marks: "js ''*'' = [42]" "js ''+'' = [43]" "js '')'' = [41]" "js ''?'' = [63]"
  by (simp_all add: js_def)

lemma takes_product:
  assumes "list_all num_char u" "u \<noteq> []" "s = [] \<or> \<not> num_char (hd s)"
  shows "rx_takes (product_rx v n) (v @ js '' * '' @ u) s cs ((n, u) # cs)"
proof -
  have hd: "\<not> is_ws (hd (u @ s))" using assms(1,2) num_chars by (cases u) auto
  have "rx_takes (product_rx v n) (v @ [32] @ js ''*'' @ [32] @ u) s cs ((n, u) # cs)"
    unfolding product_rx_def
    by (rule takes_list_Cons [OF takes_text], rule takes_list_Cons [OF takes_blank], simp add: js_marks is_ws_def,
        rule takes_list_Cons [OF takes_text], rule takes_list_Cons [OF takes_blank], use hd in blast,
        rule takes_list_one [OF takes_group [OF takes_some]]) (use assms in auto)
  then show ?thesis by (simp add: js_pieces)
qed

text \<open>A product of another variable.\<close>

lemma stuck_rest_of_product:
  assumes "w = v @ e" "e \<noteq> []" "list_all is_word e"
  shows "rx_stuck (RxSeq rx_ws (RxSeq (rx_text (js ''*'')) r)) (e @ s) cs"
proof -
  obtain c d where "e = c # d" using assms(2) by (cases e) auto
  then show ?thesis
    using assms(3) word_chars [of c] unfolding js_marks
    by (intro stuck_ws_text [of _ "[]" "e @ s"]) (auto simp: is_ws_def)
qed

lemma prefix_of_words:
  assumes "wordy v" "wordy w" "v \<noteq> w" "w @ 32 # s = v @ t"
  shows "\<exists>e. w = v @ e \<and> e \<noteq> [] \<and> list_all is_word e \<and> t = e @ 32 # s"
proof -
  from assms(4) consider e where "w = v @ e" "e @ 32 # s = t" | e where "w @ e = v" "32 # s = e @ t"
    by (auto simp: append_eq_append_conv2)
  then show ?thesis
  proof cases
    case 1
    with assms show ?thesis by (auto simp: wordy_def)
  next
    case 2
    with assms(3) have "e \<noteq> []" by auto
    with 2 obtain d where "e = 32 # d" by (cases e) auto
    with 2(1) assms(1) have "is_word 32" by (auto simp: wordy_def)
    then show ?thesis using word_chars by blast
  qed
qed

lemma stuck_other_product:
  assumes "wordy v" "wordy w" "v \<noteq> w"
  shows "rx_stuck (RxSeq (rx_text v) (RxSeq rx_ws (RxSeq (rx_text (js ''*'')) r))) (w @ 32 # s) cs"
  using prefix_of_words [OF assms] stuck_rest_of_product by (intro stuck_text_seq) blast

lemma stuck_other_group_product:
  assumes "wordy v" "wordy w" "v \<noteq> w"
  shows "rx_stuck (RxSeq (RxGroup n (rx_text v)) (RxSeq rx_ws (RxSeq (rx_text (js ''*'')) r))) (w @ 32 # s) cs"
  using prefix_of_words [OF assms] stuck_rest_of_product by (intro stuck_group_text_seq) blast

section \<open>The optional products\<close>

fun extrasText :: "(jnum \<Rightarrow> jstring) \<Rightarrow> (jstring \<times> jnum) list \<Rightarrow> jstring" where
  "extrasText num_str [] = []"
| "extrasText num_str ((v, q) # vqs) = (if q = 0 then [] else js '' + '' @ productText num_str v q) @ extrasText num_str vqs"

fun extraGroups :: "(jnum \<Rightarrow> jstring) \<Rightarrow> nat \<Rightarrow> (jstring \<times> jnum) list \<Rightarrow> (nat \<times> jstring) list \<Rightarrow> (nat \<times> jstring) list" where
  "extraGroups num_str n [] cs = cs"
| "extraGroups num_str n ((v, q) # vqs) cs = extraGroups num_str (Suc n) vqs (if q = 0 then cs else (n, num_str q) # cs)"

lemma extras_shape:
  "extrasText num_str vqs = [] \<or> (\<exists>w t. extrasText num_str vqs = [32, 43, 32] @ w @ 32 # t \<and> w \<in> fst ` set vqs)"
proof (induction vqs)
  case (Cons vq vqs)
  then show ?case by (cases vq) (auto simp: productText_def js_def)
qed simp

lemma stuck_extra:
  assumes "wordy v" "\<And>w. w \<in> fst ` set vqs \<Longrightarrow> wordy w \<and> w \<noteq> v"
  shows "rx_stuck (rx_seq [rx_ws, rx_text (js ''+''), rx_ws, product_rx v n]) (extrasText num_str vqs @ 41 # s) cs"
proof -
  let ?T = "extrasText num_str vqs @ 41 # s"
  have list: "rx_seq [rx_ws, rx_text (js ''+''), rx_ws, product_rx v n] =
      RxSeq rx_ws (RxSeq (rx_text (js ''+'')) (RxSeq rx_ws (RxSeq (product_rx v n) RxEmpty)))"
    by (simp add: rx_seq_def)
  from extras_shape [of num_str vqs] show ?thesis
  proof (elim disjE exE conjE)
    assume "extrasText num_str vqs = []"
    then show ?thesis unfolding list unfolding js_marks
      by (intro stuck_ws_text [of _ "[]" "41 # s"]) (auto simp: is_ws_def)
  next
    fix w t assume T: "extrasText num_str vqs = [32, 43, 32] @ w @ 32 # t" and w: "w \<in> fst ` set vqs"
    have w: "wordy w" "v \<noteq> w" using assms(2) [OF w] by auto
    obtain c d where v: "v = c # d" "is_word c" using assms(1) by (cases v) (auto simp: wordy_def)
    have var: "rx_stuck (RxSeq (product_rx v n) RxEmpty) z cs"
      if z: "z = 32 # w @ 32 # t @ 41 # s \<or> z = w @ 32 # t @ 41 # s" for z
      using z
    proof
      assume "z = 32 # w @ 32 # t @ 41 # s"
      then show ?thesis
        using v word_chars [of c] unfolding product_rx_def by (intro stuck_seq1 stuck_list_hd stuck_text) auto
    next
      assume "z = w @ 32 # t @ 41 # s"
      then show ?thesis
        using stuck_other_product [OF assms(1) w, of _ "t @ 41 # s"]
        unfolding product_rx_def rx_seq_def by (intro stuck_seq1) simp
    qed
    show ?thesis unfolding list
    proof (rule stuck_many_seq, rule stuck_text_seq, rule stuck_many_seq)
      fix u z x y p assume eq: "?T = u @ z" "list_all is_ws u" "z = js ''+'' @ x" "x = y @ p" "list_all is_ws y"
      have "u = [32]" "x = 32 # w @ 32 # t @ 41 # s"
      proof -
        have "32 # 43 # 32 # w @ 32 # t @ 41 # s = u @ 43 # x" using eq(1,3) T by (simp add: js_marks)
        moreover have "43 \<notin> set u" using eq(2) by (auto simp: list_all_iff is_ws_def)
        ultimately show "u = [32]" "x = 32 # w @ 32 # t @ 41 # s"
          by (cases u; cases "tl u"; auto)+
      qed
      with eq(4) have "y @ p = 32 # w @ 32 # t @ 41 # s" by simp
      moreover obtain c' d' where "w = c' # d'" "is_word c'" using w(1) by (cases w) (auto simp: wordy_def)
      ultimately have "p = 32 # w @ 32 # t @ 41 # s \<or> p = w @ 32 # t @ 41 # s"
        using eq(5) word_chars [of c'] by (cases y; cases "tl y") auto
      then show "rx_stuck (RxSeq (product_rx v n) RxEmpty) p cs" by (rule var)
    qed
  qed
qed

lemma extras_stop: "extrasText num_str vqs @ 41 # s = [] \<or> \<not> num_char (hd (extrasText num_str vqs @ 41 # s))"
  using extras_shape [of num_str vqs] by (auto simp: num_char_def is_digit_def word_le_nat_alt)

lemma takes_optProducts:
  assumes law: "prints_decimals num_str" and "distinct (map fst vqs)"
    "list_all (\<lambda>(v, q). wordy v \<and> decimal q) vqs"
  shows "rx_takes (optProducts n (map fst vqs)) (extrasText num_str vqs) (41 # s) cs (extraGroups num_str n vqs cs)"
  using assms(2,3)
proof (induction vqs arbitrary: n cs)
  case Nil
  then show ?case by (simp add: takes_empty)
next
  case (Cons vq vqs)
  obtain v q where vq: "vq = (v, q)" by (cases vq)
  have rest: "rx_takes (optProducts (Suc n) (map fst vqs)) (extrasText num_str vqs) (41 # s) cs' (extraGroups num_str (Suc n) vqs cs')" for cs'
    using Cons by simp
  have ok: "wordy v" "decimal q" using Cons.prems vq by auto
  note num = printed [OF law ok(2)]
  show ?case
  proof (cases "q = 0")
    case True
    have "rx_stuck (rx_seq [rx_ws, rx_text (js ''+''), rx_ws, product_rx v n]) (extrasText num_str vqs @ 41 # s) cs"
      using Cons.prems vq ok by (intro stuck_extra) (auto simp: list_all_iff)
    from takes_seq [OF takes_opt_none [OF this] rest] show ?thesis by (simp add: vq True)
  next
    case False
    have hd: "\<not> is_ws (hd (productText num_str v q @ extrasText num_str vqs @ 41 # s))"
      using ok(1) word_chars by (cases v) (auto simp: wordy_def productText_def)
    have "rx_takes (rx_seq [rx_ws, rx_text (js ''+''), rx_ws, product_rx v n]) ([32] @ js ''+'' @ [32] @ productText num_str v q)
        (extrasText num_str vqs @ 41 # s) cs ((n, num_str q) # cs)"
      by (rule takes_list_Cons [OF takes_blank], simp add: js_marks is_ws_def, rule takes_list_Cons [OF takes_text],
          rule takes_list_Cons [OF takes_blank], use hd in simp, rule takes_list_one)
        (use num extras_stop in \<open>auto simp: productText_def intro: takes_product\<close>)
    then have "rx_takes (rx_opt (rx_seq [rx_ws, rx_text (js ''+''), rx_ws, product_rx v n])) (js '' + '' @ productText num_str v q)
        (extrasText num_str vqs @ 41 # s) cs ((n, num_str q) # cs)"
      by (intro takes_opt) (simp add: js_pieces)
    from takes_seq [OF this rest] show ?thesis by (simp add: vq False)
  qed
qed

section \<open>The body of a tier\<close>

lemma join_Cons: "join sep (x # xs) = x @ concat (map (\<lambda>z. sep @ z) xs)"
  by (induction xs arbitrary: x) auto

definition basePrices :: "VisualTier \<Rightarrow> jnum \<times> jnum" where
  "basePrices t = (number_or_zero (Some (vt_input_unit_cost t)), number_or_zero (Some (vt_output_unit_cost t)))"

definition extraPrices :: "VisualTier \<Rightarrow> (jstring \<times> jnum) list" where
  "extraPrices t = map (\<lambda>(field, exprVar). (exprVar, number_or_zero (map_of (vt_costs t) field))) BILLING_CACHE_VAR_MAP"

lemma cache_map:
  "BILLING_CACHE_VAR_MAP = map (map_prod js js)
     [(''cache_read_unit_cost'', ''cr''), (''cache_create_unit_cost'', ''cc''), (''cache_create_1h_unit_cost'', ''cc1h''),
      (''image_unit_cost'', ''img''), (''image_output_unit_cost'', ''img_o''), (''audio_input_unit_cost'', ''ai''),
      (''audio_output_unit_cost'', ''ao'')]"
  by (simp add: BILLING_CACHE_VAR_MAP_def BILLING_EXTRA_VARS_def BILLING_VARS_def priceVar_def)

lemma cache_vars: "map snd BILLING_CACHE_VAR_MAP = map js [''cr'', ''cc'', ''cc1h'', ''img'', ''img_o'', ''ai'', ''ao'']"
  by (simp add: cache_map)

lemma cache_fields: "map fst BILLING_CACHE_VAR_MAP = EXTRA_COST_FIELDS"
  by (simp add: cache_map EXTRA_COST_FIELDS_def)

lemma extraPrices_vars: "map fst (extraPrices t) = map snd BILLING_CACHE_VAR_MAP"
  by (simp add: extraPrices_def split_beta comp_def)

lemma wordy_vars: "list_all wordy (map js [''p'', ''c'', ''cr'', ''cc'', ''cc1h'', ''img'', ''img_o'', ''ai'', ''ao''])"
  by (simp add: wordy_def js_def is_word_def is_digit_def)

lemma body_text:
  "buildTierBodyExpr num_str t = productText num_str (js ''p'') (fst (basePrices t)) @ js '' + '' @
     productText num_str (js ''c'') (snd (basePrices t)) @ extrasText num_str (extraPrices t)"
proof -
  have "concat (map (\<lambda>z. js '' + '' @ z) (List.map_filter (\<lambda>(field, exprVar). let v = number_or_zero (map_of (vt_costs t) field) in
           if v \<noteq> 0 then Some (productText num_str exprVar v) else None) M)) =
      extrasText num_str (map (\<lambda>(field, exprVar). (exprVar, number_or_zero (map_of (vt_costs t) field))) M)" for M
    by (induction M) (auto simp: List.map_filter_simps Let_def)
  then show ?thesis
    by (simp add: buildTierBodyExpr_def basePrices_def extraPrices_def join_Cons)
qed

text \<open>All prices are decimal fractions.\<close>

definition decimalPrices :: "VisualTier \<Rightarrow> bool" where
  "decimalPrices t \<longleftrightarrow> decimal (fst (basePrices t)) \<and> decimal (snd (basePrices t)) \<and> list_all (\<lambda>(v, q). decimal q) (extraPrices t)"

lemma extraPrices_ok:
  "decimalPrices t \<Longrightarrow> distinct (map fst (extraPrices t)) \<and> list_all (\<lambda>(v, q). wordy v \<and> decimal q) (extraPrices t)"
proof -
  assume "decimalPrices t"
  moreover have "distinct (map fst (extraPrices t))"
    by (simp add: extraPrices_vars cache_vars js_inject)
  moreover have "v \<in> fst ` set (extraPrices t) \<Longrightarrow> wordy v" for v
    using wordy_vars by (auto simp: list_all_iff set_map [symmetric] extraPrices_vars cache_vars simp del: set_map)
  ultimately show ?thesis by (force simp: decimalPrices_def list_all_iff)
qed

definition bodyGroups :: "(jnum \<Rightarrow> jstring) \<Rightarrow> nat \<Rightarrow> VisualTier \<Rightarrow> (nat \<times> jstring) list \<Rightarrow> (nat \<times> jstring) list" where
  "bodyGroups num_str n t cs = extraGroups num_str (n + 2) (extraPrices t)
     ((n + 1, num_str (snd (basePrices t))) # (n, num_str (fst (basePrices t))) # cs)"

lemma takes_body:
  assumes law: "prints_decimals num_str" and ok: "decimalPrices t"
  shows "rx_takes (body_rx n) (buildTierBodyExpr num_str t) (41 # s) cs (bodyGroups num_str n t cs)"
proof -
  obtain a b where ab: "basePrices t = (a, b)" by (cases "basePrices t")
  have dec: "decimal a" "decimal b" using ok ab by (auto simp: decimalPrices_def)
  note a = printed [OF law dec(1)] and b = printed [OF law dec(2)]
  have ws: "\<not> is_ws (hd (js ''c'' @ z))" for z by (simp add: js_def is_ws_def)
  have "rx_takes (body_rx n)
      (productText num_str (js ''p'') a @ [32] @ js ''+'' @ [32] @ productText num_str (js ''c'') b @ extrasText num_str (extraPrices t))
      (41 # s) cs (bodyGroups num_str n t cs)"
    unfolding body_rx_def productText_def
    by (rule takes_list_Cons [OF takes_product [OF a(2,1)]], simp add: num_char_def is_digit_def,
        rule takes_list_Cons [OF takes_blank], simp add: js_marks is_ws_def, rule takes_list_Cons [OF takes_text],
        rule takes_list_Cons [OF takes_blank], use ws in simp, rule takes_list_Cons [OF takes_product [OF b(2,1)]],
        use extras_stop in simp, rule takes_list_one)
      (use takes_optProducts [OF law, of "extraPrices t"] extraPrices_ok [OF ok] ab in
        \<open>simp add: bodyGroups_def extraPrices_vars\<close>)
  then show ?thesis by (simp add: body_text ab js_pieces)
qed

section \<open>Conditions\<close>

definition conditionText :: "(jnum \<Rightarrow> jstring) \<Rightarrow> TierConditionInput \<Rightarrow> jstring" where
  "conditionText num_str c = tc_var c @ js '' '' @ tc_op c @ js '' '' @ conditionValueText num_str (tc_value c)"

text \<open>A condition with a bound whose text the class \<open>[\d.eE+]\<close> of the patterns covers.\<close>

definition plainCondition :: "(jnum \<Rightarrow> jstring) \<Rightarrow> TierConditionInput \<Rightarrow> bool" where
  "plainCondition num_str c \<longleftrightarrow> tc_var c \<in> set [js ''p'', js ''c'', js ''len''] \<and> tc_op c \<in> set [js ''<'', js ''<='', js ''>'', js ''>=''] \<and>
     (\<exists>q. tc_value c = NumberValue (Some q) \<and> decimal q \<and> 45 \<notin> set (num_str q))"

lemma plain_value:
  assumes "prints_decimals num_str" "plainCondition num_str c"
  obtains q where "tc_value c = NumberValue (Some q)" "conditionValueText num_str (tc_value c) = num_str q" "num_str q \<noteq> []"
    "list_all bound_char (num_str q)" "string_number (num_str q) = Some q"
proof -
  obtain q where "tc_value c = NumberValue (Some q)" "decimal q" "45 \<notin> set (num_str q)"
    using assms(2) by (auto simp: plainCondition_def)
  with printed [OF assms(1)] that show thesis
    by (auto simp: conditionValueText_def show_number_def bound_char_def list_all_iff)
qed

lemma bound_chars: "bound_char c \<Longrightarrow> \<not> is_ws c \<and> c \<notin> {32, 38, 60, 61, 62}"
  by (auto simp: bound_char_def num_char_def is_digit_def is_ws_def word_le_nat_alt)

text \<open>The operator and the bound, with the shorter operators stuck where a longer one stands.\<close>

lemma takes_comparison:
  assumes op: "op \<in> set [js ''<'', js ''<='', js ''>'', js ''>='']" and u: "u \<noteq> []" "list_all bound_char u"
    and s: "s = [] \<or> \<not> bound_char (hd s)"
    and r: "rx_takes r [] s cs cs'"
  shows "rx_takes (RxSeq (rx_alts (map rx_text [js ''<'', js ''<='', js ''>'', js ''>=''])) (RxSeq rx_ws (RxSeq (rx_some bound_char) r)))
    (op @ 32 # u) s cs cs'"
proof (rule takes_alts_seq [OF op])
  have blank: "s' = [] \<or> \<not> is_ws (hd s')" if "s' = u @ s" for s'
    using u that bound_chars by (cases u) auto
  have "rx_takes (RxSeq (rx_text op) (RxSeq rx_ws (RxSeq (rx_some bound_char) r))) (op @ [32] @ u @ []) s cs cs'"
    by (rule takes_seq [OF takes_text], rule takes_seq [OF takes_blank], use blank in simp, rule takes_seq [OF takes_some])
      (use u s r in auto)
  then show "rx_takes (RxSeq (rx_text op) (RxSeq rx_ws (RxSeq (rx_some bound_char) r))) (op @ 32 # u) s cs cs'" by simp
next
  fix w assume w: "w \<in> set [js ''<'', js ''<='', js ''>'', js ''>='']" "w \<noteq> op"
  show "rx_stuck (RxSeq (rx_text w) (RxSeq rx_ws (RxSeq (rx_some bound_char) r))) ((op @ 32 # u) @ s) cs"
  proof (rule stuck_text_seq, rule stuck_ws_some)
    fix t assume "(op @ 32 # u) @ s = w @ t"
    with w op have "\<exists>t'. t = 61 # t'" by (auto simp: js_def)
    then show "t = [] \<or> \<not> is_ws (hd t) \<and> \<not> bound_char (hd t)"
      by (auto simp: is_ws_def bound_char_def num_char_def is_digit_def)
  qed
qed

text \<open>No variable of a condition is the beginning of another one, and an operator is not white space.\<close>

lemma condition_var:
  "v \<in> set [js ''p'', js ''c'', js ''len''] \<Longrightarrow> w \<in> set [js ''p'', js ''c'', js ''len''] \<Longrightarrow> w \<noteq> v \<Longrightarrow> \<not> prefix w (v @ s)"
  "v \<in> set [js ''p'', js ''c'', js ''len''] \<Longrightarrow> v \<noteq> [] \<and> wordy v"
  by (auto simp: js_def wordy_def is_word_def)

lemma condition_op: "op \<in> set [js ''<'', js ''<='', js ''>'', js ''>=''] \<Longrightarrow> \<exists>c e. op = c # e \<and> c \<in> {60, 62} \<and> list_all (\<lambda>d. d = 61) e"
  by (auto simp: js_def)

lemma takes_condition:
  assumes law: "prints_decimals num_str" and c: "plainCondition num_str c" and s: "s = [] \<or> \<not> bound_char (hd s)"
  shows "rx_takes condition_rx (conditionText num_str c) s cs cs"
proof -
  obtain q where q: "conditionValueText num_str (tc_value c) = num_str q" "num_str q \<noteq> []" "list_all bound_char (num_str q)"
    using plain_value [OF law c] by blast
  have v: "tc_var c \<in> set [js ''p'', js ''c'', js ''len'']" and op: "tc_op c \<in> set [js ''<'', js ''<='', js ''>'', js ''>='']"
    using c by (simp_all add: plainCondition_def)
  have tail: "rx_takes (RxSeq rx_ws (RxSeq (rx_alts (map rx_text [js ''<'', js ''<='', js ''>'', js ''>='']))
      (RxSeq rx_ws (RxSeq (rx_some bound_char) RxEmpty)))) ([32] @ (tc_op c @ 32 # num_str q)) s cs cs"
    by (rule takes_seq [OF takes_blank takes_comparison [OF op q(2,3) s takes_empty]])
      (use condition_op [OF op] in \<open>auto simp: is_ws_def\<close>)
  have "rx_takes (RxSeq (rx_alts (map rx_text [js ''p'', js ''c'', js ''len''])) (RxSeq rx_ws (RxSeq
      (rx_alts (map rx_text [js ''<'', js ''<='', js ''>'', js ''>=''])) (RxSeq rx_ws (RxSeq (rx_some bound_char) RxEmpty)))))
      (tc_var c @ ([32] @ (tc_op c @ 32 # num_str q))) s cs cs"
  proof (rule takes_alts_seq [OF v takes_seq [OF takes_text tail]])
    fix w assume "w \<in> set [js ''p'', js ''c'', js ''len'']" "w \<noteq> tc_var c"
    from condition_var(1) [OF v this] show "rx_stuck (RxSeq (rx_text w) (RxSeq rx_ws (RxSeq
      (rx_alts (map rx_text [js ''<'', js ''<='', js ''>'', js ''>=''])) (RxSeq rx_ws (RxSeq (rx_some bound_char) RxEmpty)))))
        ((tc_var c @ ([32] @ (tc_op c @ 32 # num_str q))) @ s) cs"
      by (intro stuck_seq1 stuck_text) simp
  qed
  then show ?thesis by (simp add: condition_rx_def rx_seq_def conditionText_def q(1) js_def)
qed

text \<open>Where no condition starts.\<close>

lemma stuck_condition: "s = [] \<or> hd s \<notin> {112, 99, 108} \<Longrightarrow> rx_stuck condition_rx s cs"
  unfolding condition_rx_def by (rule stuck_list_hd, rule stuck_alts) (auto simp: js_def prefix_def)

lemma takes_more_conditions:
  assumes law: "prints_decimals num_str" and "list_all (plainCondition num_str) conds" and "s = 63 # s'"
  shows "rx_takes (RxStar (RxSeq and_rx condition_rx)) (concat (map (\<lambda>c. js '' && '' @ conditionText num_str c) conds)) (32 # s) cs cs"
  using assms(2)
proof (induction conds)
  case Nil
  have "rx_stuck (RxSeq and_rx condition_rx) (32 # s) cs"
    unfolding and_rx_def rx_seq_def
    by (rule stuck_seq1) (use assms(3) in \<open>auto intro!: stuck_ws_text [of _ "[32]" s] simp: js_def is_ws_def\<close>)
  then show ?case by (simp add: takes_star_Nil)
next
  case (Cons c conds)
  let ?rest = "concat (map (\<lambda>c. js '' && '' @ conditionText num_str c) conds)"
  have "?rest = [] \<or> hd ?rest = 32" by (cases conds) (auto simp: js_def)
  then have stop: "\<not> bound_char (hd (?rest @ 32 # s))"
    by (cases ?rest) (auto simp: bound_char_def num_char_def is_digit_def)
  have hd: "\<not> is_ws (hd (conditionText num_str c @ z))" for z
    using Cons.prems condition_var(2) [of "tc_var c"] word_chars
    by (cases "tc_var c") (auto simp: conditionText_def plainCondition_def wordy_def)
  have "rx_takes and_rx ([32] @ js ''&&'' @ [32]) (conditionText num_str c @ ?rest @ 32 # s) cs cs"
    unfolding and_rx_def
    by (rule takes_list_Cons [OF takes_blank], simp add: js_def is_ws_def, rule takes_list_Cons [OF takes_text], rule takes_list_one [OF takes_blank])
      (use hd in blast)
  from takes_seq [OF this takes_condition [OF law]] Cons.prems stop
  have "rx_takes (RxSeq and_rx condition_rx) (js '' && '' @ conditionText num_str c) (?rest @ 32 # s) cs cs"
    by (simp add: js_def)
  from takes_star_Cons [OF this _ Cons.IH] Cons.prems show ?case by (simp add: js_def)
qed

definition conditionsText :: "(jnum \<Rightarrow> jstring) \<Rightarrow> TierConditionInput list \<Rightarrow> jstring" where
  "conditionsText num_str conds = join (js '' && '') (map (conditionText num_str) conds)"

lemma conditions_text:
  assumes "list_all (plainCondition num_str) conds"
  shows "buildConditionStr num_str conds = conditionsText num_str conds"
proof -
  have "filter (\<lambda>c. tc_var c \<noteq> [] \<and> tc_op c \<noteq> [] \<and> tc_value c \<noteq> TextValue []) conds = conds"
    using assms by (intro filter_True) (auto simp: list_all_iff plainCondition_def)
  then show ?thesis
    unfolding buildConditionStr_def conditionsText_def conditionText_def by (simp only:)
qed

text \<open>The guard of a tier: the text before the call, and the group it captures.\<close>

definition guardOf :: "(jnum \<Rightarrow> jstring) \<Rightarrow> TierConditionInput list \<Rightarrow> jstring" where
  "guardOf num_str conds = (if conds = [] then [] else conditionsText num_str conds @ js '' ? '')"

definition guardGroups :: "(jnum \<Rightarrow> jstring) \<Rightarrow> TierConditionInput list \<Rightarrow> (nat \<times> jstring) list" where
  "guardGroups num_str conds = (if conds = [] then [] else [(1, conditionsText num_str conds)])"

lemma takes_guard:
  assumes law: "prints_decimals num_str" and ok: "list_all (plainCondition num_str) conds" and s: "s = 116 # s'"
  shows "rx_takes guard_rx (guardOf num_str conds) s [] (guardGroups num_str conds)"
proof (cases conds)
  case Nil
  have "rx_stuck (rx_seq [RxGroup 1 (RxSeq condition_rx (RxStar (RxSeq and_rx condition_rx))), rx_ws, rx_text (js ''?''), rx_ws]) s []"
    by (rule stuck_list_hd, rule stuck_group, rule stuck_seq1, rule stuck_condition) (simp add: s)
  then show ?thesis by (simp add: Nil guardOf_def guardGroups_def guard_rx_def takes_opt_none)
next
  case (Cons c cs)
  let ?more = "concat (map (\<lambda>c. js '' && '' @ conditionText num_str c) cs)"
  have "?more = [] \<or> hd ?more = 32" by (cases cs) (auto simp: js_def)
  then have stop: "\<not> bound_char (hd (?more @ 32 # 63 # z))" for z
    by (cases ?more) (auto simp: bound_char_def num_char_def is_digit_def)
  have "rx_takes (RxSeq condition_rx (RxStar (RxSeq and_rx condition_rx))) (conditionText num_str c @ ?more) (32 # 63 # 32 # s) [] []"
    by (rule takes_seq [OF takes_condition [OF law]]) (use ok Cons stop takes_more_conditions [OF law _ refl] in auto)
  from takes_group [OF this, of 1]
  have group: "rx_takes (RxGroup 1 (RxSeq condition_rx (RxStar (RxSeq and_rx condition_rx)))) (conditionsText num_str conds)
      ([32] @ js ''?'' @ [32] @ s) [] (guardGroups num_str conds)"
    by (simp add: Cons conditionsText_def join_Cons guardGroups_def js_marks comp_def)
  have "rx_takes (rx_seq [RxGroup 1 (RxSeq condition_rx (RxStar (RxSeq and_rx condition_rx))), rx_ws, rx_text (js ''?''), rx_ws])
      (conditionsText num_str conds @ [32] @ js ''?'' @ [32]) s [] (guardGroups num_str conds)"
    by (rule takes_list_Cons [OF _ takes_list_Cons [OF takes_blank takes_list_Cons [OF takes_text takes_list_one [OF takes_blank]]]])
      (use group s in \<open>auto simp: js_marks is_ws_def\<close>)
  then show ?thesis
    unfolding guard_rx_def by (intro takes_opt) (simp add: guardOf_def Cons js_def)
qed

section \<open>Tiers\<close>

lemma takes_label:
  assumes "34 \<notin> set label" "\<not> is_ws (hd s)" "s \<noteq> []"
  shows "rx_takes (label_rx n) (js ''tier(\"'' @ label @ js ''\", '') s cs ((n, label) # cs)"
proof -
  have "rx_takes (label_rx n) (js ''tier(\"'' @ label @ js ''\",'' @ [32]) s cs ((n, label) # cs)"
    unfolding label_rx_def
    by (rule takes_list_Cons [OF takes_text takes_list_Cons [OF takes_group [OF takes_many] takes_list_Cons [OF takes_text takes_list_one [OF takes_blank]]]])
      (use assms in \<open>auto simp: list_all_iff js_def\<close>)
  then show ?thesis by (simp add: js_def)
qed

text \<open>A tier whose expression the patterns cover.\<close>

definition plainTier :: "(jnum \<Rightarrow> jstring) \<Rightarrow> VisualTier \<Rightarrow> bool" where
  "plainTier num_str t \<longleftrightarrow> vt_label t \<noteq> [] \<and> 34 \<notin> set (vt_label t) \<and> decimalPrices t \<and> list_all (plainCondition num_str) (vt_conditions t)"

definition tierText :: "(jnum \<Rightarrow> jstring) \<Rightarrow> TierConditionInput list \<Rightarrow> VisualTier \<Rightarrow> jstring" where
  "tierText num_str conds t = guardOf num_str conds @ tierCall num_str (vt_label t) t"

lemma body_hd: "\<exists>z. buildTierBodyExpr num_str t @ s = 112 # z"
  by (simp add: body_text productText_def js_def)

lemma takes_call:
  assumes law: "prints_decimals num_str" and t: "plainTier num_str t"
    and rest: "rx_takes (rx_seq rs) (buildTierBodyExpr num_str t @ js '')'') s ((n, vt_label t) # cs) cs'"
  shows "rx_takes (rx_seq (label_rx n # rs)) (tierCall num_str (vt_label t) t) s cs cs'"
proof -
  obtain z where z: "buildTierBodyExpr num_str t @ js '')'' @ s = 112 # z" using body_hd by metis
  have "rx_takes (label_rx n) (js ''tier(\"'' @ vt_label t @ js ''\", '') ((buildTierBodyExpr num_str t @ js '')'') @ s) cs ((n, vt_label t) # cs)"
    by (rule takes_label) (use t z in \<open>auto simp: plainTier_def is_ws_def\<close>)
  from takes_list_Cons [OF this rest] show ?thesis by (simp add: tierCall_def)
qed

lemma takes_tier_body:
  assumes law: "prints_decimals num_str" and t: "plainTier num_str t"
    and rest: "rx_takes (rx_seq rs) [] s (bodyGroups num_str n t cs) (bodyGroups num_str n t cs)"
  shows "rx_takes (rx_seq (body_rx n # rx_text (js '')'') # rs)) ((buildTierBodyExpr num_str t @ js '')'')) s cs (bodyGroups num_str n t cs)"
proof -
  have "rx_takes (body_rx n) (buildTierBodyExpr num_str t) ((js '')'' @ []) @ s) cs (bodyGroups num_str n t cs)"
    using takes_body [OF law, of t n s cs] t by (simp add: plainTier_def js_marks)
  from takes_list_Cons [OF this takes_list_Cons [OF takes_text]] rest show ?thesis by simp
qed

lemma takes_tier:
  assumes law: "prints_decimals num_str" and t: "plainTier num_str t" and conds: "list_all (plainCondition num_str) conds"
  shows "rx_takes tier_rx (tierText num_str conds t) s [] (bodyGroups num_str 3 t ((2, vt_label t) # guardGroups num_str conds))"
proof -
  have call: "rx_takes (rx_seq [label_rx 2, body_rx 3, rx_text (js '')'')]) (tierCall num_str (vt_label t) t) s (guardGroups num_str conds)
      (bodyGroups num_str 3 t ((2, vt_label t) # guardGroups num_str conds))"
    by (rule takes_call [OF law t takes_tier_body [OF law t takes_list_Nil]])
  have "\<exists>s'. tierCall num_str (vt_label t) t @ s = 116 # s'"
    by (simp add: tierCall_def js_def)
  with takes_list_Cons [OF takes_guard [OF law conds] call] show ?thesis
    by (auto simp: tier_rx_def tierText_def)
qed

text \<open>The pattern of the price display: the body is any text without a closing parenthesis.\<close>

lemma extras_no_paren: "list_all (\<lambda>(v, q). wordy v \<and> decimal q) vqs \<Longrightarrow> prints_decimals num_str \<Longrightarrow> 41 \<notin> set (extrasText num_str vqs)"
proof (induction vqs)
  case (Cons vq vqs)
  obtain v q where vq: "vq = (v, q)" by (cases vq)
  have "41 \<notin> set v" "41 \<notin> set (num_str q)"
    using Cons.prems printed(2) [OF Cons.prems(2), of q] word_chars num_chars by (auto simp: vq wordy_def list_all_iff)
  with Cons show ?case by (auto simp: vq productText_def js_def)
qed simp

lemma body_no_paren: "prints_decimals num_str \<Longrightarrow> plainTier num_str t \<Longrightarrow> 41 \<notin> set (buildTierBodyExpr num_str t)"
proof -
  assume law: "prints_decimals num_str" and "plainTier num_str t"
  then have ok: "decimalPrices t" by (simp add: plainTier_def)
  have "41 \<notin> set (num_str (fst (basePrices t)))" "41 \<notin> set (num_str (snd (basePrices t)))"
    using ok printed(2) [OF law] num_chars by (auto simp: decimalPrices_def list_all_iff)
  then show ?thesis
    using extras_no_paren [of "extraPrices t" num_str] extraPrices_ok [OF ok] law by (simp add: body_text productText_def js_def)
qed

lemma takes_any_tier:
  assumes law: "prints_decimals num_str" and t: "plainTier num_str t" and conds: "list_all (plainCondition num_str) conds"
  shows "rx_takes any_tier_rx (tierText num_str conds t) s []
    ((3, buildTierBodyExpr num_str t) # (2, vt_label t) # guardGroups num_str conds)"
proof -
  have "rx_takes (rx_some (\<lambda>c. c \<noteq> 41)) (buildTierBodyExpr num_str t) ((js '')'' @ []) @ s) cs cs" for cs
    using body_no_paren [OF law t] body_hd [of num_str t "[]"] by (intro takes_some) (auto simp: js_marks list_all_iff)
  from takes_list_Cons [OF takes_group [OF this] takes_list_Cons [OF takes_text takes_list_Nil]]
  have "rx_takes (rx_seq [RxGroup 3 (rx_some (\<lambda>c. c \<noteq> 41)), rx_text (js '')'')]) (buildTierBodyExpr num_str t @ js '')'') s cs
      ((3, buildTierBodyExpr num_str t) # cs)" for cs
    by simp
  from takes_call [OF law t this] have call: "rx_takes (rx_seq [label_rx 2, RxGroup 3 (rx_some (\<lambda>c. c \<noteq> 41)), rx_text (js '')'')])
      (tierCall num_str (vt_label t) t) s (guardGroups num_str conds)
      ((3, buildTierBodyExpr num_str t) # (2, vt_label t) # guardGroups num_str conds)" .
  have "\<exists>s'. tierCall num_str (vt_label t) t @ s = 116 # s'"
    by (simp add: tierCall_def js_def)
  with takes_list_Cons [OF takes_guard [OF law conds] call] show ?thesis
    by (auto simp: any_tier_rx_def tierText_def)
qed

text \<open>Between two tiers nothing matches.\<close>

lemma stuck_tier:
  assumes "s = [] \<or> hd s \<notin> {112, 99, 108, 116}"
  shows "rx_stuck (rx_seq (guard_rx # label_rx 2 # rs)) s cs"
proof -
  have "rx_stuck (rx_seq [RxGroup 1 (RxSeq condition_rx (RxStar (RxSeq and_rx condition_rx))), rx_ws, rx_text (js ''?''), rx_ws]) s cs"
    by (rule stuck_list_hd, rule stuck_group, rule stuck_seq1, rule stuck_condition) (use assms in auto)
  moreover have "rx_stuck (rx_seq (label_rx 2 # rs)) s cs"
    unfolding label_rx_def by (rule stuck_list_hd, rule stuck_list_hd, rule stuck_text) (use assms in \<open>auto simp: js_def prefix_def\<close>)
  ultimately show ?thesis
    unfolding guard_rx_def rx_seq_def [of "_ # _"] by (simp add: rx_seq_def [symmetric] stuck_opt_seq)
qed

lemma tier_patterns_consume: "0 < rx_min tier_rx" "0 < rx_min any_tier_rx"
  by (simp_all add: tier_rx_def any_tier_rx_def rx_seq_def label_rx_def guard_rx_def rx_opt_def rx_text_def js_def)

text \<open>The texts of a list of tiers: all but the last one have a guard.\<close>

fun tierTexts :: "(jnum \<Rightarrow> jstring) \<Rightarrow> VisualTier list \<Rightarrow> jstring list" where
  "tierTexts num_str [] = []"
| "tierTexts num_str [t] = [tierText num_str [] t]"
| "tierTexts num_str (t # ts) = tierText num_str (vt_conditions t) t # tierTexts num_str ts"

fun keptConditions :: "VisualTier list \<Rightarrow> TierConditionInput list list" where
  "keptConditions [] = []"
| "keptConditions [t] = [[]]"
| "keptConditions (t # ts) = vt_conditions t # keptConditions ts"

lemma all_tiers:
  assumes stuck: "\<And>b c s. c \<in> {32, 58} \<Longrightarrow> rx_fails r (b, c # s, [])" and min: "0 < rx_min r"
    and takes: "\<And>t conds s. plainTier num_str t \<Longrightarrow> list_all (plainCondition num_str) conds \<Longrightarrow>
      rx_takes r (tierText num_str conds t) s [] (groups t conds)"
    and ts: "list_all (plainTier num_str) ts"
  shows "rx_all r b (join (js '' : '') (tierTexts num_str ts)) = map2 groups ts (keptConditions ts)"
  using ts
proof (induction ts arbitrary: b rule: induct_list012)
  case 1
  then show ?case by (simp add: rx_all_Nil [OF min])
next
  case (2 t)
  have "rx_first r (b, tierText num_str [] t @ [], []) (rev (tierText num_str [] t) @ b, [], groups t [])"
    using takes [of t "[]" "[]"] 2 by (simp add: rx_takes_def)
  from rx_all_here [OF this] show ?case by (simp add: rx_all_Nil [OF min] tierText_def tierCall_def js_def)
next
  case (3 t t' ts)
  let ?T = "tierText num_str (vt_conditions t) t" and ?rest = "join (js '' : '') (tierTexts num_str (t' # ts))"
  have "tierTexts num_str (t' # ts) \<noteq> []" by (cases ts) auto
  then have joined: "join (js '' : '') (tierTexts num_str (t # t' # ts)) = ?T @ js '' : '' @ ?rest"
    by (cases "tierTexts num_str (t' # ts)") auto
  have ok: "plainTier num_str t" "list_all (plainCondition num_str) (vt_conditions t)" "?T \<noteq> []"
    using "3.prems" by (auto simp: plainTier_def tierText_def tierCall_def js_def)
  have "rx_first r (b, ?T @ js '' : '' @ ?rest, []) (rev ?T @ b, js '' : '' @ ?rest, groups t (vt_conditions t))"
    using takes [OF ok(1,2)] by (simp add: rx_takes_def)
  from rx_all_here [OF this ok(3)] have "rx_all r b (?T @ js '' : '' @ ?rest) = groups t (vt_conditions t) # rx_all r (rev ?T @ b) (js '' : '' @ ?rest)" .
  also have "rx_all r (rev ?T @ b) (js '' : '' @ ?rest) = rx_all r (32 # 58 # 32 # rev ?T @ b) ?rest"
    by (simp add: js_def rx_all_skip [OF stuck min])
  finally show ?case using joined "3.IH"(2) "3.prems" by simp
qed

section \<open>Reading conditions\<close>

lemma and_rx_text: "and_rx = RxSeq rx_ws (RxSeq (rx_text (38 # [38])) (RxSeq rx_ws RxEmpty))"
  by (simp add: and_rx_def rx_seq_def js_and)

lemma stuck_and:
  assumes "w \<noteq> []" "38 \<notin> set w" "\<not> is_ws (last w)"
  shows "rx_stuck and_rx (w @ s) cs"
proof -
  obtain x where x: "x \<in> set w" "\<not> is_ws x" using assms(1,3) last_in_set by blast
  then have drop: "dropWhile is_ws (w @ s) = dropWhile is_ws w @ s"
    by (rule dropWhile_append1)
  have ne: "dropWhile is_ws w \<noteq> []" using x by auto
  then have "hd (dropWhile is_ws w) \<in> set w" "\<not> is_ws (hd (dropWhile is_ws w))"
    using hd_dropWhile set_dropWhileD by (metis list.set_sel(1), blast)
  with assms(2) ne have "hd (dropWhile is_ws (w @ s)) \<noteq> 38" "\<not> is_ws (hd (dropWhile is_ws (w @ s)))"
    unfolding drop by auto
  moreover have "dropWhile is_ws (w @ s) \<noteq> []" using ne drop by simp
  ultimately obtain e t where e: "dropWhile is_ws (w @ s) = e # t" "e \<noteq> 38" "\<not> is_ws e"
    by (cases "dropWhile is_ws (w @ s)") auto
  then have "w @ s = takeWhile is_ws (w @ s) @ (e # t)"
    by (metis takeWhile_dropWhile_id)
  moreover have "list_all is_ws (takeWhile is_ws (w @ s))"
    by (metis list_all_iff set_takeWhileD)
  ultimately show ?thesis
    unfolding and_rx_text by (rule stuck_ws_text) (use e in \<open>auto simp: is_ws_def [of 38]\<close>)
qed

lemma search_and:
  assumes "38 \<notin> set w" "w = [] \<or> \<not> is_ws (last w)" "s \<noteq> []" "\<not> is_ws (hd s)"
  shows "\<exists>b'. rx_search and_rx b (w @ js '' && '' @ s) = Some (w, b', s, [])"
  using assms(1,2)
proof (induction w arbitrary: b)
  case Nil
  have "rx_takes and_rx ([32] @ js ''&&'' @ [32]) s [] []"
    unfolding and_rx_def
    by (rule takes_list_Cons [OF takes_blank], simp add: js_def is_ws_def, rule takes_list_Cons [OF takes_text], rule takes_list_one [OF takes_blank])
      (use assms in blast)
  then have "rx_match and_rx (b, js '' && '' @ s, []) Some = Some (rev (js '' && '') @ b, s, [])"
    by (intro rx_first_match) (simp add: rx_takes_def js_def)
  then show ?case by (simp add: rx_search.simps [of and_rx b "js '' && '' @ s"])
next
  case (Cons c w)
  have "rx_match and_rx (b, (c # w) @ js '' && '' @ s, []) Some = None"
    using stuck_and [of "c # w" "js '' && '' @ s" "[]"] Cons.prems unfolding rx_stuck_def rx_fails_def by blast
  moreover obtain b' where "rx_search and_rx (c # b) (w @ js '' && '' @ s) = Some (w, b', s, [])"
    using Cons.IH [of "c # b"] Cons.prems by (auto split: if_splits)
  ultimately show ?case by (simp add: rx_search.simps [of and_rx b "c # w @ js '' && '' @ s"])
qed

lemma search_and_None: "38 \<notin> set w \<Longrightarrow> rx_search and_rx b w = None"
proof (induction w arbitrary: b)
  case Nil
  have "rx_search and_rx b [] = None"
    using rx_search_consumes [of and_rx b "[]"]
    by (cases "rx_search and_rx b []") (auto simp: and_rx_def rx_seq_def rx_text_def js_def)
  then show ?case .
next
  case (Cons c w)
  have "rx_match and_rx (b, c # w, []) k = None" for k
  proof -
    have "c # w = takeWhile is_ws (c # w) @ dropWhile is_ws (c # w)" by (metis takeWhile_dropWhile_id)
    moreover have "list_all is_ws (takeWhile is_ws (c # w))"
      by (metis list_all_iff set_takeWhileD)
    moreover have "dropWhile is_ws (c # w) = [] \<or> \<not> is_ws (hd (dropWhile is_ws (c # w)))"
      using hd_dropWhile by blast
    moreover have "\<not> prefix (38 # [38]) (dropWhile is_ws (c # w))"
      using Cons.prems set_dropWhileD [of 38 is_ws "c # w"] by (auto simp: prefix_def simp del: dropWhile.simps)
    ultimately have "rx_stuck and_rx (c # w) []"
      unfolding and_rx_text by (intro stuck_ws_text [of "c # w" "takeWhile is_ws (c # w)" "dropWhile is_ws (c # w)"])
        (simp_all add: is_ws_def [of 38] del: dropWhile.simps takeWhile.simps)
    then show ?thesis by (simp add: rx_stuck_def rx_fails_def)
  qed
  then show ?case using Cons by (simp add: rx_search.simps [of and_rx b "c # w"])
qed

lemma condition_ends:
  assumes "prints_decimals num_str" "plainCondition num_str c"
  shows "38 \<notin> set (conditionText num_str c)" "conditionText num_str c \<noteq> []" "\<not> is_ws (last (conditionText num_str c))"
    "\<not> is_ws (hd (conditionText num_str c))"
proof -
  obtain q where q: "conditionValueText num_str (tc_value c) = num_str q" "num_str q \<noteq> []" "list_all bound_char (num_str q)"
    using plain_value [OF assms] by blast
  have v: "tc_var c \<noteq> []" "wordy (tc_var c)" and op: "tc_op c \<in> set [js ''<'', js ''<='', js ''>'', js ''>='']"
    using condition_var(2) [of "tc_var c"] assms(2) by (simp_all add: plainCondition_def)
  obtain o' e where o': "tc_op c = o' # e" "o' \<in> {60, 62}" "list_all (\<lambda>d. d = 61) e"
    using condition_op [OF op] by blast
  have "38 \<notin> set (tc_var c)" "38 \<notin> set (num_str q)"
    using v(2) q(3) word_chars bound_chars unfolding wordy_def list_all_iff by fastforce+
  then show "38 \<notin> set (conditionText num_str c)"
    using q(1) o' by (auto simp: conditionText_def list_all_iff js_def)
  show "conditionText num_str c \<noteq> []" by (simp add: conditionText_def js_def)
  have "last (num_str q) \<in> set (num_str q)" using q(2) by simp
  then show "\<not> is_ws (last (conditionText num_str c))"
    using q bound_chars by (auto simp: conditionText_def list_all_iff)
  have "hd (tc_var c) \<in> set (tc_var c)" using v(1) by simp
  then show "\<not> is_ws (hd (conditionText num_str c))"
    using v word_chars by (auto simp: conditionText_def wordy_def list_all_iff)
qed

lemma split_conditions:
  assumes law: "prints_decimals num_str" and "list_all (plainCondition num_str) conds" "conds \<noteq> []"
  shows "rx_split and_rx b (conditionsText num_str conds) = map (conditionText num_str) conds"
  using assms(2,3)
proof (induction conds arbitrary: b rule: induct_list012)
  case (2 c)
  then have "rx_search and_rx b (conditionText num_str c) = None"
    using search_and_None condition_ends(1) [OF law] by simp
  then show ?case by (simp add: conditionsText_def rx_split.simps [of and_rx b "conditionText num_str c"])
next
  case (3 c d cs)
  let ?rest = "conditionsText num_str (d # cs)"
  have rest: "?rest \<noteq> []" "hd ?rest = hd (conditionText num_str d)"
    using condition_ends(2) [OF law, of d] "3.prems" by (auto simp: conditionsText_def join_Cons)
  have joined: "conditionsText num_str (c # d # cs) = conditionText num_str c @ js '' && '' @ ?rest"
    by (simp add: conditionsText_def)
  obtain b' where "rx_search and_rx b (conditionText num_str c @ js '' && '' @ ?rest) = Some (conditionText num_str c, b', ?rest, [])"
    using search_and [of "conditionText num_str c" ?rest b] condition_ends [OF law] rest "3.prems" by auto
  then have "rx_split and_rx b (conditionsText num_str (c # d # cs)) = conditionText num_str c # rx_split and_rx b' ?rest"
    unfolding joined by (simp add: rx_split.simps [of and_rx b "conditionText num_str c @ js '' && '' @ ?rest"])
  with "3.IH"(2) "3.prems" show ?case by simp
qed simp

text \<open>One condition, with its groups.\<close>

lemma takes_group_comparison:
  assumes op: "op \<in> set [js ''<'', js ''<='', js ''>'', js ''>='']" and u: "u \<noteq> []" "list_all bound_char u"
  shows "rx_takes (RxSeq (RxGroup 2 (rx_alts (map rx_text [js ''<'', js ''<='', js ''>'', js ''>='']))) (RxSeq rx_ws
      (RxSeq (RxGroup 3 (rx_some bound_char)) (RxSeq RxEnd RxEmpty)))) (op @ 32 # u) [] cs ((3, u) # (2, op) # cs)"
proof (rule takes_group_alts_seq [OF op])
  have blank: "\<not> is_ws (hd u)"
    using u bound_chars by (cases u) auto
  have "rx_takes (RxSeq (RxGroup 2 (rx_text op)) (RxSeq rx_ws (RxSeq (RxGroup 3 (rx_some bound_char)) (RxSeq RxEnd RxEmpty))))
      (op @ [32] @ u @ []) [] cs ((3, u) # (2, op) # cs)"
    by (rule takes_seq [OF takes_group [OF takes_text] takes_seq [OF takes_blank takes_seq [OF takes_group [OF takes_some] takes_final_end]]])
      (use blank u in auto)
  then show "rx_takes (RxSeq (RxGroup 2 (rx_text op)) (RxSeq rx_ws (RxSeq (RxGroup 3 (rx_some bound_char)) (RxSeq RxEnd RxEmpty))))
      (op @ 32 # u) [] cs ((3, u) # (2, op) # cs)" by simp
next
  fix w assume w: "w \<in> set [js ''<'', js ''<='', js ''>'', js ''>='']" "w \<noteq> op"
  show "rx_stuck (RxSeq (RxGroup 2 (rx_text w)) (RxSeq rx_ws (RxSeq (RxGroup 3 (rx_some bound_char)) (RxSeq RxEnd RxEmpty)))) ((op @ 32 # u) @ []) cs"
  proof (rule stuck_group_text_seq, rule stuck_ws_group_some)
    fix t assume "(op @ 32 # u) @ [] = w @ t"
    with w op have "\<exists>t'. t = 61 # t'" by (auto simp: js_def)
    then show "t = [] \<or> \<not> is_ws (hd t) \<and> \<not> bound_char (hd t)"
      by (auto simp: is_ws_def bound_char_def num_char_def is_digit_def)
  qed
qed

lemma read_condition:
  assumes law: "prints_decimals num_str" and c: "plainCondition num_str c"
  shows "parseConditionPart (conditionText num_str c) = Some c"
proof -
  obtain q where q: "tc_value c = NumberValue (Some q)" "conditionValueText num_str (tc_value c) = num_str q" "num_str q \<noteq> []"
    "list_all bound_char (num_str q)" "string_number (num_str q) = Some q"
    using plain_value [OF law c] by blast
  have v: "tc_var c \<in> set [js ''p'', js ''c'', js ''len'']" and op: "tc_op c \<in> set [js ''<'', js ''<='', js ''>'', js ''>='']"
    using c by (simp_all add: plainCondition_def)
  let ?tail = "RxSeq rx_ws (RxSeq (RxGroup 2 (rx_alts (map rx_text [js ''<'', js ''<='', js ''>'', js ''>='']))) (RxSeq rx_ws
      (RxSeq (RxGroup 3 (rx_some bound_char)) (RxSeq RxEnd RxEmpty))))"
  have tail: "rx_takes ?tail ([32] @ (tc_op c @ 32 # num_str q)) [] cs ((3, num_str q) # (2, tc_op c) # cs)" for cs
    by (rule takes_seq [OF takes_blank takes_group_comparison [OF op q(3,4)]]) (use condition_op [OF op] in \<open>auto simp: is_ws_def\<close>)
  have "rx_takes (RxSeq (RxGroup 1 (rx_alts (map rx_text [js ''p'', js ''c'', js ''len'']))) ?tail)
      (tc_var c @ ([32] @ (tc_op c @ 32 # num_str q))) [] [] [(3, num_str q), (2, tc_op c), (1, tc_var c)]"
  proof (rule takes_group_alts_seq [OF v takes_seq [OF takes_group [OF takes_text] tail]])
    fix w assume "w \<in> set [js ''p'', js ''c'', js ''len'']" "w \<noteq> tc_var c"
    from condition_var(1) [OF v this] show "rx_stuck (RxSeq (RxGroup 1 (rx_text w)) ?tail) ((tc_var c @ ([32] @ (tc_op c @ 32 # num_str q))) @ []) []"
      by (intro stuck_seq1 stuck_group stuck_text) simp
  qed
  then have "rx_anchored one_condition_rx (conditionText num_str c) = Some [(3, num_str q), (2, tc_op c), (1, tc_var c)]"
    by (intro anchored_takes) (simp add: one_condition_rx_def rx_seq_def conditionText_def q(2) js_def)
  moreover have "trim (conditionText num_str c) = conditionText num_str c"
    using condition_ends [OF law c] by (intro trim_fixed)
  ultimately show ?thesis
    using q by (simp add: parseConditionPart_def captured_text_def)
qed

lemma read_conditions:
  assumes law: "prints_decimals num_str" and ok: "list_all (plainCondition num_str) conds"
  shows "parseConditionText (captured_text (guardGroups num_str conds) 1) = conds"
proof (cases "conds = []")
  case False
  have "List.map_filter parseConditionPart (map (conditionText num_str) conds) = conds"
    using ok by (induction conds) (simp_all add: List.map_filter_simps read_condition [OF law])
  moreover have "conditionsText num_str conds \<noteq> []"
    using False condition_ends(2) [OF law] ok by (cases conds) (auto simp: conditionsText_def join_Cons)
  ultimately show ?thesis
    using False split_conditions [OF law ok False] by (simp add: guardGroups_def captured_text_def parseConditionText_def)
qed (simp add: guardGroups_def captured_text_def parseConditionText_def)

section \<open>What the groups give\<close>

lemma extraGroups_lookup:
  "map_of (extraGroups num_str m vqs cs) k =
     (if m \<le> k \<and> k < m + length vqs \<and> snd (vqs ! (k - m)) \<noteq> 0 then Some (num_str (snd (vqs ! (k - m)))) else map_of cs k)"
proof (induction vqs arbitrary: m cs k)
  case (Cons vq vqs)
  obtain v q where vq: "vq = (v, q)" by (cases vq)
  consider "k < m" | "k = m" | "m < k" by linarith
  then show ?case
  proof cases
    case 3
    then obtain j where "k = Suc (m + j)" using less_imp_Suc_add by blast
    then show ?thesis by (auto simp: vq Cons.IH)
  qed (auto simp: vq Cons.IH)
qed auto

text \<open>The tier as the editor shows it again: base prices that are no number are \<open>0\<close>, and the cache mode follows from the prices.\<close>

definition reopenedTier :: "VisualTier \<Rightarrow> VisualTier" where
  "reopenedTier t = normalizeVisualTier ((asPartial t)\<lparr>pt_input_unit_cost := Some (Some (fst (basePrices t))),
     pt_output_unit_cost := Some (Some (snd (basePrices t))), pt_cache_mode := None\<rparr>)"

lemma enumerate_groups:
  "map_of (List.map_filter (\<lambda>(i, field, exprVar). map_option (\<lambda>val. (field, g val)) (h i)) (enumerate m M)) field =
     (case find (\<lambda>(i, f, v). f = field \<and> h i \<noteq> None) (enumerate m M) of Some (i, f, v) \<Rightarrow> Some (g (the (h i))) | None \<Rightarrow> None)"
  by (induction M arbitrary: m) (auto simp: List.map_filter_simps split: option.splits)

lemma find_found: "find P xs = Some x \<Longrightarrow> P x \<and> x \<in> set xs"
  by (induction xs) (auto split: if_splits)

lemma captured_cost:
  assumes law: "prints_decimals num_str" and ok: "decimalPrices t" and j: "j < length BILLING_CACHE_VAR_MAP"
    and h: "\<And>i. i < length BILLING_CACHE_VAR_MAP \<Longrightarrow> h i = (if snd (extraPrices t ! i) \<noteq> 0 then Some (num_str (snd (extraPrices t ! i))) else None)"
  shows "number_or_zero (map_of (List.map_filter (\<lambda>(i, field, exprVar). map_option (\<lambda>val. (field, string_number val)) (h i))
      (enumerate 0 BILLING_CACHE_VAR_MAP)) (fst (BILLING_CACHE_VAR_MAP ! j))) = snd (extraPrices t ! j)"
proof -
  let ?M = BILLING_CACHE_VAR_MAP and ?P = "\<lambda>(i, f, v). f = fst (BILLING_CACHE_VAR_MAP ! j) \<and> h i \<noteq> None"
  have distinct: "distinct (map fst ?M)" by (simp add: cache_map js_inject)
  have only_j: "i = j" if "(i, f, v) \<in> set (enumerate 0 ?M)" "f = fst (?M ! j)" for i f v
  proof -
    have "i < length ?M" "?M ! i = (f, v)" using that(1) by (auto simp: in_set_enumerate_eq)
    with distinct j that(2) show ?thesis by (metis distinct_map fst_conv inj_onD nth_eq_iff_index_eq nth_mem)
  qed
  have dec: "decimal (snd (extraPrices t ! j))"
    using ok j by (auto simp: decimalPrices_def list_all_length extraPrices_def split_beta)
  show ?thesis
  proof (cases "snd (extraPrices t ! j) = 0")
    case True
    have "find ?P (enumerate 0 ?M) = None"
      using only_j h [OF j] True by (fastforce simp: find_None_iff)
    with True show ?thesis by (simp add: enumerate_groups number_or_zero_def)
  next
    case False
    obtain f v where M: "?M ! j = (f, v)" by (cases "?M ! j")
    then have "(j, f, v) \<in> set (enumerate 0 ?M)" using j by (simp add: in_set_enumerate_eq)
    moreover have "h j \<noteq> None" using h [OF j] False by simp
    then have "?P (j, f, v)" by (simp add: M)
    ultimately have "find ?P (enumerate 0 ?M) \<noteq> None"
      unfolding find_None_iff by blast
    then obtain x where x: "find ?P (enumerate 0 ?M) = Some x" by auto
    have "?P x" "x \<in> set (enumerate 0 ?M)" using find_found [OF x] by simp_all
    then have "fst x = j" using only_j by (cases x) auto
    with x h [OF j] False printed(3) [OF law dec] show ?thesis
      by (cases x) (simp add: enumerate_groups number_or_zero_def)
  qed
qed

lemma captured_tier:
  assumes law: "prints_decimals num_str" and t: "plainTier num_str t" and n: "\<And>k. k > n \<Longrightarrow> map_of cs k = None"
  shows "capturedTier n conds (bodyGroups num_str (n + 1) t ((n, vt_label t) # cs)) = (reopenedTier t)\<lparr>vt_conditions := conds\<rparr>"
proof -
  let ?m = "bodyGroups num_str (n + 1) t ((n, vt_label t) # cs)"
  have ok: "decimalPrices t" "decimal (fst (basePrices t))" "decimal (snd (basePrices t))"
    using t by (simp_all add: plainTier_def decimalPrices_def)
  have len: "length (extraPrices t) = length BILLING_CACHE_VAR_MAP" by (simp add: extraPrices_def)
  have m: "map_of ?m k = (if n + 3 \<le> k \<and> k < n + 3 + length BILLING_CACHE_VAR_MAP \<and> snd (extraPrices t ! (k - (n + 3))) \<noteq> 0
      then Some (num_str (snd (extraPrices t ! (k - (n + 3)))))
      else if k = n + 2 then Some (num_str (snd (basePrices t))) else if k = n + 1 then Some (num_str (fst (basePrices t)))
      else if k = n then Some (vt_label t) else map_of cs k)" for k
    by (simp add: bodyGroups_def extraGroups_lookup len numeral_3_eq_3)
  let ?costs = "List.map_filter (\<lambda>(i, field, exprVar). map_option (\<lambda>val. (field, string_number val)) (map_of ?m (n + 3 + i)))
      (enumerate 0 BILLING_CACHE_VAR_MAP)"
  have cost: "number_or_zero (map_of ?costs field) = number_or_zero (map_of (vt_costs t) field)" if field: "field \<in> set EXTRA_COST_FIELDS" for field
  proof -
    obtain j where "j < length (map fst BILLING_CACHE_VAR_MAP)" "map fst BILLING_CACHE_VAR_MAP ! j = field"
      using field unfolding cache_fields [symmetric] in_set_conv_nth by blast
    then have j: "j < length BILLING_CACHE_VAR_MAP" "field = fst (BILLING_CACHE_VAR_MAP ! j)" by auto
    have "number_or_zero (map_of ?costs field) = snd (extraPrices t ! j)"
      unfolding j(2) by (rule captured_cost [OF law ok(1) j(1)]) (simp only: m, use n in simp)
    then show ?thesis using j by (simp add: extraPrices_def split_beta)
  qed
  have mode: "js ''cache_create_1h_unit_cost'' \<in> set EXTRA_COST_FIELDS" by (simp add: EXTRA_COST_FIELDS_def)
  have groups: "captured_text ?m n = vt_label t" "string_number (captured_text ?m (n + 1)) = Some (fst (basePrices t))"
    "string_number (captured_text ?m (n + 2)) = Some (snd (basePrices t))"
    unfolding captured_text_def m by (simp_all add: printed(3) [OF law ok(2)] printed(3) [OF law ok(3)])
  show ?thesis
    unfolding capturedTier_def groups reopenedTier_def
    using cost mode by (simp add: normalizeVisualTier_def asPartial_def getTierCacheMode_def)
qed

lemma guardGroups_late: "k > 2 \<Longrightarrow> map_of (guardGroups num_str conds) k = None"
  by (simp add: guardGroups_def)

section \<open>The generated text\<close>

text \<open>Configurations whose tiers are all reachable: every tier but the last has conditions, and of several tiers the last has none.\<close>

definition plainConfig :: "(jnum \<Rightarrow> jstring) \<Rightarrow> VisualConfig \<Rightarrow> bool" where
  "plainConfig num_str ts \<longleftrightarrow> ts \<noteq> [] \<and> list_all (plainTier num_str) ts \<and>
     list_all (\<lambda>t. vt_conditions t \<noteq> []) (butlast ts) \<and> (length ts \<noteq> 1 \<longrightarrow> vt_conditions (last ts) = [])"

lemma condition_str:
  "prints_decimals num_str \<Longrightarrow> plainTier num_str t \<Longrightarrow> buildConditionStr num_str (vt_conditions t) = conditionsText num_str (vt_conditions t) \<and>
     (conditionsText num_str (vt_conditions t) = [] \<longleftrightarrow> vt_conditions t = [])"
  using condition_ends(2) [of num_str "hd (vt_conditions t)"]
  by (cases "vt_conditions t") (auto simp: plainTier_def conditions_text conditionsText_def join_Cons)

lemma parts_text:
  assumes law: "prints_decimals num_str"
  shows "list_all (plainTier num_str) ts \<Longrightarrow> list_all (\<lambda>t. vt_conditions t \<noteq> []) (butlast ts) \<Longrightarrow> tierParts num_str i ts = tierTexts num_str ts"
proof (induction ts arbitrary: i rule: induct_list012)
  case (2 t)
  then show ?case by (simp add: Let_def tierText_def guardOf_def plainTier_def or_str_def)
next
  case (3 t t' ts)
  then show ?case
    using condition_str [OF law, of t] by (simp add: Let_def tierText_def guardOf_def plainTier_def or_str_def)
qed simp

lemma generated_text:
  assumes law: "prints_decimals num_str" and ok: "plainConfig num_str ts"
  shows "generateExprFromVisualConfig num_str (Some ts) =
    (if length ts = 1 \<and> vt_conditions (hd ts) \<noteq> [] then tierText num_str (vt_conditions (hd ts)) (hd ts) @ js '' : p * 0 + c * 0''
     else join (js '' : '') (tierTexts num_str ts))"
proof -
  consider t where "ts = [t]" | t t' us where "ts = t # t' # us"
    using ok by (cases ts; cases "tl ts") (auto simp: plainConfig_def)
  then show ?thesis
  proof cases
    case 1
    then have t: "plainTier num_str t" using ok by (simp add: plainConfig_def)
    then have "or_str (Some (vt_label t)) d = vt_label t" for d by (simp add: plainTier_def or_str_def)
    with condition_str [OF law t] 1 show ?thesis
      by (auto simp: generateExprFromVisualConfig_def tierText_def guardOf_def Let_def js_def)
  next
    case 2
    then have "generateExprFromVisualConfig num_str (Some ts) = join (js '' : '') (tierParts num_str 0 ts)"
      by (simp add: generateExprFromVisualConfig_def)
    also have "tierParts num_str 0 ts = tierTexts num_str ts"
      using ok by (intro parts_text [OF law]) (auto simp: plainConfig_def)
    finally show ?thesis using 2 by simp
  qed
qed

text \<open>Opening a tier again changes nothing that its expression shows.\<close>

lemma map_of_fields: "field \<in> set fs \<Longrightarrow> map_of (map (\<lambda>f. (f, g f)) fs) field = Some (g field)"
  by (induction fs) auto

lemma reopened_shows:
  "vt_label (reopenedTier t) = vt_label t" "vt_conditions (reopenedTier t) = vt_conditions t"
  "basePrices (reopenedTier t) = basePrices t" "extraPrices (reopenedTier t) = extraPrices t"
proof -
  have "number_or_zero (map_of (vt_costs (reopenedTier t)) field) = number_or_zero (map_of (vt_costs t) field)"
    if "(field, v) \<in> set BILLING_CACHE_VAR_MAP" for field v
  proof -
    have "field \<in> set EXTRA_COST_FIELDS" using that by (force simp: cache_fields [symmetric])
    then show ?thesis
      by (simp add: reopenedTier_def normalizeVisualTier_def asPartial_def map_of_fields) (simp add: number_or_zero_def)
  qed
  then show "extraPrices (reopenedTier t) = extraPrices t" by (auto simp: extraPrices_def)
qed (simp_all add: reopenedTier_def normalizeVisualTier_def asPartial_def basePrices_def number_or_zero_def)

lemma renormalized: "normalizeVisualTier (asPartial (normalizeVisualTier p)) = normalizeVisualTier p"
  by (simp add: normalizeVisualTier_def asPartial_def map_of_fields) (simp add: number_or_zero_def)

lemma reopened_call: "tierCall num_str l (reopenedTier t) = tierCall num_str l t"
  by (simp add: tierCall_def body_text reopened_shows)

lemma reopened_generated: "generateExprFromVisualConfig num_str (Some (map reopenedTier ts)) = generateExprFromVisualConfig num_str (Some ts)"
proof -
  have parts: "tierParts num_str i (map reopenedTier ts) = tierParts num_str i ts" for i ts
    by (induction ts arbitrary: i) (simp_all add: reopened_call reopened_shows Let_def)
  consider "ts = []" | t where "ts = [t]" | t t' us where "ts = t # t' # us"
    by (cases ts; cases "tl ts") auto
  then show ?thesis
  proof cases
    case 3
    then show ?thesis
      using parts [of 0 "t # t' # us"] by (simp add: generateExprFromVisualConfig_def del: tierParts.simps)
  qed (simp_all add: generateExprFromVisualConfig_def reopened_call reopened_shows Let_def)
qed

lemma kept_conditions: "ts \<noteq> [] \<Longrightarrow> vt_conditions (last ts) = [] \<Longrightarrow> keptConditions ts = map vt_conditions ts"
  by (induction ts rule: keptConditions.induct) auto

lemma text_start: "plainTier num_str t \<Longrightarrow> list_all (plainCondition num_str) conds \<Longrightarrow>
    \<exists>c z. tierText num_str conds t @ s = c # z \<and> (if conds = [] then c = 116 else c \<in> {112, 99, 108})"
  by (cases conds) (auto simp: tierText_def guardOf_def tierCall_def conditionsText_def join_Cons conditionText_def plainCondition_def js_def)

text \<open>The constant price after a single tier with conditions holds no tier.\<close>

lemma stuck_product_condition: "v \<in> {112, 99} \<Longrightarrow> rx_stuck condition_rx (v # 32 # 42 # s) cs"
proof -
  assume v: "v \<in> {112, 99}"
  have "rx_stuck (RxSeq rx_ws (RxSeq (rx_alts (map rx_text [js ''<'', js ''<='', js ''>'', js ''>=''])) r)) (32 # 42 # s) cs" for r
  proof (rule stuck_many_seq, rule stuck_seq1, rule stuck_alts)
    fix u x w assume "32 # 42 # s = u @ x" "list_all is_ws u" "w \<in> set [js ''<'', js ''<='', js ''>'', js ''>='']"
    then show "\<not> prefix w x"
      by (cases u; cases "tl u") (auto simp: js_def is_ws_def prefix_def)
  qed
  then show ?thesis
    unfolding condition_rx_def rx_seq_def foldr.simps comp_def
    by (intro stuck_alts_seq stuck_text_seq) (use v in \<open>auto simp: js_def\<close>)
qed

lemma stuck_product_tier:
  assumes "v \<in> {112, 99}"
  shows "rx_stuck (rx_seq (guard_rx # label_rx 2 # rs)) (v # 32 # 42 # s) cs"
proof -
  have "rx_stuck (rx_seq [RxGroup 1 (RxSeq condition_rx (RxStar (RxSeq and_rx condition_rx))), rx_ws, rx_text (js ''?''), rx_ws]) (v # 32 # 42 # s) cs"
    by (rule stuck_list_hd, rule stuck_group, rule stuck_seq1, rule stuck_product_condition [OF assms])
  moreover have "rx_stuck (rx_seq (label_rx 2 # rs)) (v # 32 # 42 # s) cs"
    unfolding label_rx_def by (rule stuck_list_hd, rule stuck_list_hd, rule stuck_text) (use assms in \<open>auto simp: js_def prefix_def\<close>)
  ultimately show ?thesis
    unfolding guard_rx_def rx_seq_def [of "_ # _"] by (simp add: rx_seq_def [symmetric] stuck_opt_seq)
qed

lemma all_tail:
  assumes "0 < rx_min (rx_seq (guard_rx # label_rx 2 # rs))"
  shows "rx_all (rx_seq (guard_rx # label_rx 2 # rs)) b (js '' : p * 0 + c * 0'') = []"
proof -
  let ?r = "rx_seq (guard_rx # label_rx 2 # rs)"
  have fail: "rx_fails ?r (b, c # s, [])" if "c \<notin> {112, 99, 108, 116} \<or> c \<in> {112, 99} \<and> (\<exists>s'. s = 32 # 42 # s')" for b c s
    using that stuck_tier [of "c # s"] stuck_product_tier [of c] unfolding rx_stuck_def by auto
  show ?thesis
    by (simp add: js_def rx_all_skip [OF fail assms] rx_all_Nil [OF assms])
qed

lemma generated_matches:
  assumes law: "prints_decimals num_str" and ok: "plainConfig num_str ts"
    and takes: "\<And>t conds s. plainTier num_str t \<Longrightarrow> list_all (plainCondition num_str) conds \<Longrightarrow>
      rx_takes (rx_seq (guard_rx # label_rx 2 # rs)) (tierText num_str conds t) s [] (groups t conds)"
    and min: "0 < rx_min (rx_seq (guard_rx # label_rx 2 # rs))"
  shows "rx_all (rx_seq (guard_rx # label_rx 2 # rs)) [] (generateExprFromVisualConfig num_str (Some ts)) = map (\<lambda>t. groups t (vt_conditions t)) ts"
proof (cases "length ts = 1 \<and> vt_conditions (hd ts) \<noteq> []")
  case True
  then obtain t where ts: "ts = [t]" "vt_conditions t \<noteq> []" by (cases ts) auto
  have t: "plainTier num_str t" "list_all (plainCondition num_str) (vt_conditions t)"
    using ok ts by (simp_all add: plainConfig_def plainTier_def)
  let ?T = "tierText num_str (vt_conditions t) t"
  have first: "rx_first (rx_seq (guard_rx # label_rx 2 # rs)) ([], ?T @ js '' : p * 0 + c * 0'', []) (rev ?T @ [], js '' : p * 0 + c * 0'', groups t (vt_conditions t))"
    using takes [OF t] unfolding rx_takes_def by blast
  have "?T \<noteq> []" using text_start [OF t, of "[]"] by auto
  from rx_all_here [OF first this] show ?thesis
    using True ts generated_text [OF law ok] by (simp add: all_tail [OF min])
next
  case False
  then have "vt_conditions (last ts) = []" "ts \<noteq> []"
    using ok by (cases ts; auto simp: plainConfig_def)+
  then have "map2 groups ts (keptConditions ts) = map (\<lambda>t. groups t (vt_conditions t)) ts"
    by (simp add: kept_conditions zip_map2) (simp add: zip_same_conv_map)
  moreover have "rx_fails (rx_seq (guard_rx # label_rx 2 # rs)) (b, c # s, [])" if "c \<in> {32, 58}" for b c s
    using stuck_tier [where s = "c # s" and rs = rs and cs = "[]"] that unfolding rx_stuck_def by auto
  ultimately show ?thesis
    using False ok all_tiers [OF _ min takes, where ts = ts and b = "[]"] by (auto simp: generated_text [OF law ok] plainConfig_def)
qed

lemma generated_start:
  assumes "prints_decimals num_str" "plainConfig num_str ts"
  shows "\<exists>c z. generateExprFromVisualConfig num_str (Some ts) = c # z \<and> c \<in> {116, 112, 99, 108} \<and>
    (\<not> (length ts = 1 \<and> vt_conditions (hd ts) = []) \<longrightarrow> c \<noteq> 116)"
proof -
  obtain t us where ts: "ts = t # us" using assms(2) by (cases ts) (auto simp: plainConfig_def)
  have t: "plainTier num_str t" "list_all (plainCondition num_str) (vt_conditions t)"
    using assms(2) ts by (simp_all add: plainConfig_def plainTier_def)
  show ?thesis
  proof (cases us)
    case Nil
    then show ?thesis
      using generated_text [OF assms] ts text_start [OF t, of "js '' : p * 0 + c * 0''"] text_start [OF t(1), of "[]" "[]"] t by (auto split: if_splits)
  next
    case (Cons t' us')
    have "tierTexts num_str us \<noteq> []" using Cons by (cases us') auto
    moreover have "vt_conditions t \<noteq> []" using assms(2) ts Cons by (simp add: plainConfig_def)
    ultimately show ?thesis
      using generated_text [OF assms] ts Cons text_start [OF t, of "js '' : '' @ join (js '' : '') (tierTexts num_str us)"]
      by (cases "tierTexts num_str us") (auto split: if_splits)
  qed
qed

lemma no_version: "c \<noteq> 118 \<Longrightarrow> rx_anchored version_rx (c # z) = None"
  unfolding version_rx_def by (intro anchored_stuck stuck_list_hd stuck_text) (auto simp: js_def prefix_def)

lemma reads_single:
  assumes "prints_decimals num_str" "plainTier num_str t"
  shows "capturedTier 1 conds (bodyGroups num_str 2 t [(1, vt_label t)]) = (reopenedTier t)\<lparr>vt_conditions := conds\<rparr>"
  using captured_tier [OF assms, of 1 "[]" conds] by (simp only: one_add_one map_of.simps simp_thms)

lemma reads_call:
  assumes "prints_decimals num_str" "plainTier num_str t"
  shows "capturedTier 2 conds (bodyGroups num_str 3 t ((2, vt_label t) # guardGroups num_str cs)) = (reopenedTier t)\<lparr>vt_conditions := conds\<rparr>"
proof -
  have "(2::nat) + 1 = 3" by simp
  with captured_tier [OF assms, of 2 "guardGroups num_str cs" conds] guardGroups_late show ?thesis by metis
qed

lemma version_of_generated:
  assumes "prints_decimals num_str" "plainConfig num_str ts"
  shows "rx_anchored version_rx (generateExprFromVisualConfig num_str (Some ts)) = None"
proof -
  obtain c z where "generateExprFromVisualConfig num_str (Some ts) = c # z" "c \<in> {116, 112, 99, 108}"
    using generated_start [OF assms] by blast
  then show ?thesis using no_version [of c z] by auto
qed

lemma takes_single:
  assumes law: "prints_decimals num_str" and t: "plainTier num_str t"
  shows "rx_anchored single_rx (tierText num_str [] t) = Some (bodyGroups num_str 2 t [(1, vt_label t)])"
proof (rule anchored_takes)
  have "rx_takes (rx_seq [label_rx 1, body_rx 2, rx_text (js '')''), RxEnd]) (tierCall num_str (vt_label t) t) [] []
      (bodyGroups num_str 2 t [(1, vt_label t)])"
    by (rule takes_call [OF law t takes_tier_body [OF law t takes_list_one [OF takes_end]]])
  then show "rx_takes single_rx (tierText num_str [] t) [] [] (bodyGroups num_str 2 t [(1, vt_label t)])"
    by (simp add: single_rx_def tierText_def guardOf_def)
qed

lemma single_fails: "c \<noteq> 116 \<Longrightarrow> rx_anchored single_rx (c # z) = None"
  unfolding single_rx_def label_rx_def by (intro anchored_stuck stuck_list_hd stuck_text) (auto simp: js_def prefix_def)

section \<open>Prices of a body\<close>

lemma takes_price:
  assumes v: "v \<in> set (map bv_key BILLING_PRICING_VARS)" and u: "list_all num_char u" "u \<noteq> []" and s: "s = [] \<or> \<not> num_char (hd s)"
    and b: "b = [] \<or> \<not> is_word (hd b)"
  shows "rx_first BILLING_VAR_REGEX (b, (v @ js '' * '' @ u) @ s, []) (rev (v @ js '' * '' @ u) @ b, s, [(2, u), (1, v)])"
proof -
  let ?vs = "map bv_key BILLING_PRICING_VARS"
  have words: "list_all wordy ?vs" using wordy_vars by (simp add: BILLING_PRICING_VARS_def BILLING_VARS_def priceVar_def)
  let ?r = "RxSeq rx_ws (RxSeq (rx_text (js ''*'')) (RxSeq rx_ws (RxSeq (RxGroup 2 (rx_some num_char)) RxEmpty)))"
  have hd: "\<not> is_ws (hd (u @ s))" using u num_chars by (cases u) auto
  have "rx_takes (RxSeq (RxGroup 1 (rx_text v)) ?r) (v @ [32] @ js ''*'' @ [32] @ u @ []) s [] [(2, u), (1, v)]"
    by (rule takes_seq [OF takes_group [OF takes_text]], rule takes_seq [OF takes_blank], simp add: js_marks is_ws_def,
        rule takes_seq [OF takes_text], rule takes_seq [OF takes_blank], use hd in simp,
        rule takes_seq [OF takes_group [OF takes_some] takes_empty]) (use u s in auto)
  then have "rx_takes (RxSeq (RxGroup 1 (rx_text v)) ?r) (v @ js '' * '' @ u) s [] [(2, u), (1, v)]"
    by (simp add: js_pieces)
  moreover have "rx_stuck (RxSeq (RxGroup 1 (rx_text w)) ?r) ((v @ js '' * '' @ u) @ s) []" if "w \<in> set ?vs" "w \<noteq> v" for w
  proof -
    have "wordy w" "wordy v" using words that v by (auto simp: list_all_iff)
    from stuck_other_group_product [OF this that(2), where s = "42 # 32 # u @ s"] show ?thesis by (simp add: js_def)
  qed
  ultimately have "rx_takes (RxSeq (RxGroup 1 (rx_alts (map rx_text ?vs))) ?r) (v @ js '' * '' @ u) s [] [(2, u), (1, v)]"
    using v by (intro takes_group_alts_seq) auto
  moreover have "at_boundary (b, (v @ js '' * '' @ u) @ s, [])"
    using v words b by (cases v) (auto simp: at_boundary_def list_all_iff wordy_def)
  ultimately show ?thesis
    unfolding BILLING_VAR_REGEX_def rx_seq_def by (simp add: rx_takes_def rx_first_def comp_def)
qed

lemma stuck_price: "\<not> is_word c \<Longrightarrow> rx_fails BILLING_VAR_REGEX (b, c # s, [])"
proof -
  assume c: "\<not> is_word c"
  have "rx_stuck (rx_alts (map rx_text (map bv_key BILLING_PRICING_VARS))) (c # s) []"
  proof (rule stuck_alts)
    fix w assume "w \<in> set (map bv_key BILLING_PRICING_VARS)"
    then have "wordy w"
      using wordy_vars by (auto simp: BILLING_PRICING_VARS_def BILLING_VARS_def priceVar_def)
    with c show "\<not> prefix w (c # s)" by (cases w) (auto simp: wordy_def)
  qed
  then have "rx_stuck (RxSeq (RxGroup 1 (rx_alts (map rx_text (map bv_key BILLING_PRICING_VARS)))) r) (c # s) []" for r
    by (intro stuck_seq1 stuck_group)
  then show ?thesis
    unfolding BILLING_VAR_REGEX_def rx_seq_def by (simp add: rx_stuck_def rx_fails_def comp_def)
qed

lemma price_consumes: "0 < rx_min BILLING_VAR_REGEX"
  by (simp add: BILLING_VAR_REGEX_def rx_seq_def rx_some_def rx_text_def js_def)

lemma skip_plus:
  "rx_all BILLING_VAR_REGEX b (js '' + '' @ s) = rx_all BILLING_VAR_REGEX (rev (js '' + '') @ b) s"
proof -
  have "\<not> is_word 32" "\<not> is_word 43" by (simp_all add: is_word_def is_digit_def)
  then show ?thesis by (simp add: js_def rx_all_skip [OF stuck_price price_consumes])
qed

lemma all_extra_prices:
  assumes law: "prints_decimals num_str"
  shows "list_all (\<lambda>(v, q). v \<in> set (map bv_key BILLING_PRICING_VARS) \<and> decimal q) vqs \<Longrightarrow>
    rx_all BILLING_VAR_REGEX b (extrasText num_str vqs) = map (\<lambda>(v, q). [(2, num_str q), (1, v)]) (filter (\<lambda>(v, q). q \<noteq> 0) vqs)"
proof (induction vqs arbitrary: b)
  case Nil
  then show ?case by (simp add: rx_all_Nil [OF price_consumes])
next
  case (Cons vq vqs)
  obtain v q where vq: "vq = (v, q)" by (cases vq)
  have ok: "v \<in> set (map bv_key BILLING_PRICING_VARS)" "decimal q" using Cons.prems vq by auto
  note num = printed [OF law ok(2)]
  show ?case
  proof (cases "q = 0")
    case False
    have stop: "extrasText num_str vqs = [] \<or> \<not> num_char (hd (extrasText num_str vqs))"
      using extras_shape [of num_str vqs] by (auto simp: num_char_def is_digit_def)
    have "rev (js '' + '') @ b = 32 # 43 # 32 # b" by (simp add: js_def)
    then have "rx_first BILLING_VAR_REGEX (rev (js '' + '') @ b, (v @ js '' * '' @ num_str q) @ extrasText num_str vqs, [])
        (rev (v @ js '' * '' @ num_str q) @ rev (js '' + '') @ b, extrasText num_str vqs, [(2, num_str q), (1, v)])"
      by (intro takes_price [OF ok(1) num(2,1) stop]) (simp add: is_word_def is_digit_def)
    from rx_all_here [OF this] have "rx_all BILLING_VAR_REGEX (rev (js '' + '') @ b) ((v @ js '' * '' @ num_str q) @ extrasText num_str vqs) =
        [(2, num_str q), (1, v)] # rx_all BILLING_VAR_REGEX (rev (v @ js '' * '' @ num_str q) @ rev (js '' + '') @ b) (extrasText num_str vqs)"
      by (simp add: js_def)
    with Cons False vq show ?thesis
      using skip_plus [of b "(v @ js '' * '' @ num_str q) @ extrasText num_str vqs"] by (simp add: productText_def)
  qed (use Cons vq in simp)
qed

text \<open>The table of prices that the display computes from a tier.\<close>

definition shownPrices :: "VisualTier \<Rightarrow> (jstring \<times> jnum) list" where
  "shownPrices t =
     [(js ''inputPrice'', fst (basePrices t)), (js ''outputPrice'', snd (basePrices t))] @
     zip (map js [''cacheReadPrice'', ''cacheCreatePrice'', ''cacheCreate1hPrice'', ''imagePrice'', ''imageOutputPrice'',
        ''audioInputPrice'', ''audioOutputPrice'']) (map snd (extraPrices t))"

lemma key_to_field:
  "BILLING_VAR_KEY_TO_FIELD = map (map_prod js js)
     [(''p'', ''inputPrice''), (''c'', ''outputPrice''), (''cr'', ''cacheReadPrice''), (''cc'', ''cacheCreatePrice''),
      (''cc1h'', ''cacheCreate1hPrice''), (''img'', ''imagePrice''), (''img_o'', ''imageOutputPrice''), (''ai'', ''audioInputPrice''),
      (''ao'', ''audioOutputPrice'')]"
  by (simp add: BILLING_VAR_KEY_TO_FIELD_def BILLING_PRICING_VARS_def BILLING_VARS_def priceVar_def)

lemma pricing_vars: "map bv_key BILLING_PRICING_VARS = map js [''p'', ''c'', ''cr'', ''cc'', ''cc1h'', ''img'', ''img_o'', ''ai'', ''ao'']"
  by (simp add: BILLING_PRICING_VARS_def BILLING_VARS_def priceVar_def)

lemma body_prices:
  assumes law: "prints_decimals num_str" and ok: "decimalPrices t"
  shows "rx_all BILLING_VAR_REGEX [] (buildTierBodyExpr num_str t) =
    [(2, num_str (fst (basePrices t))), (1, js ''p'')] # [(2, num_str (snd (basePrices t))), (1, js ''c'')] #
    map (\<lambda>(v, q). [(2, num_str q), (1, v)]) (filter (\<lambda>(v, q). q \<noteq> 0) (extraPrices t))"
proof -
  obtain a b where ab: "basePrices t = (a, b)" by (cases "basePrices t")
  have dec: "decimal a" "decimal b" using ok ab by (auto simp: decimalPrices_def)
  note a = printed [OF law dec(1)] and b = printed [OF law dec(2)]
  let ?p = "js ''p'' @ js '' * '' @ num_str a" and ?c = "js ''c'' @ js '' * '' @ num_str b" and ?E = "extrasText num_str (extraPrices t)"
  have vars: "js ''p'' \<in> set (map bv_key BILLING_PRICING_VARS)" "js ''c'' \<in> set (map bv_key BILLING_PRICING_VARS)"
    by (simp_all add: pricing_vars)
  have extras: "list_all (\<lambda>(v, q). v \<in> set (map bv_key BILLING_PRICING_VARS) \<and> decimal q) (extraPrices t)"
  proof -
    have "v \<in> set (map bv_key BILLING_PRICING_VARS)" if "(v, q) \<in> set (extraPrices t)" for v q
    proof -
      have "v \<in> set (map fst (extraPrices t))" using that by force
      then show ?thesis unfolding extraPrices_vars cache_vars pricing_vars by auto
    qed
    with ok show ?thesis by (auto simp: decimalPrices_def list_all_iff)
  qed
  have stop: "?E = [] \<or> \<not> num_char (hd ?E)" "\<not> num_char (hd (js '' + '' @ z))" for z
    using extras_shape [of num_str "extraPrices t"] by (auto simp: num_char_def is_digit_def js_def)
  have "rx_first BILLING_VAR_REGEX ([], ?p @ js '' + '' @ ?c @ ?E, []) (rev ?p @ [], js '' + '' @ ?c @ ?E, [(2, num_str a), (1, js ''p'')])"
    by (rule takes_price [OF vars(1) a(2,1)]) (use stop in auto)
  from rx_all_here [OF this] have 1: "rx_all BILLING_VAR_REGEX [] (?p @ js '' + '' @ ?c @ ?E) =
      [(2, num_str a), (1, js ''p'')] # rx_all BILLING_VAR_REGEX (rev ?p @ []) (js '' + '' @ ?c @ ?E)"
    by (simp add: js_def)
  have "rx_first BILLING_VAR_REGEX (rev (js '' + '') @ rev ?p @ [], ?c @ ?E, [])
      (rev ?c @ rev (js '' + '') @ rev ?p @ [], ?E, [(2, num_str b), (1, js ''c'')])"
    by (rule takes_price [OF vars(2) b(2,1) stop(1)]) (simp add: js_def is_word_def is_digit_def)
  from rx_all_here [OF this] have 2: "rx_all BILLING_VAR_REGEX (rev (js '' + '') @ rev ?p @ []) (?c @ ?E) =
      [(2, num_str b), (1, js ''c'')] # rx_all BILLING_VAR_REGEX (rev ?c @ rev (js '' + '') @ rev ?p @ []) ?E"
    by (simp add: js_def)
  have "buildTierBodyExpr num_str t = ?p @ js '' + '' @ ?c @ ?E"
    by (simp add: body_text ab productText_def)
  then show ?thesis
    by (simp only: 1 2 skip_plus all_extra_prices [OF law extras] ab fst_conv snd_conv)
qed

lemma extra_coefficient:
  assumes law: "prints_decimals num_str" and "distinct (map fst vqs)" "list_all (\<lambda>(v, q). decimal q) vqs" "(v, q) \<in> set vqs"
  shows "number_or_zero (map_of (map (\<lambda>m. (captured_text m 1, string_number (captured_text m 2)))
      (map (\<lambda>(v, q). [(2, num_str q), (1, v)]) (filter (\<lambda>(v, q). q \<noteq> 0) vqs))) v) = q"
  using assms(2-4)
proof (induction vqs)
  case (Cons vq vqs)
  obtain w r where vq: "vq = (w, r)" by (cases vq)
  have dec: "decimal r" using Cons.prems vq by simp
  show ?case
  proof (cases "w = v")
    case True
    then have "r = q" using Cons.prems vq by force
    have "number_or_zero (map_of (map (\<lambda>m. (captured_text m 1, string_number (captured_text m 2)))
      (map (\<lambda>(v, q). [(2, num_str q), (1, v)]) (filter (\<lambda>(v, q). q \<noteq> 0) vqs))) v) = 0" (is "number_or_zero (map_of ?M v) = 0")
    proof -
      have "v \<notin> fst ` set ?M" using Cons.prems(1) vq True by (force simp: captured_text_def)
      then have "map_of ?M v = None" by (simp add: map_of_eq_None_iff)
      then show ?thesis by (simp only: number_or_zero_def option.case)
    qed
    then show ?thesis
      using True \<open>r = q\<close> vq printed(3) [OF law dec] by (auto simp: captured_text_def) (simp add: number_or_zero_def)
  next
    case False
    then show ?thesis using Cons vq by (auto simp: captured_text_def)
  qed
qed simp

lemma read_body:
  assumes law: "prints_decimals num_str" and ok: "decimalPrices t"
  shows "parseTierBody (buildTierBodyExpr num_str t) = shownPrices t"
proof -
  obtain a b where ab: "basePrices t = (a, b)" by (cases "basePrices t")
  have dec: "decimal a" "decimal b" using ok ab by (auto simp: decimalPrices_def)
  let ?coeffs = "map (\<lambda>m. (captured_text m 1, string_number (captured_text m 2))) (rx_all BILLING_VAR_REGEX [] (buildTierBodyExpr num_str t))"
  let ?extra = "map (\<lambda>m. (captured_text m 1, string_number (captured_text m 2))) (map (\<lambda>(v, q). [(2, num_str q), (1, v)]) (filter (\<lambda>(v, q). q \<noteq> 0) (extraPrices t)))"
  have coeffs: "?coeffs = (js ''p'', Some a) # (js ''c'', Some b) # ?extra"
    unfolding body_prices [OF assms] ab fst_conv snd_conv by (simp add: captured_text_def printed(3) [OF law dec(1)] printed(3) [OF law dec(2)])
  have coeff: "number_or_zero (map_of ?extra v) = q" if "(v, q) \<in> set (extraPrices t)" for v q
    by (rule extra_coefficient [OF law _ _ that]) (use ok extraPrices_ok [OF ok] in \<open>auto simp: decimalPrices_def\<close>)
  have extra: "number_or_zero (map_of ?coeffs v) = q" if vq: "(v, q) \<in> set (extraPrices t)" for v q
  proof -
    have "v \<in> set (map fst (extraPrices t))" using vq by force
    then have "v \<noteq> js ''p''" "v \<noteq> js ''c''" unfolding extraPrices_vars cache_vars by (auto simp: js_inject)
    then have "map_of ((js ''p'', Some a) # (js ''c'', Some b) # es) v = map_of es v" for es by simp
    then show ?thesis by (simp only: coeffs coeff [OF vq])
  qed
  have base: "number_or_zero (map_of ?coeffs (js ''p'')) = a" "number_or_zero (map_of ?coeffs (js ''c'')) = b"
    unfolding coeffs by (simp_all add: js_inject number_or_zero_def)
  obtain q1 q2 q3 q4 q5 q6 q7 where E: "extraPrices t = zip (map js [''cr'', ''cc'', ''cc1h'', ''img'', ''img_o'', ''ai'', ''ao'']) [q1, q2, q3, q4, q5, q6, q7]"
    by (simp add: extraPrices_def cache_map)
  have e: "number_or_zero (map_of ?coeffs (js ''cr'')) = q1" "number_or_zero (map_of ?coeffs (js ''cc'')) = q2"
    "number_or_zero (map_of ?coeffs (js ''cc1h'')) = q3" "number_or_zero (map_of ?coeffs (js ''img'')) = q4"
    "number_or_zero (map_of ?coeffs (js ''img_o'')) = q5" "number_or_zero (map_of ?coeffs (js ''ai'')) = q6"
    "number_or_zero (map_of ?coeffs (js ''ao'')) = q7"
    by (rule extra, simp add: E)+
  show ?thesis
    unfolding parseTierBody_def Let_def key_to_field shownPrices_def ab E
    by (simp only: list.map map_prod_simp prod.case base e fst_conv snd_conv) simp
qed

section \<open>The two readers\<close>

lemma opens_single:
  assumes "e \<noteq> []" "rx_anchored version_rx e = None" "rx_anchored single_rx e = Some m"
  shows "tryParseVisualConfig num_str (Some e) = Some (normalizeVisualConfig (Some [capturedTier 1 [] m]))"
  using assms by (simp add: tryParseVisualConfig_def)

lemma opens_several:
  assumes "e \<noteq> []" "rx_anchored version_rx e = None" "rx_anchored single_rx e = None"
    "map (\<lambda>m. capturedTier 2 (parseConditionText (captured_text m 1)) m) (rx_all tier_rx [] e) = tiers" "tiers \<noteq> []"
    "generateExprFromVisualConfig num_str (Some (normalizeVisualConfig (Some tiers))) = e"
  shows "tryParseVisualConfig num_str (Some e) = Some (normalizeVisualConfig (Some tiers))"
  using assms by (simp add: tryParseVisualConfig_def Let_def)

text \<open>The editor opens what it has written.\<close>

lemma visual_reads:
  assumes law: "prints_decimals num_str" and ok: "plainConfig num_str ts"
  shows "tryParseVisualConfig num_str (Some (generateExprFromVisualConfig num_str (Some ts))) = Some (map reopenedTier ts)"
proof -
  let ?e = "generateExprFromVisualConfig num_str (Some ts)"
  obtain c z where e: "?e = c # z" "c \<in> {116, 112, 99, 108}" and single: "\<not> (length ts = 1 \<and> vt_conditions (hd ts) = []) \<Longrightarrow> c \<noteq> 116"
    using generated_start [OF assms] by blast
  have ts: "ts \<noteq> []" "list_all (plainTier num_str) ts" using ok by (simp_all add: plainConfig_def)
  have normal: "normalizeVisualConfig (Some (map reopenedTier ts)) = map reopenedTier ts"
    using ts(1) by (simp add: normalizeVisualConfig_def reopenedTier_def renormalized comp_def)
  show ?thesis
  proof (cases "length ts = 1 \<and> vt_conditions (hd ts) = []")
    case True
    then obtain t where t: "ts = [t]" "vt_conditions t = []" by (cases ts) auto
    then have plain: "plainTier num_str t" using ts by simp
    have printed_text: "?e = tierText num_str [] t" using True t generated_text [OF assms] by simp
    have "(reopenedTier t)\<lparr>vt_conditions := []\<rparr> = reopenedTier t"
      using reopened_shows(2) [of t] t by (simp add: reopenedTier_def normalizeVisualTier_def asPartial_def)
    then have "capturedTier 1 [] (bodyGroups num_str 2 t [(1, vt_label t)]) = reopenedTier t"
      using reads_single [OF law plain, of "[]"] by (simp only:)
    moreover have "?e \<noteq> []" using e by simp
    moreover have "rx_anchored single_rx ?e = Some (bodyGroups num_str 2 t [(1, vt_label t)])"
      using takes_single [OF law plain] by (simp only: printed_text)
    ultimately have "tryParseVisualConfig num_str (Some ?e) = Some (normalizeVisualConfig (Some [reopenedTier t]))"
      using opens_single [OF _ version_of_generated [OF assms]] by presburger
    with normal show ?thesis by (simp only: t list.map)
  next
    case False
    have "rx_all tier_rx [] ?e = map (\<lambda>t. bodyGroups num_str 3 t ((2, vt_label t) # guardGroups num_str (vt_conditions t))) ts"
      using generated_matches [OF assms, of "[body_rx 3, rx_text (js '')'')]", folded tier_rx_def, OF takes_tier [OF law] tier_patterns_consume(1)] .
    moreover have "capturedTier 2 (parseConditionText (captured_text (bodyGroups num_str 3 t ((2, vt_label t) # guardGroups num_str (vt_conditions t))) 1))
        (bodyGroups num_str 3 t ((2, vt_label t) # guardGroups num_str (vt_conditions t))) = reopenedTier t" if "t \<in> set ts" for t
    proof -
      have t: "plainTier num_str t" using ts(2) that by (simp add: list_all_iff)
      have "captured_text (bodyGroups num_str 3 t ((2, vt_label t) # guardGroups num_str (vt_conditions t))) 1 = captured_text (guardGroups num_str (vt_conditions t)) 1"
        by (simp add: captured_text_def bodyGroups_def extraGroups_lookup)
      then have "parseConditionText (captured_text (bodyGroups num_str 3 t ((2, vt_label t) # guardGroups num_str (vt_conditions t))) 1) = vt_conditions t"
        using read_conditions [OF law] t by (simp add: plainTier_def)
      moreover have "(reopenedTier t)\<lparr>vt_conditions := vt_conditions t\<rparr> = reopenedTier t"
        using reopened_shows(2) [of t] by (simp add: reopenedTier_def normalizeVisualTier_def asPartial_def)
      ultimately show ?thesis
        using reads_call [OF law t] by (simp only:)
    qed
    ultimately have "map (\<lambda>m. capturedTier 2 (parseConditionText (captured_text m 1)) m) (rx_all tier_rx [] ?e) = map reopenedTier ts"
      by simp
    moreover have "?e \<noteq> []" "rx_anchored single_rx ?e = None"
      using single [OF False] e single_fails [of c z] by auto
    ultimately show ?thesis
      using opens_several [of ?e] version_of_generated [OF assms] normal ts(1) reopened_generated [of num_str ts] by simp
  qed
qed

text \<open>The price display shows what the editor has written.\<close>

lemma display_reads:
  assumes law: "prints_decimals num_str" and ok: "plainConfig num_str ts"
  shows "parseTiersFromExpr (generateExprFromVisualConfig num_str (Some ts)) =
    map (\<lambda>t. \<lparr>rt_label = vt_label t, rt_conditions = vt_conditions t, rt_prices = shownPrices t\<rparr>) ts"
proof -
  let ?e = "generateExprFromVisualConfig num_str (Some ts)"
  have nonempty: "?e \<noteq> []" using generated_start [OF assms] by auto
  have "rx_all any_tier_rx [] ?e = map (\<lambda>t. (3, buildTierBodyExpr num_str t) # (2, vt_label t) # guardGroups num_str (vt_conditions t)) ts"
    using generated_matches [OF assms, of "[RxGroup 3 (rx_some (\<lambda>c. c \<noteq> 41)), rx_text (js '')'')]", folded any_tier_rx_def,
        OF takes_any_tier [OF law] tier_patterns_consume(2)] .
  moreover have "parseConditionText (captured_text ((3, buildTierBodyExpr num_str t) # (2, vt_label t) # guardGroups num_str (vt_conditions t)) 1) = vt_conditions t"
    "parseTierBody (buildTierBodyExpr num_str t) = shownPrices t" if "t \<in> set ts" for t
    using that ok read_conditions [OF law, of "vt_conditions t"] read_body [OF law, of t]
    by (auto simp: plainConfig_def plainTier_def list_all_iff captured_text_def)
  ultimately show ?thesis
    using nonempty version_of_generated [OF assms] by (simp add: parseTiersFromExpr_def stripExprVersion_def captured_text_def)
qed

section \<open>Properties\<close>

text \<open>
  C16. Both readers of a billing expression agree with its writer: for every configuration of tiers with labels that are
  not empty and have no quotes, decimal prices, and conditions whose bounds have no minus sign in their text, where every
  tier but the last has a condition and the last of several none, the tiered pricing editor opens the generated
  expression with the same labels, conditions and prices, generates the same expression from them again, and
  the price display reads from it, tier by tier, the label, the conditions and the prices.
\<close>

theorem tier_expression_reads_back:
  assumes "prints_decimals num_str" "plainConfig num_str ts"
  shows "let e = generateExprFromVisualConfig num_str (Some ts) in
    (\<exists>cfg. tryParseVisualConfig num_str (Some e) = Some cfg \<and> map vt_label cfg = map vt_label ts \<and>
       map vt_conditions cfg = map vt_conditions ts \<and> map basePrices cfg = map basePrices ts \<and>
       map extraPrices cfg = map extraPrices ts \<and> generateExprFromVisualConfig num_str (Some cfg) = e) \<and>
    parseTiersFromExpr e = map (\<lambda>t. \<lparr>rt_label = vt_label t, rt_conditions = vt_conditions t, rt_prices = shownPrices t\<rparr>) ts"
proof -
  let ?cfg = "map reopenedTier ts"
  have "map vt_label ?cfg = map vt_label ts" "map vt_conditions ?cfg = map vt_conditions ts"
    "map basePrices ?cfg = map basePrices ts" "map extraPrices ?cfg = map extraPrices ts"
    by (simp_all add: reopened_shows)
  with visual_reads [OF assms] display_reads [OF assms] reopened_generated [of num_str ts] show ?thesis
    unfolding Let_def by blast
qed

text \<open>Two tiers, split at 2000 tokens. The format prints the bound as JavaScript does.\<close>

definition demo_format :: "jnum \<Rightarrow> jstring" where
  "demo_format q = (if q = 2000 then js ''2000'' else dec_str q)"

lemma demo_format_prints: "prints_decimals demo_format"
proof -
  have "p_num (js ''2000'') = Some (2000, [])"
    by (simp add: p_num_def p_int_def p_frac_def p_exp_def is_digit_def js_def) code_simp
  then show ?thesis
    using dec_str_prints by (auto simp: prints_decimals_def reads_back_def demo_format_def)
qed

definition demo_tiers :: VisualConfig where
  "demo_tiers =
     [\<lparr>vt_label = js ''short'', vt_conditions = [\<lparr>tc_var = js ''len'', tc_op = js ''<='', tc_value = NumberValue (Some 2000)\<rparr>],
        vt_input_unit_cost = Some 2, vt_output_unit_cost = Some 6, vt_cache_mode = js ''generic'', vt_costs = []\<rparr>,
      \<lparr>vt_label = js ''long'', vt_conditions = [], vt_input_unit_cost = Some 4, vt_output_unit_cost = None,
        vt_cache_mode = js ''generic'', vt_costs = []\<rparr>]"

lemma demo_tiers_plain: "plainConfig demo_format demo_tiers"
proof -
  have "demo_format 2000 = js ''2000''" by (simp add: demo_format_def)
  moreover have "decimal 0" "decimal 2" "decimal 4" "decimal 6" "decimal 2000"
    using decimal_of_int [of 0] decimal_of_int [of 2] decimal_of_int [of 4] decimal_of_int [of 6] decimal_of_int [of 2000] by simp_all
  ultimately show ?thesis
    by (simp add: plainConfig_def demo_tiers_def plainTier_def plainCondition_def decimalPrices_def basePrices_def extraPrices_def
        number_or_zero_def cache_map js_inject) (simp add: js_def)
qed

theorem tier_expression_reads_back_witness:
  "map rt_label (parseTiersFromExpr (generateExprFromVisualConfig demo_format (Some demo_tiers))) = [js ''short'', js ''long''] \<and>
   tryParseVisualConfig demo_format (Some (generateExprFromVisualConfig demo_format (Some demo_tiers))) \<noteq> None"
  using tier_expression_reads_back [OF demo_format_prints demo_tiers_plain]
  by (auto simp: Let_def demo_tiers_def)

end
