(* ===== verification/Spec2Isabelle.thy ===== *)
theory Spec2Isabelle
  imports Think_Tags Conversation Chat_Properties Flow_Display Status_Codes Channel_Submit Upstream_Updates Nav_Modules Billing_Properties
    Advanced_Custom_Editor Param_Override_Properties Channel_Form_Properties Tier_Properties
begin

text \<open>
  A verification development of the web front end of new-api, a gateway to language model providers:
  the TypeScript code under \<open>src/newapi/go-source/web/default/src\<close> (all file names below are relative
  to it).

  \<^bold>\<open>The program's parts.\<close> The front end is a React application. Its logic is in pure functions
  (\<open>lib/\<close>, \<open>features/*/lib/\<close>) that hooks (\<open>features/*/hooks/\<close>) compose with state, timers and
  requests. Modelled are:

  \<^item> the \<^emph>\<open>playground\<close>, a chat client: messages with versions, reasoning and think tags
    (\<open>features/playground/lib/message\<close>), the payload and the server-sent events
    (\<open>lib/streaming\<close>), the stored history (\<open>lib/storage\<close>), and the hooks that run a conversation (\<open>hooks/use-chat-handler.ts\<close>,
    \<open>use-stream-request.ts\<close>, \<open>use-playground-conversation.ts\<close>, \<open>use-playground-state.ts\<close>);
  \<^item> the \<^emph>\<open>flow chart\<close> of the dashboard (\<open>features/dashboard/lib/flow.ts\<close>), which turns usage rows
    into a Sankey graph with filters, limits, masking and highlighting;
  \<^item> the \<^emph>\<open>channel administration\<close>: status code lists (\<open>lib/http-status-code-rules.ts\<close>) and mappings
    (\<open>features/channels/lib/status-code-risk-guard.ts\<close>), model lists and mappings
    (\<open>model-mapping-validation.ts\<close>), the upstream model check (\<open>upstream-update-utils.ts\<close>,
    \<open>hooks/use-channel-upstream-updates.ts\<close>), the routes of advanced custom channels with their editor
    (\<open>advanced-custom.ts\<close>, \<open>advanced-custom-editor-dialog.tsx\<close>), the editor of parameter overrides
    (\<open>param-override-editor-dialog.tsx\<close>), the form of a channel with its schema and the requests made from it
    (\<open>channel-form.ts\<close>, \<open>hooks/use-channel-mutate-form.ts\<close>), and the submit handler of the channel drawer
    that composes these checks with the permission test;
  \<^item> the \<^emph>\<open>request rules\<close> of billing expressions (\<open>features/pricing/lib/billing-expr.ts\<close>): conditional
    multipliers that the price editor builds from a form, combines with a base expression and reads back; and
    the \<^emph>\<open>price tiers\<close> (\<open>tier-expr.ts\<close> and the first part of \<open>billing-expr.ts\<close>): the visual configuration,
    the expression written from it, and the two readers of such expressions;
  \<^item> \<^emph>\<open>permissions\<close> (\<open>lib/admin-permissions.ts\<close>, \<open>lib/roles.ts\<close>) and the \<^emph>\<open>navigation modules\<close>
    (\<open>lib/nav-modules.ts\<close>) that route guards read.

  \<^bold>\<open>How it is modelled.\<close> A string is the list of its UTF-16 code units; a number is a rational
  (rounding of doubles is idealised away); \<open>undefined\<close> and \<open>null\<close> are \<open>None\<close>; a parsed value is a
  \<open>json\<close> and an object the list of its properties in enumeration order; a \<open>Map\<close> or \<open>Set\<close> is a list in
  insertion order; an exception is the left side of a sum. A hook is a record of its state and refs, one
  definition per callback, and an inductive relation of the events; a call that waits is part of the
  state, so that answers interleave with user actions in any order. The clock, \<open>nanoid()\<close>, translations,
  \<open>localeCompare\<close>, \<open>URL\<close> and the text of a number are arguments, with their laws as hypotheses where a theorem
  needs one; \<open>JSON.stringify\<close> is defined on top of the text of a number, of which only \<open>prints_decimals\<close> is asked: the
  text of a decimal fraction is read back as this number (\<open>dec_str\<close> is an instance).

  \<^bold>\<open>Theories.\<close>

  \<^item> \<open>Prelude\<close>: strings, searching, splitting and joining, optional values, event systems with the locale
    \<open>invariant_system\<close>. \<open>JS_Json\<close>: decimal numerals, property order, a JSON parser (total, with a measure;
    \<open>p_value_length\<close> shows that its guards never stop it), property access, conversion to strings.
    \<open>JS_Stringify\<close>: \<open>JSON.stringify\<close>, compact and indented, and that parsing undoes it, with the locale
    \<open>number_format\<close>. \<open>JS_Regex\<close>: regular expressions by backtracking; a round of a repetition that consumes nothing is
    refused, so that its fuel, the length of the text, is enough.
    \<open>JS_Collections\<close>: maps, stable sorting with the locale \<open>comparator\<close>, and the locale \<open>aggregator\<close>
    of loops that add up amounts in a map.
  \<^item> \<open>Playground_Types\<close>, \<open>Messages\<close>, \<open>Think_Tags\<close>, \<open>Streaming_Messages\<close>: the data model and the functions
    on one message. The scanner for think tags is a fuelled loop; one unit of fuel per character is
    enough (\<open>parseThinkTags_complete\<close> shows what it computes on every input).
    Deltas concatenate and tagged streams are finished correctly, except for the two situations that the
    theorems \<open>repeated_delta_dropped\<close> and \<open>split_closing_tag_leaks\<close> exhibit.
  \<^item> \<open>Playground_Storage\<close>: what is kept of the history when it is saved and loaded; what is loaded is a repaired
    suffix of what was saved.
  \<^item> \<open>Conversation\<close>, \<open>Stream_Protocol\<close>: operations on the list of messages, the request that is sent,
    events and errors of the protocol, the effects that choose model and group.
  \<^item> \<open>Chat_Handler\<close>, \<open>Chat_Machine\<close>, \<open>Chat_Properties\<close>: the running playground as an event system, its
    invariant, over any number of page reloads, and what follows: exactly when the spinner can be stuck (a stream
    that the server ends with status 200 and without \<open>[DONE]\<close>), one open stream, distinct keys, no
    lost save, stop settles everything, a stream of unambiguous chunks is delivered however it is batched.
  \<^item> \<open>Flow_Model\<close>, \<open>Flow_Graph\<close>: the definitions of \<open>flow.ts\<close> in its order. \<open>Flow_Conservation\<close>,
    \<open>Flow_Properties\<close>, \<open>Flow_Display\<close>: each column carries the total of the summary, flow is conserved
    at the inner nodes, shares, the largest nodes are kept, masking hides names, highlighting follows
    paths. The aggregation lemmas come from the locale \<open>aggregator\<close>, the sorting ones from
    \<open>comparator\<close>, which \<open>localeCompare\<close> is assumed to satisfy.
  \<^item> \<open>Status_Codes\<close>: ranges as sets of codes; the parser refines them, its normal form is canonical and a
    fixed point of parsing. \<open>Status_Code_Mapping\<close>: exactly which redirects need a confirmation.
  \<^item> \<open>Model_Mapping\<close>: model lists as text round-trip, the missing models are exact, the validator, and
    the reading of a stored upstream check with its exceptions. \<open>Permissions\<close>: the permission test and
    the normal form of a matrix.
  \<^item> \<open>Channel_Submit\<close>: the submit handler; what is sent passed every guard, and what passes them is sent.
  \<^item> \<open>Upstream_Updates\<close>: the dialog and its four tasks; they exclude themselves, they end, and what is
    applied partitions what was offered.
  \<^item> \<open>Nav_Modules\<close>: the table of modules has its type whatever the server sends, an access depends on its
    own entry only, and fresh and cached access agree.
  \<^item> \<open>Billing_Rules\<close>: the definitions of the request rules, each regular expression as a parser on code
    units. \<open>Billing_Conditions\<close>, \<open>Billing_Properties\<close>: every built condition is read back, so are groups
    and whole rule expressions, and splitting undoes combining; conditions that the code guards with
    \<open>param(...) != nil &&\<close> are not read back (\<open>param_comparison_not_read_back\<close>), and an unknown escape
    makes the parser throw (\<open>bad_escape_throws\<close>).

  \<^item> \<open>Advanced_Custom\<close>, \<open>Advanced_Custom_Editor\<close>: the routes of advanced custom channels (tables, templates,
    normalization, parsing, validation against a declarative specification) and the editor as an event system in
    which every saved text passes the validation.
  \<^item> \<open>Param_Override\<close>, \<open>Param_Override_Editor\<close>: the rules of a parameter override, their reading, validation and
    writing, and the dialog as an event system. \<open>Param_Override_Invariant\<close>, \<open>Param_Override_Rules\<close>,
    \<open>Param_Override_Properties\<close>: its invariant, what is saved and when, that a saved text opens with the same rules, and
    which values and edits are not kept.
  \<^item> \<open>Channel_Form\<close>, \<open>Channel_Form_Properties\<close>: the schema, the form made from a stored channel, the requests made from
    the form; saving a channel again changes nothing, unprivileged editors send no sensitive field, the settings
    that are sent are exact.
  \<^item> \<open>Tier_Expr\<close>, \<open>Tier_Properties\<close>: price tiers; the generated expression is opened by the editor and read by the
    price display with the same labels, conditions and prices.

  \<^bold>\<open>Not modelled.\<close> Rendering (components, styles, chart specifications apart from the order of links), routes
  and translations; calls of the server beyond the requests named above; local storage itself, the JSON text of the
  stored history and its zod schema (the identity on well-typed messages), and the stores of configuration and
  flags; what the client does when it leaves the page during a request; \<open>evalExprLocally\<close> of \<open>tier-expr.ts\<close>, which
  runs the expression as a program; the display of prices (\<open>price.ts\<close>, \<open>filters.ts\<close>); formatting by \<open>Intl\<close> and
  \<open>dayjs\<close>; ill-typed data in server-sent events, on which the model keeps the state; the classic front end, the Go
  server, the electron shell and the Android app.
\<close>

end
